(* ===== verification/Dr_Base.thy ===== *)
theory Dr_Base
  imports Main "HOL-Library.Word" "HOL-Library.Sublist"
begin

text \<open>
  What the components share: the machine-integer types, the pieces of Rust's standard library the
  source uses on strings (\<open>str::split\<close>, \<open>str::lines\<close>, \<open>str::trim\<close>, \<open>str::split_whitespace\<close>,
  \<open>str::parse\<close> for unsigned integers, \<open>{}\<close>-formatting of unsigned integers), and the lemmas
  about them. A Rust \<open>str\<close> is the list of its bytes. \<open>trim\<close> and \<open>split_whitespace\<close> know the
  ASCII white space only; every separator the source splits on is ASCII, so splitting the bytes
  is splitting the characters.
\<close>

section \<open>Types and collections\<close>

type_synonym u8 = "8 word"
type_synonym u32 = "32 word"
type_synonym u64 = "64 word"

text \<open>A \<open>Duration\<close> and an \<open>Instant\<close> (relative to some origin) are nanosecond counts.\<close>

type_synonym duration = nat
type_synonym instant = nat

named_theorems inv_rules \<open>preservation rules of the component invariants\<close>
named_theorems str_simps \<open>facts about the string functions\<close>

definition u32_bound :: nat where "u32_bound = 4294967296"
definition u64_bound :: nat where "u64_bound = 18446744073709551616"

lemma u32_bound_pos [simp]: "0 < u32_bound" by (simp add: u32_bound_def)
lemma u64_bound_pos [simp]: "0 < u64_bound" by (simp add: u64_bound_def)

abbreviation secs :: "nat \<Rightarrow> duration" where "secs n \<equiv> n * 1000000000"
abbreviation millis :: "nat \<Rightarrow> duration" where "millis n \<equiv> n * 1000000"

lemma unat_less_exp: "unat (w :: 'a::len word) < 2 ^ LENGTH('a)"
  by (rule unsigned_less)

lemma unat_u64_bound [simp]: "unat (w :: u64) < u64_bound"
  using unat_less_exp [of w] by (simp add: u64_bound_def)

text \<open>\<open>cfg(target_os)\<close>: the platforms the code tells apart.\<close>

datatype target_os = MacOs | LinuxOs | OtherOs

section \<open>Splitting and joining\<close>

fun split_on :: "char \<Rightarrow> string \<Rightarrow> string list" where
  "split_on c [] = [[]]"
| "split_on c (x # xs) =
     (if x = c then [] # split_on c xs
      else (case split_on c xs of [] \<Rightarrow> [[x]] | p # ps \<Rightarrow> (x # p) # ps))"

fun join_with :: "char \<Rightarrow> string list \<Rightarrow> string" where
  "join_with c [] = []"
| "join_with c [p] = p"
| "join_with c (p # q # ps) = p @ c # join_with c (q # ps)"

lemma split_on_neq_Nil [simp]: "split_on c s \<noteq> []"
  by (cases s) (auto split: list.splits)

lemma length_split_on_pos [simp]: "0 < length (split_on c s)"
  by (simp add: length_greater_0_conv)

lemma split_on_no_sep [str_simps]: "c \<notin> set s \<Longrightarrow> split_on c s = [s]"
  by (induction s) auto

lemma split_on_append_sep [str_simps]:
  "split_on c (s @ c # t) = split_on c s @ split_on c t"
proof (induction s)
  case Nil
  then show ?case by simp
next
  case (Cons x s)
  then show ?case by (cases "split_on c s") auto
qed

lemma split_on_parts_no_sep: "p \<in> set (split_on c s) \<Longrightarrow> c \<notin> set p"
proof (induction s arbitrary: p)
  case (Cons x s)
  then show ?case by (auto split: if_splits list.splits)
qed simp

lemma join_split_on [str_simps]: "join_with c (split_on c s) = s"
proof (induction s)
  case (Cons x s)
  obtain p ps where ps: "split_on c s = p # ps"
    by (cases "split_on c s") auto
  have "join_with c ((x # p) # ps) = x # join_with c (p # ps)"
    by (cases ps) auto
  then show ?case using Cons.IH ps by auto
qed simp

lemma split_on_append:
  "split_on c (u @ v) = butlast (split_on c u) @ (last (split_on c u) @ hd (split_on c v)) # tl (split_on c v)"
proof (induction u)
  case (Cons x u)
  obtain a as where t: "split_on c u = a # as" by (cases "split_on c u") auto
  show ?case using Cons.IH t by (cases as) auto
qed simp

text \<open>\<open>starts_with\<close> and \<open>strip_prefix\<close>.\<close>

definition starts_with :: "string \<Rightarrow> string \<Rightarrow> bool" where
  "starts_with s p = (take (length p) s = p)"

lemma starts_with_prefix: "starts_with s p \<longleftrightarrow> prefix p s"
  by (metis append_eq_conv_conj append_take_drop_id prefix_def starts_with_def)

lemma starts_with_append [simp]: "starts_with (p @ s) p"
  by (simp add: starts_with_def)

section \<open>White space and lines\<close>

definition is_ws :: "char \<Rightarrow> bool" where
  "is_ws c = (let n = of_char c :: nat in n = 32 \<or> (9 \<le> n \<and> n \<le> 13))"

definition trim_start :: "string \<Rightarrow> string" where
  "trim_start s = dropWhile is_ws s"

definition trim :: "string \<Rightarrow> string" where
  "trim s = rev (dropWhile is_ws (rev (dropWhile is_ws s)))"

fun split_ws_acc :: "string \<Rightarrow> string \<Rightarrow> string list" where
  "split_ws_acc acc [] = (if acc = [] then [] else [rev acc])"
| "split_ws_acc acc (x # xs) =
     (if is_ws x then (if acc = [] then split_ws_acc [] xs else rev acc # split_ws_acc [] xs)
      else split_ws_acc (x # acc) xs)"

definition split_whitespace :: "string \<Rightarrow> string list" where
  "split_whitespace s = split_ws_acc [] s"

lemma trim_no_ws: "\<forall>c \<in> set s. \<not> is_ws c \<Longrightarrow> trim s = s"
  by (simp add: trim_def dropWhile_eq_self_iff rev_swap hd_in_set)
     (metis dropWhile_eq_self_iff hd_in_set last_in_set hd_rev rev_is_Nil_conv rev_rev_ident set_rev)

lemma trim_line [str_simps]: "trim (s @ [CHR 0x0A]) = trim s"
proof -
  have nl: "is_ws CHR 0x0A" by (simp add: is_ws_def)
  have "dropWhile is_ws (s @ [CHR 0x0A])
      = (if list_all is_ws s then [] else dropWhile is_ws s @ [CHR 0x0A])"
    by (induction s) (auto simp: nl)
  moreover have "list_all is_ws s \<Longrightarrow> dropWhile is_ws s = []"
    by (simp add: dropWhile_eq_Nil_conv list_all_iff)
  ultimately show ?thesis
    by (cases "list_all is_ws s") (simp_all add: trim_def nl del: dropWhile_eq_Nil_conv)
qed

text \<open>\<open>str::lines\<close>: split at line feeds, drop a final empty piece, strip one carriage return.\<close>

definition strip_cr :: "string \<Rightarrow> string" where
  "strip_cr s = (if s \<noteq> [] \<and> last s = CHR 0x0D then butlast s else s)"

definition lines_of :: "string \<Rightarrow> string list" where
  "lines_of s =
     (let ps = split_on CHR 0x0A s
      in map strip_cr (butlast ps) @ (if last ps = [] then [] else [last ps]))"

text \<open>The terminated lines of a text written line by line.\<close>

lemma lines_of_line [str_simps]:
  assumes "CHR 0x0A \<notin> set l" and "l = [] \<or> last l \<noteq> CHR 0x0D"
  shows "lines_of (l @ CHR 0x0A # t) = l # lines_of t"
proof -
  have "strip_cr l = l" using assms(2) by (auto simp: strip_cr_def)
  then show ?thesis
    using assms(1)
    by (simp add: lines_of_def split_on_append_sep split_on_no_sep butlast_append Let_def)
qed

lemma lines_of_Nil [simp]: "lines_of [] = []"
  by (simp add: lines_of_def)

text \<open>\<open>u8::is_ascii_alphanumeric\<close>.\<close>

definition is_ascii_alnum :: "char \<Rightarrow> bool" where
  "is_ascii_alnum c = (let n = of_char c :: nat in
     (48 \<le> n \<and> n \<le> 57) \<or> (65 \<le> n \<and> n \<le> 90) \<or> (97 \<le> n \<and> n \<le> 122))"

section \<open>Decimal numbers\<close>

definition digit_char :: "nat \<Rightarrow> char" where
  "digit_char d = char_of (48 + d)"

definition digit_val :: "char \<Rightarrow> nat option" where
  "digit_val c = (let n = of_char c :: nat in if 48 \<le> n \<and> n \<le> 57 then Some (n - 48) else None)"

fun show_nat :: "nat \<Rightarrow> string" where
  "show_nat n = (if n < 10 then [digit_char n] else show_nat (n div 10) @ [digit_char (n mod 10)])"

declare show_nat.simps [simp del]

fun digits_val :: "nat \<Rightarrow> string \<Rightarrow> nat option" where
  "digits_val acc [] = Some acc"
| "digits_val acc (c # cs) =
     (case digit_val c of None \<Rightarrow> None | Some d \<Rightarrow> digits_val (acc * 10 + d) cs)"

text \<open>
  \<open>str::parse\<close> into an unsigned integer with \<open>bound\<close> values: an optional plus sign, then at least
  one decimal digit and nothing else, and no overflow.
\<close>

definition parse_uint :: "nat \<Rightarrow> string \<Rightarrow> nat option" where
  "parse_uint bound s =
     (let ds = (if s \<noteq> [] \<and> hd s = CHR ''+'' then tl s else s)
      in if ds = [] then None
         else (case digits_val 0 ds of None \<Rightarrow> None
               | Some n \<Rightarrow> if n < bound then Some n else None))"

lemma digit_val_char [simp]: "d < 10 \<Longrightarrow> digit_val (digit_char d) = Some d"
  by (simp add: digit_val_def digit_char_def of_char_of)

lemma of_digit_char: "d < 10 \<Longrightarrow> (of_char (digit_char d) :: nat) = 48 + d"
  by (simp add: digit_char_def of_char_of)

lemma digits_val_append:
  "digits_val acc (s @ t) = (case digits_val acc s of None \<Rightarrow> None | Some a \<Rightarrow> digits_val a t)"
  by (induction s arbitrary: acc) (auto split: option.splits)

lemma digits_val_show_nat: "digits_val 0 (show_nat n) = Some n"
proof (induction n rule: show_nat.induct)
  case (1 n)
  then show ?case
    by (cases "n < 10") (simp_all add: show_nat.simps [of n] digits_val_append)
qed

lemma show_nat_neq_Nil [simp]: "show_nat n \<noteq> []"
  by (simp add: show_nat.simps [of n])

lemma show_nat_digits: "c \<in> set (show_nat n) \<Longrightarrow> \<exists>d<10. c = digit_char d"
proof (induction n rule: show_nat.induct)
  case (1 n)
  have "\<exists>d<10. digit_char (n mod 10) = digit_char d"
    by (rule exI [of _ "n mod 10"]) simp
  with 1 show ?case
    by (cases "n < 10") (auto simp: show_nat.simps [of n])
qed

lemma show_nat_range: "c \<in> set (show_nat n) \<Longrightarrow> 48 \<le> (of_char c :: nat) \<and> (of_char c :: nat) \<le> 57"
  by (auto dest!: show_nat_digits simp: of_digit_char)

lemma show_nat_not_in [str_simps]:
  "(of_char c :: nat) < 48 \<or> 57 < (of_char c :: nat) \<Longrightarrow> c \<notin> set (show_nat n)"
  using show_nat_range by fastforce

lemma parse_show_nat [str_simps]:
  assumes "n < bound"
  shows "parse_uint bound (show_nat n) = Some n"
proof -
  have "hd (show_nat n) \<in> set (show_nat n)" by simp
  then have "hd (show_nat n) \<noteq> CHR ''+''"
    using show_nat_not_in [of "CHR ''+''" n] by force
  then show ?thesis using assms by (simp add: parse_uint_def digits_val_show_nat)
qed

lemma parse_uint_bound: "parse_uint bound s = Some n \<Longrightarrow> n < bound"
  by (auto simp: parse_uint_def Let_def split: if_splits option.splits)

section \<open>Lists\<close>

lemma filter_remove_idem: "filter P (filter P xs) = filter P xs"
  by simp

fun find_index :: "('a \<Rightarrow> bool) \<Rightarrow> 'a list \<Rightarrow> nat option" where
  "find_index P [] = None"
| "find_index P (x # xs) = (if P x then Some 0 else map_option Suc (find_index P xs))"

lemma find_index_Some:
  "find_index P xs = Some i \<Longrightarrow> i < length xs \<and> P (xs ! i) \<and> (\<forall>j<i. \<not> P (xs ! j))"
proof (induction xs arbitrary: i)
  case (Cons x xs)
  then show ?case by (auto split: if_splits simp: nth_Cons split: nat.splits)
qed simp

lemma find_index_None: "find_index P xs = None \<longleftrightarrow> (\<forall>x\<in>set xs. \<not> P x)"
  by (induction xs) auto

text \<open>\<open>Vec::remove\<close> at an index in range.\<close>

definition remove_at :: "nat \<Rightarrow> 'a list \<Rightarrow> 'a list" where
  "remove_at i xs = take i xs @ drop (Suc i) xs"

lemma set_remove_at: "i < length xs \<Longrightarrow> set xs = insert (xs ! i) (set (remove_at i xs))"
  by (metis id_take_nth_drop list.simps(15) remove_at_def set_append Un_insert_right)

lemma set_remove_at_subset: "set (remove_at i xs) \<subseteq> set xs"
  by (auto simp: remove_at_def dest: in_set_takeD in_set_dropD)

lemma length_remove_at: "i < length xs \<Longrightarrow> length (remove_at i xs) = length xs - 1"
  by (simp add: remove_at_def)

section \<open>Machines that run until they exit\<close>

text \<open>
  An event loop takes one input per turn and either goes on or returns a value. \<open>run_until\<close> runs
  it over the inputs of its turns; what is left of them when it returns is not looked at.
\<close>

fun run_until :: "('i \<Rightarrow> 's \<Rightarrow> 's \<times> 'x option) \<Rightarrow> 'i list \<Rightarrow> 's \<Rightarrow> 's \<times> 'x option" where
  "run_until step [] s = (s, None)"
| "run_until step (i # is) s =
     (case step i s of (s', Some x) \<Rightarrow> (s', Some x) | (s', None) \<Rightarrow> run_until step is s')"

text \<open>
  An invariant of a machine: kept by every turn that goes on, turned into an exit condition by
  every turn that returns. \<open>ok\<close> restricts the inputs, and may depend on the state they meet.
\<close>

locale machine_invariant =
  fixes step :: "'i \<Rightarrow> 's \<Rightarrow> 's \<times> 'x option"
    and ok :: "'i \<Rightarrow> 's \<Rightarrow> bool"
    and inv :: "'s \<Rightarrow> bool"
    and exit_ok :: "'s \<Rightarrow> 'x \<Rightarrow> bool"
  assumes inv_step: "inv s \<Longrightarrow> ok i s \<Longrightarrow> step i s = (s', None) \<Longrightarrow> inv s'"
    and inv_exit: "inv s \<Longrightarrow> ok i s \<Longrightarrow> step i s = (s', Some x) \<Longrightarrow> exit_ok s' x"
begin

fun all_ok :: "'i list \<Rightarrow> 's \<Rightarrow> bool" where
  "all_ok [] s = True"
| "all_ok (i # is) s = (ok i s \<and> (case step i s of (s', Some x) \<Rightarrow> True | (s', None) \<Rightarrow> all_ok is s'))"

lemma all_ok_trivial: "(\<And>i s. ok i s) \<Longrightarrow> all_ok is s"
  by (induction "is" arbitrary: s) (auto split: prod.splits option.splits)

theorem run_invariant:
  assumes "inv s" and "all_ok is s"
  shows "case run_until step is s of (s', None) \<Rightarrow> inv s' | (s', Some x) \<Rightarrow> exit_ok s' x"
  using assms
proof (induction "is" arbitrary: s)
  case (Cons i "is")
  obtain s' r where st: "step i s = (s', r)" by (cases "step i s")
  show ?case
  proof (cases r)
    case None
    with Cons st show ?thesis using inv_step [of s i s'] by simp
  next
    case (Some x)
    with Cons st show ?thesis using inv_exit [of s i s' x] by simp
  qed
qed simp

corollary run_exit:
  "inv s \<Longrightarrow> all_ok is s \<Longrightarrow> run_until step is s = (s', Some x) \<Longrightarrow> exit_ok s' x"
  using run_invariant [of s "is"] by simp

corollary run_going:
  "inv s \<Longrightarrow> all_ok is s \<Longrightarrow> run_until step is s = (s', None) \<Longrightarrow> inv s'"
  using run_invariant [of s "is"] by simp

end

end
