(* ===== verification/Protocol.thy ===== *)
theory Protocol
  imports Complex_Main Dr_Base
begin

text \<open>
  The dispatch wire protocol, version 2 (\<open>crates/supervisor-core/src/protocol.rs\<close>): the message
  types, their serialization to a JSON value and their deserialization, with the field renames,
  defaults, skipped \<open>None\<close> fields and the hand-written checks (\<open>pinned_protocol_version\<close>,
  \<open>unit_interval\<close>, \<open>PurgeAfter\<close>, \<open>JobAssignMessage::try_from\<close>). The JSON text layer
  (\<open>serde_json\<close>) is not modelled: a frame is a JSON value whose objects are association lists, so
  that a repeated key is visible, and a struct or a message is read from an object only. A
  finite \<open>f64\<close> is the rational it denotes. Which of several errors \<open>serde\<close> reports first is not
  fixed here; that it reports one is.
\<close>

section \<open>JSON values\<close>

type_synonym f64 = rat

datatype json =
    JNull | JBool bool | JInt int | JFloat f64 | JStr string
  | JArr "json list" | JObj "(string \<times> json) list"

datatype de_error =
    MissingField string | DuplicateField string | WrongType | UnknownVariant string
  | UnsupportedVersion u32 | ProgressRange f64 | PurgeAfterFalse
  | StillFrame u64 u64 | CodecRequired

type_synonym 'a de = "de_error + 'a"

fun rbind :: "('e + 'a) \<Rightarrow> ('a \<Rightarrow> 'e + 'b) \<Rightarrow> 'e + 'b" where
  "rbind (Inl e) f = Inl e"
| "rbind (Inr x) f = f x"

lemma rbind_Inr_iff: "rbind m f = Inr y \<longleftrightarrow> (\<exists>x. m = Inr x \<and> f x = Inr y)"
  by (cases m) auto

fun str_of :: "json \<Rightarrow> string de" where
  "str_of (JStr s) = Inr s" | "str_of _ = Inl WrongType"

fun bool_of :: "json \<Rightarrow> bool de" where
  "bool_of (JBool b) = Inr b" | "bool_of _ = Inl WrongType"

fun f64_of :: "json \<Rightarrow> f64 de" where
  "f64_of (JInt i) = Inr (of_int i)" | "f64_of (JFloat r) = Inr r" | "f64_of _ = Inl WrongType"

fun u32_of :: "json \<Rightarrow> u32 de" where
  "u32_of (JInt i) = (if 0 \<le> i \<and> i < 4294967296 then Inr (word_of_int i) else Inl WrongType)"
| "u32_of _ = Inl WrongType"

fun u64_of :: "json \<Rightarrow> u64 de" where
  "u64_of (JInt i) =
     (if 0 \<le> i \<and> i < 18446744073709551616 then Inr (word_of_int i) else Inl WrongType)"
| "u64_of _ = Inl WrongType"

fun strs_of_list :: "json list \<Rightarrow> string list de" where
  "strs_of_list [] = Inr []"
| "strs_of_list (j # js) = rbind (str_of j) (\<lambda>s. rbind (strs_of_list js) (\<lambda>ss. Inr (s # ss)))"

fun strs_of :: "json \<Rightarrow> string list de" where
  "strs_of (JArr js) = strs_of_list js" | "strs_of _ = Inl WrongType"

definition json_u32 :: "u32 \<Rightarrow> json" where "json_u32 w = JInt (uint w)"
definition json_u64 :: "u64 \<Rightarrow> json" where "json_u64 w = JInt (uint w)"

lemma u32_of_json [simp]: "u32_of (json_u32 w) = Inr w"
  using uint_lt2p [of w] by (simp add: json_u32_def)

lemma u64_of_json [simp]: "u64_of (json_u64 w) = Inr w"
  using uint_lt2p [of w] by (simp add: json_u64_def)

lemma strs_of_json [simp]: "strs_of_list (map JStr ss) = Inr ss"
  by (induction ss) auto

lemma json_not_null [simp]: "json_u32 w \<noteq> JNull" "json_u64 v \<noteq> JNull"
  by (simp_all add: json_u32_def json_u64_def)

section \<open>Fields of an object\<close>

definition field :: "string \<Rightarrow> (string \<times> json) list \<Rightarrow> json list" where
  "field k kvs = map snd (filter (\<lambda>kv. fst kv = k) kvs)"

definition req :: "string \<Rightarrow> (json \<Rightarrow> 'a de) \<Rightarrow> (string \<times> json) list \<Rightarrow> 'a de" where
  "req k f kvs = (case field k kvs of
       [] \<Rightarrow> Inl (MissingField k) | [v] \<Rightarrow> f v | _ \<Rightarrow> Inl (DuplicateField k))"

text \<open>An \<open>Option\<close> field: absent or \<open>null\<close> is \<open>None\<close>.\<close>

definition opt :: "string \<Rightarrow> (json \<Rightarrow> 'a de) \<Rightarrow> (string \<times> json) list \<Rightarrow> 'a option de" where
  "opt k f kvs = (case field k kvs of
       [] \<Rightarrow> Inr None
     | [v] \<Rightarrow> (if v = JNull then Inr None else rbind (f v) (\<lambda>x. Inr (Some x)))
     | _ \<Rightarrow> Inl (DuplicateField k))"

text \<open>\<open>skip_serializing_if = "Option::is_none"\<close>.\<close>

definition skip_none :: "string \<Rightarrow> ('a \<Rightarrow> json) \<Rightarrow> 'a option \<Rightarrow> (string \<times> json) list" where
  "skip_none k f x = (case x of None \<Rightarrow> [] | Some v \<Rightarrow> [(k, f v)])"

definition null_none :: "('a \<Rightarrow> json) \<Rightarrow> 'a option \<Rightarrow> json" where
  "null_none f x = (case x of None \<Rightarrow> JNull | Some v \<Rightarrow> f v)"

fun obj_of :: "json \<Rightarrow> (string \<times> json) list de" where
  "obj_of (JObj kvs) = Inr kvs" | "obj_of _ = Inl WrongType"

lemma field_simps_wire [simp]:
  "field k [] = []"
  "field k ((k', v) # kvs) = (if k' = k then v # field k kvs else field k kvs)"
  "field k (xs @ ys) = field k xs @ field k ys"
  "field k (skip_none k' g x) = (if k' = k then (case x of None \<Rightarrow> [] | Some v \<Rightarrow> [g v]) else [])"
  by (auto simp: field_def skip_none_def split: option.splits)

lemma opt_skip:
  assumes "field k kvs = (case x of None \<Rightarrow> [] | Some v \<Rightarrow> [g v])"
    and "\<And>v. f (g v) = Inr v" and "\<And>v. g v \<noteq> JNull"
  shows "opt k f kvs = Inr x"
  using assms by (cases x) (auto simp: opt_def)

lemma req_field: "field k kvs = [v] \<Longrightarrow> req k f kvs = f v"
  by (simp add: req_def)

lemma opt_field: "field k kvs = [null_none g x] \<Longrightarrow> (\<And>v. f (g v) = Inr v) \<Longrightarrow> (\<And>v. g v \<noteq> JNull) \<Longrightarrow>
    opt k f kvs = Inr x"
  by (cases x) (auto simp: opt_def null_none_def)

section \<open>Messages\<close>

definition PROTOCOL_VERSION :: u32 where "PROTOCOL_VERSION = 2"

definition pinned_protocol_version :: "json \<Rightarrow> u32 de" where
  "pinned_protocol_version j =
     rbind (u32_of j) (\<lambda>v. if v = PROTOCOL_VERSION then Inr v else Inl (UnsupportedVersion v))"

definition unit_interval :: "json \<Rightarrow> f64 de" where
  "unit_interval j =
     rbind (f64_of j) (\<lambda>v. if 0 \<le> v \<and> v \<le> 1 then Inr v else Inl (ProgressRange v))"

datatype platform = Company | Community

fun platform_json :: "platform \<Rightarrow> json" where
  "platform_json Company = JStr ''company''"
| "platform_json Community = JStr ''community''"

definition platform_of :: "json \<Rightarrow> platform de" where
  "platform_of j = rbind (str_of j) (\<lambda>s.
     if s = ''company'' then Inr Company
     else if s = ''community'' then Inr Community else Inl (UnknownVariant s))"

record capabilities =
  cap_gpu :: bool
  cap_max_concurrent_jobs :: "u32 option"
  cap_os :: "string option"
  cap_arch :: "string option"

definition capabilities_json :: "capabilities \<Rightarrow> json" where
  "capabilities_json c = JObj ([(''gpu'', JBool (cap_gpu c))]
     @ skip_none ''maxConcurrentJobs'' json_u32 (cap_max_concurrent_jobs c)
     @ skip_none ''os'' JStr (cap_os c)
     @ skip_none ''arch'' JStr (cap_arch c))"

definition capabilities_of :: "json \<Rightarrow> capabilities de" where
  "capabilities_of j = rbind (obj_of j) (\<lambda>kvs.
     rbind (req ''gpu'' bool_of kvs) (\<lambda>gpu.
     rbind (opt ''maxConcurrentJobs'' u32_of kvs) (\<lambda>n.
     rbind (opt ''os'' str_of kvs) (\<lambda>os.
     rbind (opt ''arch'' str_of kvs) (\<lambda>arch.
       Inr \<lparr>cap_gpu = gpu, cap_max_concurrent_jobs = n, cap_os = os, cap_arch = arch\<rparr>)))))"

record register_message =
  reg_tenant :: string
  reg_protocol_version :: u32
  reg_operator :: "string option"
  reg_platform :: platform
  reg_chip :: string
  reg_ram_gb :: u32
  reg_supervisor_version :: string
  reg_payload_version :: string
  reg_capabilities :: capabilities

record heartbeat_message =
  hb_tenant :: string
  hb_current_job_count :: u32

record job_accepted_message =
  acc_tenant :: string
  acc_job_id :: string
  acc_attempt :: "u32 option"

record job_progress_message =
  prg_tenant :: string
  prg_job_id :: string
  prg_attempt :: "u32 option"
  prg_progress :: f64
  prg_elapsed_ms :: "u64 option"
  prg_frames_so_far :: "u64 option"

record job_metrics =
  met_wall_ms :: u64
  met_frames :: u64
  met_output_size_in_bytes :: "u64 option"

record job_complete_message =
  cmp_tenant :: string
  cmp_job_id :: string
  cmp_attempt :: "u32 option"
  cmp_output_key :: string
  cmp_metrics :: job_metrics

record job_failed_message =
  fld_tenant :: string
  fld_job_id :: string
  fld_attempt :: "u32 option"
  fld_reason :: string

datatype reject_reason = NotAccepting | Busy

record job_canceled_ack_message =
  ack_tenant :: string
  ack_job_id :: string
  ack_attempt :: u32
  ack_teardown_ms :: "u64 option"

record job_rejected_message =
  rej_tenant :: string
  rej_job_id :: string
  rej_attempt :: "u32 option"
  rej_reason :: reject_reason

datatype worker_message =
    Register register_message
  | Heartbeat heartbeat_message
  | JobAccepted job_accepted_message
  | JobProgress job_progress_message
  | JobComplete job_complete_message
  | JobFailed job_failed_message
  | JobRejected job_rejected_message
  | JobCanceledAck job_canceled_ack_message

fun reject_reason_json :: "reject_reason \<Rightarrow> json" where
  "reject_reason_json NotAccepting = JStr ''not-accepting''"
| "reject_reason_json Busy = JStr ''busy''"

definition reject_reason_of :: "json \<Rightarrow> reject_reason de" where
  "reject_reason_of j = rbind (str_of j) (\<lambda>s.
     if s = ''not-accepting'' then Inr NotAccepting
     else if s = ''busy'' then Inr Busy else Inl (UnknownVariant s))"

definition metrics_json :: "job_metrics \<Rightarrow> json" where
  "metrics_json m = JObj ([(''wallMs'', json_u64 (met_wall_ms m)), (''frames'', json_u64 (met_frames m))]
     @ skip_none ''outputSizeInBytes'' json_u64 (met_output_size_in_bytes m))"

definition metrics_of :: "json \<Rightarrow> job_metrics de" where
  "metrics_of j = rbind (obj_of j) (\<lambda>kvs.
     rbind (req ''wallMs'' u64_of kvs) (\<lambda>w.
     rbind (req ''frames'' u64_of kvs) (\<lambda>fr.
     rbind (opt ''outputSizeInBytes'' u64_of kvs) (\<lambda>sz.
       Inr \<lparr>met_wall_ms = w, met_frames = fr, met_output_size_in_bytes = sz\<rparr>))))"

fun worker_to_json :: "worker_message \<Rightarrow> json" where
  "worker_to_json (Register m) = JObj
     [(''type'', JStr ''register''), (''tenant'', JStr (reg_tenant m)),
      (''protocolVersion'', json_u32 (reg_protocol_version m)),
      (''operator'', null_none JStr (reg_operator m)),
      (''platform'', platform_json (reg_platform m)), (''chip'', JStr (reg_chip m)),
      (''ramGb'', json_u32 (reg_ram_gb m)),
      (''supervisorVersion'', JStr (reg_supervisor_version m)),
      (''payloadVersion'', JStr (reg_payload_version m)),
      (''capabilities'', capabilities_json (reg_capabilities m))]"
| "worker_to_json (Heartbeat m) = JObj
     [(''type'', JStr ''heartbeat''), (''tenant'', JStr (hb_tenant m)),
      (''currentJobCount'', json_u32 (hb_current_job_count m))]"
| "worker_to_json (JobAccepted m) = JObj
     ([(''type'', JStr ''jobAccepted''), (''tenant'', JStr (acc_tenant m)),
       (''jobId'', JStr (acc_job_id m))]
      @ skip_none ''attempt'' json_u32 (acc_attempt m))"
| "worker_to_json (JobProgress m) = JObj
     ([(''type'', JStr ''jobProgress''), (''tenant'', JStr (prg_tenant m)),
       (''jobId'', JStr (prg_job_id m))]
      @ skip_none ''attempt'' json_u32 (prg_attempt m)
      @ [(''progress'', JFloat (prg_progress m))]
      @ skip_none ''elapsedMs'' json_u64 (prg_elapsed_ms m)
      @ skip_none ''framesSoFar'' json_u64 (prg_frames_so_far m))"
| "worker_to_json (JobComplete m) = JObj
     ([(''type'', JStr ''jobComplete''), (''tenant'', JStr (cmp_tenant m)),
       (''jobId'', JStr (cmp_job_id m))]
      @ skip_none ''attempt'' json_u32 (cmp_attempt m)
      @ [(''outputKey'', JStr (cmp_output_key m)), (''metrics'', metrics_json (cmp_metrics m))])"
| "worker_to_json (JobFailed m) = JObj
     ([(''type'', JStr ''jobFailed''), (''tenant'', JStr (fld_tenant m)),
       (''jobId'', JStr (fld_job_id m))]
      @ skip_none ''attempt'' json_u32 (fld_attempt m)
      @ [(''reason'', JStr (fld_reason m))])"
| "worker_to_json (JobRejected m) = JObj
     ([(''type'', JStr ''jobRejected''), (''tenant'', JStr (rej_tenant m)),
       (''jobId'', JStr (rej_job_id m))]
      @ skip_none ''attempt'' json_u32 (rej_attempt m)
      @ [(''reason'', reject_reason_json (rej_reason m))])"
| "worker_to_json (JobCanceledAck m) = JObj
     ([(''type'', JStr ''jobCanceledAck''), (''tenant'', JStr (ack_tenant m)),
       (''jobId'', JStr (ack_job_id m)), (''attempt'', json_u32 (ack_attempt m))]
      @ skip_none ''teardownMs'' json_u64 (ack_teardown_ms m))"

definition register_of :: "(string \<times> json) list \<Rightarrow> register_message de" where
  "register_of kvs =
     rbind (req ''tenant'' str_of kvs) (\<lambda>tenant.
     rbind (req ''protocolVersion'' pinned_protocol_version kvs) (\<lambda>ver.
     rbind (opt ''operator'' str_of kvs) (\<lambda>op.
     rbind (req ''platform'' platform_of kvs) (\<lambda>pf.
     rbind (req ''chip'' str_of kvs) (\<lambda>chip.
     rbind (req ''ramGb'' u32_of kvs) (\<lambda>ram.
     rbind (req ''supervisorVersion'' str_of kvs) (\<lambda>sv.
     rbind (req ''payloadVersion'' str_of kvs) (\<lambda>pv.
     rbind (req ''capabilities'' capabilities_of kvs) (\<lambda>caps.
       Inr \<lparr>reg_tenant = tenant, reg_protocol_version = ver, reg_operator = op,
            reg_platform = pf, reg_chip = chip, reg_ram_gb = ram,
            reg_supervisor_version = sv, reg_payload_version = pv,
            reg_capabilities = caps\<rparr>)))))))))"

definition heartbeat_of :: "(string \<times> json) list \<Rightarrow> heartbeat_message de" where
  "heartbeat_of kvs =
     rbind (req ''tenant'' str_of kvs) (\<lambda>tenant.
     rbind (req ''currentJobCount'' u32_of kvs) (\<lambda>n.
       Inr \<lparr>hb_tenant = tenant, hb_current_job_count = n\<rparr>))"

definition job_accepted_of :: "(string \<times> json) list \<Rightarrow> job_accepted_message de" where
  "job_accepted_of kvs =
     rbind (req ''tenant'' str_of kvs) (\<lambda>tenant.
     rbind (req ''jobId'' str_of kvs) (\<lambda>jid.
     rbind (opt ''attempt'' u32_of kvs) (\<lambda>att.
       Inr \<lparr>acc_tenant = tenant, acc_job_id = jid, acc_attempt = att\<rparr>)))"

definition job_progress_of :: "(string \<times> json) list \<Rightarrow> job_progress_message de" where
  "job_progress_of kvs =
     rbind (req ''tenant'' str_of kvs) (\<lambda>tenant.
     rbind (req ''jobId'' str_of kvs) (\<lambda>jid.
     rbind (opt ''attempt'' u32_of kvs) (\<lambda>att.
     rbind (req ''progress'' unit_interval kvs) (\<lambda>p.
     rbind (opt ''elapsedMs'' u64_of kvs) (\<lambda>ms.
     rbind (opt ''framesSoFar'' u64_of kvs) (\<lambda>fr.
       Inr \<lparr>prg_tenant = tenant, prg_job_id = jid, prg_attempt = att, prg_progress = p,
            prg_elapsed_ms = ms, prg_frames_so_far = fr\<rparr>))))))"

definition job_complete_of :: "(string \<times> json) list \<Rightarrow> job_complete_message de" where
  "job_complete_of kvs =
     rbind (req ''tenant'' str_of kvs) (\<lambda>tenant.
     rbind (req ''jobId'' str_of kvs) (\<lambda>jid.
     rbind (opt ''attempt'' u32_of kvs) (\<lambda>att.
     rbind (req ''outputKey'' str_of kvs) (\<lambda>key.
     rbind (req ''metrics'' metrics_of kvs) (\<lambda>m.
       Inr \<lparr>cmp_tenant = tenant, cmp_job_id = jid, cmp_attempt = att,
            cmp_output_key = key, cmp_metrics = m\<rparr>)))))"

definition job_failed_of :: "(string \<times> json) list \<Rightarrow> job_failed_message de" where
  "job_failed_of kvs =
     rbind (req ''tenant'' str_of kvs) (\<lambda>tenant.
     rbind (req ''jobId'' str_of kvs) (\<lambda>jid.
     rbind (opt ''attempt'' u32_of kvs) (\<lambda>att.
     rbind (req ''reason'' str_of kvs) (\<lambda>r.
       Inr \<lparr>fld_tenant = tenant, fld_job_id = jid, fld_attempt = att, fld_reason = r\<rparr>))))"

definition job_rejected_of :: "(string \<times> json) list \<Rightarrow> job_rejected_message de" where
  "job_rejected_of kvs =
     rbind (req ''tenant'' str_of kvs) (\<lambda>tenant.
     rbind (req ''jobId'' str_of kvs) (\<lambda>jid.
     rbind (opt ''attempt'' u32_of kvs) (\<lambda>att.
     rbind (req ''reason'' reject_reason_of kvs) (\<lambda>r.
       Inr \<lparr>rej_tenant = tenant, rej_job_id = jid, rej_attempt = att, rej_reason = r\<rparr>))))"

definition job_canceled_ack_of :: "(string \<times> json) list \<Rightarrow> job_canceled_ack_message de" where
  "job_canceled_ack_of kvs =
     rbind (req ''tenant'' str_of kvs) (\<lambda>tenant.
     rbind (req ''jobId'' str_of kvs) (\<lambda>jid.
     rbind (req ''attempt'' u32_of kvs) (\<lambda>att.
     rbind (opt ''teardownMs'' u64_of kvs) (\<lambda>ms.
       Inr \<lparr>ack_tenant = tenant, ack_job_id = jid, ack_attempt = att,
            ack_teardown_ms = ms\<rparr>))))"

definition worker_of_json :: "json \<Rightarrow> worker_message de" where
  "worker_of_json j = rbind (obj_of j) (\<lambda>kvs. rbind (req ''type'' str_of kvs) (\<lambda>ty.
     if ty = ''register'' then rbind (register_of kvs) (\<lambda>m. Inr (Register m))
     else if ty = ''heartbeat'' then rbind (heartbeat_of kvs) (\<lambda>m. Inr (Heartbeat m))
     else if ty = ''jobAccepted'' then rbind (job_accepted_of kvs) (\<lambda>m. Inr (JobAccepted m))
     else if ty = ''jobProgress'' then rbind (job_progress_of kvs) (\<lambda>m. Inr (JobProgress m))
     else if ty = ''jobComplete'' then rbind (job_complete_of kvs) (\<lambda>m. Inr (JobComplete m))
     else if ty = ''jobFailed'' then rbind (job_failed_of kvs) (\<lambda>m. Inr (JobFailed m))
     else if ty = ''jobRejected'' then rbind (job_rejected_of kvs) (\<lambda>m. Inr (JobRejected m))
     else if ty = ''jobCanceledAck''
       then rbind (job_canceled_ack_of kvs) (\<lambda>m. Inr (JobCanceledAck m))
     else Inl (UnknownVariant ty)))"

section \<open>Server messages\<close>

datatype job_kind = Standard | Gpu
datatype codec = H264 | Vp8
datatype still_format = Png

record still_directive =
  still_frame :: u64
  still_fmt :: still_format

fun job_kind_json :: "job_kind \<Rightarrow> json" where
  "job_kind_json Standard = JStr ''standard''"
| "job_kind_json Gpu = JStr ''gpu''"

definition job_kind_of :: "json \<Rightarrow> job_kind de" where
  "job_kind_of j = rbind (str_of j) (\<lambda>s.
     if s = ''standard'' then Inr Standard
     else if s = ''gpu'' then Inr Gpu else Inl (UnknownVariant s))"

fun codec_json :: "codec \<Rightarrow> json" where
  "codec_json H264 = JStr ''h264''"
| "codec_json Vp8 = JStr ''vp8''"

definition codec_of :: "json \<Rightarrow> codec de" where
  "codec_of j = rbind (str_of j) (\<lambda>s.
     if s = ''h264'' then Inr H264
     else if s = ''vp8'' then Inr Vp8 else Inl (UnknownVariant s))"

definition still_json :: "still_directive \<Rightarrow> json" where
  "still_json d = JObj [(''frame'', json_u64 (still_frame d)), (''format'', JStr ''png'')]"

definition still_format_of :: "json \<Rightarrow> still_format de" where
  "still_format_of j = rbind (str_of j) (\<lambda>s. if s = ''png'' then Inr Png else Inl (UnknownVariant s))"

definition still_of :: "json \<Rightarrow> still_directive de" where
  "still_of j = rbind (obj_of j) (\<lambda>kvs.
     rbind (req ''frame'' u64_of kvs) (\<lambda>n.
     rbind (req ''format'' still_format_of kvs) (\<lambda>fm.
       Inr \<lparr>still_frame = n, still_fmt = fm\<rparr>)))"

text \<open>The unit struct \<open>PurgeAfter\<close>: \<open>true\<close> on the wire, always.\<close>

type_synonym purge_after = unit

definition purge_after_json :: "purge_after \<Rightarrow> json" where
  "purge_after_json _ = JBool True"

definition purge_after_of :: "json \<Rightarrow> purge_after de" where
  "purge_after_of j = rbind (bool_of j) (\<lambda>b. if b then Inr () else Inl PurgeAfterFalse)"

record job_assign_message =
  ja_tenant :: string
  ja_job_id :: string
  ja_attempt :: "u32 option"
  ja_kind :: job_kind
  ja_duration_frames :: u64
  ja_fps :: u32
  ja_codec :: "codec option"
  ja_bundle_sha256 :: string
  ja_bundle_get_url :: string
  ja_payload_sha256 :: string
  ja_payload_get_url :: string
  ja_browser_sha256 :: "string option"
  ja_browser_get_url :: "string option"
  ja_input_props_get_url :: string
  ja_asset_get_urls :: "string list"
  ja_output_put_url :: string
  ja_output_key :: string
  ja_purge_after :: purge_after
  ja_still :: "still_directive option"

text \<open>The derived reader of \<open>JobAssignMessageUnchecked\<close>, which has the same fields.\<close>

definition job_assign_unchecked_of :: "(string \<times> json) list \<Rightarrow> job_assign_message de" where
  "job_assign_unchecked_of kvs =
     rbind (req ''tenant'' str_of kvs) (\<lambda>tenant.
     rbind (req ''jobId'' str_of kvs) (\<lambda>jid.
     rbind (opt ''attempt'' u32_of kvs) (\<lambda>att.
     rbind (req ''kind'' job_kind_of kvs) (\<lambda>kind.
     rbind (req ''durationFrames'' u64_of kvs) (\<lambda>dur.
     rbind (req ''fps'' u32_of kvs) (\<lambda>fps.
     rbind (opt ''codec'' codec_of kvs) (\<lambda>cod.
     rbind (req ''bundleSha256'' str_of kvs) (\<lambda>bs.
     rbind (req ''bundleGetUrl'' str_of kvs) (\<lambda>bu.
     rbind (req ''payloadSha256'' str_of kvs) (\<lambda>ps.
     rbind (req ''payloadGetUrl'' str_of kvs) (\<lambda>pu.
     rbind (opt ''browserSha256'' str_of kvs) (\<lambda>ws.
     rbind (opt ''browserGetUrl'' str_of kvs) (\<lambda>wu.
     rbind (req ''inputPropsGetUrl'' str_of kvs) (\<lambda>ip.
     rbind (req ''assetGetUrls'' strs_of kvs) (\<lambda>assets.
     rbind (req ''outputPutUrl'' str_of kvs) (\<lambda>opu.
     rbind (req ''outputKey'' str_of kvs) (\<lambda>okey.
     rbind (req ''purgeAfter'' purge_after_of kvs) (\<lambda>pa.
     rbind (opt ''still'' still_of kvs) (\<lambda>still.
       Inr \<lparr>ja_tenant = tenant, ja_job_id = jid, ja_attempt = att, ja_kind = kind,
            ja_duration_frames = dur, ja_fps = fps, ja_codec = cod, ja_bundle_sha256 = bs,
            ja_bundle_get_url = bu, ja_payload_sha256 = ps, ja_payload_get_url = pu,
            ja_browser_sha256 = ws, ja_browser_get_url = wu, ja_input_props_get_url = ip,
            ja_asset_get_urls = assets, ja_output_put_url = opu, ja_output_key = okey,
            ja_purge_after = pa, ja_still = still\<rparr>)))))))))))))))))))"

definition job_assign_try_from :: "job_assign_message \<Rightarrow> job_assign_message de" where
  "job_assign_try_from u = (case ja_still u of
       Some still \<Rightarrow> (if ja_duration_frames u \<le> still_frame still
                      then Inl (StillFrame (still_frame still) (ja_duration_frames u)) else Inr u)
     | None \<Rightarrow> (if ja_codec u = None then Inl CodecRequired else Inr u))"

definition job_assign_of :: "(string \<times> json) list \<Rightarrow> job_assign_message de" where
  "job_assign_of kvs = rbind (job_assign_unchecked_of kvs) job_assign_try_from"

record cancel_message =
  can_tenant :: string
  can_job_id :: string

record ping_message =
  ping_tenant :: string

record update_available_message =
  upd_tenant :: string
  upd_supervisor_version :: string
  upd_payload_version :: string

datatype server_message =
    JobAssign job_assign_message
  | Cancel cancel_message
  | Ping ping_message
  | UpdateAvailable update_available_message

fun server_to_json :: "server_message \<Rightarrow> json" where
  "server_to_json (JobAssign a) = JObj
     ([(''type'', JStr ''jobAssign''), (''tenant'', JStr (ja_tenant a)),
       (''jobId'', JStr (ja_job_id a))]
      @ skip_none ''attempt'' json_u32 (ja_attempt a)
      @ [(''kind'', job_kind_json (ja_kind a)),
         (''durationFrames'', json_u64 (ja_duration_frames a)), (''fps'', json_u32 (ja_fps a))]
      @ skip_none ''codec'' codec_json (ja_codec a)
      @ [(''bundleSha256'', JStr (ja_bundle_sha256 a)),
         (''bundleGetUrl'', JStr (ja_bundle_get_url a)),
         (''payloadSha256'', JStr (ja_payload_sha256 a)),
         (''payloadGetUrl'', JStr (ja_payload_get_url a))]
      @ skip_none ''browserSha256'' JStr (ja_browser_sha256 a)
      @ skip_none ''browserGetUrl'' JStr (ja_browser_get_url a)
      @ [(''inputPropsGetUrl'', JStr (ja_input_props_get_url a)),
         (''assetGetUrls'', JArr (map JStr (ja_asset_get_urls a))),
         (''outputPutUrl'', JStr (ja_output_put_url a)), (''outputKey'', JStr (ja_output_key a)),
         (''purgeAfter'', purge_after_json (ja_purge_after a))]
      @ skip_none ''still'' still_json (ja_still a))"
| "server_to_json (Cancel m) = JObj
     [(''type'', JStr ''cancel''), (''tenant'', JStr (can_tenant m)),
      (''jobId'', JStr (can_job_id m))]"
| "server_to_json (Ping m) = JObj [(''type'', JStr ''ping''), (''tenant'', JStr (ping_tenant m))]"
| "server_to_json (UpdateAvailable m) = JObj
     [(''type'', JStr ''updateAvailable''), (''tenant'', JStr (upd_tenant m)),
      (''supervisorVersion'', JStr (upd_supervisor_version m)),
      (''payloadVersion'', JStr (upd_payload_version m))]"

definition cancel_of :: "(string \<times> json) list \<Rightarrow> cancel_message de" where
  "cancel_of kvs =
     rbind (req ''tenant'' str_of kvs) (\<lambda>tenant.
     rbind (req ''jobId'' str_of kvs) (\<lambda>jid.
       Inr \<lparr>can_tenant = tenant, can_job_id = jid\<rparr>))"

definition ping_of :: "(string \<times> json) list \<Rightarrow> ping_message de" where
  "ping_of kvs = rbind (req ''tenant'' str_of kvs) (\<lambda>tenant. Inr \<lparr>ping_tenant = tenant\<rparr>)"

definition update_available_of :: "(string \<times> json) list \<Rightarrow> update_available_message de" where
  "update_available_of kvs =
     rbind (req ''tenant'' str_of kvs) (\<lambda>tenant.
     rbind (req ''supervisorVersion'' str_of kvs) (\<lambda>sv.
     rbind (req ''payloadVersion'' str_of kvs) (\<lambda>pv.
       Inr \<lparr>upd_tenant = tenant, upd_supervisor_version = sv, upd_payload_version = pv\<rparr>)))"

definition server_of_json :: "json \<Rightarrow> server_message de" where
  "server_of_json j = rbind (obj_of j) (\<lambda>kvs. rbind (req ''type'' str_of kvs) (\<lambda>ty.
     if ty = ''jobAssign'' then rbind (job_assign_of kvs) (\<lambda>m. Inr (JobAssign m))
     else if ty = ''cancel'' then rbind (cancel_of kvs) (\<lambda>m. Inr (Cancel m))
     else if ty = ''ping'' then rbind (ping_of kvs) (\<lambda>m. Inr (Ping m))
     else if ty = ''updateAvailable''
       then rbind (update_available_of kvs) (\<lambda>m. Inr (UpdateAvailable m))
     else Inl (UnknownVariant ty)))"

section \<open>Round trips\<close>

lemma enum_wire [simp]:
  "platform_of (platform_json p) = Inr p"
  "job_kind_of (job_kind_json k) = Inr k"
  "codec_of (codec_json c) = Inr c" "codec_json c \<noteq> JNull"
  "reject_reason_of (reject_reason_json r) = Inr r"
  "purge_after_of (purge_after_json u) = Inr u"
  by (cases p; cases k; cases c; cases r;
      simp add: platform_of_def job_kind_of_def codec_of_def reject_reason_of_def
        purge_after_of_def purge_after_json_def)+

lemma capabilities_wire [simp]: "capabilities_of (capabilities_json c) = Inr c"
  by (simp add: capabilities_of_def capabilities_json_def req_field opt_skip
      opt_skip [where g = json_u32] opt_skip [where g = JStr])

lemma metrics_wire [simp]: "metrics_of (metrics_json m) = Inr m"
  by (simp add: metrics_of_def metrics_json_def req_field opt_skip [where g = json_u64])

lemma still_wire [simp]: "still_of (still_json d) = Inr d" "still_json d \<noteq> JNull"
  by (cases "still_fmt d"; simp add: still_of_def still_json_def req_field still_format_of_def)+

text \<open>The values a node may put on the wire: its own version, progress inside the unit interval.\<close>

fun worker_wf :: "worker_message \<Rightarrow> bool" where
  "worker_wf (Register m) = (reg_protocol_version m = PROTOCOL_VERSION)"
| "worker_wf (JobProgress m) = (0 \<le> prg_progress m \<and> prg_progress m \<le> 1)"
| "worker_wf _ = True"

text \<open>An assignment \<open>try_from\<close> accepts.\<close>

definition assign_valid :: "job_assign_message \<Rightarrow> bool" where
  "assign_valid a = (case ja_still a of
       Some st \<Rightarrow> still_frame st < ja_duration_frames a
     | None \<Rightarrow> ja_codec a \<noteq> None)"

fun server_wf :: "server_message \<Rightarrow> bool" where
  "server_wf (JobAssign a) = assign_valid a"
| "server_wf _ = True"

lemma try_from_iff: "job_assign_try_from a = Inr b \<longleftrightarrow> b = a \<and> assign_valid a"
  by (auto simp: job_assign_try_from_def assign_valid_def not_le split: option.splits)

lemma try_from_valid [simp]: "assign_valid a \<Longrightarrow> job_assign_try_from a = Inr a"
  by (simp add: try_from_iff)

lemmas message_of_defs =
  register_of_def heartbeat_of_def job_accepted_of_def job_progress_of_def job_complete_of_def
  job_failed_of_def job_rejected_of_def job_canceled_ack_of_def
  cancel_of_def ping_of_def update_available_of_def

lemmas wire_readers =
  req_field opt_skip [where g = json_u32] opt_skip [where g = json_u64]
  opt_skip [where g = JStr] opt_skip [where g = codec_json] opt_skip [where g = still_json]
  opt_field [where g = JStr]

lemma register_wire:
  "reg_protocol_version m = PROTOCOL_VERSION \<Longrightarrow>
     worker_of_json (worker_to_json (Register m)) = Inr (Register m)"
  by (simp add: worker_of_json_def register_of_def wire_readers pinned_protocol_version_def)

lemma assign_unchecked_wire:
  "server_to_json (JobAssign a) = JObj kvs \<Longrightarrow> job_assign_unchecked_of kvs = Inr a"
  by (drule sym) (simp add: job_assign_unchecked_of_def wire_readers)

lemma worker_wire: "worker_wf m \<Longrightarrow> worker_of_json (worker_to_json m) = Inr m"
  by (cases m)
     (simp_all add: register_wire [simplified] worker_of_json_def message_of_defs wire_readers
       pinned_protocol_version_def unit_interval_def)

lemma server_wire: "server_wf m \<Longrightarrow> server_of_json (server_to_json m) = Inr m"
proof (cases m)
  case (JobAssign a)
  assume "server_wf m"
  obtain kvs where kvs: "server_to_json (JobAssign a) = JObj kvs" by simp
  moreover from kvs have "req ''type'' str_of kvs = Inr ''jobAssign''"
    by (auto simp: req_field)
  ultimately show ?thesis
    using JobAssign \<open>server_wf m\<close> assign_unchecked_wire [OF kvs]
    by (simp add: server_of_json_def job_assign_of_def del: server_to_json.simps)
qed (simp_all add: server_of_json_def message_of_defs wire_readers)

section \<open>What a parsed frame guarantees\<close>

lemma req_Inr: "req k f kvs = Inr x \<longleftrightarrow> (\<exists>v. field k kvs = [v] \<and> f v = Inr x)"
  by (auto simp: req_def split: list.splits)

lemma purge_after_of_Inr: "purge_after_of v = Inr u \<Longrightarrow> v = JBool True"
  by (cases v) (auto simp: purge_after_of_def split: if_splits)

lemma unit_interval_Inr: "unit_interval v = Inr p \<Longrightarrow> 0 \<le> p \<and> p \<le> 1"
  by (auto simp: unit_interval_def rbind_Inr_iff split: if_splits)

lemma pinned_Inr: "pinned_protocol_version v = Inr w \<Longrightarrow> w = PROTOCOL_VERSION"
  by (auto simp: pinned_protocol_version_def rbind_Inr_iff split: if_splits)

lemma register_of_version: "register_of kvs = Inr m \<Longrightarrow> reg_protocol_version m = PROTOCOL_VERSION"
  by (auto simp: register_of_def rbind_Inr_iff req_Inr dest: pinned_Inr)

lemma job_progress_of_range: "job_progress_of kvs = Inr m \<Longrightarrow> 0 \<le> prg_progress m \<and> prg_progress m \<le> 1"
  by (auto simp: job_progress_of_def rbind_Inr_iff req_Inr dest: unit_interval_Inr)

lemma unchecked_purge_field:
  "job_assign_unchecked_of kvs = Inr a \<Longrightarrow> field ''purgeAfter'' kvs = [JBool True]"
  unfolding job_assign_unchecked_of_def
  by (auto simp only: rbind_Inr_iff req_Inr dest!: purge_after_of_Inr)

lemma server_of_json_JobAssign:
  "server_of_json (JObj kvs) = Inr (JobAssign a) \<Longrightarrow> job_assign_of kvs = Inr a"
  by (auto simp: server_of_json_def rbind_Inr_iff split: if_splits)

lemma worker_parse_wf: "worker_of_json j = Inr m \<Longrightarrow> worker_wf m"
  by (cases m) (auto simp: worker_of_json_def rbind_Inr_iff register_of_version
      job_progress_of_range split: if_splits)

lemma server_parse_wf:
  assumes "server_of_json j = Inr m"
  shows "server_wf m"
proof (cases m)
  case (JobAssign a)
  with assms obtain kvs where "j = JObj kvs" "job_assign_of kvs = Inr a"
    by (cases j) (auto simp: server_of_json_JobAssign, simp_all add: server_of_json_def)
  with JobAssign show ?thesis by (auto simp: job_assign_of_def rbind_Inr_iff try_from_iff)
qed simp_all

section \<open>Properties\<close>

text \<open>
  C13: Every worker message a node may send is read back unchanged from its own serialization:
  no field is lost, renamed or defaulted away, for all eight message types, provided a register
  frame announces the pinned version and a progress value lies in the unit interval.
\<close>

theorem worker_round_trip: "worker_wf m \<Longrightarrow> worker_of_json (worker_to_json m) = Inr m"
  by (rule worker_wire)

text \<open>
  C14: Every server message dispatch may send is read back unchanged from its serialization, an
  assignment with its nineteen fields included, when the assignment passes the cross-field check.
\<close>

theorem server_round_trip: "server_wf m \<Longrightarrow> server_of_json (server_to_json m) = Inr m"
  by (rule server_wire)

text \<open>
  A worker frame that parses keeps the two wire bounds (a register frame announces version 2
  exactly, a progress report lies in the unit interval), and parsing is stable: the serialization
  of a parsed frame parses to the same message.
\<close>

theorem worker_parse_sound:
  "worker_of_json j = Inr m \<Longrightarrow> worker_wf m \<and> worker_of_json (worker_to_json m) = Inr m"
  by (simp add: worker_parse_wf worker_wire)

text \<open>
  C39: An assignment that parses carries the literal \<open>purgeAfter: true\<close>, names a still frame
  inside the composition when it is a still, and names a codec when it is not: a job without the
  purge directive, or one that cannot be rendered, never reaches the node's job loop.
\<close>

theorem job_assign_parse_sound:
  assumes "server_of_json (JObj kvs) = Inr (JobAssign a)"
  shows "field ''purgeAfter'' kvs = [JBool True]
       \<and> (case ja_still a of Some st \<Rightarrow> still_frame st < ja_duration_frames a
          | None \<Rightarrow> ja_codec a \<noteq> None)"
proof -
  from server_of_json_JobAssign [OF assms]
  obtain u where u: "job_assign_unchecked_of kvs = Inr u" "job_assign_try_from u = Inr a"
    by (auto simp: job_assign_of_def rbind_Inr_iff)
  then have "assign_valid a" by (simp add: try_from_iff)
  then show ?thesis using unchecked_purge_field [OF u(1)] by (simp add: assign_valid_def)
qed

section \<open>Witnesses\<close>

definition sample_assign :: job_assign_message where
  "sample_assign = \<lparr>ja_tenant = ''driffs'', ja_job_id = ''j1'', ja_attempt = Some 1,
     ja_kind = Standard, ja_duration_frames = 300, ja_fps = 30, ja_codec = Some H264,
     ja_bundle_sha256 = ''b'', ja_bundle_get_url = ''bu'', ja_payload_sha256 = ''p'',
     ja_payload_get_url = ''pu'', ja_browser_sha256 = None, ja_browser_get_url = None,
     ja_input_props_get_url = ''i'', ja_asset_get_urls = [''a''], ja_output_put_url = ''o'',
     ja_output_key = ''k'', ja_purge_after = (), ja_still = None\<rparr>"

lemma sample_assign_valid [simp]: "assign_valid sample_assign"
  by (simp add: assign_valid_def sample_assign_def)

definition sample_ack :: worker_message where
  "sample_ack = JobCanceledAck \<lparr>ack_tenant = ''t'', ack_job_id = ''j'', ack_attempt = 2,
     ack_teardown_ms = Some 812\<rparr>"

theorem worker_round_trip_witness:
  "worker_wf sample_ack \<and> worker_of_json (worker_to_json sample_ack) = Inr sample_ack"
  using worker_round_trip [of sample_ack] by (simp add: sample_ack_def)

theorem server_round_trip_witness:
  "server_wf (JobAssign sample_assign)
     \<and> server_of_json (server_to_json (JobAssign sample_assign)) = Inr (JobAssign sample_assign)"
proof -
  have h: "server_wf (JobAssign sample_assign)" by simp
  show ?thesis using h server_round_trip [OF h] by (rule conjI)
qed

theorem worker_parse_sound_witness:
  "worker_of_json (JObj [(''type'', JStr ''heartbeat''), (''tenant'', JStr ''t''),
       (''currentJobCount'', JInt 1), (''extra'', JNull)])
     = Inr (Heartbeat \<lparr>hb_tenant = ''t'', hb_current_job_count = 1\<rparr>)
   \<and> worker_wf (Heartbeat \<lparr>hb_tenant = ''t'', hb_current_job_count = 1\<rparr>)"
proof -
  have h: "worker_of_json (JObj [(''type'', JStr ''heartbeat''), (''tenant'', JStr ''t''),
       (''currentJobCount'', JInt 1), (''extra'', JNull)])
     = Inr (Heartbeat \<lparr>hb_tenant = ''t'', hb_current_job_count = 1\<rparr>)"
    by (simp add: worker_of_json_def heartbeat_of_def req_def)
  show ?thesis using h worker_parse_sound [OF h] by (intro conjI) auto
qed

theorem job_assign_parse_sound_witness:
  "\<exists>kvs. server_of_json (JObj kvs) = Inr (JobAssign sample_assign)
       \<and> field ''purgeAfter'' kvs = [JBool True]"
proof -
  obtain kvs where kvs: "server_to_json (JobAssign sample_assign) = JObj kvs" by simp
  have h: "server_of_json (JObj kvs) = Inr (JobAssign sample_assign)"
    unfolding kvs [symmetric] by (rule server_wire) simp
  show ?thesis
    by (rule exI [of _ kvs], rule conjI [OF h])
       (rule job_assign_parse_sound [OF h, THEN conjunct1])
qed

end
