(* ===== verification/Job.thy ===== *)
theory Job
  imports Protocol
begin

text \<open>
  What a connection session keeps of a job (\<open>crates/supervisor-core/src/runner.rs\<close>,
  \<open>InFlightJob\<close>, \<open>JobOutcome\<close>, \<open>cache_keys_for\<close>) and the decision it takes when the job's task has
  ended (\<open>crates/supervisor-core/src/connection.rs\<close>, \<open>CanceledJob\<close> and the cancel-ack functions).
  A task handle is the number the session gave the task when it spawned it; the one-shot cancel
  sender is held or not. What awaiting a handle yields is an argument: the job's outcome, or
  nothing for a task that panicked.
\<close>

section \<open>The in-flight record\<close>

datatype job_outcome = OutComplete | OutFailed

type_synonym task = nat

record in_flight_job =
  ifj_job_id :: string
  ifj_tenant :: string
  ifj_attempt :: "u32 option"
  ifj_cancel :: bool
  ifj_cancel_received_at :: "instant option"
  ifj_cache_keys :: "string list"
  ifj_handle :: task

definition cache_keys_for :: "job_assign_message \<Rightarrow> string list" where
  "cache_keys_for a =
     [''payloads:'' @ ja_payload_sha256 a]
     @ (case ja_browser_sha256 a of None \<Rightarrow> [] | Some sha \<Rightarrow> [''browsers:'' @ sha])
     @ [''bundles:'' @ ja_bundle_sha256 a]"

definition progress_to_wire :: "string \<Rightarrow> string \<Rightarrow> u32 option \<Rightarrow> f64 \<Rightarrow> u64 option \<Rightarrow> u64 option
    \<Rightarrow> worker_message" where
  "progress_to_wire tenant job_id attempt progress elapsed_ms frames_so_far =
     JobProgress \<lparr>prg_tenant = tenant, prg_job_id = job_id, prg_attempt = attempt,
       prg_progress = progress, prg_elapsed_ms = elapsed_ms,
       prg_frames_so_far = frames_so_far\<rparr>"

section \<open>Cancel acknowledgements\<close>

record canceled_job =
  cj_tenant :: string
  cj_job_id :: string
  cj_attempt :: "u32 option"
  cj_received_at :: instant

type_synonym job_pair = "string \<times> u32 option"

definition canceled_pair :: "canceled_job \<Rightarrow> job_pair" where
  "canceled_pair c = (cj_job_id c, cj_attempt c)"

definition job_pair_of :: "in_flight_job \<Rightarrow> job_pair" where
  "job_pair_of j = (ifj_job_id j, ifj_attempt j)"

definition frame_is_for :: "job_pair option \<Rightarrow> string \<Rightarrow> u32 option \<Rightarrow> bool" where
  "frame_is_for slot jid attempt =
     (case slot of Some (jid', attempt') \<Rightarrow> jid' = jid \<and> attempt' = attempt | None \<Rightarrow> False)"

lemma frame_is_for_iff [simp]: "frame_is_for slot jid attempt \<longleftrightarrow> slot = Some (jid, attempt)"
  by (auto simp: frame_is_for_def split: option.splits)

definition cancel_ack_predicate :: "job_outcome \<Rightarrow> bool" where
  "cancel_ack_predicate out = (out = OutFailed)"

definition unwrap_or :: "'a \<Rightarrow> 'a option \<Rightarrow> 'a" where
  "unwrap_or d x = (case x of Some v \<Rightarrow> v | None \<Rightarrow> d)"

text \<open>\<open>duration_since\<close> saturates at zero; \<open>as_millis() as u64\<close> keeps the low 64 bits.\<close>

definition cancel_ack_for :: "instant \<Rightarrow> canceled_job \<Rightarrow> job_canceled_ack_message" where
  "cancel_ack_for now c = \<lparr>ack_tenant = cj_tenant c, ack_job_id = cj_job_id c,
     ack_attempt = unwrap_or 1 (cj_attempt c),
     ack_teardown_ms = Some (of_nat ((now - cj_received_at c) div 1000000))\<rparr>"

definition MAX_PENDING_CANCEL_ACKS :: nat where "MAX_PENDING_CANCEL_ACKS = 32"

definition queue_pending_cancel_ack :: "instant \<Rightarrow> canceled_job \<Rightarrow> job_canceled_ack_message list
    \<Rightarrow> job_canceled_ack_message list" where
  "queue_pending_cancel_ack now c pending =
     (if MAX_PENDING_CANCEL_ACKS \<le> length pending then pending
      else pending @ [cancel_ack_for now c])"

definition queue_drained_cancel_ack :: "instant \<Rightarrow> canceled_job option \<Rightarrow> job_outcome option
    \<Rightarrow> job_canceled_ack_message list \<Rightarrow> job_canceled_ack_message list" where
  "queue_drained_cancel_ack now canceled outcome pending =
     (case canceled of None \<Rightarrow> pending
      | Some c \<Rightarrow> (case outcome of None \<Rightarrow> pending
         | Some out \<Rightarrow> (if \<not> cancel_ack_predicate out then pending
                       else queue_pending_cancel_ack now c pending)))"

definition drained_ack_context :: "in_flight_job \<Rightarrow> canceled_job option" where
  "drained_ack_context j =
     (case ifj_cancel_received_at j of None \<Rightarrow> None
      | Some t \<Rightarrow> Some \<lparr>cj_tenant = ifj_tenant j, cj_job_id = ifj_job_id j,
                       cj_attempt = ifj_attempt j, cj_received_at = t\<rparr>)"

lemma queue_pending_bounded [inv_rules]:
  "length pending \<le> MAX_PENDING_CANCEL_ACKS \<Longrightarrow>
     length (queue_pending_cancel_ack now c pending) \<le> MAX_PENDING_CANCEL_ACKS"
  by (simp add: queue_pending_cancel_ack_def)

lemma queue_drained_bounded [inv_rules]:
  "length pending \<le> MAX_PENDING_CANCEL_ACKS \<Longrightarrow>
     length (queue_drained_cancel_ack now cj out pending) \<le> MAX_PENDING_CANCEL_ACKS"
  by (auto simp: queue_drained_cancel_ack_def intro: inv_rules split: option.splits)

lemma queue_drained_cases:
  "queue_drained_cancel_ack now cj out pending = pending
   \<or> (\<exists>c. cj = Some c \<and> out = Some OutFailed
        \<and> queue_drained_cancel_ack now cj out pending = pending @ [cancel_ack_for now c])"
  by (auto simp: queue_drained_cancel_ack_def queue_pending_cancel_ack_def cancel_ack_predicate_def
      split: option.splits)

end
