(* ===== verification/Gate.thy ===== *)
theory Gate
  imports Dr_Base
begin

text \<open>
  The quiet-idle gate of the unattended upgrade (\<open>crates/supervisor-core/src/connection.rs\<close>,
  \<open>AutoUpgradePolicy\<close> and \<open>AutoUpgradeGate\<close>). \<open>Instant\<close> is a nanosecond count; \<open>checked_add\<close> fails
  above the largest instant the platform represents, which is a parameter.
\<close>

section \<open>The gate\<close>

record auto_upgrade_policy =
  aup_quiet_period :: duration
  aup_suppressed_version :: "string option"
  aup_suppressed_for :: "duration option"

record auto_upgrade_gate =
  gate_policy :: "auto_upgrade_policy option"
  gate_target :: "string option"
  gate_idle_since :: "instant option"
  gate_suppressed_until :: "instant option"

definition gate_new_at :: "instant \<Rightarrow> auto_upgrade_policy option \<Rightarrow> instant \<Rightarrow> auto_upgrade_gate" where
  "gate_new_at max_instant policy now =
     \<lparr>gate_policy = policy, gate_target = None, gate_idle_since = None,
      gate_suppressed_until =
        Option.bind (Option.bind policy aup_suppressed_for)
          (\<lambda>d. if now + d \<le> max_instant then Some (now + d) else None)\<rparr>"

definition announce :: "string \<Rightarrow> auto_upgrade_gate \<Rightarrow> auto_upgrade_gate" where
  "announce v g =
     (if gate_target g \<noteq> Some v then g\<lparr>gate_target := Some v, gate_idle_since := None\<rparr> else g)"

definition mark_busy :: "auto_upgrade_gate \<Rightarrow> auto_upgrade_gate" where
  "mark_busy g = g\<lparr>gate_idle_since := None\<rparr>"

definition target_suppressed :: "instant \<Rightarrow> auto_upgrade_gate \<Rightarrow> bool" where
  "target_suppressed now g =
     (Option.bind (gate_policy g) aup_suppressed_version = gate_target g
      \<and> (case gate_suppressed_until g of Some until \<Rightarrow> now < until | None \<Rightarrow> False))"

definition gate_observe :: "bool \<Rightarrow> bool \<Rightarrow> instant \<Rightarrow> auto_upgrade_gate \<Rightarrow> auto_upgrade_gate" where
  "gate_observe enabled idle now g =
     (if gate_policy g = None \<or> gate_target g = None \<or> target_suppressed now g
         \<or> \<not> enabled \<or> \<not> idle
      then g\<lparr>gate_idle_since := None\<rparr>
      else (case gate_idle_since g of None \<Rightarrow> g\<lparr>gate_idle_since := Some now\<rparr> | Some _ \<Rightarrow> g))"

definition ready :: "instant \<Rightarrow> auto_upgrade_gate \<Rightarrow> string option" where
  "ready now g =
     (case gate_policy g of None \<Rightarrow> None
      | Some policy \<Rightarrow> (case gate_idle_since g of None \<Rightarrow> None
         | Some since \<Rightarrow> (if aup_quiet_period policy \<le> now - since then gate_target g else None)))"

section \<open>What a history of the gate shows\<close>

text \<open>The calls a session makes, in order.\<close>

datatype gate_call = Announce string | MarkBusy | Observe bool bool instant

fun gate_apply :: "gate_call \<Rightarrow> auto_upgrade_gate \<Rightarrow> auto_upgrade_gate" where
  "gate_apply (Announce v) g = announce v g"
| "gate_apply MarkBusy g = mark_busy g"
| "gate_apply (Observe en idle now) g = gate_observe en idle now g"

fun observation_blocks :: "gate_call \<Rightarrow> bool" where
  "observation_blocks (Announce v) = False"
| "observation_blocks MarkBusy = True"
| "observation_blocks (Observe en idle now) = (\<not> en \<or> \<not> idle)"

text \<open>
  \<open>quiet_since h t\<close>: the history ends in a stretch that starts with an idle, enabled observation
  at time \<open>t\<close> and in which no job was accepted, and every observation found the session idle with
  the operator's flag on.
\<close>

definition quiet_since :: "gate_call list \<Rightarrow> instant \<Rightarrow> bool" where
  "quiet_since h t \<longleftrightarrow>
     (\<exists>h1 h2. h = h1 @ Observe True True t # h2 \<and> list_all (\<lambda>c. \<not> observation_blocks c) h2)"

definition gate_after :: "instant \<Rightarrow> auto_upgrade_policy option \<Rightarrow> instant \<Rightarrow> gate_call list
    \<Rightarrow> auto_upgrade_gate" where
  "gate_after max_instant policy start h = fold gate_apply h (gate_new_at max_instant policy start)"

lemma gate_after_snoc [simp]:
  "gate_after mx p st (h @ [c]) = gate_apply c (gate_after mx p st h)"
  by (simp add: gate_after_def)

lemma quiet_since_snoc: "quiet_since h t \<Longrightarrow> \<not> observation_blocks c \<Longrightarrow> quiet_since (h @ [c]) t"
  by (fastforce simp: quiet_since_def)

lemma quiet_since_now: "quiet_since (h @ [Observe True True t]) t"
  by (fastforce simp: quiet_since_def)

lemma gate_policy_apply [simp]: "gate_policy (gate_apply c g) = gate_policy g"
  by (cases c) (auto simp: announce_def mark_busy_def gate_observe_def split: option.splits)

lemma gate_policy_after [simp]: "gate_policy (gate_after mx p st h) = p"
  by (induction h rule: rev_induct) (simp_all add: gate_after_def gate_new_at_def)

text \<open>The last announcement of a history.\<close>

definition last_announced :: "gate_call list \<Rightarrow> string option" where
  "last_announced h =
     fold (\<lambda>c acc. case c of Announce v \<Rightarrow> Some v | _ \<Rightarrow> acc) h None"

lemma gate_target_after: "gate_target (gate_after mx p st h) = last_announced h"
proof (induction h rule: rev_induct)
  case Nil
  then show ?case by (simp add: gate_after_def gate_new_at_def last_announced_def)
next
  case (snoc c h)
  then show ?case
    by (cases c) (auto simp: announce_def mark_busy_def gate_observe_def last_announced_def
        split: option.splits)
qed

lemma gate_idle_quiet:
  "gate_idle_since (gate_after mx p st h) = Some t \<Longrightarrow> quiet_since h t"
proof (induction h rule: rev_induct)
  case Nil
  then show ?case by (simp add: gate_after_def gate_new_at_def)
next
  case (snoc c h)
  show ?case
  proof (cases c)
    case (Announce v)
    then have "gate_idle_since (gate_after mx p st h) = Some t"
      using snoc.prems by (auto simp: announce_def split: if_splits)
    then show ?thesis using snoc.IH Announce by (auto intro: quiet_since_snoc)
  next
    case MarkBusy
    then show ?thesis using snoc.prems by (simp add: mark_busy_def)
  next
    case (Observe en idle now)
    show ?thesis
    proof (cases "gate_idle_since (gate_after mx p st h)")
      case None
      then have "en \<and> idle \<and> t = now"
        using snoc.prems Observe by (auto simp: gate_observe_def split: if_splits)
      then show ?thesis using Observe by (simp add: quiet_since_now)
    next
      case (Some t')
      then have "en \<and> idle \<and> t' = t"
        using snoc.prems Observe by (auto simp: gate_observe_def split: if_splits)
      then show ?thesis using snoc.IH Some Observe by (auto intro: quiet_since_snoc)
    qed
  qed
qed

text \<open>
  The gate hands over an upgrade only when it has a policy, for the version announced last,
  and only after a stretch at least as long as the quiet period that began with an idle
  observation and in which no job was accepted and no observation found a job, a teardown or the
  operator's flag off.
\<close>

theorem gate_ready_only_after_quiet:
  assumes "ready now (gate_after mx p st h) = Some v"
  shows "\<exists>policy t. p = Some policy \<and> last_announced h = Some v \<and> quiet_since h t
           \<and> aup_quiet_period policy \<le> now - t"
  using assms gate_idle_quiet [of mx p st h]
  by (auto simp: ready_def gate_target_after split: option.splits if_splits)

theorem gate_ready_only_after_quiet_witness:
  "\<exists>policy t. Some \<lparr>aup_quiet_period = 5, aup_suppressed_version = None, aup_suppressed_for = None\<rparr>
       = Some policy \<and> last_announced [Announce ''2.0.0'', Observe True True 10] = Some ''2.0.0''
     \<and> quiet_since [Announce ''2.0.0'', Observe True True 10] t
     \<and> aup_quiet_period policy \<le> 15 - t"
  by (rule gate_ready_only_after_quiet [where mx = 1000 and st = 0])
     (simp add: gate_after_def gate_new_at_def announce_def gate_observe_def target_suppressed_def
       ready_def)

lemma gate_suppressed_until_apply [simp]:
  "gate_suppressed_until (gate_apply c g) = gate_suppressed_until g"
  by (cases c) (auto simp: announce_def mark_busy_def gate_observe_def split: option.splits)

lemma gate_suppressed_until_after:
  "gate_suppressed_until (gate_after mx p st h) = gate_suppressed_until (gate_new_at mx p st)"
  by (induction h rule: rev_induct) (simp_all add: gate_after_def)

text \<open>The idle window of a suppressed target only starts once the suppression is over.\<close>

lemma gate_idle_unsuppressed:
  assumes "aup_suppressed_version p = Some v" and "aup_suppressed_for p = Some d" and "st + d \<le> mx"
  shows "gate_idle_since (gate_after mx (Some p) st h) = Some t \<Longrightarrow> last_announced h = Some v \<Longrightarrow>
     st + d \<le> t \<and> Observe True True t \<in> set h"
proof (induction h rule: rev_induct)
  case Nil
  then show ?case by (simp add: gate_after_def gate_new_at_def)
next
  case (snoc c h)
  let ?g = "gate_after mx (Some p) st h"
  have tg: "gate_target ?g = last_announced h" by (rule gate_target_after)
  show ?case
  proof (cases c)
    case (Announce w)
    then have "gate_idle_since ?g = Some t \<and> gate_target ?g = Some w"
      using snoc.prems(1) by (auto simp: announce_def split: if_splits)
    moreover have "w = v" using snoc.prems(2) Announce by (simp add: last_announced_def)
    ultimately show ?thesis using snoc.IH tg Announce by simp
  next
    case MarkBusy
    then show ?thesis using snoc.prems by (simp add: mark_busy_def)
  next
    case (Observe en idle now)
    have la: "last_announced h = Some v" using snoc.prems(2) Observe by (simp add: last_announced_def)
    have ob: "\<not> target_suppressed now ?g" "en" "idle"
        "gate_idle_since ?g = Some t \<or> gate_idle_since ?g = None \<and> t = now"
      using snoc.prems(1) Observe by (auto simp: gate_observe_def split: if_splits option.splits)
    have "gate_suppressed_until ?g = Some (st + d)"
      using assms by (simp add: gate_suppressed_until_after gate_new_at_def)
    then have "st + d \<le> now"
      using ob(1) assms(1) tg la by (auto simp: target_suppressed_def)
    then show ?thesis using ob snoc.IH la Observe by auto
  qed
qed

text \<open>
  A target whose last attempt failed recently waits. While the policy suppresses a version, the
  gate never hands it over: that takes an idle observation after the suppression has run out,
  counted from the start of the session, and the whole quiet period after that.
\<close>

theorem suppressed_target_waits:
  assumes "ready now (gate_after mx (Some p) st h) = Some v"
    and "aup_suppressed_version p = Some v" and "aup_suppressed_for p = Some d" and "st + d \<le> mx"
  shows "\<exists>t. Observe True True t \<in> set h \<and> st + d \<le> t \<and> aup_quiet_period p \<le> now - t"
  using assms(1) gate_idle_unsuppressed [OF assms(2-4), of h]
  by (auto simp: ready_def gate_target_after split: option.splits if_splits)

theorem suppressed_target_waits_witness:
  "\<exists>t. Observe True True t \<in> set [Announce ''2.0.0'', Observe True True 10, Observe True True 110]
     \<and> 0 + 100 \<le> t \<and> (5::nat) \<le> 120 - t"
  using suppressed_target_waits [where p = "\<lparr>aup_quiet_period = 5,
      aup_suppressed_version = Some ''2.0.0'', aup_suppressed_for = Some 100\<rparr>" and mx = 1000
      and st = 0 and d = 100 and v = "''2.0.0''" and now = 120
      and h = "[Announce ''2.0.0'', Observe True True 10, Observe True True 110]"]
  by (simp add: gate_after_def gate_new_at_def announce_def gate_observe_def target_suppressed_def
      ready_def)

lemma target_suppressed_later:
  "\<not> target_suppressed t g \<Longrightarrow> t \<le> now \<Longrightarrow> \<not> target_suppressed now (g\<lparr>gate_idle_since := x\<rparr>)"
  by (cases "gate_suppressed_until g") (auto simp: target_suppressed_def)

lemma gate_idle_kept:
  assumes "list_all (\<lambda>c. c = Announce v \<or> (\<exists>now. c = Observe True True now \<and> \<not> target_suppressed now g)) h"
    and "gate_target g = Some v" and "gate_idle_since g = Some t" and "gate_policy g \<noteq> None"
  shows "fold gate_apply h g = g"
  using assms
proof (induction h)
  case (Cons c h)
  then have "gate_apply c g = g" by (auto simp: announce_def gate_observe_def)
  with Cons show ?case by simp
qed simp

text \<open>
  Liveness of the gate: from the first idle observation that is not suppressed, whatever
  repetitions of the same notice and further idle observations follow, the gate is ready as soon
  as the quiet period has passed; repeating a notice never defers the hand-over.
\<close>

theorem gate_ready_after_quiet:
  assumes "gate_policy g = Some policy" and "gate_target g = Some v"
    and "gate_idle_since g = None" and "\<not> target_suppressed t g"
    and "list_all (\<lambda>c. c = Announce v \<or> (\<exists>now. c = Observe True True now \<and> t \<le> now)) h"
    and "aup_quiet_period policy \<le> now - t"
  shows "ready now (fold gate_apply (Observe True True t # h) g) = Some v"
proof -
  let ?g = "g\<lparr>gate_idle_since := Some t\<rparr>"
  have start: "gate_apply (Observe True True t) g = ?g"
    using assms by (simp add: gate_observe_def)
  have "list_all (\<lambda>c. c = Announce v \<or> (\<exists>now. c = Observe True True now \<and> \<not> target_suppressed now ?g)) h"
    using assms(5) by (rule list.pred_mono_strong)
      (use assms(4) in \<open>blast dest: target_suppressed_later\<close>)
  then have "fold gate_apply h ?g = ?g"
    by (rule gate_idle_kept) (use assms in auto)
  then show ?thesis using start assms by (simp add: ready_def)
qed

theorem gate_ready_after_quiet_witness:
  "ready 20 (fold gate_apply
      (Observe True True 10 # [Announce ''2.0.0'', Observe True True 12])
      \<lparr>gate_policy = Some \<lparr>aup_quiet_period = 5, aup_suppressed_version = None,
                           aup_suppressed_for = None\<rparr>,
       gate_target = Some ''2.0.0'', gate_idle_since = None, gate_suppressed_until = None\<rparr>)
    = Some ''2.0.0''"
  by (rule gate_ready_after_quiet [where policy = "\<lparr>aup_quiet_period = 5,
        aup_suppressed_version = None, aup_suppressed_for = None\<rparr>"])
     (simp_all add: target_suppressed_def)

end
