(* ===== verification/Status.thy ===== *)
theory Status
  imports Protocol
begin

text \<open>
  The observable status (\<open>crates/supervisor-core/src/status.rs\<close>): the snapshot, the optional
  channel that carries it, and the two live operator flags. \<open>watch::Sender::send_modify\<close> applies
  a function to the value the channel holds; without a channel an update does nothing. The log
  lines are output only and are not modelled.
\<close>

section \<open>Status types\<close>

datatype connection_state = Disconnected | Connecting | Reconnecting | Connected | Registered

datatype job_phase = Downloading | Rendering | Uploading | Done | Failed | Canceled

record job_status =
  js_id :: string
  js_tier :: string
  js_progress :: f64
  js_phase :: job_phase

record node_identity =
  ni_chip :: string
  ni_platform :: string
  ni_protocol_version :: u32
  ni_supervisor_version :: string

definition from_register_fields :: "string \<Rightarrow> string \<Rightarrow> string \<Rightarrow> node_identity" where
  "from_register_fields chip pf sv =
     \<lparr>ni_chip = chip, ni_platform = pf, ni_protocol_version = PROTOCOL_VERSION,
      ni_supervisor_version = sv\<rparr>"

record supervisor_status =
  ss_connection :: connection_state
  ss_dispatch_url :: "string option"
  ss_node_identity :: "node_identity option"
  ss_current_job :: "job_status option"
  ss_jobs_completed :: u64
  ss_jobs_failed :: u64
  ss_jobs_canceled :: u64
  ss_jobs_purge_pending :: u32
  ss_last_error :: "string option"
  ss_allow_real_jobs :: bool
  ss_auto_upgrade_enabled :: bool
  ss_update_available :: "string option"

definition default_status :: supervisor_status where
  "default_status = \<lparr>ss_connection = Disconnected, ss_dispatch_url = None,
     ss_node_identity = None, ss_current_job = None, ss_jobs_completed = 0, ss_jobs_failed = 0,
     ss_jobs_canceled = 0, ss_jobs_purge_pending = 0, ss_last_error = None,
     ss_allow_real_jobs = False, ss_auto_upgrade_enabled = False, ss_update_available = None\<rparr>"

section \<open>The observability bundle\<close>

record observability =
  status_tx :: "supervisor_status option"
  allow_flag :: bool
  auto_upgrade_flag :: bool

definition default_observability :: observability where
  "default_observability = \<lparr>status_tx = None, allow_flag = False, auto_upgrade_flag = False\<rparr>"

definition channels :: "supervisor_status \<Rightarrow> observability" where
  "channels initial = \<lparr>status_tx = Some initial, allow_flag = False, auto_upgrade_flag = False\<rparr>"

definition update_status ::
    "(supervisor_status \<Rightarrow> supervisor_status) \<Rightarrow> observability \<Rightarrow> observability" where
  "update_status f obs = obs\<lparr>status_tx := map_option f (status_tx obs)\<rparr>"

definition borrow_status :: "observability \<Rightarrow> supervisor_status" where
  "borrow_status obs = (case status_tx obs of Some s \<Rightarrow> s | None \<Rightarrow> default_status)"

definition allows_real_jobs :: "observability \<Rightarrow> bool" where
  "allows_real_jobs obs = allow_flag obs"

definition set_allow_real_jobs :: "bool \<Rightarrow> observability \<Rightarrow> observability" where
  "set_allow_real_jobs v obs =
     update_status (\<lambda>s. s\<lparr>ss_allow_real_jobs := v\<rparr>) (obs\<lparr>allow_flag := v\<rparr>)"

definition auto_upgrade_enabled :: "observability \<Rightarrow> bool" where
  "auto_upgrade_enabled obs = auto_upgrade_flag obs"

definition set_auto_upgrade_enabled :: "bool \<Rightarrow> observability \<Rightarrow> observability" where
  "set_auto_upgrade_enabled v obs =
     update_status (\<lambda>s. s\<lparr>ss_auto_upgrade_enabled := v\<rparr>) (obs\<lparr>auto_upgrade_flag := v\<rparr>)"

section \<open>Facts\<close>

lemma update_status_flags [simp]:
  "allow_flag (update_status f obs) = allow_flag obs"
  "auto_upgrade_flag (update_status f obs) = auto_upgrade_flag obs"
  by (simp_all add: update_status_def)

lemma update_status_silent [simp]: "status_tx obs = None \<Longrightarrow> update_status f obs = obs"
  by (cases obs) (simp add: update_status_def)

lemma update_status_comp:
  "update_status g (update_status f obs) = update_status (\<lambda>s. g (f s)) obs"
  by (simp add: update_status_def option.map_comp comp_def)

lemma update_status_attached [simp]:
  "(status_tx (update_status f obs) = None) = (status_tx obs = None)"
  by (simp add: update_status_def)

text \<open>With a channel, the live flag and the status the operator reads agree after every set.\<close>

definition flags_shown :: "observability \<Rightarrow> bool" where
  "flags_shown obs = (case status_tx obs of None \<Rightarrow> True
     | Some s \<Rightarrow> ss_allow_real_jobs s = allow_flag obs
               \<and> ss_auto_upgrade_enabled s = auto_upgrade_flag obs)"

lemma flags_shown_set [inv_rules]:
  "flags_shown obs \<Longrightarrow> flags_shown (set_allow_real_jobs v obs)"
  "flags_shown obs \<Longrightarrow> flags_shown (set_auto_upgrade_enabled v obs)"
  by (auto simp: flags_shown_def set_allow_real_jobs_def set_auto_upgrade_enabled_def
      update_status_def split: option.splits)

end
