(* ===== verification/Purge.thy ===== *)
theory Purge
  imports Dr_Base
begin

text \<open>
  The purge rule (\<open>crates/supervisor-core/src/purge.rs\<close>): the bounded record of failed purges,
  removal with retries, the exclusive creation of a job's working directory and its removal on
  drop. The file system is a map from paths to permission bits (what exists, nothing else); what
  \<open>remove_dir_all\<close> answers on each attempt and what the clock reads are arguments. The mutex
  around the record is never poisoned: no code panics while it holds the lock.
\<close>

section \<open>The record of failed purges\<close>

type_synonym path = "string list"

record purge_failure =
  pf_path :: path
  pf_error :: string
  pf_attempts :: u32

definition MAX_RECORDED_PURGE_FAILURES :: nat where "MAX_RECORDED_PURGE_FAILURES = 64"
definition PURGE_ATTEMPTS :: nat where "PURGE_ATTEMPTS = 3"
definition PURGE_RETRY_BACKOFF :: duration where "PURGE_RETRY_BACKOFF = millis 250"

text \<open>\<open>*existing = failure\<close> for the first entry with the same path.\<close>

fun replace_first :: "purge_failure \<Rightarrow> purge_failure list \<Rightarrow> purge_failure list" where
  "replace_first f [] = []"
| "replace_first f (g # gs) = (if pf_path g = pf_path f then f # gs else g # replace_first f gs)"

definition record_purge_failure :: "purge_failure \<Rightarrow> purge_failure list \<Rightarrow> purge_failure list" where
  "record_purge_failure f l =
     (if pf_path f \<in> set (map pf_path l) then replace_first f l
      else (if MAX_RECORDED_PURGE_FAILURES \<le> length l then tl l else l) @ [f])"

definition clear_purge_failure :: "path \<Rightarrow> purge_failure list \<Rightarrow> purge_failure list" where
  "clear_purge_failure p l = filter (\<lambda>f. pf_path f \<noteq> p) l"

definition outstanding_purge_failures :: "purge_failure list \<Rightarrow> purge_failure list" where
  "outstanding_purge_failures l = l"

section \<open>Removal with retries\<close>

datatype rm_result = Removed | RmNotFound | RmError string

text \<open>
  \<open>purge_loop rm n last calls\<close>: the attempts left are \<open>PURGE_ATTEMPTS - n + 1\<close>; \<open>rm n\<close> is what
  attempt \<open>n\<close> answers. The result is the error, if any, with the number of removal calls made and
  the time slept.
\<close>

fun purge_loop :: "(nat \<Rightarrow> rm_result) \<Rightarrow> nat list \<Rightarrow> string option \<Rightarrow> nat \<Rightarrow> duration
    \<Rightarrow> string option \<times> nat \<times> duration" where
  "purge_loop rm [] last_err calls slept = (last_err, calls, slept)"
| "purge_loop rm (attempt # rest) last_err calls slept =
     (case rm attempt of
        Removed \<Rightarrow> (None, Suc calls, slept)
      | RmNotFound \<Rightarrow> (None, Suc calls, slept)
      | RmError e \<Rightarrow> purge_loop rm rest (Some e) (Suc calls)
                      (if attempt < PURGE_ATTEMPTS then slept + PURGE_RETRY_BACKOFF else slept))"

definition remove_dir_all_with_retry :: "(nat \<Rightarrow> rm_result) \<Rightarrow> string option \<times> nat \<times> duration" where
  "remove_dir_all_with_retry rm = purge_loop rm [1..<Suc PURGE_ATTEMPTS] None 0 0"

section \<open>Working directories\<close>

type_synonym dirs = "path \<Rightarrow> nat option"

datatype mk_result = MkOk dirs | MkExists | MkErr string

definition private_mode :: nat where "private_mode = 448"

text \<open>\<open>mk_err\<close> is the error the operating system raises for a free path, if any.\<close>

definition create_private_dir :: "(path \<Rightarrow> string option) \<Rightarrow> path \<Rightarrow> dirs \<Rightarrow> mk_result" where
  "create_private_dir mk_err p fs =
     (if fs p \<noteq> None then MkExists
      else (case mk_err p of Some e \<Rightarrow> MkErr e | None \<Rightarrow> MkOk (fs(p \<mapsto> private_mode))))"

definition workdir_name :: "string \<Rightarrow> nat \<Rightarrow> nat \<Rightarrow> nat \<Rightarrow> string" where
  "workdir_name pfx pid nanos unique =
     pfx @ ''-'' @ show_nat pid @ ''-'' @ show_nat nanos @ ''-'' @ show_nat unique"

text \<open>
  \<open>nanos i\<close> is the clock at the \<open>i\<close>-th try. \<open>COUNTER.fetch_add\<close> wraps at 64 bits.
\<close>

datatype io_error = AlreadyExists | IoOther string

fun workdir_loop :: "(path \<Rightarrow> string option) \<Rightarrow> path \<Rightarrow> string \<Rightarrow> nat \<Rightarrow> (nat \<Rightarrow> nat) \<Rightarrow> nat list
    \<Rightarrow> u64 \<Rightarrow> dirs \<Rightarrow> (io_error + path) \<times> u64 \<times> dirs" where
  "workdir_loop mk_err tmp pfx pid nanos [] c fs = (Inl AlreadyExists, c, fs)"
| "workdir_loop mk_err tmp pfx pid nanos (i # rest) c fs =
     (let p = tmp @ [workdir_name pfx pid (nanos i) (unat c)]
      in case create_private_dir mk_err p fs of
           MkOk fs' \<Rightarrow> (Inr p, c + 1, fs')
         | MkExists \<Rightarrow> workdir_loop mk_err tmp pfx pid nanos rest (c + 1) fs
         | MkErr e \<Rightarrow> (Inl (IoOther e), c + 1, fs))"

definition workdir_new :: "(path \<Rightarrow> string option) \<Rightarrow> path \<Rightarrow> string \<Rightarrow> nat \<Rightarrow> (nat \<Rightarrow> nat)
    \<Rightarrow> u64 \<Rightarrow> dirs \<Rightarrow> (io_error + path) \<times> u64 \<times> dirs" where
  "workdir_new mk_err tmp pfx pid nanos c fs =
     workdir_loop mk_err tmp pfx pid nanos [0..<8] c fs"

text \<open>\<open>WorkDir::drop\<close>: a removal that succeeds takes the tree away, one that fails is recorded.\<close>

definition under :: "path \<Rightarrow> path \<Rightarrow> bool" where
  "under p q = (take (length p) q = p)"

definition remove_tree :: "path \<Rightarrow> dirs \<Rightarrow> dirs" where
  "remove_tree p fs = (\<lambda>q. if under p q then None else fs q)"

definition workdir_drop :: "(nat \<Rightarrow> rm_result) \<Rightarrow> path \<Rightarrow> purge_failure list \<Rightarrow> dirs
    \<Rightarrow> purge_failure list \<times> dirs" where
  "workdir_drop rm p l fs =
     (case fst (remove_dir_all_with_retry rm) of
        Some e \<Rightarrow> (record_purge_failure
                     \<lparr>pf_path = p, pf_error = e, pf_attempts = of_nat PURGE_ATTEMPTS\<rparr> l, fs)
      | None \<Rightarrow> (clear_purge_failure p l, remove_tree p fs))"

section \<open>The record as a bounded ledger\<close>

text \<open>
  What the surfaces and the sweep rely on: the ledger shows at most one entry per path, never
  more than its bound, a recorded path is shown, a cleared one is not, and clearing one path
  leaves the others.
\<close>

locale failure_ledger =
  fixes record_f :: "'f \<Rightarrow> 'l \<Rightarrow> 'l"
    and clear_f :: "'p \<Rightarrow> 'l \<Rightarrow> 'l"
    and paths :: "'l \<Rightarrow> 'p list"
    and path_of :: "'f \<Rightarrow> 'p"
    and cap :: nat
  assumes cap_pos: "0 < cap"
    and record_shown: "path_of f \<in> set (paths (record_f f l))"
    and record_paths: "set (paths (record_f f l)) \<subseteq> insert (path_of f) (set (paths l))"
    and record_distinct: "distinct (paths l) \<Longrightarrow> distinct (paths (record_f f l))"
    and record_bounded: "length (paths l) \<le> cap \<Longrightarrow> length (paths (record_f f l)) \<le> cap"
    and clear_paths: "paths (clear_f p l) = filter (\<lambda>q. q \<noteq> p) (paths l)"
begin

definition ledger_ok :: "'l \<Rightarrow> bool" where
  "ledger_ok l \<longleftrightarrow> distinct (paths l) \<and> length (paths l) \<le> cap"

lemma ok_record: "ledger_ok l \<Longrightarrow> ledger_ok (record_f f l)"
  by (simp add: ledger_ok_def record_distinct record_bounded)

lemma ok_clear: "ledger_ok l \<Longrightarrow> ledger_ok (clear_f p l)"
  by (auto simp: ledger_ok_def clear_paths intro: le_trans [OF length_filter_le])

lemma clear_gone: "p \<notin> set (paths (clear_f p l))"
  by (simp add: clear_paths)

lemma clear_keeps: "q \<noteq> p \<Longrightarrow> q \<in> set (paths (clear_f p l)) \<longleftrightarrow> q \<in> set (paths l)"
  by (simp add: clear_paths)

text \<open>A reclaim pass over the shown paths leaves exactly the paths it could not reclaim.\<close>

lemma fold_clear_paths:
  "paths (fold (\<lambda>p l. if ok p then clear_f p l else l) ps l)
     = filter (\<lambda>q. \<not> (q \<in> set ps \<and> ok q)) (paths l)"
proof (induction ps arbitrary: l)
  case (Cons p ps)
  then show ?case
    by (cases "ok p") (auto simp: clear_paths intro!: filter_cong)
qed simp

end

lemma replace_first_paths: "map pf_path (replace_first f l) = map pf_path l"
  by (induction l) auto

lemma replace_first_mem: "pf_path f \<in> set (map pf_path l) \<Longrightarrow> f \<in> set (replace_first f l)"
  by (induction l) auto

lemma record_mem: "f \<in> set (record_purge_failure f l)"
  using replace_first_mem [of f l] by (auto simp: record_purge_failure_def)

lemma record_paths_cases:
  "map pf_path (record_purge_failure f l) =
     (if pf_path f \<in> set (map pf_path l) then map pf_path l
      else (if MAX_RECORDED_PURGE_FAILURES \<le> length l then tl (map pf_path l)
            else map pf_path l) @ [pf_path f])"
  by (simp add: record_purge_failure_def replace_first_paths map_tl)

lemma set_tl_subset: "set (tl xs) \<subseteq> set xs"
  by (cases xs) auto

interpretation purge_ledger: failure_ledger record_purge_failure clear_purge_failure
    "map pf_path" pf_path MAX_RECORDED_PURGE_FAILURES
proof unfold_locales
  fix f :: purge_failure and l :: "purge_failure list" and p :: path
  show "0 < MAX_RECORDED_PURGE_FAILURES" by (simp add: MAX_RECORDED_PURGE_FAILURES_def)
  show "pf_path f \<in> set (map pf_path (record_purge_failure f l))"
    using record_mem [of f l] by auto
  show "set (map pf_path (record_purge_failure f l)) \<subseteq> insert (pf_path f) (set (map pf_path l))"
    using set_tl_subset [of "map pf_path l"] by (auto simp only: record_paths_cases split: if_splits) auto
  show "distinct (map pf_path (record_purge_failure f l))" if "distinct (map pf_path l)"
    using that set_tl_subset [of "map pf_path l"]
    by (auto simp only: record_paths_cases distinct_append distinct_tl split: if_splits) auto
  show "length (map pf_path (record_purge_failure f l)) \<le> MAX_RECORDED_PURGE_FAILURES"
    if "length (map pf_path l) \<le> MAX_RECORDED_PURGE_FAILURES"
    using that by (auto simp only: record_paths_cases length_append length_tl length_map
        MAX_RECORDED_PURGE_FAILURES_def split: if_splits) auto
  show "map pf_path (clear_purge_failure p l) = filter (\<lambda>q. q \<noteq> p) (map pf_path l)"
    by (simp add: clear_purge_failure_def filter_map comp_def)
qed

text \<open>The operations the process applies to its record, in the order it applies them.\<close>

datatype ledger_op = RecordOp purge_failure | ClearOp path

definition ledger_step :: "ledger_op \<Rightarrow> purge_failure list \<Rightarrow> purge_failure list" where
  "ledger_step op l = (case op of RecordOp f \<Rightarrow> record_purge_failure f l
                        | ClearOp p \<Rightarrow> clear_purge_failure p l)"

lemma ledger_ok_step [inv_rules]:
  "purge_ledger.ledger_ok l \<Longrightarrow> purge_ledger.ledger_ok (ledger_step op l)"
  by (cases op) (simp_all add: ledger_step_def purge_ledger.ok_record purge_ledger.ok_clear)

lemma ledger_ok_fold: "purge_ledger.ledger_ok l \<Longrightarrow> purge_ledger.ledger_ok (fold ledger_step ops l)"
  by (induction ops arbitrary: l) (auto intro: inv_rules)

text \<open>
  Whatever failures are recorded and cleared over the life of the process, in whatever order,
  the record shown to the operator never has two entries for one path and never more than 64.
\<close>

theorem purge_record_bounded_distinct:
  "distinct (map pf_path (outstanding_purge_failures (fold ledger_step ops [])))
   \<and> length (outstanding_purge_failures (fold ledger_step ops [])) \<le> 64"
proof -
  have "purge_ledger.ledger_ok (fold ledger_step ops [])"
    by (rule ledger_ok_fold) (simp add: purge_ledger.ledger_ok_def)
  then have "distinct (map pf_path (fold ledger_step ops []))
      \<and> length (map pf_path (fold ledger_step ops [])) \<le> MAX_RECORDED_PURGE_FAILURES"
    by (simp only: purge_ledger.ledger_ok_def)
  then show ?thesis
    by (simp add: outstanding_purge_failures_def MAX_RECORDED_PURGE_FAILURES_def)
qed

section \<open>Removal: at most three attempts\<close>

definition rm_failed :: "rm_result \<Rightarrow> bool" where
  "rm_failed r = (case r of RmError _ \<Rightarrow> True | _ \<Rightarrow> False)"

lemma remove_unfold:
  "remove_dir_all_with_retry rm =
     (case rm 1 of RmError e1 \<Rightarrow>
        (case rm 2 of RmError e2 \<Rightarrow>
           (case rm 3 of RmError e3 \<Rightarrow> (Some e3, 3, millis 500) | _ \<Rightarrow> (None, 3, millis 500))
         | _ \<Rightarrow> (None, 2, millis 250))
      | _ \<Rightarrow> (None, 1, 0))"
proof -
  have "[1..<Suc PURGE_ATTEMPTS] = [1, 2, 3]" by (simp add: PURGE_ATTEMPTS_def upt_rec)
  then show ?thesis
    by (simp add: remove_dir_all_with_retry_def PURGE_ATTEMPTS_def PURGE_RETRY_BACKOFF_def
        split: rm_result.splits)
qed

text \<open>
  A removal reports failure exactly when all three attempts failed, with the last attempt's
  error; it stops at the first attempt that removed the tree or found nothing, and pauses 250 ms
  between two attempts, never after the last.
\<close>

theorem remove_with_retry_outcome:
  "(case remove_dir_all_with_retry rm of (err, calls, slept) \<Rightarrow>
      1 \<le> calls \<and> calls \<le> 3 \<and> slept = millis 250 * (calls - 1)
      \<and> list_all (\<lambda>i. rm_failed (rm i)) [1..<calls]
      \<and> (case err of None \<Rightarrow> \<not> rm_failed (rm calls)
         | Some e \<Rightarrow> calls = 3 \<and> rm 3 = RmError e))"
  by (simp add: remove_unfold rm_failed_def upt_rec numeral_2_eq_2 numeral_3_eq_3
      split: rm_result.splits)

section \<open>A fresh directory for every job\<close>

lemma workdir_loop_result:
  "workdir_loop mk_err tmp pfx pid nanos is c fs = (r, c', fs') \<Longrightarrow>
     (case r of
        Inl e \<Rightarrow> fs' = fs
      | Inr p \<Rightarrow> fs p = None \<and> fs' = fs(p \<mapsto> private_mode)
               \<and> (\<exists>i\<in>set is. \<exists>k. p = tmp @ [workdir_name pfx pid (nanos i) (unat (k::u64))]))"
proof (induction "is" arbitrary: c)
  case Nil
  then show ?case by auto
next
  case (Cons i rest)
  let ?p = "tmp @ [workdir_name pfx pid (nanos i) (unat c)]"
  show ?case
  proof (cases "create_private_dir mk_err ?p fs")
    case (MkOk fs1)
    then have "fs ?p = None \<and> fs1 = fs(?p \<mapsto> private_mode)"
      by (auto simp: create_private_dir_def split: if_splits option.splits)
    moreover have "r = Inr ?p \<and> fs' = fs1" using Cons.prems MkOk by (auto simp: Let_def)
    ultimately show ?thesis by auto
  next
    case MkExists
    then have "workdir_loop mk_err tmp pfx pid nanos rest (c + 1) fs = (r, c', fs')"
      using Cons.prems by (simp add: Let_def)
    from Cons.IH [OF this] show ?thesis by (auto split: sum.splits)
  next
    case (MkErr e)
    then show ?thesis using Cons.prems by (auto simp: Let_def)
  qed
qed

text \<open>
  Creating a job's working directory never adopts a directory that was there: either it
  answers a path that did not exist before, now owner-only and the only change to the file
  system, or it answers an error and has changed nothing. It tries at most eight names.
\<close>

theorem workdir_new_exclusive:
  "(case workdir_new mk_err tmp pfx pid nanos c fs of (r, c', fs') \<Rightarrow>
      (case r of
         Inl e \<Rightarrow> fs' = fs
       | Inr p \<Rightarrow> fs p = None \<and> fs' = fs(p \<mapsto> private_mode)
               \<and> (\<exists>i<8. \<exists>k. p = tmp @ [workdir_name pfx pid (nanos i) (unat (k::u64))])))"
proof -
  obtain r c' fs' where w: "workdir_new mk_err tmp pfx pid nanos c fs = (r, c', fs')"
    by (metis prod_cases3)
  then have "workdir_loop mk_err tmp pfx pid nanos [0..<8] c fs = (r, c', fs')"
    by (simp add: workdir_new_def)
  from workdir_loop_result [OF this] w show ?thesis
    by (fastforce split: sum.splits)
qed

text \<open>The exclusive creation takes the first free name among the next eight counter values.\<close>

lemma workdir_loop_free:
  assumes "\<forall>p. mk_err p = None"
    and "i \<in> set is"
    and "\<forall>k. fs (tmp @ [workdir_name pfx pid (nanos i) k]) = None"
  shows "\<exists>p. fst (workdir_loop mk_err tmp pfx pid nanos is c fs) = Inr p"
  using assms
proof (induction "is" arbitrary: c)
  case (Cons j rest)
  then show ?case
    by (cases "fs (tmp @ [workdir_name pfx pid (nanos j) (unat c)])")
       (auto simp: create_private_dir_def Let_def)
qed simp

section \<open>The guard's drop\<close>

lemma clear_mem: "p \<notin> set (map pf_path (clear_purge_failure p l))"
  using purge_ledger.clear_gone .

text \<open>
  C21: When a working directory's guard is dropped, either nothing is left of the tree, the record
  no longer names it and nothing outside it changed, or all three attempts failed and the record
  shows its path with the error, for the operator and the later sweep.
\<close>

theorem workdir_drop_gone_or_recorded:
  "(case workdir_drop rm p l fs of (l', fs') \<Rightarrow>
      ((\<forall>q. fs' q = (if under p q then None else fs q)) \<and> p \<notin> set (map pf_path l')
         \<and> list_ex (\<lambda>n. \<not> rm_failed (rm n)) [1, 2, 3])
      \<or> (fs' = fs
         \<and> (\<exists>e. rm 3 = RmError e \<and> \<lparr>pf_path = p, pf_error = e, pf_attempts = 3\<rparr> \<in> set l')
         \<and> list_all (\<lambda>n. rm_failed (rm n)) [1, 2, 3]))"
  using clear_mem [of p l]
  by (auto simp: workdir_drop_def remove_unfold rm_failed_def remove_tree_def PURGE_ATTEMPTS_def
      intro: record_mem split: rm_result.splits)

end
