(* ===== verification/Session.thy ===== *)
theory Session
  imports Job Gate Status Purge "HOL-Library.Multiset"
begin

text \<open>
  The event loop of one connection (\<open>crates/supervisor-core/src/connection.rs\<close>, the loop of
  \<open>run_session\<close>), one definition per arm of its \<open>select!\<close>. A turn of the loop is a record of what
  the outside answers during it: what is ready, what a send returns, what awaiting a task
  returns, what the clock reads, what the operator has toggled and what the tasks have put on the
  channel since the last turn. \<open>session_turn\<close> takes the arms in the order of the \<open>biased\<close>
  keyword. The trace is a ghost: it lists what the session sent, spawned, signalled, joined or
  released, in order. Log lines are output only.
\<close>

section \<open>Configuration, state and inputs\<close>

record connection_config =
  cc_dispatch_url :: string
  cc_token :: string
  cc_heartbeat_interval :: duration
  cc_max_connect_attempts :: u32
  cc_connect_retry_delay :: duration
  cc_heartbeat_limit :: "u32 option"
  cc_allow_real_jobs :: bool
  cc_reconnect :: bool
  cc_reconnect_backoff_base :: duration
  cc_reconnect_backoff_max :: duration
  cc_auto_upgrade :: "auto_upgrade_policy option"

definition config_new :: "string \<Rightarrow> string \<Rightarrow> connection_config" where
  "config_new url token = \<lparr>cc_dispatch_url = url, cc_token = token,
     cc_heartbeat_interval = secs 20, cc_max_connect_attempts = 15,
     cc_connect_retry_delay = secs 1, cc_heartbeat_limit = None, cc_allow_real_jobs = False,
     cc_reconnect = True, cc_reconnect_backoff_base = secs 1,
     cc_reconnect_backoff_max = secs 60, cc_auto_upgrade = None\<rparr>"

datatype disconnect =
    DShutdown | DHeartbeatLimit | DUpgradeRequired | DAutoUpgrade string | DAbnormal | DClean

datatype event =
    Sent worker_message
  | SentClose
  | Consumed "task option" worker_message
  | Spawned task job_assign_message
  | CancelSent task
  | Joined task "job_outcome option"
  | Released task
  | SweptCache "string list"

text \<open>
  The channel's messages carry a ghost tag: the task that sent one, or nothing for a rejection the
  loop queued itself.
\<close>

record session =
  ses_in_flight :: "in_flight_job option"
  ses_canceled :: "canceled_job option"
  ses_just_canceled :: "canceled_job option"
  ses_draining :: "in_flight_job list"
  ses_announced :: "path list"
  ses_heartbeats :: u32
  ses_queue :: "(task option \<times> worker_message) list"
  ses_gate :: auto_upgrade_gate
  ses_protected :: "string list"
  ses_pending :: "job_canceled_ack_message list"
  ses_obs :: observability
  ses_next :: task
  ses_trace :: "event list"

definition session_start :: "instant \<Rightarrow> connection_config \<Rightarrow> instant \<Rightarrow> string list
    \<Rightarrow> job_canceled_ack_message list \<Rightarrow> observability \<Rightarrow> session" where
  "session_start max_instant cfg now protected_keys pending obs =
     \<lparr>ses_in_flight = None, ses_canceled = None, ses_just_canceled = None, ses_draining = [],
      ses_announced = [], ses_heartbeats = 0, ses_queue = [],
      ses_gate = gate_new_at max_instant (cc_auto_upgrade cfg) now,
      ses_protected = protected_keys, ses_pending = pending, ses_obs = obs, ses_next = 0,
      ses_trace = []\<rparr>"

datatype operator_op = SetAllow bool | SetAutoUpgrade bool

fun operator_apply :: "operator_op \<Rightarrow> observability \<Rightarrow> observability" where
  "operator_apply (SetAllow v) obs = set_allow_real_jobs v obs"
| "operator_apply (SetAutoUpgrade v) obs = set_auto_upgrade_enabled v obs"

text \<open>
  An item of the socket's stream. The text of a frame is a JSON value, or is not JSON; a close
  frame may carry a reason.
\<close>

datatype stream_item =
    FText "json option" | FClose "string option" | FOther | StreamErr string | StreamEnd

record turn =
  tu_operator :: "operator_op list"
  tu_arrivals :: "(task \<times> worker_message) list"
  tu_shutdown :: bool
  tu_tick :: bool
  tu_heartbeat :: bool
  tu_stream :: "stream_item option"
  tu_now :: instant
  tu_later :: instant
  tu_send_ok :: bool
  tu_finished :: "task \<Rightarrow> bool"
  tu_join :: "task \<Rightarrow> job_outcome option \<times> instant"
  tu_purges :: "purge_failure list"

type_synonym outcome = "session \<times> disconnect option"

definition MAX_DRAINING_TEARDOWNS :: nat where "MAX_DRAINING_TEARDOWNS = 16"

section \<open>Small steps shared by the arms\<close>

definition note_events :: "event list \<Rightarrow> session \<Rightarrow> session" where
  "note_events es s = s\<lparr>ses_trace := ses_trace s @ es\<rparr>"

definition status_update :: "(supervisor_status \<Rightarrow> supervisor_status) \<Rightarrow> session \<Rightarrow> session" where
  "status_update f s = s\<lparr>ses_obs := update_status f (ses_obs s)\<rparr>"

definition set_connection :: "connection_state \<Rightarrow> supervisor_status \<Rightarrow> supervisor_status" where
  "set_connection c st = st\<lparr>ss_connection := c\<rparr>"

definition set_phase :: "job_phase \<Rightarrow> supervisor_status \<Rightarrow> supervisor_status" where
  "set_phase p st =
     st\<lparr>ss_current_job := map_option (\<lambda>j. j\<lparr>js_phase := p\<rparr>) (ss_current_job st)\<rparr>"

definition current_job_count :: "session \<Rightarrow> u32" where
  "current_job_count s = of_bool (ses_in_flight s \<noteq> None)
     + (if length (ses_draining s) < u32_bound then of_nat (length (ses_draining s)) else -1)"

text \<open>\<open>drain_in_flight_jobs\<close>: signal the live job, then await it and every teardown in order.\<close>

fun join_all :: "(task \<Rightarrow> job_outcome option \<times> instant) \<Rightarrow> in_flight_job list \<Rightarrow> session \<Rightarrow> session" where
  "join_all join [] s = s"
| "join_all join (j # js) s =
     (let (out, now) = join (ifj_handle j)
      in join_all join js
           (note_events [Joined (ifj_handle j) out]
             (s\<lparr>ses_pending :=
                 queue_drained_cancel_ack now (drained_ack_context j) out (ses_pending s)\<rparr>)))"

definition drain_in_flight_jobs :: "(task \<Rightarrow> job_outcome option \<times> instant) \<Rightarrow> session \<Rightarrow> session" where
  "drain_in_flight_jobs join s =
     (let s1 = (case ses_in_flight s of
                  None \<Rightarrow> s
                | Some j \<Rightarrow>
                    join_all join [j]
                      (note_events (if ifj_cancel j then [CancelSent (ifj_handle j)] else [])
                        (s\<lparr>ses_in_flight := None\<rparr>)))
      in join_all join (ses_draining s1) (s1\<lparr>ses_draining := []\<rparr>))"

text \<open>The tail of every exit path: show the node disconnected, then drain.\<close>

definition leave :: "turn \<Rightarrow> disconnect \<Rightarrow> session \<Rightarrow> outcome" where
  "leave t d s =
     (drain_in_flight_jobs (tu_join t) (status_update (set_connection Disconnected) s), Some d)"

section \<open>Shutdown, maintenance tick, heartbeat\<close>

definition shutdown_arm :: "turn \<Rightarrow> session \<Rightarrow> outcome" where
  "shutdown_arm t s =
     leave t DShutdown
       (note_events [SentClose]
         (if ses_in_flight s \<noteq> None then status_update (set_phase Canceled) s else s))"

definition session_idle :: "turn \<Rightarrow> session \<Rightarrow> bool" where
  "session_idle t s \<longleftrightarrow>
     ses_in_flight s = None \<and> list_all (\<lambda>j. tu_finished t (ifj_handle j)) (ses_draining s)"

definition tick_arm :: "turn \<Rightarrow> session \<Rightarrow> outcome" where
  "tick_arm t s =
     (let g = gate_observe (auto_upgrade_enabled (ses_obs s)) (session_idle t s) (tu_now t)
                (ses_gate s);
          s1 = s\<lparr>ses_gate := g\<rparr>
      in case ready (tu_now t) g of
           None \<Rightarrow> (s1, None)
         | Some v \<Rightarrow> leave t (DAutoUpgrade v) (note_events [SentClose] s1))"

fun announce_failures :: "u32 \<Rightarrow> purge_failure list \<Rightarrow> session \<Rightarrow> session" where
  "announce_failures n [] s = s"
| "announce_failures n (f # fs) s =
     announce_failures n fs
       (if pf_path f \<in> set (ses_announced s) then s
        else status_update (\<lambda>st. st\<lparr>ss_jobs_purge_pending := n\<rparr>)
               (s\<lparr>ses_announced := ses_announced s @ [pf_path f]\<rparr>))"

definition surface_purges :: "purge_failure list \<Rightarrow> session \<Rightarrow> session" where
  "surface_purges outstanding s =
     (let s1 = announce_failures (of_nat (length outstanding)) outstanding s
      in if outstanding = [] \<and> ses_announced s1 \<noteq> []
         then status_update (\<lambda>st. st\<lparr>ss_jobs_purge_pending := 0\<rparr>) (s1\<lparr>ses_announced := []\<rparr>)
         else s1)"

definition heartbeat_arm :: "connection_config \<Rightarrow> register_message \<Rightarrow> turn \<Rightarrow> session \<Rightarrow> outcome" where
  "heartbeat_arm cfg reg t s =
     (let msg = Heartbeat \<lparr>hb_tenant = reg_tenant reg, hb_current_job_count = current_job_count s\<rparr>;
          s1 = surface_purges (tu_purges t) s
      in if \<not> tu_send_ok t then leave t DAbnormal s1
         else
           let s2 = note_events [Sent msg] s1;
               s3 = s2\<lparr>ses_heartbeats := ses_heartbeats s2 + 1\<rparr>
           in case cc_heartbeat_limit cfg of
                None \<Rightarrow> (s3, None)
              | Some limit \<Rightarrow>
                  (if limit \<le> ses_heartbeats s3
                   then leave t DHeartbeatLimit (note_events [SentClose] s3)
                   else (s3, None)))"

section \<open>Messages from the job task\<close>

fun terminal_of :: "worker_message \<Rightarrow> job_pair option" where
  "terminal_of (JobComplete c) = Some (cmp_job_id c, cmp_attempt c)"
| "terminal_of (JobFailed f) = Some (fld_job_id f, fld_attempt f)"
| "terminal_of _ = None"

fun terminal_outcome :: "worker_message \<Rightarrow> job_outcome" where
  "terminal_outcome (JobFailed f) = OutFailed"
| "terminal_outcome _ = OutComplete"

text \<open>\<open>emit\<close>: what a forwarded frame does to the status.\<close>

fun emit_status :: "worker_message \<Rightarrow> supervisor_status \<Rightarrow> supervisor_status" where
  "emit_status (JobProgress p) st =
     st\<lparr>ss_current_job :=
          map_option (\<lambda>j. j\<lparr>js_progress := prg_progress p\<rparr>) (ss_current_job st)\<rparr>"
| "emit_status (JobComplete c) st =
     st\<lparr>ss_current_job := None, ss_jobs_completed := ss_jobs_completed st + 1\<rparr>"
| "emit_status (JobFailed f) st =
     (case ss_current_job st of
        None \<Rightarrow> st
      | Some job \<Rightarrow>
          (if js_id job = fld_job_id f \<and> js_phase job \<noteq> Canceled
           then st\<lparr>ss_jobs_failed := ss_jobs_failed st + 1\<rparr>
           else if js_id job = fld_job_id f \<and> js_phase job = Canceled
           then st\<lparr>ss_jobs_canceled := ss_jobs_canceled st + 1\<rparr>
           else st)\<lparr>ss_current_job := None\<rparr>)"
| "emit_status _ st = st"

text \<open>A terminal frame of the job in flight: remember and protect its keys, sweep, let it go.\<close>

definition settle_in_flight :: "job_pair \<Rightarrow> session \<Rightarrow> session" where
  "settle_in_flight p s =
     (case ses_in_flight s of
        Some j \<Rightarrow>
          (if frame_is_for (Some (job_pair_of j)) (fst p) (snd p)
           then note_events [SweptCache (ifj_cache_keys j), Released (ifj_handle j)]
                  (s\<lparr>ses_protected := ifj_cache_keys j, ses_in_flight := None\<rparr>)
           else s)
      | None \<Rightarrow> s)"

definition hand_over_cancel :: "job_pair \<Rightarrow> session \<Rightarrow> session" where
  "hand_over_cancel p s =
     (if frame_is_for (map_option canceled_pair (ses_canceled s)) (fst p) (snd p)
      then s\<lparr>ses_just_canceled := ses_canceled s, ses_canceled := None\<rparr> else s)"

text \<open>The join and the acknowledgement after a suppressed failure.\<close>

definition acknowledge_cancel :: "turn \<Rightarrow> session \<Rightarrow> session" where
  "acknowledge_cancel t s =
     (case ses_just_canceled s of
        None \<Rightarrow> s
      | Some c \<Rightarrow>
          (let s1 = s\<lparr>ses_just_canceled := None\<rparr>;
               s2 = (case find_index (\<lambda>j. job_pair_of j = canceled_pair c) (ses_draining s1) of
                       None \<Rightarrow> s1
                     | Some i \<Rightarrow>
                         (let h = ifj_handle (ses_draining s1 ! i)
                          in note_events [Joined h (fst (tu_join t h))]
                               (s1\<lparr>ses_draining := remove_at i (ses_draining s1)\<rparr>)))
           in if tu_send_ok t
              then note_events [Sent (JobCanceledAck (cancel_ack_for (tu_now t) c))] s2
              else s2\<lparr>ses_pending :=
                       queue_pending_cancel_ack (tu_later t) c (ses_pending s2)\<rparr>))"

definition suppress_status :: "bool \<Rightarrow> string \<Rightarrow> supervisor_status \<Rightarrow> supervisor_status" where
  "suppress_status idle jid st =
     (let st1 = st\<lparr>ss_jobs_canceled := ss_jobs_canceled st + 1\<rparr>
      in if idle \<and> (case ss_current_job st1 of Some j \<Rightarrow> js_id j = jid | None \<Rightarrow> False)
         then st1\<lparr>ss_current_job := None\<rparr> else st1)"

definition suppressed :: "worker_message \<Rightarrow> session \<Rightarrow> bool" where
  "suppressed msg s =
     (case terminal_of msg of
        None \<Rightarrow> False
      | Some p \<Rightarrow> frame_is_for (map_option canceled_pair (ses_canceled s)) (fst p) (snd p))"

definition worker_arm :: "turn \<Rightarrow> task option \<Rightarrow> worker_message \<Rightarrow> session \<Rightarrow> outcome" where
  "worker_arm t src msg s0 =
     (let s = note_events [Consumed src msg] s0;
          s1 = (case terminal_of msg of
                  None \<Rightarrow> s | Some p \<Rightarrow> hand_over_cancel p (settle_in_flight p s))
      in if suppressed msg s
         then
           let jid = (case terminal_of msg of Some p \<Rightarrow> fst p | None \<Rightarrow> []);
               s2 = status_update (suppress_status (ses_in_flight s1 = None) jid) s1
           in (if cancel_ack_predicate (terminal_outcome msg) then acknowledge_cancel t s2 else s2,
               None)
         else
           let s2 = status_update (emit_status msg) s1
           in if tu_send_ok t then (note_events [Sent msg] s2, None)
              else leave t DAbnormal s2)"

section \<open>Frames from dispatch\<close>

definition reject_job :: "job_assign_message \<Rightarrow> reject_reason \<Rightarrow> session \<Rightarrow> session" where
  "reject_job a reason s =
     s\<lparr>ses_queue := ses_queue s @ [(None, JobRejected \<lparr>rej_tenant = ja_tenant a,
         rej_job_id = ja_job_id a, rej_attempt = ja_attempt a, rej_reason = reason\<rparr>)]\<rparr>"

definition accept_message :: "job_assign_message \<Rightarrow> worker_message" where
  "accept_message a =
     JobAccepted \<lparr>acc_tenant = ja_tenant a, acc_job_id = ja_job_id a, acc_attempt = ja_attempt a\<rparr>"

fun tier_of :: "job_kind \<Rightarrow> string" where
  "tier_of Standard = ''standard''" | "tier_of Gpu = ''gpu''"

definition spawn_job :: "job_assign_message \<Rightarrow> session \<Rightarrow> session" where
  "spawn_job a s =
     note_events [Spawned (ses_next s) a]
       (s\<lparr>ses_in_flight := Some \<lparr>ifj_job_id = ja_job_id a, ifj_tenant = ja_tenant a,
            ifj_attempt = ja_attempt a, ifj_cancel = True, ifj_cancel_received_at = None,
            ifj_cache_keys = cache_keys_for a, ifj_handle = ses_next s\<rparr>,
          ses_next := Suc (ses_next s)\<rparr>)"

definition assign_arm :: "turn \<Rightarrow> job_assign_message \<Rightarrow> session \<Rightarrow> outcome" where
  "assign_arm t a s =
     (if \<not> allows_real_jobs (ses_obs s) then (reject_job a NotAccepting s, None)
      else if ses_in_flight s \<noteq> None then (reject_job a Busy s, None)
      else
        let s1 = s\<lparr>ses_gate := mark_busy (ses_gate s)\<rparr>;
            s2 = status_update (\<lambda>st. st\<lparr>ss_current_job := Some \<lparr>js_id = ja_job_id a,
                   js_tier = tier_of (ja_kind a), js_progress = 0, js_phase = Downloading\<rparr>\<rparr>) s1
        in if \<not> tu_send_ok t then leave t DAbnormal s2
           else (spawn_job a
                  (status_update (set_phase Rendering) (note_events [Sent (accept_message a)] s2)),
                 None))"

definition cancel_arm :: "turn \<Rightarrow> cancel_message \<Rightarrow> session \<Rightarrow> outcome" where
  "cancel_arm t m s =
     (case ses_in_flight s of
        None \<Rightarrow> (s, None)
      | Some j \<Rightarrow>
          (if ifj_job_id j \<noteq> can_job_id m then (s, None)
           else
             let s1 = s\<lparr>ses_in_flight := None,
                        ses_canceled := Some \<lparr>cj_tenant = ifj_tenant j, cj_job_id = ifj_job_id j,
                          cj_attempt = ifj_attempt j, cj_received_at = tu_now t\<rparr>\<rparr>;
                 s2 = status_update (set_phase Canceled) s1;
                 s3 = note_events ((if ifj_cancel j then [CancelSent (ifj_handle j)] else [])
                        @ [SweptCache (ifj_cache_keys j)]) (s2\<lparr>ses_protected := ifj_cache_keys j\<rparr>);
                 j' = j\<lparr>ifj_cancel_received_at := Some (tu_now t), ifj_cancel := False\<rparr>
             in (if length (ses_draining s3) < MAX_DRAINING_TEARDOWNS
                 then s3\<lparr>ses_draining := ses_draining s3 @ [j']\<rparr>
                 else note_events [Joined (ifj_handle j) (fst (tu_join t (ifj_handle j)))] s3,
                 None)))"

definition update_arm :: "update_available_message \<Rightarrow> session \<Rightarrow> outcome" where
  "update_arm u s =
     (let s1 = status_update
                 (\<lambda>st. st\<lparr>ss_update_available := Some (upd_supervisor_version u)\<rparr>) s
      in (s1\<lparr>ses_gate := announce (upd_supervisor_version u) (ses_gate s1)\<rparr>, None))"

fun server_arm :: "turn \<Rightarrow> server_message \<Rightarrow> session \<Rightarrow> outcome" where
  "server_arm t (JobAssign a) s = assign_arm t a s"
| "server_arm t (Cancel m) s = cancel_arm t m s"
| "server_arm t (UpdateAvailable u) s = update_arm u s"
| "server_arm t (Ping p) s = (s, None)"

definition close_arm :: "turn \<Rightarrow> string option \<Rightarrow> session \<Rightarrow> outcome" where
  "close_arm t reason s =
     (case reason of
        Some r \<Rightarrow>
          (if starts_with r ''upgrade-required'' then leave t DUpgradeRequired s
           else leave t DClean s)
      | None \<Rightarrow> leave t DClean s)"

fun stream_arm :: "turn \<Rightarrow> stream_item \<Rightarrow> session \<Rightarrow> outcome" where
  "stream_arm t (FText None) s = (s, None)"
| "stream_arm t (FText (Some j)) s =
     (case server_of_json j of Inl e \<Rightarrow> (s, None) | Inr m \<Rightarrow> server_arm t m s)"
| "stream_arm t (FClose reason) s = close_arm t reason s"
| "stream_arm t FOther s = (s, None)"
| "stream_arm t (StreamErr e) s =
     leave t DAbnormal
       (status_update (\<lambda>st. st\<lparr>ss_last_error := Some (''WebSocket error: '' @ e)\<rparr>) s)"
| "stream_arm t StreamEnd s = leave t DClean s"

section \<open>One turn of the loop\<close>

definition before_select :: "turn \<Rightarrow> session \<Rightarrow> session" where
  "before_select t s =
     s\<lparr>ses_obs := fold operator_apply (tu_operator t) (ses_obs s),
       ses_queue := ses_queue s @ map (\<lambda>(k, m). (Some k, m)) (tu_arrivals t)\<rparr>"

definition select_arm :: "connection_config \<Rightarrow> register_message \<Rightarrow> turn \<Rightarrow> session \<Rightarrow> outcome" where
  "select_arm cfg reg t s =
     (if tu_shutdown t then shutdown_arm t s
      else if tu_tick t \<and> cc_auto_upgrade cfg \<noteq> None then tick_arm t s
      else if tu_heartbeat t then heartbeat_arm cfg reg t s
      else (case ses_queue s of
              (src, msg) # q \<Rightarrow> worker_arm t src msg (s\<lparr>ses_queue := q\<rparr>)
            | [] \<Rightarrow> (case tu_stream t of Some item \<Rightarrow> stream_arm t item s | None \<Rightarrow> (s, None))))"

definition session_turn :: "connection_config \<Rightarrow> register_message \<Rightarrow> turn \<Rightarrow> session \<Rightarrow> outcome" where
  "session_turn cfg reg t s = select_arm cfg reg t (before_select t s)"

definition run_session_loop :: "connection_config \<Rightarrow> register_message \<Rightarrow> turn list \<Rightarrow> session
    \<Rightarrow> outcome" where
  "run_session_loop cfg reg ts s = run_until (session_turn cfg reg) ts s"

section \<open>Concrete turns\<close>

text \<open>The building blocks of the concrete runs: a turn on which nothing happens, and its variants.\<close>

definition quiet_turn :: turn where
  "quiet_turn = \<lparr>tu_operator = [], tu_arrivals = [], tu_shutdown = False, tu_tick = False,
     tu_heartbeat = False, tu_stream = None, tu_now = secs 100, tu_later = secs 100,
     tu_send_ok = True, tu_finished = (\<lambda>k. False), tu_join = (\<lambda>k. (Some OutFailed, secs 110)),
     tu_purges = []\<rparr>"

definition frame_turn :: "server_message \<Rightarrow> turn" where
  "frame_turn m = quiet_turn\<lparr>tu_stream := Some (FText (Some (server_to_json m)))\<rparr>"

definition task_turn :: "task \<Rightarrow> worker_message \<Rightarrow> turn" where
  "task_turn k m = quiet_turn\<lparr>tu_arrivals := [(k, m)]\<rparr>"

definition allow_turn :: turn where
  "allow_turn = quiet_turn\<lparr>tu_operator := [SetAllow True]\<rparr>"

definition heartbeat_turn :: turn where
  "heartbeat_turn = quiet_turn\<lparr>tu_heartbeat := True\<rparr>"

definition shutdown_turn :: turn where
  "shutdown_turn = quiet_turn\<lparr>tu_shutdown := True\<rparr>"

definition end_turn :: turn where
  "end_turn = quiet_turn\<lparr>tu_stream := Some StreamEnd\<rparr>"

definition job_of :: "string \<Rightarrow> u32 option \<Rightarrow> job_assign_message" where
  "job_of jid att = sample_assign\<lparr>ja_job_id := jid, ja_attempt := att\<rparr>"

definition failed_of :: "string \<Rightarrow> u32 option \<Rightarrow> worker_message" where
  "failed_of jid att = JobFailed \<lparr>fld_tenant = ''driffs'', fld_job_id = jid, fld_attempt = att,
     fld_reason = ''r''\<rparr>"

definition complete_of :: "string \<Rightarrow> u32 option \<Rightarrow> worker_message" where
  "complete_of jid att = JobComplete \<lparr>cmp_tenant = ''driffs'', cmp_job_id = jid,
     cmp_attempt = att, cmp_output_key = ''k'',
     cmp_metrics = \<lparr>met_wall_ms = 1, met_frames = 1, met_output_size_in_bytes = None\<rparr>\<rparr>"

definition cancel_of_job :: "string \<Rightarrow> server_message" where
  "cancel_of_job jid = Cancel \<lparr>can_tenant = ''driffs'', can_job_id = jid\<rparr>"

definition sample_config :: connection_config where
  "sample_config = config_new ''wss://d/ws'' ''t''"

definition sample_register :: register_message where
  "sample_register = \<lparr>reg_tenant = ''driffs'', reg_protocol_version = 2, reg_operator = None,
     reg_platform = Community, reg_chip = ''chip'', reg_ram_gb = 8, reg_supervisor_version = ''1'',
     reg_payload_version = ''1'', reg_capabilities = \<lparr>cap_gpu = False,
       cap_max_concurrent_jobs = None, cap_os = None, cap_arch = None\<rparr>\<rparr>"

definition sample_start :: session where
  "sample_start = session_start (secs 10000) sample_config (secs 10) [] [] (channels default_status)"

lemma job_of_valid [simp]: "assign_valid (job_of jid att)"
  by (simp add: job_of_def assign_valid_def sample_assign_def)

lemma job_of_sel [simp]:
  "ja_job_id (job_of jid att) = jid" "ja_attempt (job_of jid att) = att"
  "ja_tenant (job_of jid att) = ''driffs''" "ja_kind (job_of jid att) = Standard"
  by (simp_all add: job_of_def sample_assign_def)

lemma stream_arm_frame:
  "server_wf m \<Longrightarrow> stream_arm t (FText (Some (server_to_json m))) s = server_arm t m s"
  using server_wire [of m] by (simp del: server_to_json.simps)

lemma cancel_of_job_wf [simp]: "server_wf (cancel_of_job jid)"
  by (simp add: cancel_of_job_def)

lemma run_until_Cons_going:
  "step i s = (s', None) \<Longrightarrow> run_until step (i # is) s = run_until step is s'"
  by simp

lemmas turn_defs = session_turn_def select_arm_def before_select_def quiet_turn_def frame_turn_def
  task_turn_def allow_turn_def heartbeat_turn_def shutdown_turn_def end_turn_def

lemmas arm_defs = worker_arm_def assign_arm_def cancel_arm_def shutdown_arm_def heartbeat_arm_def
  tick_arm_def leave_def drain_in_flight_jobs_def acknowledge_cancel_def settle_in_flight_def
  hand_over_cancel_def spawn_job_def accept_message_def suppressed_def suppress_status_def
  note_events_def status_update_def reject_job_def surface_purges_def current_job_count_def
  close_arm_def update_arm_def

lemmas run_eval = run_session_loop_def turn_defs arm_defs server_wire sample_start_def
  session_start_def sample_config_def config_new_def set_allow_real_jobs_def update_status_def
  channels_def allows_real_jobs_def default_status_def set_connection_def set_phase_def
  failed_of_def complete_of_def gate_new_at_def mark_busy_def cancel_of_job_def job_pair_of_def
  canceled_pair_def cancel_ack_predicate_def queue_drained_cancel_ack_def drained_ack_context_def
  queue_pending_cancel_ack_def MAX_PENDING_CANCEL_ACKS_def MAX_DRAINING_TEARDOWNS_def
  u32_bound_def

end
