(* ===== verification/Session_Own.thy ===== *)
theory Session_Own
  imports Session
begin

text \<open>
  Ownership of job tasks in a session: every task the session ever spawned is at every moment in
  exactly one place (in flight, draining, joined, or released after its pair's terminal frame),
  and a session that returns owns none. The trace predicates state what must have happened before
  an event; \<open>every_event\<close> lifts them to a whole trace.
\<close>

section \<open>Traces\<close>

definition every_event :: "(event list \<Rightarrow> event \<Rightarrow> bool) \<Rightarrow> event list \<Rightarrow> bool" where
  "every_event P tr \<longleftrightarrow> (\<forall>tr1 e tr2. tr = tr1 @ e # tr2 \<longrightarrow> P tr1 e)"

lemma every_event_Nil [simp]: "every_event P []"
  by (simp add: every_event_def)

lemma every_eventD: "every_event P (tr1 @ e # tr2) \<Longrightarrow> P tr1 e"
  unfolding every_event_def by blast

lemma every_event_snoc: "every_event P (tr @ [e]) \<longleftrightarrow> every_event P tr \<and> P tr e"
proof
  assume "every_event P (tr @ [e])"
  then show "every_event P tr \<and> P tr e" by (auto simp: every_event_def)
next
  assume a: "every_event P tr \<and> P tr e"
  show "every_event P (tr @ [e])"
    unfolding every_event_def
  proof (intro allI impI)
    fix tr1 e' tr2
    assume eq: "tr @ [e] = tr1 @ e' # tr2"
    show "P tr1 e'"
    proof (cases tr2 rule: rev_cases)
      case Nil
      with eq a show ?thesis by simp
    next
      case (snoc ys y)
      with eq have "tr = tr1 @ e' # ys" by simp
      with a show ?thesis by (auto simp: every_event_def)
    qed
  qed
qed

lemma every_event_two: "every_event P (tr @ [e, f]) \<longleftrightarrow> every_event P tr \<and> P tr e \<and> P (tr @ [e]) f"
  using every_event_snoc [of P "tr @ [e]" f] by (simp add: every_event_snoc)

lemma every_event_appendI:
  "every_event P tr \<Longrightarrow> (\<And>tr' e. e \<in> set es \<Longrightarrow> P tr' e) \<Longrightarrow> every_event P (tr @ es)"
proof (induction es arbitrary: tr)
  case (Cons e es)
  have "every_event P ((tr @ [e]) @ es)"
    by (rule Cons.IH) (use Cons.prems in \<open>auto simp: every_event_snoc\<close>)
  then show ?case by simp
qed simp

fun spawned_by :: "event \<Rightarrow> task multiset" where
  "spawned_by (Spawned t a) = {#t#}" | "spawned_by _ = {#}"

fun joined_by :: "event \<Rightarrow> task multiset" where
  "joined_by (Joined t out) = {#t#}" | "joined_by _ = {#}"

fun released_by :: "event \<Rightarrow> task multiset" where
  "released_by (Released t) = {#t#}" | "released_by _ = {#}"

definition spawned :: "event list \<Rightarrow> task multiset" where "spawned tr = sum_list (map spawned_by tr)"
definition joined :: "event list \<Rightarrow> task multiset" where "joined tr = sum_list (map joined_by tr)"
definition released :: "event list \<Rightarrow> task multiset" where "released tr = sum_list (map released_by tr)"

lemma tally_simps [simp]:
  "spawned [] = {#}" "joined [] = {#}" "released [] = {#}"
  "spawned (e # tr) = spawned_by e + spawned tr"
  "joined (e # tr) = joined_by e + joined tr"
  "released (e # tr) = released_by e + released tr"
  "spawned (tr @ tr') = spawned tr + spawned tr'"
  "joined (tr @ tr') = joined tr + joined tr'"
  "released (tr @ tr') = released tr + released tr'"
  by (simp_all add: spawned_def joined_def released_def)

lemma in_spawned: "t \<in># spawned tr \<longleftrightarrow> (\<exists>a. Spawned t a \<in> set tr)"
proof (induction tr)
  case (Cons e tr)
  then show ?case by (cases e) auto
qed simp

section \<open>The shared steps leave the job state alone\<close>

lemma note_events_sel [simp]:
  "ses_in_flight (note_events es s) = ses_in_flight s"
  "ses_canceled (note_events es s) = ses_canceled s"
  "ses_just_canceled (note_events es s) = ses_just_canceled s"
  "ses_draining (note_events es s) = ses_draining s"
  "ses_queue (note_events es s) = ses_queue s"
  "ses_pending (note_events es s) = ses_pending s"
  "ses_obs (note_events es s) = ses_obs s"
  "ses_gate (note_events es s) = ses_gate s"
  "ses_next (note_events es s) = ses_next s"
  "ses_protected (note_events es s) = ses_protected s"
  "ses_announced (note_events es s) = ses_announced s"
  "ses_heartbeats (note_events es s) = ses_heartbeats s"
  "ses_trace (note_events es s) = ses_trace s @ es"
  by (simp_all add: note_events_def)

lemma status_update_sel [simp]:
  "ses_in_flight (status_update f s) = ses_in_flight s"
  "ses_canceled (status_update f s) = ses_canceled s"
  "ses_just_canceled (status_update f s) = ses_just_canceled s"
  "ses_draining (status_update f s) = ses_draining s"
  "ses_queue (status_update f s) = ses_queue s"
  "ses_pending (status_update f s) = ses_pending s"
  "ses_obs (status_update f s) = update_status f (ses_obs s)"
  "ses_gate (status_update f s) = ses_gate s"
  "ses_next (status_update f s) = ses_next s"
  "ses_protected (status_update f s) = ses_protected s"
  "ses_announced (status_update f s) = ses_announced s"
  "ses_heartbeats (status_update f s) = ses_heartbeats s"
  "ses_trace (status_update f s) = ses_trace s"
  by (simp_all add: status_update_def)

lemma announce_failures_sel [simp]:
  "ses_in_flight (announce_failures n fs s) = ses_in_flight s"
  "ses_canceled (announce_failures n fs s) = ses_canceled s"
  "ses_just_canceled (announce_failures n fs s) = ses_just_canceled s"
  "ses_draining (announce_failures n fs s) = ses_draining s"
  "ses_queue (announce_failures n fs s) = ses_queue s"
  "ses_pending (announce_failures n fs s) = ses_pending s"
  "ses_next (announce_failures n fs s) = ses_next s"
  "ses_gate (announce_failures n fs s) = ses_gate s"
  "ses_heartbeats (announce_failures n fs s) = ses_heartbeats s"
  "ses_protected (announce_failures n fs s) = ses_protected s"
  "ses_trace (announce_failures n fs s) = ses_trace s"
  by (induction fs arbitrary: s) simp_all

lemma surface_purges_sel [simp]:
  "ses_in_flight (surface_purges fs s) = ses_in_flight s"
  "ses_canceled (surface_purges fs s) = ses_canceled s"
  "ses_just_canceled (surface_purges fs s) = ses_just_canceled s"
  "ses_draining (surface_purges fs s) = ses_draining s"
  "ses_queue (surface_purges fs s) = ses_queue s"
  "ses_pending (surface_purges fs s) = ses_pending s"
  "ses_next (surface_purges fs s) = ses_next s"
  "ses_gate (surface_purges fs s) = ses_gate s"
  "ses_heartbeats (surface_purges fs s) = ses_heartbeats s"
  "ses_protected (surface_purges fs s) = ses_protected s"
  "ses_trace (surface_purges fs s) = ses_trace s"
  by (simp_all add: surface_purges_def Let_def)

lemma before_select_sel [simp]:
  "ses_in_flight (before_select t s) = ses_in_flight s"
  "ses_canceled (before_select t s) = ses_canceled s"
  "ses_just_canceled (before_select t s) = ses_just_canceled s"
  "ses_draining (before_select t s) = ses_draining s"
  "ses_pending (before_select t s) = ses_pending s"
  "ses_next (before_select t s) = ses_next s"
  "ses_gate (before_select t s) = ses_gate s"
  "ses_heartbeats (before_select t s) = ses_heartbeats s"
  "ses_protected (before_select t s) = ses_protected s"
  "ses_trace (before_select t s) = ses_trace s"
  by (simp_all add: before_select_def)

definition joins :: "(task \<Rightarrow> job_outcome option \<times> instant) \<Rightarrow> in_flight_job list \<Rightarrow> event list" where
  "joins join js = map (\<lambda>j. Joined (ifj_handle j) (fst (join (ifj_handle j)))) js"

lemma join_all_sel [simp]:
  "ses_in_flight (join_all join js s) = ses_in_flight s"
  "ses_canceled (join_all join js s) = ses_canceled s"
  "ses_just_canceled (join_all join js s) = ses_just_canceled s"
  "ses_draining (join_all join js s) = ses_draining s"
  "ses_queue (join_all join js s) = ses_queue s"
  "ses_obs (join_all join js s) = ses_obs s"
  "ses_next (join_all join js s) = ses_next s"
  "ses_protected (join_all join js s) = ses_protected s"
  "ses_trace (join_all join js s) = ses_trace s @ joins join js"
  by (induction js arbitrary: s) (simp_all add: joins_def split: prod.splits)

definition cancel_events :: "session \<Rightarrow> event list" where
  "cancel_events s = (case ses_in_flight s of None \<Rightarrow> []
     | Some j \<Rightarrow> (if ifj_cancel j then [CancelSent (ifj_handle j)] else []))"

definition in_flight_list :: "session \<Rightarrow> in_flight_job list" where
  "in_flight_list s = (case ses_in_flight s of None \<Rightarrow> [] | Some j \<Rightarrow> [j])"

definition owned_jobs :: "session \<Rightarrow> in_flight_job list" where
  "owned_jobs s = in_flight_list s @ ses_draining s"

definition owned :: "session \<Rightarrow> task multiset" where
  "owned s = mset (map ifj_handle (owned_jobs s))"

lemma drain_sel [simp]:
  "ses_in_flight (drain_in_flight_jobs join s) = None"
  "ses_draining (drain_in_flight_jobs join s) = []"
  "ses_canceled (drain_in_flight_jobs join s) = ses_canceled s"
  "ses_just_canceled (drain_in_flight_jobs join s) = ses_just_canceled s"
  "ses_queue (drain_in_flight_jobs join s) = ses_queue s"
  "ses_obs (drain_in_flight_jobs join s) = ses_obs s"
  "ses_next (drain_in_flight_jobs join s) = ses_next s"
  "ses_protected (drain_in_flight_jobs join s) = ses_protected s"
  "ses_trace (drain_in_flight_jobs join s) =
     ses_trace s @ cancel_events s @ joins join (owned_jobs s)"
  by (auto simp: drain_in_flight_jobs_def cancel_events_def owned_jobs_def in_flight_list_def
      joins_def Let_def split: option.splits prod.splits)

lemma leave_sel [simp]:
  "snd (leave t d s) = Some d"
  "ses_in_flight (fst (leave t d s)) = None"
  "ses_draining (fst (leave t d s)) = []"
  "ses_canceled (fst (leave t d s)) = ses_canceled s"
  "ses_just_canceled (fst (leave t d s)) = ses_just_canceled s"
  "ses_queue (fst (leave t d s)) = ses_queue s"
  "ses_obs (fst (leave t d s)) = update_status (set_connection Disconnected) (ses_obs s)"
  "ses_next (fst (leave t d s)) = ses_next s"
  "ses_protected (fst (leave t d s)) = ses_protected s"
  "ses_trace (fst (leave t d s)) =
     ses_trace s @ cancel_events s @ joins (tu_join t) (owned_jobs s)"
  by (simp_all add: leave_def cancel_events_def owned_jobs_def in_flight_list_def)

lemma joins_tally [simp]:
  "spawned (joins join js) = {#}" "released (joins join js) = {#}"
  "joined (joins join js) = mset (map ifj_handle js)"
  by (induction js) (simp_all add: joins_def)

lemma cancel_events_tally [simp]:
  "spawned (cancel_events s) = {#}" "released (cancel_events s) = {#}"
  "joined (cancel_events s) = {#}"
  by (auto simp: cancel_events_def split: option.splits)

section \<open>Ownership\<close>

definition accounted :: "session \<Rightarrow> bool" where
  "accounted s \<longleftrightarrow>
     spawned (ses_trace s) = owned s + joined (ses_trace s) + released (ses_trace s)"

definition fresh :: "session \<Rightarrow> bool" where
  "fresh s \<longleftrightarrow> (\<forall>t. count (spawned (ses_trace s)) t = of_bool (t < ses_next s))"

definition owns :: "session \<Rightarrow> bool" where
  "owns s \<longleftrightarrow> accounted s \<and> fresh s"

lemmas account_defs = accounted_def owned_def owned_jobs_def in_flight_list_def

lemma owns_cong:
  "ses_in_flight s' = ses_in_flight s \<Longrightarrow> ses_draining s' = ses_draining s \<Longrightarrow>
   ses_next s' = ses_next s \<Longrightarrow> ses_trace s' = ses_trace s \<Longrightarrow> owns s' = owns s"
  by (simp add: owns_def fresh_def account_defs)

lemma owned_jobs_cong [simp]:
  "owned_jobs (note_events es s) = owned_jobs s"
  "owned_jobs (status_update f s) = owned_jobs s"
  "owned_jobs (before_select t s) = owned_jobs s"
  "owned_jobs (surface_purges fs s) = owned_jobs s"
  by (simp_all add: owned_jobs_def in_flight_list_def)

lemma fresh_leave [simp]: "fresh (fst (leave t d s)) = fresh s"
  by (simp add: fresh_def)

lemma owns_leave: "owns s \<Longrightarrow> owns (fst (leave t d s))"
  by (simp add: owns_def account_defs ac_simps)

lemma owns_note [simp]:
  "spawned es = {#} \<Longrightarrow> joined es = {#} \<Longrightarrow> released es = {#} \<Longrightarrow>
     owns (note_events es s) = owns s"
  by (simp add: owns_def fresh_def account_defs)

lemma owns_status [simp]: "owns (status_update f s) = owns s"
  by (rule owns_cong) simp_all

lemma owns_surface [simp]: "owns (surface_purges fs s) = owns s"
  by (rule owns_cong) simp_all

lemma owns_before [simp]: "owns (before_select t s) = owns s"
  by (rule owns_cong) simp_all

lemma owns_fields [simp]:
  "owns (s\<lparr>ses_gate := g\<rparr>) = owns s" "owns (s\<lparr>ses_queue := q\<rparr>) = owns s"
  "owns (s\<lparr>ses_pending := p\<rparr>) = owns s" "owns (s\<lparr>ses_heartbeats := h\<rparr>) = owns s"
  "owns (s\<lparr>ses_canceled := c\<rparr>) = owns s" "owns (s\<lparr>ses_just_canceled := jc\<rparr>) = owns s"
  "owns (s\<lparr>ses_protected := pk\<rparr>) = owns s"
  by (rule owns_cong; simp)+

lemma owns_settle: "owns s \<Longrightarrow> owns (settle_in_flight p s)"
proof -
  assume o: "owns s"
  have "fresh (settle_in_flight p s)"
    using o by (simp add: owns_def fresh_def settle_in_flight_def split: option.splits)
  moreover have "accounted (settle_in_flight p s)"
    using o by (auto simp: settle_in_flight_def owns_def account_defs split: option.splits)
  ultimately show ?thesis by (simp add: owns_def)
qed

lemma owns_hand_over: "owns s \<Longrightarrow> owns (hand_over_cancel p s)"
  by (simp add: hand_over_cancel_def)

lemma mset_remove_at: "i < length xs \<Longrightarrow> mset xs = add_mset (xs ! i) (mset (remove_at i xs))"
  by (subst id_take_nth_drop [of i xs]) (simp_all add: remove_at_def)

lemma owns_join_one:
  assumes "owns s" and "i < length (ses_draining s)"
  shows "owns (note_events [Joined (ifj_handle (ses_draining s ! i)) out]
      (s\<lparr>ses_draining := remove_at i (ses_draining s)\<rparr>))"
proof -
  have "mset (map ifj_handle (ses_draining s))
      = add_mset (ifj_handle (ses_draining s ! i)) (mset (map ifj_handle (remove_at i (ses_draining s))))"
    using mset_remove_at [OF assms(2)] by simp
  then have "accounted (note_events [Joined (ifj_handle (ses_draining s ! i)) out]
      (s\<lparr>ses_draining := remove_at i (ses_draining s)\<rparr>))"
    using assms(1) by (simp add: owns_def account_defs)
  then show ?thesis using assms(1) by (simp add: owns_def fresh_def)
qed

lemma owns_acknowledge: "owns s \<Longrightarrow> owns (acknowledge_cancel t s)"
proof -
  assume o: "owns s"
  show ?thesis
  proof (cases "ses_just_canceled s")
    case None
    then show ?thesis using o by (simp add: acknowledge_cancel_def)
  next
    case (Some c)
    let ?s1 = "s\<lparr>ses_just_canceled := None\<rparr>"
    show ?thesis
      using o Some owns_join_one [of ?s1]
      by (auto simp: acknowledge_cancel_def Let_def dest!: find_index_Some split: option.splits)
  qed
qed

lemma owns_spawn: "owns s \<Longrightarrow> ses_in_flight s = None \<Longrightarrow> owns (spawn_job a s)"
proof -
  assume o: "owns s" and "ses_in_flight s = None"
  then have "accounted (spawn_job a s)"
    by (simp add: spawn_job_def owns_def account_defs)
  moreover have "fresh (spawn_job a s)"
    using o by (auto simp: spawn_job_def owns_def fresh_def less_Suc_eq)
  ultimately show ?thesis by (simp add: owns_def)
qed

section \<open>One turn\<close>

lemma owns_worker: "owns s \<Longrightarrow> owns (fst (worker_arm t src msg s))"
  unfolding worker_arm_def Let_def
  by (auto simp: owns_leave owns_acknowledge owns_settle owns_hand_over split: option.splits)

lemma owns_cancel: "owns s \<Longrightarrow> owns (fst (cancel_arm t m s))"
proof -
  assume o: "owns s"
  have "fresh (fst (cancel_arm t m s))"
    using o by (simp add: cancel_arm_def Let_def owns_def fresh_def split: option.splits)
  moreover have "accounted (fst (cancel_arm t m s))"
    using o by (auto simp: cancel_arm_def Let_def owns_def account_defs ac_simps
        split: option.splits)
  ultimately show ?thesis by (simp add: owns_def)
qed

lemma owns_assign: "owns s \<Longrightarrow> owns (fst (assign_arm t a s))"
  unfolding assign_arm_def Let_def reject_job_def
  by (auto simp: owns_leave intro!: owns_spawn)

lemma owns_stream: "owns s \<Longrightarrow> owns (fst (stream_arm t item s))"
proof (cases item)
  case (FText j)
  assume o: "owns s"
  have "owns (fst (server_arm t m s))" for m
    using o by (cases m) (simp_all add: owns_assign owns_cancel update_arm_def)
  then show ?thesis using o FText by (cases j) (auto split: sum.splits)
next
  case (FClose reason)
  then show "owns s \<Longrightarrow> ?thesis" by (auto simp: close_arm_def owns_leave split: option.splits)
qed (auto simp: owns_leave)

lemma owns_heartbeat: "owns s \<Longrightarrow> owns (fst (heartbeat_arm cfg reg t s))"
  unfolding heartbeat_arm_def Let_def
  by (auto simp: owns_leave split: option.splits)

lemma owns_turn [inv_rules]: "owns s \<Longrightarrow> owns (fst (session_turn cfg reg t s))"
  unfolding session_turn_def select_arm_def
  by (auto simp: shutdown_arm_def tick_arm_def Let_def owns_leave owns_heartbeat owns_worker
      owns_stream split: option.splits list.splits)

text \<open>Every arm that returns does so through \<open>leave\<close>.\<close>

definition leaves :: "turn \<Rightarrow> outcome \<Rightarrow> bool" where
  "leaves t r \<longleftrightarrow> (snd r = None \<or> (\<exists>d s. r = leave t d s))"

lemma leaves_leave [simp]: "leaves t (leave t d s)"
  by (auto simp: leaves_def)

lemma leaves_stay [simp]: "leaves t (s, None)"
  by (simp add: leaves_def)

lemma leaves_server [simp]: "leaves t (server_arm t m s)"
  by (cases m) (simp_all add: assign_arm_def cancel_arm_def update_arm_def Let_def
      split: option.split)

lemma leaves_stream [simp]: "leaves t (stream_arm t item s)"
  by (cases "(t, item, s)" rule: stream_arm.cases)
     (simp_all add: close_arm_def split: option.split sum.split)

lemma leaves_turn: "leaves t (session_turn cfg reg t s)"
  unfolding session_turn_def select_arm_def
  by (simp add: shutdown_arm_def tick_arm_def heartbeat_arm_def worker_arm_def Let_def
      split: option.split list.split)

lemma turn_exit_leave:
  assumes "session_turn cfg reg t s = (s', Some d)"
  shows "\<exists>s1. (s', Some d) = leave t d s1"
  using leaves_turn [of t cfg reg s] assms leave_sel(1)
  by (auto simp: leaves_def) (metis leave_sel(1) option.inject snd_conv)

lemma turn_exit_drained:
  "session_turn cfg reg t s = (s', Some d) \<Longrightarrow> ses_in_flight s' = None \<and> ses_draining s' = []"
  by (metis fst_conv leave_sel(2,3) turn_exit_leave)

interpretation session_owns: machine_invariant "session_turn cfg reg" "\<lambda>t s. True" owns
    "\<lambda>s' d. owns s' \<and> owned_jobs s' = []" for cfg reg
proof unfold_locales
  fix s t s' and d :: disconnect
  show "owns s'" if "owns s" "session_turn cfg reg t s = (s', None)"
    using owns_turn [OF that(1), of cfg reg t] that(2) by simp
  show "owns s' \<and> owned_jobs s' = []" if "owns s" "session_turn cfg reg t s = (s', Some d)"
    using owns_turn [OF that(1), of cfg reg t] turn_exit_drained [OF that(2)] that(2)
    by (simp add: owned_jobs_def in_flight_list_def)
qed

lemma owns_start: "owns (session_start mx cfg now keys pending obs)"
  by (simp add: session_start_def owns_def fresh_def account_defs)



end
