(* ===== verification/Session_Acks.thy ===== *)
theory Session_Acks
  imports Session_Own
begin

text \<open>
  What a cancel acknowledgement witnesses: \<open>jobCanceledAck\<close> goes out, or is queued for the next
  session, only after the task of that job and attempt was signalled and awaited, and only for a
  failed end. The invariant \<open>ack_inv\<close> ties the session's cancel records to its trace.
\<close>

section \<open>What an acknowledgement needs\<close>

definition job_spawned :: "event list \<Rightarrow> task \<Rightarrow> job_pair \<Rightarrow> bool" where
  "job_spawned tr k p \<longleftrightarrow> (\<exists>a. Spawned k a \<in> set tr \<and> (ja_job_id a, ja_attempt a) = p)"

definition torn_down :: "event list \<Rightarrow> task \<Rightarrow> job_pair \<Rightarrow> bool" where
  "torn_down tr k p \<longleftrightarrow> job_spawned tr k p \<and> CancelSent k \<in> set tr \<and> (\<exists>out. Joined k out \<in> set tr)"

definition failed_frame :: "event list \<Rightarrow> job_pair \<Rightarrow> bool" where
  "failed_frame tr p \<longleftrightarrow>
     (\<exists>src f. Consumed src (JobFailed f) \<in> set tr \<and> (fld_job_id f, fld_attempt f) = p)"

definition acked_ok :: "event list \<Rightarrow> job_canceled_ack_message \<Rightarrow> bool" where
  "acked_ok tr a \<longleftrightarrow>
     (\<exists>k att. torn_down tr k (ack_job_id a, att) \<and> ack_attempt a = unwrap_or 1 att
        \<and> (Joined k (Some OutFailed) \<in> set tr \<or> failed_frame tr (ack_job_id a, att)))"

definition ack_after_join :: "event list \<Rightarrow> event \<Rightarrow> bool" where
  "ack_after_join tr e \<longleftrightarrow> (\<forall>a. e = Sent (JobCanceledAck a) \<longrightarrow> acked_ok tr a)"

lemma mono_trace:
  "job_spawned tr k p \<Longrightarrow> job_spawned (tr @ es) k p"
  "torn_down tr k p \<Longrightarrow> torn_down (tr @ es) k p"
  "failed_frame tr p \<Longrightarrow> failed_frame (tr @ es) p"
  by (auto simp: job_spawned_def torn_down_def failed_frame_def)

lemma acked_mono: "acked_ok tr a \<Longrightarrow> acked_ok (tr @ es) a"
  by (fastforce simp: acked_ok_def intro: mono_trace)

definition entry_ok :: "event list \<Rightarrow> in_flight_job \<Rightarrow> bool" where
  "entry_ok tr j \<longleftrightarrow> job_spawned tr (ifj_handle j) (job_pair_of j)"

definition cancel_ok :: "event list \<Rightarrow> in_flight_job list \<Rightarrow> canceled_job \<Rightarrow> bool" where
  "cancel_ok tr js c \<longleftrightarrow>
     (\<exists>j\<in>set js. job_pair_of j = canceled_pair c) \<or> (\<exists>k. torn_down tr k (canceled_pair c))"

definition teardown_ok :: "event list \<Rightarrow> in_flight_job \<Rightarrow> bool" where
  "teardown_ok tr j \<longleftrightarrow> entry_ok tr j \<and> CancelSent (ifj_handle j) \<in> set tr"

lemma entry_mono: "entry_ok tr j \<Longrightarrow> entry_ok (tr @ es) j"
  "teardown_ok tr j \<Longrightarrow> teardown_ok (tr @ es) j"
  by (auto simp: entry_ok_def teardown_ok_def intro: mono_trace)

lemma cancel_mono: "cancel_ok tr js c \<Longrightarrow> set js \<subseteq> set js' \<Longrightarrow> cancel_ok (tr @ es) js' c"
  by (auto simp: cancel_ok_def intro: mono_trace)

text \<open>The messages a job task puts on the channel.\<close>

fun task_message :: "worker_message \<Rightarrow> bool" where
  "task_message (JobProgress p) = True"
| "task_message (JobComplete c) = True"
| "task_message (JobFailed f) = True"
| "task_message _ = False"

fun not_ack :: "worker_message \<Rightarrow> bool" where
  "not_ack (JobCanceledAck a) = False" | "not_ack _ = True"

definition tasks_ok :: "turn \<Rightarrow> session \<Rightarrow> bool" where
  "tasks_ok t s = list_all (\<lambda>(k, m). task_message m) (tu_arrivals t)"

definition ack_inv :: "job_canceled_ack_message list \<Rightarrow> session \<Rightarrow> bool" where
  "ack_inv old s \<longleftrightarrow>
     (\<forall>j. ses_in_flight s = Some j \<longrightarrow> entry_ok (ses_trace s) j \<and> ifj_cancel j
        \<and> ifj_cancel_received_at j = None)
   \<and> (\<forall>j\<in>set (ses_draining s). teardown_ok (ses_trace s) j)
   \<and> (\<forall>c. ses_canceled s = Some c \<or> ses_just_canceled s = Some c \<longrightarrow>
        cancel_ok (ses_trace s) (ses_draining s) c)
   \<and> every_event ack_after_join (ses_trace s)
   \<and> (\<forall>a\<in>set (ses_pending s). a \<in> set old \<or> acked_ok (ses_trace s) a)
   \<and> (\<forall>(src, m)\<in>set (ses_queue s). not_ack m)"

section \<open>The steps keep it\<close>

lemma ack_inv_cong:
  "ses_in_flight s' = ses_in_flight s \<Longrightarrow> ses_draining s' = ses_draining s \<Longrightarrow>
   ses_canceled s' = ses_canceled s \<Longrightarrow> ses_just_canceled s' = ses_just_canceled s \<Longrightarrow>
   ses_trace s' = ses_trace s \<Longrightarrow> ses_pending s' = ses_pending s \<Longrightarrow>
   ses_queue s' = ses_queue s \<Longrightarrow> ack_inv old s' = ack_inv old s"
  by (simp add: ack_inv_def)

lemma ack_inv_quiet [simp]:
  "ack_inv old (status_update f s) = ack_inv old s"
  "ack_inv old (surface_purges fs s) = ack_inv old s"
  "ack_inv old (s\<lparr>ses_gate := g\<rparr>) = ack_inv old s"
  "ack_inv old (s\<lparr>ses_heartbeats := h\<rparr>) = ack_inv old s"
  "ack_inv old (s\<lparr>ses_protected := pk\<rparr>) = ack_inv old s"
  by (rule ack_inv_cong; simp)+

lemma ack_inv_note:
  assumes "ack_inv old s" and "\<And>a. Sent (JobCanceledAck a) \<notin> set es"
  shows "ack_inv old (note_events es s)"
proof -
  have "every_event ack_after_join (ses_trace s @ es)"
    by (rule every_event_appendI) (use assms in \<open>auto simp: ack_inv_def ack_after_join_def\<close>)
  then show ?thesis
    using assms(1) unfolding ack_inv_def
    by (auto intro: entry_mono cancel_mono acked_mono)
qed

lemma ack_inv_note_sent:
  assumes "ack_inv old s" and "acked_ok (ses_trace s) a"
  shows "ack_inv old (note_events [Sent (JobCanceledAck a)] s)"
proof -
  have "every_event ack_after_join (ses_trace s @ [Sent (JobCanceledAck a)])"
    using assms by (simp add: every_event_snoc ack_inv_def ack_after_join_def)
  then show ?thesis
    using assms(1) unfolding ack_inv_def
    by (auto intro: entry_mono cancel_mono acked_mono)
qed

lemma ack_inv_pending:
  "ack_inv old s \<Longrightarrow> (\<And>a. a \<in> set p \<Longrightarrow> a \<in> set (ses_pending s) \<or> acked_ok (ses_trace s) a) \<Longrightarrow>
     ack_inv old (s\<lparr>ses_pending := p\<rparr>)"
  unfolding ack_inv_def by simp blast

lemma queue_pending_mem:
  "a \<in> set (queue_pending_cancel_ack now c p) \<Longrightarrow> a \<in> set p \<or> a = cancel_ack_for now c"
  by (auto simp: queue_pending_cancel_ack_def split: if_splits)

lemma join_all_pending:
  "a \<in> set (ses_pending (join_all join js s)) \<Longrightarrow>
     a \<in> set (ses_pending s)
     \<or> (\<exists>j\<in>set js. \<exists>at'. ifj_cancel_received_at j = Some at'
          \<and> fst (join (ifj_handle j)) = Some OutFailed
          \<and> ack_job_id a = ifj_job_id j \<and> ack_attempt a = unwrap_or 1 (ifj_attempt j))"
proof (induction js arbitrary: s)
  case (Cons j js)
  obtain out now where jn: "join (ifj_handle j) = (out, now)" by (cases "join (ifj_handle j)")
  let ?q = "queue_drained_cancel_ack now (drained_ack_context j) out (ses_pending s)"
  from Cons.IH Cons.prems jn
  have "a \<in> set ?q \<or> (\<exists>j\<in>set js. \<exists>at'. ifj_cancel_received_at j = Some at'
          \<and> fst (join (ifj_handle j)) = Some OutFailed
          \<and> ack_job_id a = ifj_job_id j \<and> ack_attempt a = unwrap_or 1 (ifj_attempt j))"
    by fastforce
  moreover have "a \<in> set (ses_pending s) \<or> (out = Some OutFailed
      \<and> (\<exists>c. drained_ack_context j = Some c \<and> a = cancel_ack_for now c))" if "a \<in> set ?q"
    using that queue_drained_cases [of now "drained_ack_context j" out "ses_pending s"] by auto
  ultimately show ?case
    using jn by (auto simp: drained_ack_context_def cancel_ack_for_def split: option.splits)
qed simp

definition ack_exit :: "job_canceled_ack_message list \<Rightarrow> session \<Rightarrow> bool" where
  "ack_exit old s \<longleftrightarrow> every_event ack_after_join (ses_trace s)
     \<and> (\<forall>a\<in>set (ses_pending s). a \<in> set old \<or> acked_ok (ses_trace s) a)"

lemma drain_unfold:
  "drain_in_flight_jobs join s =
     join_all join (owned_jobs s)
       (note_events (cancel_events s) (s\<lparr>ses_in_flight := None, ses_draining := []\<rparr>))"
proof -
  have comm: "(join_all join js s)\<lparr>ses_draining := d\<rparr> = join_all join js (s\<lparr>ses_draining := d\<rparr>)"
    for js d s
  proof (induction js arbitrary: s)
    case (Cons j js)
    then show ?case
      by (auto simp: note_events_def split: prod.splits intro!: arg_cong [where f = "join_all join js"])
  qed simp
  have app: "join_all join (xs @ ys) s = join_all join ys (join_all join xs s)" for xs ys s
    by (induction xs arbitrary: s) (simp_all split: prod.splits)
  show ?thesis
    by (cases "ses_in_flight s"; cases s)
       (auto simp: drain_in_flight_jobs_def owned_jobs_def in_flight_list_def cancel_events_def
         comm app Let_def note_events_def split: prod.splits
         intro!: arg_cong [where f = "join_all join js" for js])
qed

lemma ack_exit_leave:
  assumes inv: "ack_inv old s"
  shows "ack_exit old (fst (leave t d s))"
proof -
  let ?tr = "ses_trace s @ cancel_events s @ joins (tu_join t) (owned_jobs s)"
  have tr: "ses_trace (fst (leave t d s)) = ?tr" by simp
  have no: "Sent m \<notin> set (cancel_events s @ joins (tu_join t) (owned_jobs s))" for m
    by (auto simp: cancel_events_def joins_def split: option.splits if_splits)
  have ev: "every_event ack_after_join ?tr"
    by (rule every_event_appendI)
       (use inv no in \<open>auto simp: ack_inv_def ack_after_join_def\<close>)
  have "a \<in> set old \<or> acked_ok ?tr a" if a: "a \<in> set (ses_pending (fst (leave t d s)))" for a
  proof -
    have "a \<in> set (ses_pending s)
       \<or> (\<exists>j\<in>set (owned_jobs s). \<exists>at'. ifj_cancel_received_at j = Some at'
          \<and> fst (tu_join t (ifj_handle j)) = Some OutFailed
          \<and> ack_job_id a = ifj_job_id j \<and> ack_attempt a = unwrap_or 1 (ifj_attempt j))"
      using join_all_pending a
      by (fastforce simp: leave_def drain_unfold cancel_events_def owned_jobs_def in_flight_list_def)
    then show ?thesis
    proof
      assume "a \<in> set (ses_pending s)"
      then show ?thesis using inv acked_mono [of "ses_trace s"] by (auto simp: ack_inv_def)
    next
      assume "\<exists>j\<in>set (owned_jobs s). \<exists>at'. ifj_cancel_received_at j = Some at'
          \<and> fst (tu_join t (ifj_handle j)) = Some OutFailed
          \<and> ack_job_id a = ifj_job_id j \<and> ack_attempt a = unwrap_or 1 (ifj_attempt j)"
      then obtain j where j: "j \<in> set (owned_jobs s)" "ifj_cancel_received_at j \<noteq> None"
          "fst (tu_join t (ifj_handle j)) = Some OutFailed"
          "ack_job_id a = ifj_job_id j" "ack_attempt a = unwrap_or 1 (ifj_attempt j)"
        by auto
      then have "j \<in> set (ses_draining s)"
        using inv by (auto simp: owned_jobs_def in_flight_list_def ack_inv_def split: option.splits)
      then have "teardown_ok (ses_trace s) j" using inv by (simp add: ack_inv_def)
      moreover have jn: "Joined (ifj_handle j) (Some OutFailed) \<in> set ?tr"
        using j(1,3) by (auto simp: joins_def intro: rev_image_eqI)
      ultimately have "torn_down ?tr (ifj_handle j) (job_pair_of j)"
        by (auto simp: teardown_ok_def entry_ok_def torn_down_def intro: mono_trace)
      then show ?thesis using j(4,5) jn by (auto simp: acked_ok_def job_pair_of_def)
    qed
  qed
  with ev show ?thesis by (simp add: ack_exit_def)
qed

lemma ack_inv_settle: "ack_inv old s \<Longrightarrow> ack_inv old (settle_in_flight p s)"
proof -
  assume inv: "ack_inv old s"
  then have "ack_inv old (s\<lparr>ses_protected := ks, ses_in_flight := None\<rparr>)" for ks
    by (simp add: ack_inv_def)
  then show ?thesis
    using inv by (auto simp: settle_in_flight_def intro!: ack_inv_note split: option.splits)
qed

lemma ack_inv_hand_over: "ack_inv old s \<Longrightarrow> ack_inv old (hand_over_cancel p s)"
  by (simp add: hand_over_cancel_def ack_inv_def)

lemma ack_inv_acknowledge:
  assumes inv: "ack_inv old s" and none: "ses_canceled s = None"
    and c: "ses_just_canceled s = Some c" and ff: "failed_frame (ses_trace s) (canceled_pair c)"
  shows "ack_inv old (acknowledge_cancel t s)"
proof -
  let ?p = "canceled_pair c"
  define s2 where "s2 = (case find_index (\<lambda>j. job_pair_of j = ?p) (ses_draining s) of
       None \<Rightarrow> s\<lparr>ses_just_canceled := None\<rparr>
     | Some i \<Rightarrow> note_events [Joined (ifj_handle (ses_draining s ! i))
                                (fst (tu_join t (ifj_handle (ses_draining s ! i))))]
                  (s\<lparr>ses_just_canceled := None, ses_draining := remove_at i (ses_draining s)\<rparr>))"
  have s2_inv: "ack_inv old s2 \<and> (\<exists>k. torn_down (ses_trace s2) k ?p)
      \<and> failed_frame (ses_trace s2) ?p"
  proof (cases "find_index (\<lambda>j. job_pair_of j = ?p) (ses_draining s)")
    case None
    then have "\<exists>k. torn_down (ses_trace s) k ?p"
      using inv c by (auto simp: find_index_None ack_inv_def cancel_ok_def)
    then show ?thesis using None inv none ff by (auto simp: s2_def ack_inv_def)
  next
    case (Some i)
    let ?j = "ses_draining s ! i"
    let ?s1 = "s\<lparr>ses_just_canceled := None, ses_draining := remove_at i (ses_draining s)\<rparr>"
    from Some have i: "i < length (ses_draining s)" "job_pair_of ?j = ?p"
      using find_index_Some by blast+
    then have td: "teardown_ok (ses_trace s) ?j" using inv by (auto simp: ack_inv_def)
    have "ack_inv old ?s1"
      using inv none set_remove_at_subset [of i "ses_draining s"] by (auto simp: ack_inv_def)
    then have "ack_inv old s2"
      using Some by (auto simp: s2_def intro!: ack_inv_note)
    moreover have "torn_down (ses_trace s2) (ifj_handle ?j) ?p"
      using td Some i(2)
      by (auto simp: s2_def torn_down_def teardown_ok_def entry_ok_def intro: mono_trace)
    moreover have "failed_frame (ses_trace s2) ?p"
      using ff Some by (auto simp: s2_def intro: mono_trace)
    ultimately show ?thesis by blast
  qed
  then have ok: "acked_ok (ses_trace s2) (cancel_ack_for now c)" for now
    by (auto simp: acked_ok_def cancel_ack_for_def canceled_pair_def)
  have eq: "acknowledge_cancel t s =
      (if tu_send_ok t then note_events [Sent (JobCanceledAck (cancel_ack_for (tu_now t) c))] s2
       else s2\<lparr>ses_pending := queue_pending_cancel_ack (tu_later t) c (ses_pending s2)\<rparr>)"
    by (simp add: acknowledge_cancel_def c s2_def Let_def split: option.splits)
  show ?thesis
    unfolding eq using s2_inv ok
    by (auto intro!: ack_inv_note_sent ack_inv_pending dest!: queue_pending_mem)
qed

section \<open>One turn\<close>

definition ack_result :: "job_canceled_ack_message list \<Rightarrow> outcome \<Rightarrow> bool" where
  "ack_result old r \<longleftrightarrow> (case snd r of None \<Rightarrow> ack_inv old (fst r) | Some d \<Rightarrow> ack_exit old (fst r))"

lemma ack_result_stay [simp]: "ack_result old (s, None) \<longleftrightarrow> ack_inv old s"
  by (simp add: ack_result_def)

lemma ack_result_leave [intro]: "ack_inv old s \<Longrightarrow> ack_result old (leave t d s)"
  by (simp add: ack_result_def ack_exit_leave)

lemma ack_result_worker:
  assumes inv: "ack_inv old s" and m: "not_ack msg"
  shows "ack_result old (worker_arm t src msg s)"
proof -
  define s0 where "s0 = note_events [Consumed src msg] s"
  define s1 where "s1 = (case terminal_of msg of
      None \<Rightarrow> s0 | Some p \<Rightarrow> hand_over_cancel p (settle_in_flight p s0))"
  have "ack_inv old s0" unfolding s0_def by (rule ack_inv_note [OF inv]) simp
  then have i1: "ack_inv old s1"
    by (auto simp: s1_def intro: ack_inv_hand_over ack_inv_settle split: option.splits)
  show ?thesis
  proof (cases "suppressed msg s0")
    case False
    have "ack_inv old (note_events [Sent msg] (status_update (emit_status msg) s1))"
      by (rule ack_inv_note) (use i1 m in auto)
    then show ?thesis
      using i1 False unfolding worker_arm_def s0_def [symmetric] s1_def [symmetric] Let_def
      by auto
  next
    case True
    then obtain p c where p: "terminal_of msg = Some p" and c: "ses_canceled s0 = Some c"
        and pc: "canceled_pair c = p"
      by (auto simp: suppressed_def split: option.splits)
    have set_c: "ses_canceled (settle_in_flight q x) = ses_canceled x" for q x
      by (simp add: settle_in_flight_def split: option.splits)
    have s1c: "ses_canceled s1 = None" "ses_just_canceled s1 = Some c"
      using p c pc by (simp_all add: s1_def hand_over_cancel_def set_c)
    have tr: "set (ses_trace s0) \<subseteq> set (ses_trace s1)"
      by (auto simp: s1_def hand_over_cancel_def settle_in_flight_def split: option.splits)
    have fail: "failed_frame (ses_trace s1) (canceled_pair c)"
      if f: "cancel_ack_predicate (terminal_outcome msg)"
    proof -
      from f obtain g where g: "msg = JobFailed g"
        by (cases msg) (auto simp: cancel_ack_predicate_def)
      then have "Consumed src (JobFailed g) \<in> set (ses_trace s1)"
        using tr by (auto simp: s0_def)
      then show ?thesis using g p pc by (auto simp: failed_frame_def)
    qed
    define s2 where "s2 = status_update (suppress_status (ses_in_flight s1 = None) (fst p)) s1"
    have "ack_inv old (acknowledge_cancel t s2)" if "cancel_ack_predicate (terminal_outcome msg)"
      by (rule ack_inv_acknowledge [where c = c]) (use i1 s1c fail [OF that] in \<open>auto simp: s2_def\<close>)
    moreover have "ack_inv old s2" using i1 by (simp add: s2_def)
    moreover have "worker_arm t src msg s =
        (if cancel_ack_predicate (terminal_outcome msg) then acknowledge_cancel t s2 else s2, None)"
      using True p unfolding worker_arm_def s0_def [symmetric] s1_def [symmetric] Let_def
      by (simp add: s2_def)
    ultimately show ?thesis by simp
  qed
qed

lemma ack_result_assign: "ack_inv old s \<Longrightarrow> ack_result old (assign_arm t a s)"
proof -
  assume inv: "ack_inv old s"
  have rej: "ack_inv old (reject_job a r s)" for r
    using inv by (auto simp: reject_job_def ack_inv_def)
  define s2 where "s2 = status_update (set_phase Rendering)
     (note_events [Sent (accept_message a)]
       (status_update (\<lambda>st. st\<lparr>ss_current_job := Some \<lparr>js_id = ja_job_id a,
           js_tier = tier_of (ja_kind a), js_progress = 0, js_phase = Downloading\<rparr>\<rparr>)
         (s\<lparr>ses_gate := mark_busy (ses_gate s)\<rparr>)))"
  have i2: "ack_inv old s2"
    using inv by (auto simp: s2_def accept_message_def intro!: ack_inv_note)
  have "ack_inv old (spawn_job a s2)"
    using ack_inv_note [OF i2, of "[Spawned (ses_next s2) a]"]
    by (auto simp: spawn_job_def ack_inv_def note_events_def entry_ok_def job_spawned_def
        job_pair_of_def)
  then show ?thesis
    using inv rej unfolding assign_arm_def Let_def s2_def by auto
qed

text \<open>
  The canceled job becomes an entry of the draining list, or is awaited on the spot when that list is
  full: the record of the cancel is answered by the one or by the other.
\<close>

definition canceled_entry :: "turn \<Rightarrow> in_flight_job \<Rightarrow> in_flight_job" where
  "canceled_entry t j = j\<lparr>ifj_cancel_received_at := Some (tu_now t), ifj_cancel := False\<rparr>"

definition cancel_record :: "turn \<Rightarrow> in_flight_job \<Rightarrow> canceled_job" where
  "cancel_record t j = \<lparr>cj_tenant = ifj_tenant j, cj_job_id = ifj_job_id j, cj_attempt = ifj_attempt j,
     cj_received_at = tu_now t\<rparr>"

lemma cancel_pairs: "job_pair_of (canceled_entry t j) = job_pair_of j" "canceled_pair (cancel_record t j) = job_pair_of j"
  by (simp_all add: job_pair_of_def canceled_pair_def canceled_entry_def cancel_record_def)

lemma ack_inv_drain:
  assumes inv: "ack_inv old s" and j: "ses_in_flight s = Some j" and es: "es = [CancelSent (ifj_handle j), SweptCache ks]"
    and s': "ses_in_flight s' = None" "ses_draining s' = ses_draining s @ [canceled_entry t j]"
      "ses_canceled s' = Some (cancel_record t j)" "ses_just_canceled s' = ses_just_canceled s"
      "ses_trace s' = ses_trace s @ es" "ses_pending s' = ses_pending s" "ses_queue s' = ses_queue s"
  shows "ack_inv old s'"
proof -
  have base: "ack_inv old (note_events es s)" by (rule ack_inv_note [OF inv]) (simp add: es)
  have "entry_ok (ses_trace s) j" using inv j by (auto simp: ack_inv_def)
  then have "teardown_ok (ses_trace s @ es) (canceled_entry t j)"
    using cancel_pairs(1) [of t j]
    by (auto simp: teardown_ok_def entry_ok_def es canceled_entry_def intro: mono_trace)
  moreover have "cancel_ok (ses_trace s @ es) (ses_draining s @ [canceled_entry t j]) c"
    if "ses_just_canceled s = Some c" for c
    using base that by (auto simp: ack_inv_def cancel_ok_def)
  moreover have "cancel_ok (ses_trace s @ es) (ses_draining s @ [canceled_entry t j]) (cancel_record t j)"
    using cancel_pairs by (auto simp: cancel_ok_def)
  ultimately show ?thesis using base s' unfolding ack_inv_def by (auto split: prod.splits)
qed

lemma ack_inv_awaited:
  assumes inv: "ack_inv old s" and j: "ses_in_flight s = Some j"
    and es: "es = [CancelSent (ifj_handle j), SweptCache ks, Joined (ifj_handle j) out]"
    and s': "ses_in_flight s' = None" "ses_draining s' = ses_draining s"
      "ses_canceled s' = Some (cancel_record t j)" "ses_just_canceled s' = ses_just_canceled s"
      "ses_trace s' = ses_trace s @ es" "ses_pending s' = ses_pending s" "ses_queue s' = ses_queue s"
  shows "ack_inv old s'"
proof -
  have base: "ack_inv old (note_events es s)" by (rule ack_inv_note [OF inv]) (simp add: es)
  have "entry_ok (ses_trace s) j" using inv j by (auto simp: ack_inv_def)
  then have "torn_down (ses_trace s @ es) (ifj_handle j) (canceled_pair (cancel_record t j))"
    using cancel_pairs(2) [of t j] by (auto simp: torn_down_def entry_ok_def es intro: mono_trace)
  then have "cancel_ok (ses_trace s @ es) (ses_draining s) (cancel_record t j)"
    by (auto simp: cancel_ok_def)
  then show ?thesis using base s' unfolding ack_inv_def by (auto split: prod.splits)
qed

lemma ack_result_cancel: "ack_inv old s \<Longrightarrow> ack_result old (cancel_arm t m s)"
proof (cases "ses_in_flight s")
  case (Some j)
  assume inv: "ack_inv old s"
  then have live: "ifj_cancel j" using Some by (auto simp: ack_inv_def)
  note drain = ack_inv_drain [OF inv Some refl] and awaited = ack_inv_awaited [OF inv Some refl]
  show ?thesis
  proof (cases "length (ses_draining s) < MAX_DRAINING_TEARDOWNS")
    case True
    then show ?thesis
      using inv Some live
      by (auto simp: cancel_arm_def Let_def canceled_entry_def cancel_record_def intro!: drain)
  next
    case False
    then show ?thesis
      using inv Some live
      by (auto simp: cancel_arm_def Let_def cancel_record_def intro!: awaited)
  qed
qed (simp add: cancel_arm_def)

lemma ack_result_stream: "ack_inv old s \<Longrightarrow> ack_result old (stream_arm t item s)"
proof -
  assume inv: "ack_inv old s"
  have "ack_result old (server_arm t m s)" for m
    using inv by (cases m) (auto simp: ack_result_assign ack_result_cancel update_arm_def)
  then show ?thesis
    using inv by (cases "(t, item, s)" rule: stream_arm.cases)
      (auto simp: close_arm_def split: sum.splits option.splits)
qed

lemma ack_result_heartbeat: "ack_inv old s \<Longrightarrow> ack_result old (heartbeat_arm cfg reg t s)"
  unfolding heartbeat_arm_def Let_def
  by (auto intro!: ack_result_leave ack_inv_note split: option.splits)

lemma ack_inv_before:
  "ack_inv old s \<Longrightarrow> tasks_ok t s \<Longrightarrow> ack_inv old (before_select t s)"
proof -
  assume inv: "ack_inv old s" and ok: "tasks_ok t s"
  have "not_ack m" if "task_message m" for m using that by (cases m) auto
  then have "\<forall>(src, m)\<in>set (ses_queue (before_select t s)). not_ack m"
    using inv ok by (fastforce simp: ack_inv_def before_select_def tasks_ok_def list_all_iff)
  then show ?thesis using inv by (simp add: ack_inv_def)
qed

lemma ack_result_turn:
  assumes "ack_inv old s" and "tasks_ok t s"
  shows "ack_result old (session_turn cfg reg t s)"
proof -
  let ?s = "before_select t s"
  have inv: "ack_inv old ?s" by (rule ack_inv_before [OF assms])
  have q: "not_ack m \<and> ack_inv old (?s\<lparr>ses_queue := q\<rparr>)" if "ses_queue ?s = (src, m) # q" for src m q
    using inv that by (simp add: ack_inv_def)
  have "ack_result old (shutdown_arm t ?s)"
    using inv by (auto simp: shutdown_arm_def intro!: ack_result_leave ack_inv_note)
  moreover have "ack_result old (tick_arm t ?s)"
    using inv by (auto simp: tick_arm_def Let_def intro!: ack_result_leave ack_inv_note
        split: option.splits)
  ultimately show ?thesis
    using inv q unfolding session_turn_def select_arm_def
    by (auto simp: ack_result_heartbeat ack_result_worker ack_result_stream
        split: list.splits option.splits)
qed

interpretation session_acks: machine_invariant "session_turn cfg reg" tasks_ok "ack_inv old"
    "\<lambda>s' d. ack_exit old s'" for cfg reg old
proof unfold_locales
  fix s t s' and d :: disconnect
  assume "ack_inv old s" and "tasks_ok t s"
  then have r: "ack_result old (session_turn cfg reg t s)" by (rule ack_result_turn)
  show "ack_inv old s'" if "session_turn cfg reg t s = (s', None)"
    using r that by (simp add: ack_result_def)
  show "ack_exit old s'" if "session_turn cfg reg t s = (s', Some d)"
    using r that by (simp add: ack_result_def)
qed

lemma all_tasks_ok:
  "\<forall>t\<in>set ts. list_all (\<lambda>(k, m). task_message m) (tu_arrivals t) \<Longrightarrow>
     session_acks.all_ok cfg reg ts s"
  by (induction ts arbitrary: s) (auto simp: tasks_ok_def split: prod.splits option.splits)

lemma ack_inv_start: "ack_inv pending (session_start mx cfg now keys pending obs)"
  by (simp add: session_start_def ack_inv_def)

lemma ack_exit_inv: "ack_inv old s \<Longrightarrow> ack_exit old s"
  by (simp add: ack_inv_def ack_exit_def)

text \<open>
  C3: A cancel is acknowledged only when the job has stopped. In every session, each
  \<open>jobCanceledAck\<close> sent was preceded by the spawn of a task of that job and attempt, by its cancel
  signal, and by the completion of its task, and by a failed end (its \<open>jobFailed\<close> frame or its
  joined outcome); each acknowledgement queued for the next session has the same history. Job
  tasks put only progress and terminal frames on the channel (\<open>run_job\<close>).
\<close>

theorem cancel_ack_only_after_teardown:
  assumes "\<forall>t\<in>set ts. list_all (\<lambda>(k, m). task_message m) (tu_arrivals t)"
  shows "(case run_session_loop cfg reg ts (session_start mx cfg now keys pending obs) of
            (s', d) \<Rightarrow> every_event ack_after_join (ses_trace s')
              \<and> (\<forall>a\<in>set (ses_pending s'). a \<in> set pending \<or> acked_ok (ses_trace s') a))"
proof -
  obtain s' d where r: "run_session_loop cfg reg ts (session_start mx cfg now keys pending obs) = (s', d)"
    by (cases "run_session_loop cfg reg ts (session_start mx cfg now keys pending obs)")
  have "case run_until (session_turn cfg reg) ts (session_start mx cfg now keys pending obs) of
      (s', None) \<Rightarrow> ack_inv pending s' | (s', Some x) \<Rightarrow> ack_exit pending s'"
    by (rule session_acks.run_invariant [OF ack_inv_start all_tasks_ok [OF assms]])
  then have "ack_exit pending s'"
    using r by (cases d) (auto simp: run_session_loop_def intro: ack_exit_inv)
  with r show ?thesis by (simp add: ack_exit_def)
qed

theorem cancel_ack_only_after_teardown_witness:
  "let s' = fst (run_session_loop sample_config sample_register
      [allow_turn, frame_turn (JobAssign (job_of ''a'' (Some 2))), frame_turn (cancel_of_job ''a''),
       task_turn 0 (failed_of ''a'' (Some 2))] sample_start)
   in every_event ack_after_join (ses_trace s')
      \<and> (\<exists>a. last (ses_trace s') = Sent (JobCanceledAck a) \<and> ack_job_id a = ''a'' \<and> ack_attempt a = 2)"
proof -
  let ?ts = "[allow_turn, frame_turn (JobAssign (job_of ''a'' (Some 2))),
       frame_turn (cancel_of_job ''a''), task_turn 0 (failed_of ''a'' (Some 2))]"
  let ?run = "run_session_loop sample_config sample_register ?ts sample_start"
  have ok: "\<forall>t\<in>set ?ts. list_all (\<lambda>(k, m). task_message m) (tu_arrivals t)"
    by (simp add: turn_defs failed_of_def)
  have l: "\<exists>a. last (ses_trace (fst ?run)) = Sent (JobCanceledAck a)
      \<and> ack_job_id a = ''a'' \<and> ack_attempt a = 2"
    by (simp add: run_eval cancel_ack_for_def unwrap_or_def remove_at_def del: server_to_json.simps)
  from cancel_ack_only_after_teardown [OF ok, where cfg = sample_config
      and reg = sample_register and mx = "secs 10000" and now = "secs 10" and keys = "[]"
      and pending = "[]" and obs = "channels default_status"] l
  show ?thesis by (simp only: Let_def sample_start_def split: prod.splits) simp
qed

end
