(* ===== verification/Session_Discipline.thy ===== *)
theory Session_Discipline
  imports Session_Acks
begin

text \<open>
  The rest of a session's trace discipline: a job is spawned only right after its acceptance went
  out and while no other job runs uncancelled, a handle is released only on a terminal frame of
  its own pair, a heartbeat reports exactly the tasks the session still owns, and the two bounded
  lists stay bounded.
\<close>

section \<open>The discipline\<close>

definition tasks_left :: "event list \<Rightarrow> nat" where
  "tasks_left tr = size (spawned tr) - (size (joined tr) + size (released tr))"

fun disciplined :: "event list \<Rightarrow> event \<Rightarrow> bool" where
  "disciplined tr (Sent (Heartbeat hb)) =
     (unat (hb_current_job_count hb) = tasks_left tr \<and> tasks_left tr \<le> 17)"
| "disciplined tr (Spawned k a) =
     (tr \<noteq> [] \<and> last tr = Sent (accept_message a)
      \<and> (\<forall>k'. k' \<in># spawned tr \<longrightarrow> CancelSent k' \<in> set tr \<or> Released k' \<in> set tr))"
| "disciplined tr (Released k) =
     (\<exists>src m p. Consumed src m \<in> set tr \<and> terminal_of m = Some p \<and> job_spawned tr k p)"
| "disciplined tr _ = True"

fun plain :: "event \<Rightarrow> bool" where
  "plain (Sent (Heartbeat hb)) = False"
| "plain (Spawned k a) = False"
| "plain (Released k) = False"
| "plain _ = True"

lemma plain_disciplined: "plain e \<Longrightarrow> disciplined tr e"
  by (cases "(tr, e)" rule: disciplined.cases) auto

fun not_heartbeat :: "worker_message \<Rightarrow> bool" where
  "not_heartbeat (Heartbeat hb) = False" | "not_heartbeat _ = True"

lemma plain_sent [simp]: "plain (Sent m) \<longleftrightarrow> not_heartbeat m"
  by (cases m) auto

definition accounted_cancel :: "session \<Rightarrow> task \<Rightarrow> bool" where
  "accounted_cancel s k \<longleftrightarrow> map_option ifj_handle (ses_in_flight s) = Some k
     \<or> CancelSent k \<in> set (ses_trace s) \<or> Released k \<in> set (ses_trace s)"

definition single :: "session \<Rightarrow> bool" where
  "single s \<longleftrightarrow> (\<forall>k. k \<in># spawned (ses_trace s) \<longrightarrow> accounted_cancel s k)"

definition bounded :: "session \<Rightarrow> bool" where
  "bounded s \<longleftrightarrow> length (ses_draining s) \<le> MAX_DRAINING_TEARDOWNS
     \<and> length (ses_pending s) \<le> MAX_PENDING_CANCEL_ACKS"

definition disc :: "session \<Rightarrow> bool" where
  "disc s \<longleftrightarrow> bounded s \<and> single s \<and> every_event disciplined (ses_trace s)
     \<and> (\<forall>(src, m)\<in>set (ses_queue s). not_heartbeat m)"

lemma disc_cong:
  "ses_in_flight s' = ses_in_flight s \<Longrightarrow> ses_draining s' = ses_draining s \<Longrightarrow>
   ses_trace s' = ses_trace s \<Longrightarrow> ses_pending s' = ses_pending s \<Longrightarrow>
   ses_queue s' = ses_queue s \<Longrightarrow> disc s' = disc s"
  by (simp add: disc_def bounded_def single_def accounted_cancel_def)

lemma disc_quiet [simp]:
  "disc (status_update f s) = disc s"
  "disc (surface_purges fs s) = disc s"
  "disc (s\<lparr>ses_gate := g\<rparr>) = disc s"
  "disc (s\<lparr>ses_heartbeats := h\<rparr>) = disc s"
  "disc (s\<lparr>ses_protected := pk\<rparr>) = disc s"
  "disc (s\<lparr>ses_canceled := c\<rparr>) = disc s"
  "disc (s\<lparr>ses_just_canceled := jc\<rparr>) = disc s"
  by (rule disc_cong; simp)+

lemma single_note:
  "single s \<Longrightarrow> spawned es = {#} \<Longrightarrow> single (note_events es s)"
  by (auto simp: single_def accounted_cancel_def)

lemma disc_note:
  assumes "disc s" and "list_all plain es" and "spawned es = {#}"
  shows "disc (note_events es s)"
proof -
  have "every_event disciplined (ses_trace s @ es)"
    by (rule every_event_appendI)
       (use assms(1,2) in \<open>auto simp: disc_def list_all_iff intro: plain_disciplined\<close>)
  then show ?thesis using assms single_note by (simp add: disc_def bounded_def)
qed

lemma join_all_bounded:
  "length (ses_pending s) \<le> MAX_PENDING_CANCEL_ACKS \<Longrightarrow>
     length (ses_pending (join_all join js s)) \<le> MAX_PENDING_CANCEL_ACKS"
proof (induction js arbitrary: s)
  case (Cons j js)
  obtain out now where "join (ifj_handle j) = (out, now)" by (cases "join (ifj_handle j)")
  with Cons show ?case by (simp add: queue_drained_bounded)
qed simp

definition disc_exit :: "session \<Rightarrow> bool" where
  "disc_exit s \<longleftrightarrow> bounded s \<and> every_event disciplined (ses_trace s)"

definition disc_result :: "outcome \<Rightarrow> bool" where
  "disc_result r \<longleftrightarrow> (case snd r of None \<Rightarrow> disc (fst r) | Some d \<Rightarrow> disc_exit (fst r))"

lemma disc_result_stay [simp]: "disc_result (s, None) \<longleftrightarrow> disc s"
  by (simp add: disc_result_def)

lemma disc_result_leave [intro]: "disc s \<Longrightarrow> disc_result (leave t d s)"
proof -
  assume d: "disc s"
  let ?es = "cancel_events s @ joins (tu_join t) (owned_jobs s)"
  have "list_all plain ?es"
    by (auto simp: cancel_events_def joins_def list_all_iff split: option.splits if_splits)
  then have "every_event disciplined (ses_trace s @ ?es)"
    by (intro every_event_appendI)
       (use d in \<open>auto simp: disc_def list_all_iff intro: plain_disciplined\<close>)
  moreover have "bounded (fst (leave t d' s))" for d'
    using d join_all_bounded by (simp add: bounded_def disc_def leave_def drain_unfold)
  ultimately show ?thesis by (simp add: disc_result_def disc_exit_def)
qed

section \<open>The arms\<close>

definition safe :: "job_canceled_ack_message list \<Rightarrow> session \<Rightarrow> bool" where
  "safe old s \<longleftrightarrow> owns s \<and> ack_inv old s \<and> disc s"

lemma size_owned:
  "owns s \<Longrightarrow> size (owned s) = tasks_left (ses_trace s)"
  by (simp add: owns_def accounted_def tasks_left_def)

lemma size_owned_count:
  "size (owned s) = (if ses_in_flight s = None then 0 else 1) + length (ses_draining s)"
  by (cases "ses_in_flight s") (simp_all add: owned_def owned_jobs_def in_flight_list_def)

lemma current_job_count_exact:
  assumes "owns s" and "bounded s"
  shows "unat (current_job_count s) = tasks_left (ses_trace s) \<and> tasks_left (ses_trace s) \<le> 17"
proof -
  let ?n = "length (ses_draining s)"
  have n: "?n \<le> 16" using assms(2) by (simp add: bounded_def MAX_DRAINING_TEARDOWNS_def)
  then have "current_job_count s = word_of_nat (size (owned s))"
    by (simp add: current_job_count_def u32_bound_def size_owned_count)
  moreover have sz: "size (owned s) \<le> 17" using n by (simp add: size_owned_count)
  ultimately have "unat (current_job_count s) = size (owned s)"
    by (simp add: unsigned_of_nat take_bit_nat_eq_self)
  with sz show ?thesis by (simp add: size_owned [OF assms(1)])
qed

lemma disc_heartbeat: "safe old s \<Longrightarrow> disc_result (heartbeat_arm cfg reg t s)"
proof -
  assume sf: "safe old s"
  let ?hb = "\<lparr>hb_tenant = reg_tenant reg, hb_current_job_count = current_job_count s\<rparr>"
  let ?s1 = "surface_purges (tu_purges t) s"
  have d: "disc ?s1" using sf by (simp add: safe_def)
  have "disciplined (ses_trace ?s1) (Sent (Heartbeat ?hb))"
    using sf current_job_count_exact [of s] by (simp add: safe_def disc_def)
  then have d2: "disc (note_events [Sent (Heartbeat ?hb)] ?s1)"
    using d single_note [of ?s1 "[Sent (Heartbeat ?hb)]"]
    by (simp add: disc_def bounded_def every_event_snoc)
  then show ?thesis
    using d unfolding heartbeat_arm_def Let_def
    by (auto intro!: disc_result_leave disc_note split: option.splits)
qed

lemma disc_settle:
  assumes "disc s" and "ack_inv old s" and "Consumed src m \<in> set (ses_trace s)"
    and "terminal_of m = Some p"
  shows "disc (settle_in_flight p s)"
proof (cases "\<exists>j. ses_in_flight s = Some j \<and> job_pair_of j = p")
  case False
  then show ?thesis using assms(1)
    by (auto simp: settle_in_flight_def split: option.splits)
next
  case True
  then obtain j where j: "ses_in_flight s = Some j" "job_pair_of j = p" by blast
  let ?es = "[SweptCache (ifj_cache_keys j), Released (ifj_handle j)]"
  let ?s' = "note_events ?es (s\<lparr>ses_protected := ifj_cache_keys j, ses_in_flight := None\<rparr>)"
  have eq: "settle_in_flight p s = ?s'" using j by (simp add: settle_in_flight_def)
  have "job_spawned (ses_trace s) (ifj_handle j) p"
    using assms(2) j by (auto simp: ack_inv_def entry_ok_def)
  then have "job_spawned (ses_trace s @ [SweptCache (ifj_cache_keys j)]) (ifj_handle j) p"
    by (rule mono_trace)
  then have "disciplined (ses_trace s @ [SweptCache (ifj_cache_keys j)]) (Released (ifj_handle j))"
    using assms(3,4) by (cases p) auto
  then have "every_event disciplined (ses_trace s @ ?es)"
    using assms(1) by (simp add: every_event_two disc_def)
  moreover have "single ?s'"
    using assms(1) j by (auto simp: disc_def single_def accounted_cancel_def)
  ultimately show ?thesis
    unfolding eq using assms(1) by (simp add: disc_def bounded_def)
qed

lemma disc_hand_over: "disc s \<Longrightarrow> disc (hand_over_cancel p s)"
proof -
  assume "disc s"
  moreover have "disc (s\<lparr>ses_just_canceled := a, ses_canceled := b\<rparr>) = disc s" for a b
    by (rule disc_cong) simp_all
  ultimately show ?thesis by (simp add: hand_over_cancel_def)
qed

lemma disc_pending:
  "disc s \<Longrightarrow> length q \<le> MAX_PENDING_CANCEL_ACKS \<Longrightarrow> disc (s\<lparr>ses_pending := q\<rparr>)"
  by (simp add: disc_def bounded_def single_def accounted_cancel_def)

lemma disc_acknowledge: "disc s \<Longrightarrow> disc (acknowledge_cancel t s)"
proof (cases "ses_just_canceled s")
  case (Some c)
  assume d: "disc s"
  let ?s1 = "s\<lparr>ses_just_canceled := None\<rparr>"
  have rm: "disc (?s1\<lparr>ses_draining := remove_at i (ses_draining s)\<rparr>)"
    if "i < length (ses_draining s)" for i
    using d length_remove_at [OF that]
    by (auto simp: disc_def bounded_def single_def accounted_cancel_def)
  define s2 where "s2 = (case find_index (\<lambda>j. job_pair_of j = canceled_pair c) (ses_draining s) of
       None \<Rightarrow> ?s1
     | Some i \<Rightarrow> note_events [Joined (ifj_handle (ses_draining s ! i))
                                (fst (tu_join t (ifj_handle (ses_draining s ! i))))]
                  (?s1\<lparr>ses_draining := remove_at i (ses_draining s)\<rparr>))"
  have d2: "disc s2"
    using d rm find_index_Some [of _ "ses_draining s"]
    by (auto simp: s2_def intro!: disc_note split: option.splits)
  have eq: "acknowledge_cancel t s =
      (if tu_send_ok t then note_events [Sent (JobCanceledAck (cancel_ack_for (tu_now t) c))] s2
       else s2\<lparr>ses_pending := queue_pending_cancel_ack (tu_later t) c (ses_pending s2)\<rparr>)"
    by (simp add: acknowledge_cancel_def Some s2_def Let_def split: option.splits)
  show ?thesis
  proof -
    have "disc (note_events [Sent (JobCanceledAck a)] s2)" for a
      by (rule disc_note [OF d2]) simp_all
    moreover have "disc (s2\<lparr>ses_pending := queue_pending_cancel_ack now c (ses_pending s2)\<rparr>)" for now
      using d2 by (intro disc_pending queue_pending_bounded) (simp_all add: disc_def bounded_def)
    ultimately show ?thesis unfolding eq by simp
  qed
qed (simp add: acknowledge_cancel_def)

lemma disc_worker:
  assumes sf: "safe old s" and m: "not_heartbeat msg"
  shows "disc_result (worker_arm t src msg s)"
proof -
  define s0 where "s0 = note_events [Consumed src msg] s"
  define s1 where "s1 = (case terminal_of msg of
      None \<Rightarrow> s0 | Some p \<Rightarrow> hand_over_cancel p (settle_in_flight p s0))"
  have d0: "disc s0" using sf by (auto simp: s0_def safe_def intro!: disc_note)
  have a0: "ack_inv old s0" using sf by (auto simp: s0_def safe_def intro!: ack_inv_note)
  have "Consumed src msg \<in> set (ses_trace s0)" by (simp add: s0_def)
  then have d1: "disc s1"
    using d0 a0 by (auto simp: s1_def intro: disc_hand_over disc_settle split: option.splits)
  have "disc (note_events [Sent msg] (status_update f s1))" for f
    using d1 m by (intro disc_note) simp_all
  then show ?thesis
    using d1 unfolding worker_arm_def s0_def [symmetric] s1_def [symmetric] Let_def
    by (auto intro: disc_acknowledge)
qed

lemma disc_assign: "safe old s \<Longrightarrow> disc_result (assign_arm t a s)"
proof -
  assume sf: "safe old s"
  have rej: "disc (reject_job a r s)" for r
    using sf by (auto simp: reject_job_def safe_def disc_def bounded_def single_def
        accounted_cancel_def)
  define s2 where "s2 = status_update (set_phase Rendering)
     (note_events [Sent (accept_message a)]
       (status_update (\<lambda>st. st\<lparr>ss_current_job := Some \<lparr>js_id = ja_job_id a,
           js_tier = tier_of (ja_kind a), js_progress = 0, js_phase = Downloading\<rparr>\<rparr>)
         (s\<lparr>ses_gate := mark_busy (ses_gate s)\<rparr>)))"
  have d2: "disc s2"
    using sf by (auto simp: s2_def safe_def accept_message_def intro!: disc_note)
  have "disc (spawn_job a s2)" if none: "ses_in_flight s = None"
  proof -
    have "\<forall>k. k \<in># spawned (ses_trace s2) \<longrightarrow>
        CancelSent k \<in> set (ses_trace s2) \<or> Released k \<in> set (ses_trace s2)"
      using d2 none by (simp add: disc_def single_def accounted_cancel_def s2_def)
    then have "disciplined (ses_trace s2) (Spawned (ses_next s2) a)"
      by (simp add: s2_def)
    then have "every_event disciplined (ses_trace s2 @ [Spawned (ses_next s2) a])"
      using d2 by (simp add: every_event_snoc disc_def)
    moreover have "single (spawn_job a s2)"
      using d2 none by (auto simp: spawn_job_def disc_def single_def accounted_cancel_def s2_def)
    ultimately show ?thesis
      using d2 by (simp add: spawn_job_def disc_def bounded_def)
  qed
  then show ?thesis
    using sf rej unfolding assign_arm_def Let_def s2_def by (auto simp: safe_def)
qed

lemma disc_cancel: "safe old s \<Longrightarrow> disc_result (cancel_arm t m s)"
proof (cases "ses_in_flight s")
  case (Some j)
  assume sf: "safe old s"
  let ?h = "ifj_handle j"
  have c: "ifj_cancel j" using sf Some by (auto simp: safe_def ack_inv_def)
  have keep: "disc s'"
    if "ses_in_flight s' = None" "length (ses_draining s') \<le> MAX_DRAINING_TEARDOWNS"
      "ses_trace s' = ses_trace s @ CancelSent ?h # es" "list_all plain es"
      "spawned es = {#}" "ses_pending s' = ses_pending s" "ses_queue s' = ses_queue s" for s' es
  proof -
    have "every_event disciplined (ses_trace s @ (CancelSent ?h # es))"
      by (rule every_event_appendI)
         (use sf that(4) in \<open>auto simp: safe_def disc_def list_all_iff intro: plain_disciplined\<close>)
    moreover have "single s'"
      using sf that Some by (auto simp: safe_def disc_def single_def accounted_cancel_def)
    ultimately show ?thesis using sf that by (simp add: safe_def disc_def bounded_def)
  qed
  have le: "length (ses_draining s) \<le> MAX_DRAINING_TEARDOWNS"
    using sf by (simp add: safe_def disc_def bounded_def)
  show ?thesis
    using sf Some c le
    by (auto simp: cancel_arm_def Let_def safe_def intro!: keep)
qed (simp add: cancel_arm_def safe_def)

lemma disc_stream: "safe old s \<Longrightarrow> disc_result (stream_arm t item s)"
proof -
  assume sf: "safe old s"
  have "disc_result (server_arm t m s)" for m
    using sf by (cases m) (auto simp: disc_assign disc_cancel update_arm_def safe_def)
  then show ?thesis
    using sf by (cases "(t, item, s)" rule: stream_arm.cases)
      (auto simp: close_arm_def safe_def split: sum.splits option.splits)
qed

lemma disc_before:
  assumes "disc s" and "tasks_ok t s"
  shows "disc (before_select t s)"
proof -
  have "not_heartbeat m" if "task_message m" for m using that by (cases m) auto
  then have "\<forall>(src, m)\<in>set (ses_queue (before_select t s)). not_heartbeat m"
    using assms by (fastforce simp: disc_def before_select_def tasks_ok_def list_all_iff)
  then show ?thesis
    using assms(1) by (simp add: disc_def bounded_def single_def accounted_cancel_def)
qed

lemma disc_turn:
  assumes sf: "safe old s" and ok: "tasks_ok t s"
  shows "disc_result (session_turn cfg reg t s)"
proof -
  let ?s = "before_select t s"
  have sf': "safe old ?s"
    using sf ok by (simp add: safe_def ack_inv_before disc_before)
  have q: "not_heartbeat m \<and> safe old (?s\<lparr>ses_queue := q\<rparr>)" if "ses_queue ?s = (src, m) # q" for src m q
  proof -
    have "ack_inv old (?s\<lparr>ses_queue := q\<rparr>)" "disc (?s\<lparr>ses_queue := q\<rparr>)" "not_heartbeat m"
      using sf' that by (auto simp: safe_def ack_inv_def disc_def bounded_def single_def
          accounted_cancel_def)
    then show ?thesis using sf' by (simp add: safe_def)
  qed
  have "disc_result (shutdown_arm t ?s)"
    using sf' by (auto simp: shutdown_arm_def safe_def intro!: disc_result_leave disc_note)
  moreover have "disc_result (tick_arm t ?s)"
    using sf' by (auto simp: tick_arm_def Let_def safe_def intro!: disc_result_leave disc_note
        split: option.splits)
  ultimately show ?thesis
    using sf' q disc_heartbeat [OF sf'] disc_stream [OF sf'] disc_worker
    unfolding session_turn_def select_arm_def
    by (auto simp: safe_def split: list.splits option.splits)
qed

interpretation session_safe: machine_invariant "session_turn cfg reg" tasks_ok "safe old"
    "\<lambda>s' d. owns s' \<and> ack_exit old s' \<and> disc_exit s'" for cfg reg old
proof unfold_locales
  fix s t s' and d :: disconnect
  assume sf: "safe old s" and ok: "tasks_ok t s"
  have o: "owns (fst (session_turn cfg reg t s))" using sf owns_turn by (simp add: safe_def)
  have a: "ack_result old (session_turn cfg reg t s)"
    using sf ok ack_result_turn by (simp add: safe_def)
  have d: "disc_result (session_turn cfg reg t s)" by (rule disc_turn [OF sf ok])
  show "safe old s'" if "session_turn cfg reg t s = (s', None)"
    using o a d that by (simp add: safe_def)
  show "owns s' \<and> ack_exit old s' \<and> disc_exit s'" if "session_turn cfg reg t s = (s', Some d)"
    using o a d that by (simp add: ack_result_def disc_result_def)
qed

section \<open>Properties of every session\<close>

definition well_fed :: "turn list \<Rightarrow> bool" where
  "well_fed ts \<longleftrightarrow> (\<forall>t\<in>set ts. list_all (\<lambda>(k, m). task_message m) (tu_arrivals t))"

lemma well_fed_ok: "well_fed ts \<Longrightarrow> session_safe.all_ok cfg reg ts s"
  unfolding well_fed_def
  by (induction ts arbitrary: s) (auto simp: tasks_ok_def split: prod.splits option.splits)

lemma safe_start:
  "length pending \<le> MAX_PENDING_CANCEL_ACKS \<Longrightarrow>
     safe pending (session_start mx cfg now keys pending obs)"
  by (simp add: safe_def owns_start ack_inv_start)
     (simp add: session_start_def disc_def bounded_def single_def)

lemma session_disc_exit:
  assumes "well_fed ts" and "length pending \<le> MAX_PENDING_CANCEL_ACKS"
    and "run_session_loop cfg reg ts (session_start mx cfg now keys pending obs) = (s', d)"
  shows "disc_exit s'"
proof -
  have "case run_until (session_turn cfg reg) ts (session_start mx cfg now keys pending obs) of
      (s', None) \<Rightarrow> safe pending s'
    | (s', Some x) \<Rightarrow> owns s' \<and> ack_exit pending s' \<and> disc_exit s'"
    by (rule session_safe.run_invariant [OF safe_start [OF assms(2)] well_fed_ok [OF assms(1)]])
  then show ?thesis
    using assms(3) by (cases d) (auto simp: run_session_loop_def safe_def disc_def disc_exit_def)
qed


text \<open>
  A heartbeat tells dispatch exactly how many job tasks the session still answers for: those
  spawned and neither joined nor released, the teardowns in progress included, never more than
  seventeen, so the 32-bit count never saturates.
\<close>

theorem heartbeat_counts_owned_tasks:
  assumes "well_fed ts" and "length pending \<le> 32"
    and "run_session_loop cfg reg ts (session_start mx cfg now keys pending obs) = (s', d)"
    and "ses_trace s' = tr1 @ Sent (Heartbeat hb) # tr2"
  shows "unat (hb_current_job_count hb)
           = size (spawned tr1) - (size (joined tr1) + size (released tr1))
         \<and> unat (hb_current_job_count hb) \<le> 17"
proof -
  have "disc_exit s'"
    by (rule session_disc_exit [OF assms(1) _ assms(3)])
       (use assms(2) in \<open>simp add: MAX_PENDING_CANCEL_ACKS_def\<close>)
  then have "every_event disciplined (ses_trace s')" by (simp add: disc_exit_def)
  then have "disciplined tr1 (Sent (Heartbeat hb))" unfolding assms(4) by (rule every_eventD)
  then show ?thesis by (simp add: tasks_left_def)
qed

text \<open>
  C12: A task handle is let go without being awaited only after the session read a terminal frame
  of that task's own job and attempt.
\<close>

theorem handle_released_only_on_own_terminal:
  assumes "well_fed ts" and "length pending \<le> 32"
    and "run_session_loop cfg reg ts (session_start mx cfg now keys pending obs) = (s', d)"
    and "ses_trace s' = tr1 @ Released k # tr2"
  shows "\<exists>src m a. Consumed src m \<in> set tr1 \<and> Spawned k a \<in> set tr1
           \<and> terminal_of m = Some (ja_job_id a, ja_attempt a)"
proof -
  have "disc_exit s'"
    by (rule session_disc_exit [OF assms(1) _ assms(3)])
       (use assms(2) in \<open>simp add: MAX_PENDING_CANCEL_ACKS_def\<close>)
  then have "every_event disciplined (ses_trace s')" by (simp add: disc_exit_def)
  then have "disciplined tr1 (Released k)" unfolding assms(4) by (rule every_eventD)
  then show ?thesis by (auto simp: job_spawned_def)
qed

text \<open>
  The two bounded lists of a session never exceed their caps, whatever dispatch sends: at most
  sixteen teardowns drain at once and at most thirty-two acknowledgements wait for the next
  session.
\<close>

theorem session_lists_bounded:
  assumes "well_fed ts" and "length pending \<le> 32"
    and "run_session_loop cfg reg ts (session_start mx cfg now keys pending obs) = (s', d)"
  shows "length (ses_draining s') \<le> 16 \<and> length (ses_pending s') \<le> 32"
proof -
  have "disc_exit s'"
    by (rule session_disc_exit [OF assms(1) _ assms(3)])
       (use assms(2) in \<open>simp add: MAX_PENDING_CANCEL_ACKS_def\<close>)
  then show ?thesis
    by (simp add: disc_exit_def bounded_def MAX_DRAINING_TEARDOWNS_def MAX_PENDING_CANCEL_ACKS_def)
qed

section \<open>Witnesses\<close>

definition witness_turns :: "turn list" where
  "witness_turns = [allow_turn, frame_turn (JobAssign (job_of ''a'' (Some 1))),
     task_turn 0 (complete_of ''a'' (Some 1)), heartbeat_turn]"

lemma witness_well_fed: "well_fed witness_turns"
  by (simp add: well_fed_def witness_turns_def turn_defs complete_of_def)

definition witness_end :: session where
  "witness_end = fst (run_session_loop sample_config sample_register witness_turns
     (session_start (secs 10000) sample_config (secs 10) [] [] (channels default_status)))"

lemma witness_run:
  "run_session_loop sample_config sample_register witness_turns
     (session_start (secs 10000) sample_config (secs 10) [] [] (channels default_status))
   = (witness_end, None)"
proof -
  have "snd (run_session_loop sample_config sample_register witness_turns
     (session_start (secs 10000) sample_config (secs 10) [] [] (channels default_status))) = None"
    by (simp add: witness_turns_def run_eval del: server_to_json.simps)
  then show ?thesis by (simp add: witness_end_def prod_eq_iff)
qed

lemma witness_trace:
  "ses_trace witness_end =
     [Sent (accept_message (job_of ''a'' (Some 1))), Spawned 0 (job_of ''a'' (Some 1)),
      Consumed (Some 0) (complete_of ''a'' (Some 1)),
      SweptCache (cache_keys_for (job_of ''a'' (Some 1))), Released 0,
      Sent (complete_of ''a'' (Some 1)),
      Sent (Heartbeat \<lparr>hb_tenant = ''driffs'', hb_current_job_count = 0\<rparr>)]"
  by (simp add: witness_end_def witness_turns_def run_eval sample_register_def
      del: server_to_json.simps)


theorem heartbeat_counts_owned_tasks_witness:
  "unat (0 :: u32) = size (spawned (butlast (ses_trace witness_end)))
     - (size (joined (butlast (ses_trace witness_end)))
        + size (released (butlast (ses_trace witness_end))))"
  using heartbeat_counts_owned_tasks [OF witness_well_fed _ witness_run,
      of "butlast (ses_trace witness_end)" "\<lparr>hb_tenant = ''driffs'', hb_current_job_count = 0\<rparr>"]
  by (simp add: witness_trace)

theorem handle_released_only_on_own_terminal_witness:
  "\<exists>src m a. Consumed src m \<in> set (take 4 (ses_trace witness_end))
     \<and> Spawned 0 a \<in> set (take 4 (ses_trace witness_end))
     \<and> terminal_of m = Some (ja_job_id a, ja_attempt a)"
  using handle_released_only_on_own_terminal [OF witness_well_fed _ witness_run,
      of "take 4 (ses_trace witness_end)" 0 "drop 5 (ses_trace witness_end)"]
  by (simp add: witness_trace)

theorem session_lists_bounded_witness:
  "length (ses_draining witness_end) \<le> 16 \<and> length (ses_pending witness_end) \<le> 32"
  by (rule session_lists_bounded [OF witness_well_fed _ witness_run]) simp

end
