(* ===== verification/Session_Runs.thy ===== *)
theory Session_Runs
  imports Session_Discipline
begin

text \<open>
  Behaviour of single turns of a session (priority of the arms, refusals, the upgrade handoff, the
  status after an exit) and concrete runs of it, among them runs on which the code does not do
  what its comments promise.
\<close>

section \<open>Single turns\<close>

lemma leave_disconnect: "(s', Some d) = leave t d' s1 \<Longrightarrow> d = d'"
  by (metis leave_sel(1) option.inject snd_conv)

text \<open>
  Whatever ended it, a session that returns shows the operator a disconnected node.
\<close>

theorem session_exit_shows_disconnected:
  assumes "session_turn cfg reg t s = (s', Some d)" and "status_tx (ses_obs s') = Some st"
  shows "ss_connection st = Disconnected"
proof -
  from turn_exit_leave [OF assms(1)] obtain s1 where "(s', Some d) = leave t d s1" by blast
  then have "ses_obs s' = update_status (set_connection Disconnected) (ses_obs s1)"
    by (metis fst_conv leave_sel(7))
  then show ?thesis
    using assms(2) by (auto simp: update_status_def set_connection_def)
qed

theorem session_exit_shows_disconnected_witness:
  "\<exists>s' st. session_turn sample_config sample_register end_turn sample_start = (s', Some DClean)
     \<and> status_tx (ses_obs s') = Some st \<and> ss_connection st = Disconnected"
proof -
  obtain s' where r: "session_turn sample_config sample_register end_turn sample_start = (s', Some DClean)"
    by (simp add: run_eval del: server_to_json.simps)
  moreover obtain st where st: "status_tx (ses_obs s') = Some st"
    using r by (auto simp: run_eval simp del: server_to_json.simps)
  ultimately show ?thesis using session_exit_shows_disconnected [OF r st] by blast
qed

lemma worker_no_exit: "snd (worker_arm t src msg s) = Some d \<Longrightarrow> d = DAbnormal"
  unfolding worker_arm_def Let_def by (auto split: if_splits)

lemma server_no_exit: "snd (server_arm t m s) = Some d \<Longrightarrow> d = DAbnormal"
  by (cases m) (auto simp: assign_arm_def cancel_arm_def update_arm_def Let_def
      split: if_splits option.splits)

lemma stream_no_upgrade: "snd (stream_arm t item s) \<noteq> Some (DAutoUpgrade v)"
  by (cases "(t, item, s)" rule: stream_arm.cases)
     (auto simp: close_arm_def dest: server_no_exit split: sum.splits option.splits)

lemma heartbeat_no_upgrade: "snd (heartbeat_arm cfg reg t s) \<noteq> Some (DAutoUpgrade v)"
  unfolding heartbeat_arm_def Let_def by (auto split: option.splits)

lemma upgrade_exit_arm:
  assumes "session_turn cfg reg t s = (s', Some (DAutoUpgrade v))"
  shows "tick_arm t (before_select t s) = (s', Some (DAutoUpgrade v))"
    and "\<not> tu_shutdown t" and "tu_tick t"
  using assms heartbeat_no_upgrade [of cfg reg t "before_select t s" v]
    stream_no_upgrade [of t _ "before_select t s" v] worker_no_exit [of t _ _ _ "DAutoUpgrade v"]
  unfolding session_turn_def select_arm_def
  by (auto simp: shutdown_arm_def dest!: leave_disconnect [OF sym] split: if_splits list.splits option.splits)
     (metis snd_conv disconnect.distinct)+

text \<open>
  The upgrade handoff never costs a job. A session hands over for version \<open>v\<close> only on a turn on
  which no shutdown was asked, nothing was in flight, every teardown task had finished, the
  operator's flag was on and the quiet period of the policy had passed for the announced target
  \<open>v\<close>; it signals no job, sends nothing but the close, and accepts nothing that arrived with it.
\<close>

theorem upgrade_handoff_only_when_idle:
  assumes "session_turn cfg reg t s = (s', Some (DAutoUpgrade v))"
  shows "\<not> tu_shutdown t \<and> ses_in_flight s = None
         \<and> list_all (\<lambda>j. tu_finished t (ifj_handle j)) (ses_draining s)
         \<and> auto_upgrade_flag (fold operator_apply (tu_operator t) (ses_obs s))
         \<and> gate_target (ses_gate s) = Some v
         \<and> (\<exists>policy since. gate_policy (ses_gate s) = Some policy
              \<and> (gate_idle_since (ses_gate s) = Some since \<or> since = tu_now t)
              \<and> aup_quiet_period policy \<le> tu_now t - since)
         \<and> ses_trace s' = ses_trace s @ [SentClose] @ joins (tu_join t) (ses_draining s)"
proof -
  let ?b = "before_select t s"
  let ?g = "gate_observe (auto_upgrade_enabled (ses_obs ?b)) (session_idle t ?b) (tu_now t) (ses_gate ?b)"
  have arm: "tick_arm t ?b = (s', Some (DAutoUpgrade v))" and sh: "\<not> tu_shutdown t"
    using upgrade_exit_arm [OF assms] by simp_all
  then obtain w where w: "ready (tu_now t) ?g = Some w"
      and lv: "leave t (DAutoUpgrade w) (note_events [SentClose] (?b\<lparr>ses_gate := ?g\<rparr>))
                 = (s', Some (DAutoUpgrade v))"
    by (auto simp: tick_arm_def Let_def split: option.splits)
  have wv: "w = v" using leave_disconnect [OF lv [symmetric]] by simp
  have g: "gate_idle_since ?g \<noteq> None \<and> auto_upgrade_enabled (ses_obs ?b) \<and> session_idle t ?b
      \<and> gate_target (ses_gate s) = Some v"
    using w wv by (auto simp: ready_def gate_observe_def split: option.splits if_splits)
  have since: "\<exists>policy since. gate_policy (ses_gate s) = Some policy
              \<and> (gate_idle_since (ses_gate s) = Some since \<or> since = tu_now t)
              \<and> aup_quiet_period policy \<le> tu_now t - since"
    using w by (auto simp: ready_def gate_observe_def split: option.splits if_splits)
  have idle: "ses_in_flight s = None"
      "list_all (\<lambda>j. tu_finished t (ifj_handle j)) (ses_draining s)"
    using g by (simp_all add: session_idle_def)
  have "ses_trace s' = ses_trace (note_events [SentClose] (?b\<lparr>ses_gate := ?g\<rparr>))
      @ cancel_events (note_events [SentClose] (?b\<lparr>ses_gate := ?g\<rparr>))
      @ joins (tu_join t) (owned_jobs (note_events [SentClose] (?b\<lparr>ses_gate := ?g\<rparr>)))"
    using lv leave_sel(10) by (metis fst_conv)
  then have "ses_trace s' = ses_trace s @ [SentClose] @ joins (tu_join t) (ses_draining s)"
    using idle by (simp add: cancel_events_def owned_jobs_def in_flight_list_def)
  moreover have "auto_upgrade_flag (fold operator_apply (tu_operator t) (ses_obs s))"
    using g by (simp add: auto_upgrade_enabled_def before_select_def)
  ultimately show ?thesis using sh idle g since by simp
qed

definition upgrade_config :: connection_config where
  "upgrade_config = sample_config\<lparr>cc_auto_upgrade := Some \<lparr>aup_quiet_period = secs 30,
     aup_suppressed_version = None, aup_suppressed_for = None\<rparr>\<rparr>"

definition upgrade_ready :: session where
  "upgrade_ready = (session_start (secs 10000) upgrade_config (secs 10) [] [] (channels default_status))
     \<lparr>ses_gate := \<lparr>gate_policy = cc_auto_upgrade upgrade_config, gate_target = Some ''2.0.0'',
        gate_idle_since = Some (secs 60), gate_suppressed_until = None\<rparr>\<rparr>"

definition upgrade_turn :: turn where
  "upgrade_turn = quiet_turn\<lparr>tu_operator := [SetAutoUpgrade True], tu_tick := True,
     tu_stream := Some (FText (Some (server_to_json (JobAssign (job_of ''a'' None)))))\<rparr>"

theorem upgrade_handoff_only_when_idle_witness:
  "\<exists>s'. session_turn upgrade_config sample_register upgrade_turn upgrade_ready
          = (s', Some (DAutoUpgrade ''2.0.0''))
      \<and> ses_trace s' = ses_trace upgrade_ready @ [SentClose]"
proof -
  have "snd (session_turn upgrade_config sample_register upgrade_turn upgrade_ready)
      = Some (DAutoUpgrade ''2.0.0'')"
    by (simp add: upgrade_turn_def upgrade_ready_def upgrade_config_def run_eval Let_def
        auto_upgrade_enabled_def set_auto_upgrade_enabled_def session_idle_def gate_observe_def
        target_suppressed_def ready_def del: server_to_json.simps)
  then obtain s' where r: "session_turn upgrade_config sample_register upgrade_turn upgrade_ready
      = (s', Some (DAutoUpgrade ''2.0.0''))"
    by (metis prod.collapse)
  have "ses_draining upgrade_ready = []" by (simp add: upgrade_ready_def session_start_def)
  with upgrade_handoff_only_when_idle [OF r] r show ?thesis by (simp add: joins_def)
qed

text \<open>
  A job the node will not run is refused aloud. When an assignment arrives while real jobs are
  off, or while a job is in flight, no job is spawned and the job in flight is untouched, and the
  next turn of a live session sends dispatch \<open>jobRejected\<close> with the matching reason for that
  tenant, job and attempt.
\<close>

theorem refused_job_is_rejected:
  assumes "ses_queue s = []" and "server_wf (JobAssign a)"
    and "\<not> allow_flag (ses_obs s) \<or> ses_in_flight s \<noteq> None"
  shows "(case session_turn cfg reg (frame_turn (JobAssign a)) s of (s1, d1) \<Rightarrow>
           d1 = None \<and> ses_trace s1 = ses_trace s \<and> ses_in_flight s1 = ses_in_flight s
           \<and> (case session_turn cfg reg quiet_turn s1 of (s2, d2) \<Rightarrow>
                d2 = None \<and> ses_in_flight s2 = ses_in_flight s
                \<and> last (ses_trace s2) =
                    Sent (JobRejected \<lparr>rej_tenant = ja_tenant a, rej_job_id = ja_job_id a,
                      rej_attempt = ja_attempt a,
                      rej_reason = (if allow_flag (ses_obs s) then Busy else NotAccepting)\<rparr>)))"
  using assms
  by (auto simp: turn_defs server_wire assign_arm_def reject_job_def allows_real_jobs_def
      worker_arm_def suppressed_def simp del: server_to_json.simps)

theorem refused_job_is_rejected_witness:
  "last (ses_trace (fst (session_turn sample_config sample_register quiet_turn
      (fst (session_turn sample_config sample_register
        (frame_turn (JobAssign (job_of ''a'' (Some 3)))) sample_start)))))
   = Sent (JobRejected \<lparr>rej_tenant = ''driffs'', rej_job_id = ''a'', rej_attempt = Some 3,
       rej_reason = NotAccepting\<rparr>)"
  using refused_job_is_rejected [of sample_start "job_of ''a'' (Some 3)" sample_config sample_register]
  by (simp add: sample_start_def session_start_def channels_def split: prod.splits)

text \<open>
  While the cancel of a job is being torn down, that job's terminal frame never reaches
  dispatch: the frame is consumed, at most the acknowledgement is sent in its place, and the
  session stays up even if that send fails (the acknowledgement is then queued).
\<close>

theorem canceled_terminal_is_not_reported:
  assumes "ses_queue s = []" and "ses_canceled s = Some c"
    and "terminal_of m = Some (canceled_pair c)"
  shows "(case session_turn cfg reg (task_turn k m) s of (s', d) \<Rightarrow>
           d = None \<and> ses_canceled s' = None \<and> Sent m \<notin> set (drop (length (ses_trace s)) (ses_trace s'))
           \<and> (\<forall>m'. Sent m' \<in> set (drop (length (ses_trace s)) (ses_trace s'))
                \<longrightarrow> m' = JobCanceledAck (cancel_ack_for (secs 100) c)))"
proof -
  have m: "m \<noteq> JobCanceledAck a" for a using assms(3) by (cases m) auto
  show ?thesis
    using assms m
    by (auto simp: turn_defs worker_arm_def suppressed_def Let_def hand_over_cancel_def
        settle_in_flight_def acknowledge_cancel_def split: option.splits)
qed

theorem canceled_terminal_is_not_reported_witness:
  "ses_canceled (fst (session_turn sample_config sample_register
      (task_turn 0 (failed_of ''a'' (Some 1)))
      (sample_start\<lparr>ses_canceled := Some \<lparr>cj_tenant = ''driffs'', cj_job_id = ''a'',
         cj_attempt = Some 1, cj_received_at = secs 90\<rparr>\<rparr>))) = None"
  using canceled_terminal_is_not_reported
    [of "sample_start\<lparr>ses_canceled := Some \<lparr>cj_tenant = ''driffs'', cj_job_id = ''a'',
         cj_attempt = Some 1, cj_received_at = secs 90\<rparr>\<rparr>"
       "\<lparr>cj_tenant = ''driffs'', cj_job_id = ''a'', cj_attempt = Some 1, cj_received_at = secs 90\<rparr>"
       "failed_of ''a'' (Some 1)" sample_config sample_register 0]
  by (simp add: sample_start_def session_start_def failed_of_def canceled_pair_def
      split: prod.splits)

section \<open>Runs on which the code falls short of its comments\<close>

definition race_turns :: "turn list" where
  "race_turns = [allow_turn, frame_turn (JobAssign (job_of ''a'' (Some 1))),
     frame_turn (cancel_of_job ''a''), task_turn 0 (complete_of ''a'' (Some 1)), heartbeat_turn]"

text \<open>
  The busy count after a cancel that lost the race. A job is cancelled, its completion arrives,
  and the completion is suppressed without an acknowledgement; the task that sent it stays in the
  teardown list, so the next heartbeat of the idle node reports one job, although its only task
  reported its end before.
\<close>

theorem suppressed_completion_leaves_busy_count:
  "(case run_session_loop sample_config sample_register race_turns sample_start of (s', d) \<Rightarrow>
      d = None \<and> ses_in_flight s' = None
      \<and> Consumed (Some 0) (complete_of ''a'' (Some 1)) \<in> set (ses_trace s')
      \<and> last (ses_trace s') = Sent (Heartbeat \<lparr>hb_tenant = ''driffs'', hb_current_job_count = 1\<rparr>)
      \<and> map ifj_handle (ses_draining s') = [0])"
  by (simp add: race_turns_def run_eval sample_register_def del: server_to_json.simps)

definition release_turns :: "turn list" where
  "release_turns = [allow_turn, frame_turn (JobAssign (job_of ''a'' None)),
     frame_turn (cancel_of_job ''a''), frame_turn (JobAssign (job_of ''a'' None)),
     task_turn 0 (failed_of ''a'' None), heartbeat_turn]"

text \<open>
  A lease without an attempt that is cancelled and assigned again: the first task's late
  \<open>jobFailed\<close> also matches the second lease, whose task is let go unawaited while it runs; the node
  then reports itself idle with a render running.
\<close>

theorem attemptless_reassignment_strands_task:
  "(case run_session_loop sample_config sample_register release_turns sample_start of (s', d) \<Rightarrow>
      d = None \<and> ses_in_flight s' = None \<and> ses_draining s' = []
      \<and> spawned (ses_trace s') = {#0, 1#} \<and> released (ses_trace s') = {#1#}
      \<and> CancelSent 1 \<notin> set (ses_trace s') \<and> (\<forall>m. Consumed (Some 1) m \<notin> set (ses_trace s'))
      \<and> last (ses_trace s') = Sent (Heartbeat \<lparr>hb_tenant = ''driffs'', hb_current_job_count = 0\<rparr>))"
  by (simp add: release_turns_def run_eval sample_register_def remove_at_def add_mset_commute
      del: server_to_json.simps)

definition overwrite_turns :: "turn list" where
  "overwrite_turns = [allow_turn, frame_turn (JobAssign (job_of ''a'' (Some 1))),
     frame_turn (cancel_of_job ''a''), frame_turn (JobAssign (job_of ''b'' (Some 1))),
     frame_turn (cancel_of_job ''b''), task_turn 0 (failed_of ''a'' (Some 1))]"

text \<open>
  A second cancel overwrites the record of the first. When the first job's \<open>jobFailed\<close> arrives
  after the second cancel, it is forwarded to dispatch as a failure of a job dispatch cancelled,
  and no acknowledgement is sent for it.
\<close>

theorem second_cancel_overwrites_first:
  "(case run_session_loop sample_config sample_register overwrite_turns sample_start of (s', d) \<Rightarrow>
      d = None \<and> last (ses_trace s') = Sent (failed_of ''a'' (Some 1))
      \<and> CancelSent 0 \<in> set (ses_trace s')
      \<and> (\<forall>a. Sent (JobCanceledAck a) \<notin> set (ses_trace s')) \<and> ses_pending s' = [])"
  by (simp add: overwrite_turns_def run_eval accept_message_def del: server_to_json.simps)

definition phantom_turns :: "turn list" where
  "phantom_turns = [allow_turn, frame_turn (JobAssign (job_of ''a'' (Some 1))), end_turn]"

text \<open>
  A socket that ends mid-render leaves its job on the status: the task was signalled and
  joined, but the operator's snapshot of the disconnected node still shows the job rendering.
\<close>

theorem disconnect_leaves_phantom_job:
  "(case run_session_loop sample_config sample_register phantom_turns sample_start of (s', d) \<Rightarrow>
      d = Some DClean \<and> joined (ses_trace s') = {#0#}
      \<and> map_option js_phase (ss_current_job (borrow_status (ses_obs s'))) = Some Rendering
      \<and> map_option js_id (ss_current_job (borrow_status (ses_obs s'))) = Some ''a'')"
  by (simp add: phantom_turns_def run_eval borrow_status_def del: server_to_json.simps)

end
