(* ===== verification/Fs.thy ===== *)
theory Fs
  imports Dr_Base "HOL-Library.Multiset"
begin

text \<open>
  Directory trees as the walks of the source see them, and the explicit-stack walk that
  \<open>workdir_bytes\<close> (\<open>crates/supervisor-core/src/runner.rs\<close>), \<open>dir_size\<close>
  (\<open>crates/supervisor-core/src/cache.rs\<close>) and \<open>newest_mtime\<close> (\<open>crates/supervisor-core/src/sweep.rs\<close>)
  share. A node may be gone or unreadable by the time it is looked at; a link is a leaf: no walk
  follows one. The stack is a \<open>Vec\<close>: children are pushed in listing order and the last pushed is
  popped first.
\<close>

section \<open>Trees\<close>

record fmeta =
  fm_len :: nat
  fm_blocks :: nat
  fm_modified :: "nat option"

datatype fsnode =
    Gone
  | FileNode fmeta
  | LinkNode fmeta
  | DirNode fmeta "(string \<times> fsnode) list option"

fun children_of :: "fsnode \<Rightarrow> fsnode list" where
  "children_of (DirNode m (Some kids)) = map snd kids"
| "children_of _ = []"

fun is_dir_node :: "fsnode \<Rightarrow> bool" where
  "is_dir_node (DirNode m kids) = True" | "is_dir_node _ = False"

fun node_size :: "fsnode \<Rightarrow> nat" where
  "node_size (DirNode m (Some kids)) = Suc (sum_list (map (\<lambda>(k, n). node_size n) kids))"
| "node_size _ = 1"

lemma node_size_children: "node_size n = Suc (sum_list (map node_size (children_of n)))"
  by (cases n rule: children_of.cases) (simp_all add: case_prod_unfold comp_def)

lemma node_size_child: "c \<in> set (children_of n) \<Longrightarrow> node_size c < node_size n"
  using member_le_sum_list [of "node_size c" "map node_size (children_of n)"]
  by (simp add: node_size_children [of n])

section \<open>The stack walk\<close>

function walk :: "(fsnode \<Rightarrow> 'a \<Rightarrow> 'a) \<Rightarrow> 'a \<Rightarrow> fsnode list \<Rightarrow> 'a" where
  "walk visit acc [] = acc"
| "walk visit acc (n # stack) = walk visit (visit n acc) (rev (children_of n) @ stack)"
  by pat_completeness auto
termination
proof (relation "measure (\<lambda>(visit, acc, stack). sum_list (map node_size stack))", goal_cases)
  case (2 visit acc n stack)
  then show ?case by (simp add: node_size_children [of n] rev_map [symmetric])
qed simp

declare walk.simps [simp del]

lemmas walk_Nil [simp] = walk.simps(1)

text \<open>Every node at or below a node, each once, in some order.\<close>

function nodes_below :: "fsnode \<Rightarrow> fsnode list" where
  "nodes_below n = n # concat (map nodes_below (children_of n))"
  by pat_completeness auto
termination by (relation "measure node_size") (auto intro: node_size_child)

declare nodes_below.simps [simp del]

lemma mset_concat_rev: "mset (concat (map f (rev xs))) = mset (concat (map f xs))"
  by (induction xs) simp_all

section \<open>Walks whose visits commute\<close>

text \<open>
  The promise a walk relies on: the order of visits does not matter. Then the stack walk computes
  the fold over all nodes, in any order.
\<close>

locale commuting_visit =
  fixes visit :: "fsnode \<Rightarrow> 'a \<Rightarrow> 'a"
  assumes visit_commute: "visit n (visit m acc) = visit m (visit n acc)"
begin

lemma fold_visit_mset:
  assumes "mset xs = mset ys"
  shows "fold visit xs acc = fold visit ys acc"
proof -
  have "fold visit xs = fold visit ys"
    by (rule fold_multiset_equiv) (simp_all add: fun_eq_iff visit_commute assms)
  then show ?thesis by simp
qed

theorem walk_eq_fold:
  "walk visit acc stack = fold visit (concat (map nodes_below stack)) acc"
proof (induction "sum_list (map node_size stack)" arbitrary: acc stack rule: less_induct)
  case less
  show ?case
  proof (cases stack)
    case (Cons n rest)
    let ?kids = "rev (children_of n) @ rest"
    have "sum_list (map node_size ?kids) < sum_list (map node_size stack)"
      by (simp add: Cons node_size_children [of n] rev_map [symmetric])
    then have "walk visit (visit n acc) ?kids
        = fold visit (concat (map nodes_below ?kids)) (visit n acc)"
      by (rule less)
    also have "\<dots> = fold visit (concat (map nodes_below (children_of n))
          @ concat (map nodes_below rest)) (visit n acc)"
      by (rule fold_visit_mset) (simp add: mset_concat_rev)
    finally show ?thesis by (simp add: Cons walk.simps nodes_below.simps [of n])
  qed simp
qed

end

text \<open>Sums and maxima over trees are such walks.\<close>

definition add_visit :: "(fsnode \<Rightarrow> nat) \<Rightarrow> fsnode \<Rightarrow> nat \<Rightarrow> nat" where
  "add_visit w n acc = acc + w n"

definition max_visit :: "(fsnode \<Rightarrow> nat) \<Rightarrow> fsnode \<Rightarrow> nat \<Rightarrow> nat" where
  "max_visit w n acc = max acc (w n)"

interpretation add_walk: commuting_visit "add_visit w" for w
  by unfold_locales (simp add: add_visit_def)

interpretation max_walk: commuting_visit "max_visit w" for w
  by unfold_locales (simp add: max_visit_def ac_simps)

lemma fold_add_visit: "fold (add_visit w) xs acc = acc + sum_list (map w xs)"
  by (induction xs arbitrary: acc) (simp_all add: add_visit_def)

lemma fold_max_visit: "fold (max_visit w) xs acc = Max (insert acc (set (map w xs)))"
proof (induction xs arbitrary: acc)
  case (Cons x xs)
  have "Max (insert acc (insert (w x) (w ` set xs))) = Max (insert (max acc (w x)) (w ` set xs))"
    by (cases "xs = []") (simp_all add: max.assoc)
  with Cons show ?case by (simp add: max_visit_def)
qed simp

text \<open>The recursive reference: the total weight of a tree is its node's and its children's.\<close>

function tree_sum :: "(fsnode \<Rightarrow> nat) \<Rightarrow> fsnode \<Rightarrow> nat" where
  "tree_sum w n = w n + sum_list (map (tree_sum w) (children_of n))"
  by pat_completeness auto
termination by (relation "measure (\<lambda>(w, n). node_size n)") (auto intro: node_size_child)

declare tree_sum.simps [simp del]

lemma tree_sum_nodes: "tree_sum w n = sum_list (map w (nodes_below n))"
proof (induction n rule: nodes_below.induct)
  case (1 n)
  have "sum_list (map (tree_sum w) cs) = sum_list (map w (concat (map nodes_below cs)))"
    if "set cs \<subseteq> set (children_of n)" for cs
    using that 1 by (induction cs) auto
  then show ?case by (simp add: tree_sum.simps [of w n] nodes_below.simps [of n])
qed

lemma walk_add: "walk (add_visit w) acc [n] = acc + tree_sum w n"
  by (simp add: add_walk.walk_eq_fold fold_add_visit tree_sum_nodes)

lemma walk_max: "walk (max_visit w) acc [n] = Max (insert acc (w ` set (nodes_below n)))"
  by (simp add: max_walk.walk_eq_fold fold_max_visit)

section \<open>The three walks of the source\<close>

definition mtime_or_0 :: "fmeta \<Rightarrow> nat" where
  "mtime_or_0 m = (case fm_modified m of Some t \<Rightarrow> t | None \<Rightarrow> 0)"

fun node_meta :: "fsnode \<Rightarrow> fmeta option" where
  "node_meta Gone = None"
| "node_meta (FileNode m) = Some m"
| "node_meta (LinkNode m) = Some m"
| "node_meta (DirNode m kids) = Some m"

text \<open>\<open>newest_mtime\<close>: times are nanoseconds since the epoch; a node without metadata is skipped.\<close>

definition newest_visit :: "fsnode \<Rightarrow> nat \<Rightarrow> nat" where
  "newest_visit n acc = (case node_meta n of None \<Rightarrow> acc
     | Some m \<Rightarrow> (case fm_modified m of Some t \<Rightarrow> (if acc < t then t else acc) | None \<Rightarrow> acc))"

definition newest_mtime :: "fsnode \<Rightarrow> nat" where
  "newest_mtime n = walk newest_visit 0 [n]"

text \<open>\<open>dir_size\<close>: allocated blocks of every node, directories and links included.\<close>

definition block_visit :: "fsnode \<Rightarrow> nat \<Rightarrow> nat" where
  "block_visit n acc = (case node_meta n of None \<Rightarrow> acc | Some m \<Rightarrow> acc + fm_blocks m * 512)"

definition dir_size :: "fsnode \<Rightarrow> nat" where
  "dir_size n = walk block_visit 0 [n]"

text \<open>
  \<open>workdir_bytes\<close> keeps directories on its stack and looks at the metadata of their entries: a
  regular file adds its length, a directory is pushed, anything else is skipped.
\<close>

fun entry_bytes :: "fsnode list \<Rightarrow> nat \<Rightarrow> nat" where
  "entry_bytes [] acc = acc"
| "entry_bytes (FileNode m # es) acc = entry_bytes es (acc + fm_len m)"
| "entry_bytes (n # es) acc = entry_bytes es acc"

definition sub_dirs :: "fsnode list \<Rightarrow> fsnode list" where
  "sub_dirs es = filter is_dir_node es"

lemma sub_dirs_size: "sum_list (map node_size (sub_dirs es)) \<le> sum_list (map node_size es)"
  by (induction es) (auto simp: sub_dirs_def)

function workdir_walk :: "nat \<Rightarrow> fsnode list \<Rightarrow> nat" where
  "workdir_walk acc [] = acc"
| "workdir_walk acc (d # stack) =
     workdir_walk (entry_bytes (children_of d) acc) (rev (sub_dirs (children_of d)) @ stack)"
  by pat_completeness auto
termination
proof (relation "measure (\<lambda>(acc, stack). sum_list (map node_size stack))", goal_cases)
  case (2 acc d stack)
  then show ?case
    using sub_dirs_size [of "children_of d"]
    by (simp add: node_size_children [of d] rev_map [symmetric])
qed simp

definition workdir_bytes :: "fsnode \<Rightarrow> nat" where
  "workdir_bytes n = workdir_walk 0 [n]"

fun file_len :: "fsnode \<Rightarrow> nat" where
  "file_len (FileNode m) = fm_len m" | "file_len _ = 0"

definition block_bytes :: "fsnode \<Rightarrow> nat" where
  "block_bytes n = (case node_meta n of None \<Rightarrow> 0 | Some m \<Rightarrow> fm_blocks m * 512)"

definition modified_at :: "fsnode \<Rightarrow> nat" where
  "modified_at n = (case node_meta n of None \<Rightarrow> 0 | Some m \<Rightarrow> mtime_or_0 m)"

lemma block_visit_add: "block_visit = add_visit block_bytes"
  by (auto simp: fun_eq_iff block_visit_def add_visit_def block_bytes_def split: option.splits)

lemma newest_visit_max: "newest_visit = max_visit modified_at"
  by (auto simp: fun_eq_iff newest_visit_def max_visit_def modified_at_def mtime_or_0_def
      split: option.splits)

lemma entry_bytes_sum: "entry_bytes es acc = acc + sum_list (map file_len es)"
  by (induction es acc rule: entry_bytes.induct) simp_all

lemma tree_sum_leaf: "\<not> is_dir_node n \<Longrightarrow> tree_sum w n = w n"
proof -
  assume "\<not> is_dir_node n"
  then have "children_of n = []" by (cases n) simp_all
  then show ?thesis by (simp add: tree_sum.simps [of w n])
qed

lemma workdir_walk_sum:
  "list_all is_dir_node stack \<Longrightarrow>
     workdir_walk acc stack = acc + sum_list (map (tree_sum file_len) stack)"
proof (induction acc stack rule: workdir_walk.induct)
  case (2 acc d stack)
  have split: "sum_list (map (tree_sum file_len) es)
      = sum_list (map file_len es) + sum_list (map (tree_sum file_len) (sub_dirs es))" for es
  proof (induction es)
    case (Cons e es)
    have "is_dir_node e \<Longrightarrow> file_len e = 0" by (cases e) auto
    then show ?case using Cons by (simp add: sub_dirs_def tree_sum_leaf)
  qed (simp add: sub_dirs_def)
  have "file_len d = 0" using 2(2) by (cases d) auto
  then have "tree_sum file_len d = sum_list (map file_len (children_of d))
      + sum_list (map (tree_sum file_len) (sub_dirs (children_of d)))"
    using split [of "children_of d"] by (simp add: tree_sum.simps [of file_len d])
  moreover have "list_all is_dir_node (rev (sub_dirs (children_of d)) @ stack)"
    using 2(2) by (auto simp: sub_dirs_def list_all_iff)
  ultimately show ?case
    using 2(1) by (simp add: entry_bytes_sum rev_map [symmetric] del: append.simps)
qed simp

text \<open>
  The disk sampler and the cache accounting measure the whole tree. The explicit-stack walk of a
  working directory returns exactly the sum of the lengths of the regular files below it, and the
  cache walk exactly the allocated bytes of every node; a node that vanished or cannot be listed
  contributes nothing, and no link is followed.
\<close>

theorem stack_walks_measure_tree:
  "workdir_bytes (DirNode m kids) = tree_sum file_len (DirNode m kids)
   \<and> dir_size n = tree_sum block_bytes n
   \<and> tree_sum file_len (LinkNode m') = 0 \<and> tree_sum file_len Gone = 0
   \<and> tree_sum block_bytes Gone = 0"
  using workdir_walk_sum [of "[DirNode m kids]" 0]
  by (simp add: workdir_bytes_def dir_size_def block_visit_add walk_add tree_sum_leaf
      block_bytes_def)

lemma newest_mtime_max: "newest_mtime n = Max (insert 0 (modified_at ` set (nodes_below n)))"
  by (simp add: newest_mtime_def newest_visit_max walk_max)

lemma newest_mtime_bound: "k \<in> set (nodes_below n) \<Longrightarrow> modified_at k \<le> newest_mtime n"
  by (simp add: newest_mtime_max)

end
