(* ===== verification/Cache.thy ===== *)
theory Cache
  imports Fs
begin

text \<open>
  The artifact cache and its LRU sweep (\<open>crates/supervisor-core/src/cache.rs\<close>): the cap override,
  the scan of the three roots, last-use times and the eviction loop. A root that cannot be listed
  is nothing; an entry carries what the scan looks at. Byte counts are natural numbers (the source
  adds them as \<open>u64\<close>); the largest time \<open>UNIX_EPOCH.checked_add\<close> can represent is an argument, and so
  is what \<open>remove_dir_all\<close> answers for an entry.
\<close>

section \<open>Configuration\<close>

definition MAX_CACHE_BYTES :: nat where "MAX_CACHE_BYTES = 20 * 1024 * 1024 * 1024"
definition MIN_CACHE_BYTES :: nat where "MIN_CACHE_BYTES = 1024 * 1024 * 1024"

definition parse_cache_cap_override :: "string option \<Rightarrow> nat" where
  "parse_cache_cap_override raw =
     (case Option.bind raw (parse_uint u64_bound) of
        Some bytes \<Rightarrow> if MIN_CACHE_BYTES \<le> bytes then bytes else MAX_CACHE_BYTES
      | None \<Rightarrow> MAX_CACHE_BYTES)"

section \<open>Entries\<close>

text \<open>A directory entry of a cache root: its name, what it is, and the files the scan asks for.\<close>

record listed =
  li_name :: "string option"
  li_node :: fsnode
  li_has_marker :: "string \<Rightarrow> bool"
  li_last_use_text :: "string option"

record cache_entry =
  ce_kind :: string
  ce_sha :: string
  ce_bytes :: nat
  ce_last_use :: nat

definition in_flight_key :: "cache_entry \<Rightarrow> string" where
  "in_flight_key e = ce_kind e @ '':'' @ ce_sha e"

definition completion_marker :: "string \<Rightarrow> string" where
  "completion_marker kind =
     (if kind = ''payloads'' then ''decent-render-runner''
      else if kind = ''browsers'' then ''executable''
      else if kind = ''bundles'' then ''index.html'' else [])"

definition entry_last_use :: "nat \<Rightarrow> string option \<Rightarrow> fsnode \<Rightarrow> nat" where
  "entry_last_use max_time text n =
     (case Option.bind text (\<lambda>t. parse_uint u64_bound (trim t)) of
        Some s \<Rightarrow> (if secs s \<le> max_time then secs s else modified_at n)
      | None \<Rightarrow> modified_at n)"

text \<open>\<open>touch_last_use\<close>: what is written to the marker, if anything.\<close>

definition touch_last_use :: "nat option \<Rightarrow> string option" where
  "touch_last_use clock_secs =
     (let s = (case clock_secs of Some n \<Rightarrow> n | None \<Rightarrow> 0)
      in if s = 0 then None else Some (show_nat s))"

definition cache_kinds :: "string list" where
  "cache_kinds = [''payloads'', ''browsers'', ''bundles'']"

definition scan_entry :: "nat \<Rightarrow> string \<Rightarrow> listed \<Rightarrow> cache_entry option" where
  "scan_entry max_time kind l =
     (case li_name l of
        None \<Rightarrow> None
      | Some name \<Rightarrow>
          (if starts_with name ''.'' then None
           else if \<not> is_dir_node (li_node l) then None
           else if \<not> li_has_marker l (completion_marker kind) then None
           else Some \<lparr>ce_kind = kind, ce_sha = name, ce_bytes = dir_size (li_node l),
                      ce_last_use = entry_last_use max_time (li_last_use_text l) (li_node l)\<rparr>))"

definition scan_root :: "nat \<Rightarrow> (string \<Rightarrow> listed list option) \<Rightarrow> string \<Rightarrow> cache_entry list" where
  "scan_root max_time roots kind =
     (case roots kind of None \<Rightarrow> [] | Some ls \<Rightarrow> List.map_filter (scan_entry max_time kind) ls)"

definition scan_caches :: "nat \<Rightarrow> (string \<Rightarrow> listed list option) \<Rightarrow> cache_entry list" where
  "scan_caches max_time roots = concat (map (scan_root max_time roots) cache_kinds)"

section \<open>Eviction\<close>

text \<open>The loop over the entries in LRU order: the bytes left, and what was evicted, in order.\<close>

fun evict_loop :: "nat \<Rightarrow> (cache_entry \<Rightarrow> bool) \<Rightarrow> (cache_entry \<Rightarrow> bool) \<Rightarrow> nat \<Rightarrow> cache_entry list
    \<Rightarrow> nat \<times> cache_entry list" where
  "evict_loop cap protected rm running [] = (running, [])"
| "evict_loop cap protected rm running (e # es) =
     (if running \<le> cap then (running, [])
      else if protected e then evict_loop cap protected rm running es
      else if rm e
      then (case evict_loop cap protected rm (running - ce_bytes e) es of
              (left, gone) \<Rightarrow> (left, e # gone))
      else evict_loop cap protected rm running es)"

record sweep_outcome =
  so_entries :: nat
  so_bytes_before :: nat
  so_bytes_after :: nat
  so_evicted :: nat

definition total_bytes :: "cache_entry list \<Rightarrow> nat" where
  "total_bytes es = sum_list (map ce_bytes es)"

definition lru_order :: "cache_entry list \<Rightarrow> cache_entry list" where
  "lru_order es = sort_key ce_last_use es"

definition sweep_entries_lru :: "nat \<Rightarrow> string list \<Rightarrow> (cache_entry \<Rightarrow> bool) \<Rightarrow> cache_entry list
    \<Rightarrow> sweep_outcome \<times> cache_entry list" where
  "sweep_entries_lru cap in_flight rm es =
     (case evict_loop cap (\<lambda>e. in_flight_key e \<in> set in_flight) rm (total_bytes es) (lru_order es) of
        (left, gone) \<Rightarrow>
          (\<lparr>so_entries = length es, so_bytes_before = total_bytes es, so_bytes_after = left,
            so_evicted = length gone\<rparr>, gone))"

definition sweep_caches :: "nat \<Rightarrow> nat \<Rightarrow> string list \<Rightarrow> (cache_entry \<Rightarrow> bool)
    \<Rightarrow> (string \<Rightarrow> listed list option) \<Rightarrow> sweep_outcome \<times> cache_entry list" where
  "sweep_caches max_time cap in_flight rm roots =
     sweep_entries_lru cap in_flight rm (scan_caches max_time roots)"

text \<open>\<open>sweep_node_caches\<close>: no worker root without a home directory.\<close>

definition sweep_node_caches :: "nat \<Rightarrow> string option \<Rightarrow> string list \<Rightarrow> (cache_entry \<Rightarrow> bool)
    \<Rightarrow> (string \<Rightarrow> listed list option) option \<Rightarrow> string + sweep_outcome \<times> cache_entry list" where
  "sweep_node_caches max_time cap_env in_flight rm home =
     (case home of
        None \<Rightarrow> Inl ''HOME is not set''
      | Some roots \<Rightarrow>
          Inr (sweep_caches max_time (parse_cache_cap_override cap_env) in_flight rm roots))"

section \<open>The loop\<close>

lemma evict_loop_gone:
  "evict_loop cap p rm running es = (left, gone) \<Longrightarrow>
     e \<in> set gone \<Longrightarrow> e \<in> set es \<and> \<not> p e \<and> rm e"
  by (induction cap p rm running es arbitrary: left gone rule: evict_loop.induct)
     (auto split: if_splits prod.splits)

lemma evict_loop_subseq:
  "evict_loop cap p rm running es = (left, gone) \<Longrightarrow> subseq gone es"
  by (induction cap p rm running es arbitrary: left gone rule: evict_loop.induct)
     (auto split: if_splits prod.splits)

lemma evict_loop_account:
  "evict_loop cap p rm running es = (left, gone) \<Longrightarrow> total_bytes es \<le> running \<Longrightarrow>
     left + total_bytes gone = running"
proof (induction cap p rm running es arbitrary: left gone rule: evict_loop.induct)
  case (2 cap p rm running e es)
  then show ?case
    by (fastforce simp: total_bytes_def split: if_splits prod.splits)
qed (simp add: total_bytes_def)

lemma evict_loop_enough:
  "evict_loop cap p rm running es = (left, gone) \<Longrightarrow>
     left \<le> cap \<or> (\<forall>e\<in>set es. p e \<or> \<not> rm e \<or> e \<in> set gone)"
  by (induction cap p rm running es arbitrary: left gone rule: evict_loop.induct)
     (fastforce split: if_splits prod.splits)+

lemma evict_loop_needed:
  "evict_loop cap p rm running es = (left, gone) \<Longrightarrow> total_bytes es \<le> running \<Longrightarrow>
     gone \<noteq> [] \<Longrightarrow> cap < left + ce_bytes (last gone)"
proof (induction cap p rm running es arbitrary: left gone rule: evict_loop.induct)
  case (2 cap p rm running e es)
  consider "running \<le> cap" | "cap < running" "p e \<or> \<not> rm e" | "cap < running" "\<not> p e" "rm e"
    by fastforce
  then show ?case
  proof cases
    case 1
    then show ?thesis using 2 by simp
  next
    case 2
    then show ?thesis
      using "2.IH" "2.prems" by (cases "p e") (auto simp: total_bytes_def)
  next
    case 3
    obtain l g where r: "evict_loop cap p rm (running - ce_bytes e) es = (l, g)"
      by (cases "evict_loop cap p rm (running - ce_bytes e) es")
    then have lg: "left = l" "gone = e # g" using 3 "2.prems" by auto
    have le: "ce_bytes e \<le> running" "total_bytes es \<le> running - ce_bytes e"
      using "2.prems" by (auto simp: total_bytes_def)
    show ?thesis
    proof (cases "g = []")
      case True
      have "l + total_bytes g = running - ce_bytes e" using evict_loop_account [OF r le(2)] .
      then show ?thesis using True lg 3 le by (simp add: total_bytes_def)
    next
      case False
      then show ?thesis using "2.IH"(2) [OF _ 3(2,3) r le(2) False] 3(1) lg by simp
    qed
  qed
qed simp

lemma evict_loop_lru:
  "evict_loop cap p rm running (xs @ e # ys) = (left, gone) \<Longrightarrow>
     f \<in> set gone \<Longrightarrow> f \<notin> set (xs @ [e]) \<Longrightarrow> \<not> p e \<Longrightarrow> rm e \<Longrightarrow> e \<in> set gone"
proof (induction xs arbitrary: running left gone)
  case Nil
  then show ?case by (auto split: if_splits prod.splits)
next
  case (Cons x xs)
  then show ?case by (fastforce split: if_splits prod.splits)
qed

lemma mset_lru: "mset (lru_order es) = mset es"
  by (simp add: lru_order_def)

lemma total_lru: "total_bytes (lru_order es) = total_bytes es"
  unfolding total_bytes_def by (metis mset_lru mset_map sum_mset_sum_list)

lemma sorted_lru: "sorted (map ce_last_use (lru_order es))"
  by (simp add: lru_order_def)

lemma sweep_loop:
  assumes "sweep_caches max_time cap in_flight rm roots = (out, gone)"
  obtains left where "evict_loop cap (\<lambda>e. in_flight_key e \<in> set in_flight) rm
      (total_bytes (scan_caches max_time roots)) (lru_order (scan_caches max_time roots)) = (left, gone)"
  using assms by (auto simp: sweep_caches_def sweep_entries_lru_def split: prod.splits)

lemma swept_unprotected:
  "sweep_caches max_time cap in_flight rm roots = (out, gone) \<Longrightarrow> e \<in> set gone \<Longrightarrow>
     in_flight_key e \<notin> set in_flight"
  by (erule sweep_loop) (drule (1) evict_loop_gone, simp)

section \<open>Properties\<close>

text \<open>
  What the cache sweep may delete: only entries of the scan that no protected key names. An
  artifact of the job in flight is never evicted, whatever the cap and however old it is, and a
  hidden download directory, an incomplete entry or a plain file is never even a candidate.
\<close>

theorem protected_never_evicted:
  assumes "sweep_caches max_time cap in_flight rm roots = (out, gone)" and "e \<in> set gone"
  shows "ce_kind e @ '':'' @ ce_sha e \<notin> set in_flight
     \<and> (\<exists>ls l. ce_kind e \<in> set cache_kinds \<and> roots (ce_kind e) = Some ls \<and> l \<in> set ls
          \<and> li_name l = Some (ce_sha e) \<and> \<not> starts_with (ce_sha e) ''.'' \<and> is_dir_node (li_node l)
          \<and> li_has_marker l (completion_marker (ce_kind e)))"
proof -
  let ?es = "scan_caches max_time roots"
  obtain left where ev: "evict_loop cap (\<lambda>e. in_flight_key e \<in> set in_flight) rm (total_bytes ?es)
      (lru_order ?es) = (left, gone)"
    using sweep_loop [OF assms(1)] by blast
  from evict_loop_gone [OF ev assms(2)] swept_unprotected [OF assms]
  have "e \<in> set (lru_order ?es)" and p: "in_flight_key e \<notin> set in_flight" by auto
  then have "e \<in> set ?es" by (simp add: lru_order_def)
  then obtain kind ls l where "kind \<in> set cache_kinds" "roots kind = Some ls" "l \<in> set ls"
      "scan_entry max_time kind l = Some e"
    by (force simp: scan_caches_def scan_root_def List.map_filter_def split: option.splits)
  then show ?thesis
    using p by (auto simp: scan_entry_def in_flight_key_def split: option.splits if_splits)
qed

text \<open>
  Eviction is least-recently-used first: if an entry was evicted, every entry used strictly
  earlier that is neither protected nor refused by the file system was evicted too.
\<close>

theorem eviction_is_lru:
  assumes "sweep_entries_lru cap in_flight rm es = (out, gone)"
    and "f \<in> set gone" and "e \<in> set es" and "ce_last_use e < ce_last_use f"
    and "in_flight_key e \<notin> set in_flight" and "rm e"
  shows "e \<in> set gone"
proof -
  let ?p = "\<lambda>e. in_flight_key e \<in> set in_flight"
  obtain left where ev: "evict_loop cap ?p rm (total_bytes es) (lru_order es) = (left, gone)"
    using assms(1) by (auto simp: sweep_entries_lru_def split: prod.splits)
  have "e \<in> set (lru_order es)" using assms(3) by (simp add: lru_order_def)
  then obtain xs ys where s: "lru_order es = xs @ e # ys" by (meson split_list)
  have "ce_last_use x \<le> ce_last_use e" if "x \<in> set xs" for x
    using sorted_lru [of es] that by (simp add: s sorted_append)
  then have "f \<notin> set (xs @ [e])" using assms(4) by fastforce
  then show ?thesis
    using evict_loop_lru [OF ev [unfolded s] assms(2)] assms(5,6) by simp
qed

text \<open>
  The sweep's accounting is exact and it evicts neither too little nor too much: what it reports
  left plus what it evicted is what it found; it stops over the cap only when every entry is
  protected, refused or gone; and undoing its last eviction would put the cache over the cap.
\<close>

theorem eviction_accounting:
  "(case sweep_entries_lru cap in_flight rm es of (out, gone) \<Rightarrow>
      so_bytes_after out + total_bytes gone = so_bytes_before out
      \<and> so_bytes_before out = total_bytes es \<and> so_evicted out = length gone
      \<and> (so_bytes_after out \<le> cap
         \<or> list_all (\<lambda>e. in_flight_key e \<in> set in_flight \<or> \<not> rm e \<or> e \<in> set gone) es)
      \<and> (gone = [] \<or> cap < so_bytes_after out + ce_bytes (last gone)))"
proof -
  let ?p = "\<lambda>e. in_flight_key e \<in> set in_flight"
  obtain left gone where ev: "evict_loop cap ?p rm (total_bytes es) (lru_order es) = (left, gone)"
    by (cases "evict_loop cap ?p rm (total_bytes es) (lru_order es)")
  have "left + total_bytes gone = total_bytes es"
    using evict_loop_account [OF ev] by (simp add: total_lru)
  moreover have "left \<le> cap \<or> list_all (\<lambda>e. ?p e \<or> \<not> rm e \<or> e \<in> set gone) es"
    using evict_loop_enough [OF ev] by (simp add: list_all_iff lru_order_def)
  moreover have "gone = [] \<or> cap < left + ce_bytes (last gone)"
    using evict_loop_needed [OF ev] by (auto simp: total_lru)
  ultimately show ?thesis using ev by (simp add: sweep_entries_lru_def)
qed

section \<open>Overrides\<close>

text \<open>
  No environment value can set the cache cap under one gibibyte: the cap in force is the value
  given when it is a number of at least that many bytes, and twenty gibibytes otherwise.
\<close>

theorem cache_cap_floor:
  "MIN_CACHE_BYTES \<le> parse_cache_cap_override raw
   \<and> parse_cache_cap_override None = 20 * 1024 ^ 3
   \<and> (n < MIN_CACHE_BYTES \<or> u64_bound \<le> n
      \<or> parse_cache_cap_override (Some (show_nat n)) = n)"
  using parse_show_nat [of n u64_bound]
  by (cases "n < u64_bound") (auto simp: parse_cache_cap_override_def MIN_CACHE_BYTES_def MAX_CACHE_BYTES_def
      split: option.splits)

text \<open>What a hit writes is what the sweep reads back.\<close>

lemma show_nat_no_ws: "c \<in> set (show_nat n) \<Longrightarrow> \<not> is_ws c"
  using show_nat_range [of c n] by (auto simp: is_ws_def Let_def)

lemma touch_round_trip:
  "touch_last_use (Some s) = Some text \<Longrightarrow> s < u64_bound \<Longrightarrow> secs s \<le> mx \<Longrightarrow>
     entry_last_use mx (Some text) n = secs s"
  using trim_no_ws [of "show_nat s"]
  by (auto simp: touch_last_use_def Let_def entry_last_use_def parse_show_nat show_nat_no_ws
      split: if_splits)

section \<open>Witnesses\<close>

definition sample_entry :: "string \<Rightarrow> nat \<Rightarrow> nat \<Rightarrow> cache_entry" where
  "sample_entry sha bytes use =
     \<lparr>ce_kind = ''payloads'', ce_sha = sha, ce_bytes = bytes, ce_last_use = use\<rparr>"

definition sample_listed :: "string \<Rightarrow> listed" where
  "sample_listed sha = \<lparr>li_name = Some sha,
     li_node = DirNode \<lparr>fm_len = 0, fm_blocks = 4, fm_modified = Some 5\<rparr> (Some []),
     li_has_marker = (\<lambda>m. True), li_last_use_text = None\<rparr>"

definition sample_roots :: "string \<Rightarrow> listed list option" where
  "sample_roots = (\<lambda>k. if k = ''payloads'' then Some [sample_listed ''aa'', sample_listed ''bb'']
     else None)"

lemma dir_size_empty: "dir_size (DirNode m (Some [])) = fm_blocks m * 512"
  by (simp add: dir_size_def walk.simps block_visit_def)

lemma sample_scan:
  "scan_caches 1000 sample_roots = [sample_entry ''aa'' 2048 5, sample_entry ''bb'' 2048 5]"
  by (simp add: scan_caches_def cache_kinds_def scan_root_def sample_roots_def List.map_filter_def
      scan_entry_def sample_listed_def starts_with_def dir_size_empty entry_last_use_def
      modified_at_def mtime_or_0_def sample_entry_def)

theorem protected_never_evicted_witness:
  "snd (sweep_caches 1000 2048 [''payloads:aa''] (\<lambda>e. True) sample_roots)
     = [sample_entry ''bb'' 2048 5] \<and> ''payloads:bb'' \<notin> set [''payloads:aa'']"
proof -
  have r: "sweep_caches 1000 2048 [''payloads:aa''] (\<lambda>e. True) sample_roots
      = (\<lparr>so_entries = 2, so_bytes_before = 4096, so_bytes_after = 2048, so_evicted = 1\<rparr>,
         [sample_entry ''bb'' 2048 5])"
    by (simp add: sweep_caches_def sweep_entries_lru_def sample_scan total_bytes_def lru_order_def
        sample_entry_def in_flight_key_def)
  have "sample_entry ''bb'' 2048 5 \<in> set [sample_entry ''bb'' 2048 5]" by simp
  from protected_never_evicted [OF r this] r show ?thesis by (simp add: sample_entry_def)
qed

theorem eviction_is_lru_witness:
  "sample_entry ''a'' 10 1 \<in> set (snd (sweep_entries_lru 5 [] (\<lambda>e. True)
     [sample_entry ''b'' 10 2, sample_entry ''a'' 10 1]))"
proof -
  have r: "sweep_entries_lru 5 [] (\<lambda>e. True) [sample_entry ''b'' 10 2, sample_entry ''a'' 10 1]
      = (\<lparr>so_entries = 2, so_bytes_before = 20, so_bytes_after = 0, so_evicted = 2\<rparr>,
         [sample_entry ''a'' 10 1, sample_entry ''b'' 10 2])"
    by (simp add: sweep_entries_lru_def total_bytes_def lru_order_def sample_entry_def)
  have "sample_entry ''a'' 10 1 \<in> set [sample_entry ''a'' 10 1, sample_entry ''b'' 10 2]"
    by (rule eviction_is_lru [OF r, where f = "sample_entry ''b'' 10 2"])
       (simp_all add: sample_entry_def)
  then show ?thesis by (simp only: r snd_conv)
qed

theorem eviction_accounting_witness:
  "\<exists>out gone. sweep_entries_lru 5 [''payloads:a''] (\<lambda>e. True)
       [sample_entry ''b'' 10 2, sample_entry ''a'' 10 1] = (out, gone)
     \<and> so_bytes_after out + total_bytes gone = 20
     \<and> (so_bytes_after out \<le> 5
        \<or> list_all (\<lambda>e. in_flight_key e = ''payloads:a'' \<or> e \<in> set gone)
             [sample_entry ''b'' 10 2, sample_entry ''a'' 10 1])"
proof -
  let ?es = "[sample_entry ''b'' 10 2, sample_entry ''a'' 10 1]"
  let ?r = "sweep_entries_lru 5 [''payloads:a''] (\<lambda>e. True) ?es"
  have "total_bytes ?es = 20" by (simp add: total_bytes_def sample_entry_def)
  then show ?thesis
    using eviction_accounting [where cap = 5 and in_flight = "[''payloads:a'']"
        and rm = "\<lambda>e. True" and es = ?es]
    by (cases ?r) auto
qed

end
