(* ===== verification/Artifact_Fetch.thy ===== *)
theory Artifact_Fetch
  imports Cache
begin

unbundle bit_operations_syntax

text \<open>
  Artifact downloads (\<open>crates/supervisor-core/src/artifact_fetch.rs\<close>) and the content-addressed cache
  fill (\<open>ensure_artifact\<close> in \<open>crates/supervisor-core/src/runner.rs\<close>). The HTTP response is the list
  of what its body stream yields; the digest function (the \<open>sha2\<close> crate) and what \<open>tar\<close> makes of a
  file are arguments. The download's file is the bytes on disk, or nothing.
\<close>

section \<open>The streaming download\<close>

definition ARTIFACT_MAX_BYTES :: nat where "ARTIFACT_MAX_BYTES = 2 * 1024 * 1024 * 1024"
definition ARTIFACT_MAX_EXTRACTED_BYTES :: nat where
  "ARTIFACT_MAX_EXTRACTED_BYTES = 4 * 1024 * 1024 * 1024"

datatype body_item = Chunk "u8 list" | BodyErr | Stalled

datatype fetch_error =
    RequestFailed | LengthOverCeiling nat | CreateFailed | DownloadStalled | BodyReadFailed
  | OverCeiling | WriteFailed

text \<open>The body ends when its items do. \<open>wr k\<close>: does the \<open>k\<close>-th write succeed.\<close>

fun download_loop :: "nat \<Rightarrow> (nat \<Rightarrow> bool) \<Rightarrow> bool \<Rightarrow> nat \<Rightarrow> u8 list \<Rightarrow> body_item list
    \<Rightarrow> (fetch_error + unit) \<times> u8 list option" where
  "download_loop mx wr rm_ok k disk [] = (Inr (), Some disk)"
| "download_loop mx wr rm_ok k disk (Stalled # xs) = (Inl DownloadStalled, Some disk)"
| "download_loop mx wr rm_ok k disk (BodyErr # xs) = (Inl BodyReadFailed, Some disk)"
| "download_loop mx wr rm_ok k disk (Chunk c # xs) =
     (if mx < length disk + length c then (Inl OverCeiling, if rm_ok then None else Some disk)
      else if \<not> wr k then (Inl WriteFailed, Some disk)
      else download_loop mx wr rm_ok (Suc k) (disk @ c) xs)"

record response =
  re_content_length :: "nat option"
  re_body :: "body_item list"

definition hex_digit :: "nat \<Rightarrow> char" where
  "hex_digit d = (if d < 10 then char_of (48 + d) else char_of (87 + d))"

definition hex_lower :: "u8 list \<Rightarrow> string" where
  "hex_lower digest = concat (map (\<lambda>b. [hex_digit (unat b div 16), hex_digit (unat b mod 16)]) digest)"

definition over_length :: "nat \<Rightarrow> response \<Rightarrow> nat option" where
  "over_length mx r =
     (case re_content_length r of
        Some len \<Rightarrow> if mx < len then Some len else None
      | None \<Rightarrow> None)"

definition download_to_file_hashed_capped :: "(u8 list \<Rightarrow> u8 list) \<Rightarrow> nat \<Rightarrow> bool \<Rightarrow> (nat \<Rightarrow> bool)
    \<Rightarrow> bool \<Rightarrow> response option \<Rightarrow> (fetch_error + string) \<times> u8 list option" where
  "download_to_file_hashed_capped digest mx create_ok wr rm_ok resp =
     (case resp of
        None \<Rightarrow> (Inl RequestFailed, None)
      | Some r \<Rightarrow>
          (case over_length mx r of
             Some len \<Rightarrow> (Inl (LengthOverCeiling len), None)
           | None \<Rightarrow>
               (if \<not> create_ok then (Inl CreateFailed, None)
                else (case download_loop mx wr rm_ok 0 [] (re_body r) of
                        (Inl e, disk) \<Rightarrow> (Inl e, disk)
                      | (Inr u, disk) \<Rightarrow> (Inr (hex_lower (digest (concat
                          (map (\<lambda>x. case x of Chunk c \<Rightarrow> c | _ \<Rightarrow> []) (re_body r))))), disk)))))"

definition download_to_file_hashed where
  "download_to_file_hashed digest = download_to_file_hashed_capped digest ARTIFACT_MAX_BYTES"

section \<open>Hashes in hexadecimal\<close>

lemma hex_digit_inj: "d < 16 \<Longrightarrow> e < 16 \<Longrightarrow> hex_digit d = hex_digit e \<longleftrightarrow> d = e"
proof -
  assume d: "d < 16" and e: "e < 16"
  have inj: "(char_of a :: char) = char_of b \<longleftrightarrow> a = b" if "a < 256" "b < 256" for a b :: nat
    using that by (metis of_char_of mod_less)
  show ?thesis using d e by (auto simp: hex_digit_def inj)
qed

lemma hex_lower_Cons:
  "hex_lower (b # bs) = hex_digit (unat b div 16) # hex_digit (unat b mod 16) # hex_lower bs"
  by (simp add: hex_lower_def)

lemma unat_u8_lt: "unat (b :: u8) < 256"
  using unsigned_less [of b] by simp

lemma hex_byte_inj:
  assumes "hex_digit (unat (a :: u8) div 16) = hex_digit (unat b div 16)"
    and "hex_digit (unat a mod 16) = hex_digit (unat b mod 16)"
  shows "a = b"
proof -
  have "unat a div 16 < 16" "unat b div 16 < 16"
    using unat_u8_lt [of a] unat_u8_lt [of b] by linarith+
  then have "unat a div 16 = unat b div 16" "unat a mod 16 = unat b mod 16"
    using assms hex_digit_inj [of "unat a div 16" "unat b div 16"]
      hex_digit_inj [of "unat a mod 16" "unat b mod 16"] by auto
  then have "unat a = unat b" by (metis div_mult_mod_eq)
  then show ?thesis by (simp add: word_unat_eq_iff)
qed

lemma hex_lower_inj: "hex_lower as = hex_lower bs \<Longrightarrow> as = bs"
proof (induction as arbitrary: bs)
  case Nil
  then show ?case by (cases bs) (simp_all add: hex_lower_def)
next
  case (Cons a as)
  then obtain b bs' where bs: "bs = b # bs'" by (cases bs) (auto simp: hex_lower_def)
  with Cons.prems have "a = b" "hex_lower as = hex_lower bs'"
    by (auto simp: hex_lower_Cons intro: hex_byte_inj)
  then show ?case using Cons.IH bs by simp
qed

section \<open>What a download leaves\<close>

lemma download_loop_result:
  "download_loop mx wr rm_ok k disk xs = (r, d) \<Longrightarrow> length disk \<le> mx \<Longrightarrow>
     (case d of None \<Rightarrow> r = Inl OverCeiling | Some b \<Rightarrow> length b \<le> mx)
   \<and> (r = Inr () \<longrightarrow> d = Some (disk @ concat (map (\<lambda>x. case x of Chunk c \<Rightarrow> c | _ \<Rightarrow> []) xs))
        \<and> list_all (\<lambda>x. \<exists>c. x = Chunk c) xs)"
proof (induction mx wr rm_ok k disk xs rule: download_loop.induct)
  case (4 mx wr rm_ok k disk c xs)
  then show ?case by (auto split: if_splits option.splits)
qed auto


section \<open>The content-addressed cache fill\<close>

text \<open>
  A cached directory maps relative file names to their bytes; \<open>ks\<close> maps the names under
  \<open><root>/<kind>/\<close> to the directories there. \<open>untar\<close> gives what extracting an archive creates and
  whether \<open>tar\<close> exits well; \<open>du\<close> the allocated size of a directory.
\<close>

type_synonym artifact_dir = "string \<Rightarrow> u8 list option"
type_synonym kind_store = "string \<Rightarrow> artifact_dir option"

record fill_env =
  fe_mkdir_parent :: bool
  fe_rm_tmp :: bool
  fe_mkdir_tmp :: bool
  fe_fetch :: "(fetch_error + string) \<times> u8 list option"
  fe_untar :: "u8 list \<Rightarrow> artifact_dir \<times> bool"
  fe_du :: "artifact_dir \<Rightarrow> nat"
  fe_rm_tar :: bool
  fe_rm_dir :: bool
  fe_rename :: bool
  fe_touch :: "u8 list option"

datatype fill_error =
    FillIo | FillFetch fetch_error | ShaMismatch | TarFailed | OverExtracted | MarkerMissing

definition tmp_name :: "string \<Rightarrow> string" where
  "tmp_name sha = ''.'' @ sha @ ''-download''"

definition has_file :: "string \<Rightarrow> artifact_dir option \<Rightarrow> bool" where
  "has_file f d = (case d of None \<Rightarrow> False | Some t \<Rightarrow> t f \<noteq> None)"

definition remove_if :: "bool \<Rightarrow> string \<Rightarrow> kind_store \<Rightarrow> kind_store" where
  "remove_if ok name ks = (if ok then ks(name := None) else ks)"

definition tar_file :: string where "tar_file = ''artifact.tar.gz''"

text \<open>\<open>extract_tar_capped\<close>: what the directory holds afterwards, and the error if there is one.\<close>

definition extract_tar_capped :: "nat \<Rightarrow> (u8 list \<Rightarrow> artifact_dir \<times> bool) \<Rightarrow> (artifact_dir \<Rightarrow> nat)
    \<Rightarrow> u8 list \<Rightarrow> artifact_dir \<Rightarrow> artifact_dir \<times> fill_error option" where
  "extract_tar_capped ceiling untar du bytes d =
     (let (files, ok) = untar bytes; d' = d ++ files
      in (d', if \<not> ok then Some TarFailed
              else if ceiling < du d' then Some OverExtracted else None))"

definition install_artifact :: "string \<Rightarrow> string \<Rightarrow> fill_env \<Rightarrow> artifact_dir \<Rightarrow> kind_store
    \<Rightarrow> (fill_error + string) \<times> kind_store" where
  "install_artifact sha marker env t ks =
     (let tmp = tmp_name sha;
          t1 = (if fe_rm_tar env then t(tar_file := None) else t);
          ks1 = ks(tmp \<mapsto> t1)
      in if t1 marker = None then (Inl MarkerMissing, remove_if (fe_rm_tmp env) tmp ks1)
         else let ks2 = (if ks1 sha \<noteq> None then remove_if (fe_rm_dir env) sha ks1 else ks1)
              in if fe_rename env then (Inr sha, ks2(tmp := None, sha \<mapsto> t1))
                 else (Inl FillIo, ks2))"

definition ensure_artifact :: "string \<Rightarrow> string \<Rightarrow> fill_env \<Rightarrow> kind_store
    \<Rightarrow> (fill_error + string) \<times> kind_store" where
  "ensure_artifact sha marker env ks =
     (let tmp = tmp_name sha
      in if has_file marker (ks sha)
         then (Inr sha, (case fe_touch env of
                 None \<Rightarrow> ks
               | Some b \<Rightarrow> ks(sha := map_option (\<lambda>t. t(''.last-use'' \<mapsto> b)) (ks sha))))
         else if \<not> fe_mkdir_parent env then (Inl FillIo, ks)
         else
           let ks0 = (if ks tmp \<noteq> None then remove_if (fe_rm_tmp env) tmp ks else ks)
           in if \<not> fe_mkdir_tmp env then (Inl FillIo, ks0)
              else
                let t0 = (case ks0 tmp of Some t \<Rightarrow> t | None \<Rightarrow> Map.empty);
                    (res, disk) = fe_fetch env;
                    t1 = t0(tar_file := disk);
                    ks1 = ks0(tmp \<mapsto> t1)
                in case res of
                     Inl e \<Rightarrow> (Inl (FillFetch e), ks1)
                   | Inr actual \<Rightarrow>
                       (if actual \<noteq> sha then (Inl ShaMismatch, remove_if (fe_rm_tmp env) tmp ks1)
                        else
                          (case extract_tar_capped ARTIFACT_MAX_EXTRACTED_BYTES (fe_untar env) (fe_du env)
                                  (case disk of Some b \<Rightarrow> b | None \<Rightarrow> []) t1 of
                             (t2, Some e) \<Rightarrow> (Inl e, ks1(tmp \<mapsto> t2))
                           | (t2, None) \<Rightarrow> install_artifact sha marker env t2 ks1)))"

lemma tmp_name_neq: "tmp_name sha \<noteq> sha"
proof
  assume "tmp_name sha = sha"
  then have "length (tmp_name sha) = length sha" by simp
  then show False by (simp add: tmp_name_def)
qed

lemma install_others:
  "install_artifact sha marker env t ks = (r, ks') \<Longrightarrow> x \<noteq> sha \<Longrightarrow> x \<noteq> tmp_name sha \<Longrightarrow> ks' x = ks x"
  by (auto simp: install_artifact_def Let_def remove_if_def split: if_splits)

lemma ensure_others:
  "ensure_artifact sha marker env ks = (r, ks') \<Longrightarrow> x \<noteq> sha \<Longrightarrow> x \<noteq> tmp_name sha \<Longrightarrow> ks' x = ks x"
  unfolding ensure_artifact_def Let_def
  by (auto simp: remove_if_def install_others split: if_splits option.splits sum.splits prod.splits)

lemma install_Inr:
  "install_artifact sha marker env t ks = (Inr d, ks') \<Longrightarrow>
     d = sha \<and> has_file marker (ks' sha) \<and> ks' (tmp_name sha) = None"
  using tmp_name_neq [of sha]
  by (auto simp: install_artifact_def Let_def has_file_def split: if_splits)

text \<open>
  Nothing unverified enters the artifact cache. When \<open>ensure_artifact\<close> answers a directory that
  was not complete before, the bytes it downloaded hash to the requested sha, they were extracted
  only then, the published directory has the completion marker and the temporary sibling is gone;
  in every case, error or not, no other entry of the cache changes, and a complete entry is
  answered as it is (only its last-use marker may be rewritten).
\<close>

theorem ensure_artifact_verified:
  assumes "ensure_artifact sha marker env ks = (r, ks')"
  shows "(\<forall>x. x \<noteq> sha \<and> x \<noteq> tmp_name sha \<longrightarrow> ks' x = ks x)
     \<and> (has_file marker (ks sha) \<longrightarrow> r = Inr sha
          \<and> (\<forall>f. f \<noteq> ''.last-use'' \<longrightarrow> (case ks' sha of Some t \<Rightarrow> t f | None \<Rightarrow> None)
                = (case ks sha of Some t \<Rightarrow> t f | None \<Rightarrow> None)))
     \<and> (r = Inr d \<and> \<not> has_file marker (ks sha) \<longrightarrow>
          d = sha \<and> fst (fe_fetch env) = Inr sha \<and> has_file marker (ks' sha)
          \<and> ks' (tmp_name sha) = None)"
proof -
  have "has_file marker (ks sha) \<Longrightarrow> r = Inr sha
      \<and> (\<forall>f. f \<noteq> ''.last-use'' \<longrightarrow> (case ks' sha of Some t \<Rightarrow> t f | None \<Rightarrow> None)
            = (case ks sha of Some t \<Rightarrow> t f | None \<Rightarrow> None))"
    using assms by (auto simp: ensure_artifact_def Let_def split: option.splits)
  moreover have "d = sha \<and> fst (fe_fetch env) = Inr sha \<and> has_file marker (ks' sha)
      \<and> ks' (tmp_name sha) = None" if "r = Inr d" "\<not> has_file marker (ks sha)"
    using assms that unfolding ensure_artifact_def Let_def
    by (auto dest: install_Inr split: if_splits sum.splits prod.splits option.splits)
  ultimately show ?thesis using ensure_others [OF assms] by blast
qed

definition sample_fill :: fill_env where
  "sample_fill = \<lparr>fe_mkdir_parent = True, fe_rm_tmp = True, fe_mkdir_tmp = True,
     fe_fetch = (Inr ''ab'', Some [1]), fe_untar = (\<lambda>b. ([''executable'' \<mapsto> [2]], True)),
     fe_du = (\<lambda>d. 10), fe_rm_tar = True, fe_rm_dir = True, fe_rename = True, fe_touch = None\<rparr>"

theorem ensure_artifact_verified_witness:
  "fst (ensure_artifact ''ab'' ''executable'' sample_fill Map.empty) = Inr ''ab''
   \<and> has_file ''executable'' (snd (ensure_artifact ''ab'' ''executable'' sample_fill Map.empty) ''ab'')"
proof -
  obtain ks' where r: "ensure_artifact ''ab'' ''executable'' sample_fill Map.empty = (Inr ''ab'', ks')"
    by (simp add: ensure_artifact_def Let_def has_file_def sample_fill_def extract_tar_capped_def
        ARTIFACT_MAX_EXTRACTED_BYTES_def install_artifact_def tar_file_def tmp_name_def)
  from ensure_artifact_verified [OF r, of "''ab''"] r show ?thesis by (simp add: has_file_def)
qed

definition bomb_fill :: fill_env where
  "bomb_fill = sample_fill\<lparr>fe_du := (\<lambda>d. ARTIFACT_MAX_EXTRACTED_BYTES + 1)\<rparr>"

text \<open>
  An archive that unpacks over the ceiling fails the job but stays on disk: the error return
  leaves the oversized extraction in the hidden download directory, where the cache sweep never
  looks (its scan skips dot names).
\<close>

theorem oversized_extraction_left_behind:
  "(case ensure_artifact ''ab'' ''executable'' bomb_fill Map.empty of (r, ks') \<Rightarrow>
      r = Inl OverExtracted
      \<and> (\<exists>t. ks' (tmp_name ''ab'') = Some t \<and> ARTIFACT_MAX_EXTRACTED_BYTES < fe_du bomb_fill t))
   \<and> scan_entry mx kind (l\<lparr>li_name := Some (tmp_name sha)\<rparr>) = None"
  by (simp add: ensure_artifact_def Let_def has_file_def sample_fill_def bomb_fill_def
      extract_tar_capped_def tmp_name_def scan_entry_def starts_with_def)

end
