(* ===== verification/Processes.thy ===== *)
theory Processes
  imports Dr_Base
begin

text \<open>
  The process side of a job (\<open>crates/supervisor-core/src/runner.rs\<close>): the environment a runner child
  inherits, the browser manifest and wrapper, the recorded browser pids and the two-stage
  termination of the runner's process group. What \<open>ps\<close>, \<open>kill(pid, 0)\<close>, the file system and the
  clock answer are arguments; a signal is an event of a trace.
\<close>

section \<open>The child's environment\<close>

definition ENV_EXACT :: "string list" where
  "ENV_EXACT = [''PATH'', ''HOME'', ''TMPDIR'', ''TMP'', ''TEMP'', ''LANG'', ''LANGUAGE'', ''USER'',
     ''LOGNAME'', ''SHELL'', ''TZ'', ''DISPLAY'', ''WAYLAND_DISPLAY'', ''LD_LIBRARY_PATH'',
     ''SSL_CERT_FILE'', ''SSL_CERT_DIR'', ''NODE_EXTRA_CA_CERTS'', ''HTTP_PROXY'', ''HTTPS_PROXY'',
     ''NO_PROXY'', ''http_proxy'', ''https_proxy'', ''no_proxy'']"

definition ENV_PREFIXES :: "string list" where
  "ENV_PREFIXES = [''LC_'', ''XDG_'', ''FONTCONFIG_'', ''DECENT_'', ''REMOTION_'', ''CHROME_'',
     ''PUPPETEER_'']"

definition env_allowed :: "string \<Rightarrow> bool" where
  "env_allowed k = (k \<in> set ENV_EXACT \<or> list_ex (starts_with k) ENV_PREFIXES)"

definition child_env :: "(string \<times> string) list \<Rightarrow> (string \<times> string) list" where
  "child_env parent = filter (\<lambda>(k, v). env_allowed k) parent"

text \<open>
  The command's environment is a map: cleared, then set in order, then the caller's own variables.
  A variable whose name or value is not UTF-8 is dropped before.
\<close>

definition utf8_vars :: "(string option \<times> string option) list \<Rightarrow> (string \<times> string) list" where
  "utf8_vars vs = List.map_filter (\<lambda>(k, v). case (k, v) of (Some k', Some v') \<Rightarrow> Some (k', v') | _ \<Rightarrow> None) vs"

definition apply_child_env :: "(string \<Rightarrow> string option) \<Rightarrow> (string \<times> string) list
    \<Rightarrow> (string \<Rightarrow> string option)" where
  "apply_child_env inherited parent = fold (\<lambda>(k, v) m. m(k \<mapsto> v)) (child_env parent) Map.empty"

definition runner_env :: "(string \<Rightarrow> string option) \<Rightarrow> (string option \<times> string option) list
    \<Rightarrow> string option \<Rightarrow> (string \<Rightarrow> string option)" where
  "runner_env inherited vars wrapper =
     (let m = apply_child_env inherited (utf8_vars vars)
      in case wrapper of None \<Rightarrow> m | Some w \<Rightarrow> m(''DECENT_BROWSER_EXECUTABLE'' \<mapsto> w))"

lemma fold_env_dom:
  "fold (\<lambda>(k, v) m. m(k \<mapsto> v)) kvs m k = Some v \<Longrightarrow> m k = Some v \<or> (k, v) \<in> set kvs"
proof (induction kvs arbitrary: m)
  case (Cons kv kvs)
  obtain a b where kv: "kv = (a, b)" by (cases kv)
  show ?case
    using Cons.IH [of "m(a \<mapsto> b)"] Cons.prems by (cases "a = k") (auto simp: kv)
qed simp

lemma apply_child_env_Some:
  "apply_child_env inherited parent k = Some v \<Longrightarrow> env_allowed k \<and> (k, v) \<in> set parent"
  using fold_env_dom [of "child_env parent" Map.empty k v]
  by (auto simp: apply_child_env_def child_env_def)

lemma secrets_not_allowed:
  "\<not> env_allowed ''WORKER_TOKEN''" "\<not> env_allowed ''AWS_SECRET_ACCESS_KEY''"
  "\<not> env_allowed ''GITHUB_TOKEN''" "\<not> env_allowed ''NPM_TOKEN''"
  by (simp_all add: env_allowed_def ENV_EXACT_def ENV_PREFIXES_def starts_with_def)



section \<open>The browser manifest\<close>

text \<open>
  A path is its text; \<open>components\<close> drops empty and \<open>.\<close> pieces after the first, so only a \<open>..\<close> piece is
  a parent hop, and a path is absolute when it starts with a slash.
\<close>

datatype manifest_error = ManifestUnreadable | ManifestEmpty | ManifestEscapes | ManifestDangling

definition path_parts :: "string \<Rightarrow> string list" where
  "path_parts p = filter (\<lambda>c. c \<noteq> [] \<and> c \<noteq> ''.'') (split_on CHR ''/'' p)"

definition is_absolute :: "string \<Rightarrow> bool" where
  "is_absolute p = starts_with p ''/''"

definition browser_executable_in :: "string list \<Rightarrow> string option \<Rightarrow> (string list \<Rightarrow> bool)
    \<Rightarrow> manifest_error + string list" where
  "browser_executable_in dir manifest exists =
     (case manifest of
        None \<Rightarrow> Inl ManifestUnreadable
      | Some contents \<Rightarrow>
          (let relative = trim contents
           in if relative = [] then Inl ManifestEmpty
              else if is_absolute relative \<or> ''..'' \<in> set (path_parts relative)
              then Inl ManifestEscapes
              else
                let executable = dir @ path_parts relative
                in if \<not> exists executable then Inl ManifestDangling else Inr executable))"

text \<open>Lexical resolution of a path: a parent hop leaves the last component.\<close>

fun resolve :: "string list \<Rightarrow> string list \<Rightarrow> string list" where
  "resolve acc [] = rev acc"
| "resolve acc (c # cs) = resolve (if c = ''..'' then tl acc else c # acc) cs"

lemma resolve_no_parent: "''..'' \<notin> set cs \<Longrightarrow> resolve acc cs = rev acc @ cs"
  by (induction cs arbitrary: acc) auto

text \<open>
  The browser executable stays inside its artifact: whatever the manifest says, a path that
  \<open>browser_executable_in\<close> answers is under the artifact directory, names something that exists, and
  resolving its remaining components from there never leaves the directory.
\<close>

theorem browser_executable_confined:
  assumes "browser_executable_in dir manifest exists = Inr p"
  shows "exists p \<and> (\<exists>rel. p = dir @ rel \<and> ''..'' \<notin> set rel
           \<and> resolve (rev dir) rel = dir @ rel)"
  using assms
  by (auto simp: browser_executable_in_def Let_def resolve_no_parent split: option.splits if_splits)

theorem browser_executable_confined_witness:
  "\<exists>rel. [''w'', ''chrome'', ''bin''] = [''w''] @ rel \<and> ''..'' \<notin> set rel
     \<and> resolve (rev [''w'']) rel = [''w''] @ rel"
proof -
  have "browser_executable_in [''w''] (Some ''chrome/./bin'') (\<lambda>p. True) = Inr [''w'', ''chrome'', ''bin'']"
    by (simp add: browser_executable_in_def trim_def is_ws_def Let_def is_absolute_def starts_with_def
        path_parts_def)
  from browser_executable_confined [OF this] show ?thesis by blast
qed

section \<open>Recorded browsers\<close>

definition join_words :: "string list \<Rightarrow> string" where
  "join_words ws = join_with CHR '' '' ws"

definition parse_pid_line :: "string \<Rightarrow> (nat \<times> string option) option" where
  "parse_pid_line line =
     (case split_whitespace line of
        [] \<Rightarrow> None
      | tok # rest \<Rightarrow>
          (case parse_uint u32_bound tok of
             None \<Rightarrow> None
           | Some pid \<Rightarrow> Some (pid, if join_words rest = [] then None else Some (join_words rest))))"

text \<open>\<open>process_start_time\<close>: what \<open>ps\<close> printed, if it succeeded, white space normalised.\<close>

definition process_start_time :: "(nat \<Rightarrow> string option) \<Rightarrow> nat \<Rightarrow> string option" where
  "process_start_time ps pid =
     (case ps pid of
        None \<Rightarrow> None
      | Some out \<Rightarrow> (let s = join_words (split_whitespace out) in if s = [] then None else Some s))"

text \<open>One line: the pid it makes the sweep signal, if any.\<close>

definition kill_target :: "nat \<Rightarrow> (nat \<Rightarrow> string option) \<Rightarrow> (nat \<Rightarrow> bool) \<Rightarrow> string \<Rightarrow> nat option" where
  "kill_target me ps alive line =
     (case parse_pid_line line of
        None \<Rightarrow> None
      | Some (pid, recorded) \<Rightarrow>
          (if pid = 0 \<or> pid = me then None
           else (case recorded of
                   Some r \<Rightarrow>
                     (case process_start_time ps pid of
                        Some live \<Rightarrow> if live = r then Some pid else None
                      | None \<Rightarrow> None)
                 | None \<Rightarrow> if \<not> alive pid then None else Some pid)))"

fun kill_lines :: "nat \<Rightarrow> (nat \<Rightarrow> string option) \<Rightarrow> (nat \<Rightarrow> bool) \<Rightarrow> string list \<Rightarrow> nat list" where
  "kill_lines me ps alive [] = []"
| "kill_lines me ps alive (line # ls) =
     (case kill_target me ps alive line of
        None \<Rightarrow> kill_lines me ps alive ls
      | Some pid \<Rightarrow> pid # kill_lines me ps alive ls)"

definition kill_recorded_browsers :: "nat \<Rightarrow> (nat \<Rightarrow> string option) \<Rightarrow> (nat \<Rightarrow> bool) \<Rightarrow> string option
    \<Rightarrow> nat list" where
  "kill_recorded_browsers me ps alive contents =
     (case contents of None \<Rightarrow> [] | Some text \<Rightarrow> kill_lines me ps alive (lines_of text))"

definition recorded_on :: "(nat \<Rightarrow> string option) \<Rightarrow> (nat \<Rightarrow> bool) \<Rightarrow> nat \<Rightarrow> string \<Rightarrow> bool" where
  "recorded_on ps alive pid line \<longleftrightarrow>
     (\<exists>r. parse_pid_line line = Some (pid, Some r) \<and> process_start_time ps pid = Some r)
     \<or> (parse_pid_line line = Some (pid, None) \<and> alive pid)"

lemma kill_target_safe:
  "kill_target me ps alive line = Some pid \<Longrightarrow> pid \<noteq> 0 \<and> pid \<noteq> me \<and> recorded_on ps alive pid line"
  by (auto simp: kill_target_def recorded_on_def split: option.splits if_splits)

lemma kill_lines_safe:
  "pid \<in> set (kill_lines me ps alive ls) \<Longrightarrow>
     pid \<noteq> 0 \<and> pid \<noteq> me \<and> (\<exists>line\<in>set ls. recorded_on ps alive pid line)"
  by (induction ls) (auto dest: kill_target_safe split: option.splits)

text \<open>
  The browser sweep signals only what the job's own wrapper recorded. Every pid it kills is not
  zero and not the supervisor, stands on a line of the pid file, and is still the process that
  wrote it: its live start time equals the recorded one, or the line carries no start time and
  the pid exists. A pid the system has recycled is never signalled on a line that names its start.
\<close>

theorem browser_kill_targets_recorded:
  assumes "pid \<in> set (kill_recorded_browsers me ps alive contents)"
  shows "pid \<noteq> 0 \<and> pid \<noteq> me
     \<and> (\<exists>text line. contents = Some text \<and> line \<in> set (lines_of text)
          \<and> ((\<exists>r. parse_pid_line line = Some (pid, Some r) \<and> process_start_time ps pid = Some r)
             \<or> (parse_pid_line line = Some (pid, None) \<and> alive pid)))"
proof -
  from assms obtain body where t: "contents = Some body"
      "pid \<in> set (kill_lines me ps alive (lines_of body))"
    by (cases contents) (auto simp: kill_recorded_browsers_def)
  then obtain line where "pid \<noteq> 0" "pid \<noteq> me" "line \<in> set (lines_of body)"
      "recorded_on ps alive pid line"
    using kill_lines_safe by blast
  then show ?thesis using t(1) unfolding recorded_on_def by blast
qed

theorem browser_kill_targets_recorded_witness:
  "(77 :: nat) \<noteq> 0 \<and> 77 \<in> set (kill_recorded_browsers 1 (\<lambda>p. None) (\<lambda>p. p = 77) (Some ''77''))"
proof -
  have "77 \<in> set (kill_recorded_browsers 1 (\<lambda>p. None) (\<lambda>p. p = 77) (Some ''77''))"
    by (simp add: kill_recorded_browsers_def lines_of_def kill_target_def parse_pid_line_def split_whitespace_def
        is_ws_def Let_def parse_uint_def digit_val_def u32_bound_def join_words_def)
  then show ?thesis using browser_kill_targets_recorded by blast
qed

section \<open>Termination\<close>

datatype signal_event =
    TermGroup nat | KillGroup nat | Reaped | BrowsersKilled "nat list"

definition is_safe_signal_target :: "nat \<Rightarrow> nat \<Rightarrow> bool" where
  "is_safe_signal_target pid me = (pid \<noteq> 0 \<and> pid \<noteq> me)"

text \<open>
  What the outside answers: the child's pid (nothing once it is reaped), whether it exits within
  the grace period, its pid when that is over, and the sweep's inputs.
\<close>

record term_env =
  te_me :: nat
  te_child :: "nat option"
  te_exits_in_grace :: bool
  te_child_later :: "nat option"
  te_ps :: "nat \<Rightarrow> string option"
  te_alive :: "nat \<Rightarrow> bool"
  te_pidfile_text :: "string option"

definition signal_if_safe :: "(nat \<Rightarrow> signal_event) \<Rightarrow> nat \<Rightarrow> nat option \<Rightarrow> signal_event list" where
  "signal_if_safe sig me child =
     (case child of None \<Rightarrow> []
      | Some pid \<Rightarrow> if is_safe_signal_target pid me then [sig pid] else [])"

definition terminate_child :: "term_env \<Rightarrow> bool \<Rightarrow> signal_event list" where
  "terminate_child te has_pidfile =
     signal_if_safe TermGroup (te_me te) (te_child te)
     @ (if te_exits_in_grace te then []
        else signal_if_safe KillGroup (te_me te) (te_child_later te))
     @ [Reaped]
     @ (if has_pidfile
        then [BrowsersKilled (kill_recorded_browsers (te_me te) (te_ps te) (te_alive te)
                (te_pidfile_text te))] else [])"

text \<open>
  Termination is polite first and never hits the supervisor: the group of the child is sent TERM
  before anything else, KILL only when the grace period ended without its exit, neither ever to
  group zero or to the supervisor's own; the child is reaped before the recorded browsers are
  swept.
\<close>

theorem terminate_child_order:
  "(\<exists>ts ks bs. terminate_child te has_pidfile = map TermGroup ts @ map KillGroup ks @ [Reaped] @ bs
      \<and> 0 \<notin> set (ts @ ks) \<and> te_me te \<notin> set (ts @ ks)
      \<and> set ts \<subseteq> set_option (te_child te) \<and> set ks \<subseteq> set_option (te_child_later te)
      \<and> (if te_exits_in_grace te then ks = [] else True)
      \<and> (if has_pidfile then \<exists>ps. bs = [BrowsersKilled ps] \<and> 0 \<notin> set ps \<and> te_me te \<notin> set ps
         else bs = []))"
proof -
  let ?sel = "\<lambda>c. (case c of None \<Rightarrow> [] | Some pid \<Rightarrow>
      if is_safe_signal_target pid (te_me te) then [pid] else [])"
  let ?ts = "?sel (te_child te)"
  let ?ks = "if te_exits_in_grace te then [] else ?sel (te_child_later te)"
  let ?ps = "kill_recorded_browsers (te_me te) (te_ps te) (te_alive te) (te_pidfile_text te)"
  let ?bs = "if has_pidfile then [BrowsersKilled ?ps] else []"
  have sel: "signal_if_safe sig (te_me te) c = map sig (?sel c)" for sig c
    by (simp add: signal_if_safe_def split: option.split)
  have eq: "terminate_child te has_pidfile = map TermGroup ?ts @ map KillGroup ?ks @ [Reaped] @ ?bs"
    by (simp add: terminate_child_def sel)
  have ps: "0 \<notin> set ?ps" "te_me te \<notin> set ?ps"
    by (auto simp: kill_recorded_browsers_def dest: kill_lines_safe split: option.splits)
  show ?thesis
    by (intro exI [of _ ?ts] exI [of _ ?ks] exI [of _ ?bs])
       (use eq ps in \<open>auto simp: is_safe_signal_target_def split: option.splits if_splits\<close>)
qed

end
