(* ===== verification/Runner.thy ===== *)
theory Runner
  imports Job Artifact_Fetch Processes
begin

text \<open>
  One job from assignment to terminal frame (\<open>crates/supervisor-core/src/runner.rs\<close>, \<open>run_job\<close> and
  \<open>run_job_inner\<close>, with the overrides of its limits and the runner's events). What the steps before
  the spawn answer, what each turn of the \<open>select!\<close> finds, and what waiting for the child yields
  (nothing: it never returns) are the fields of an environment record. The trace lists what the
  job did to the outside, in order. A path whose error return drops the working directory
  implicitly and one that drops it by name do the same to the outside.
\<close>

section \<open>Limits\<close>

definition SILENCE_TIMEOUT :: duration where "SILENCE_TIMEOUT = secs 120"
definition CANCEL_GRACE :: duration where "CANCEL_GRACE = secs 10"
definition MAX_JOB_WALL_TIME :: duration where "MAX_JOB_WALL_TIME = secs (60 * 60)"
definition MAX_WORKDIR_BYTES :: nat where "MAX_WORKDIR_BYTES = 20 * 1024 * 1024 * 1024"

definition parse_job_wall_time_override :: "string option \<Rightarrow> duration" where
  "parse_job_wall_time_override raw =
     (case Option.bind raw (parse_uint u64_bound) of
        Some ms \<Rightarrow> if 50 \<le> ms then millis ms else MAX_JOB_WALL_TIME
      | None \<Rightarrow> MAX_JOB_WALL_TIME)"

definition parse_workdir_bytes_override :: "string option \<Rightarrow> nat" where
  "parse_workdir_bytes_override raw =
     (case Option.bind raw (parse_uint u64_bound) of
        Some bytes \<Rightarrow> if 1024 * 1024 \<le> bytes then bytes else MAX_WORKDIR_BYTES
      | None \<Rightarrow> MAX_WORKDIR_BYTES)"

text \<open>
  No environment value can disarm the runner's limits: the wall-clock ceiling in force is at
  least fifty milliseconds and at most what a 64-bit millisecond count holds, the disk cap at
  least one mebibyte, and without an override they are one hour and twenty gibibytes.
\<close>

theorem job_limits_floor:
  "millis 50 \<le> parse_job_wall_time_override raw
   \<and> parse_job_wall_time_override raw \<le> millis (u64_bound - 1)
   \<and> 1024 * 1024 \<le> parse_workdir_bytes_override raw
   \<and> parse_job_wall_time_override None = secs 3600
   \<and> parse_workdir_bytes_override None = 20 * 1024 ^ 3"
proof -
  have "n \<le> u64_bound - 1" if "raw = Some s" "parse_uint u64_bound s = Some n" for s n
    using parse_uint_bound [OF that(2)] by simp
  then show ?thesis
    by (auto simp: parse_job_wall_time_override_def parse_workdir_bytes_override_def
        MAX_JOB_WALL_TIME_def MAX_WORKDIR_BYTES_def u64_bound_def
        split: option.splits bind_splits)
qed

section \<open>The runner's events\<close>

datatype runner_event =
    RProgress f64 "u64 option" "u64 option"
  | RHeartbeat
  | RDone u64 u64 "job_metrics option"
  | RError string

definition runner_event_of :: "json \<Rightarrow> runner_event de" where
  "runner_event_of j = rbind (obj_of j) (\<lambda>kvs. rbind (req ''type'' str_of kvs) (\<lambda>ty.
     if ty = ''progress'' then
       rbind (req ''progress'' unit_interval kvs) (\<lambda>p.
       rbind (opt ''elapsedMs'' u64_of kvs) (\<lambda>e.
       rbind (opt ''framesSoFar'' u64_of kvs) (\<lambda>f. Inr (RProgress p e f))))
     else if ty = ''heartbeat'' then Inr RHeartbeat
     else if ty = ''done'' then
       rbind (req ''outputSizeInBytes'' u64_of kvs) (\<lambda>sz.
       rbind (req ''wallTimeMs'' u64_of kvs) (\<lambda>w.
       rbind (opt ''metrics'' metrics_of kvs) (\<lambda>m. Inr (RDone sz w m))))
     else if ty = ''error'' then
       rbind (req ''message'' str_of kvs) (\<lambda>m. Inr (RError m))
     else Inl (UnknownVariant ty)))"

section \<open>The loop\<close>

text \<open>What a turn of the loop finds; a line of output is a JSON value or not JSON.\<close>

datatype loop_input =
    LDeadline | LDisk "nat option" | LCancel | LSilence | LReadError | LEof | LLine "json option"

datatype loop_end = Stopped string | OutputEnded "job_metrics option"

definition secs_rounded :: "duration \<Rightarrow> nat" where
  "secs_rounded d =
     (let q = d div 1000000000; r = d mod 1000000000
      in if 2 * r < 1000000000 then q
         else if 1000000000 < 2 * r then Suc q
         else if even q then q else Suc q)"

definition done_metrics_of :: "job_assign_message \<Rightarrow> u64 \<Rightarrow> u64 \<Rightarrow> job_metrics option \<Rightarrow> job_metrics" where
  "done_metrics_of a sz wall m =
     (case m of Some m' \<Rightarrow> m'
      | None \<Rightarrow> \<lparr>met_wall_ms = wall, met_frames = ja_duration_frames a,
                 met_output_size_in_bytes = None\<rparr>)\<lparr>met_output_size_in_bytes := Some sz\<rparr>"

text \<open>The result is nothing while the inputs last; with it, the frames sent on the way.\<close>

fun job_loop :: "job_assign_message \<Rightarrow> duration \<Rightarrow> nat \<Rightarrow> loop_input list \<Rightarrow> job_metrics option
    \<Rightarrow> loop_end option \<times> worker_message list" where
  "job_loop a limit cap [] done = (None, [])"
| "job_loop a limit cap (LDeadline # is) done =
     (Some (Stopped (''render exceeded the '' @ show_nat (secs_rounded limit)
        @ ''s wall-clock limit'')), [])"
| "job_loop a limit cap (LDisk None # is) done =
     (Some (Stopped ''disk sampler join failed''), [])"
| "job_loop a limit cap (LDisk (Some bytes) # is) done =
     (if cap < bytes
      then (Some (Stopped (''workdir exceeded the '' @ show_nat cap @ '' byte disk cap (''
              @ show_nat bytes @ '' bytes on disk)'')), [])
      else job_loop a limit cap is done)"
| "job_loop a limit cap (LCancel # is) done = (Some (Stopped ''Render canceled by dispatch''), [])"
| "job_loop a limit cap (LSilence # is) done = (Some (Stopped ''runner silent''), [])"
| "job_loop a limit cap (LReadError # is) done = (Some (Stopped ''runner stdout read failed''), [])"
| "job_loop a limit cap (LEof # is) done = (Some (OutputEnded done), [])"
| "job_loop a limit cap (LLine None # is) done = job_loop a limit cap is done"
| "job_loop a limit cap (LLine (Some j) # is) done =
     (case runner_event_of j of
        Inl e \<Rightarrow> job_loop a limit cap is done
      | Inr RHeartbeat \<Rightarrow> job_loop a limit cap is done
      | Inr (RProgress p e f) \<Rightarrow>
          (case job_loop a limit cap is done of
             (r, ms) \<Rightarrow> (r, progress_to_wire (ja_tenant a) (ja_job_id a) (ja_attempt a) p e f # ms))
      | Inr (RDone sz w m) \<Rightarrow> job_loop a limit cap is (Some (done_metrics_of a sz w m))
      | Inr (RError msg) \<Rightarrow> (Some (Stopped msg), []))"

section \<open>The job\<close>

datatype wait_answer = WaitExit bool string | WaitError

record job_env =
  je_payload :: "string + unit"
  je_runner_path :: string
  je_runner_exists :: bool
  je_browser :: "string + bool"
  je_workdir :: bool
  je_wrapper :: bool
  je_serialize :: bool
  je_spawn :: bool
  je_stdin :: bool
  je_stdin_error :: "string option"
  je_stdout :: bool
  je_inputs :: "loop_input list"
  je_wait :: "wait_answer option"
  je_term :: term_env

datatype job_event =
    KeepAwakeHeld | KeepAwakeReleased | CreatedWorkdir | SpawnedRunner | Frame worker_message
  | Terminated "signal_event list" | ChildExited | SweptBrowsers "nat list" | PurgedWorkdir

type_synonym inner_result = "(string + job_metrics) option \<times> job_event list"

text \<open>Kill the tree, drop the directory, fail.\<close>

definition stop_job :: "job_env \<Rightarrow> bool \<Rightarrow> string \<Rightarrow> job_event list \<Rightarrow> inner_result" where
  "stop_job je br err evs =
     (Some (Inl err), evs @ [Terminated (terminate_child (je_term je) br), PurgedWorkdir])"

definition finish_job :: "job_env \<Rightarrow> bool \<Rightarrow> job_metrics option \<Rightarrow> job_event list \<Rightarrow> inner_result" where
  "finish_job je br done_metrics evs =
     (case je_wait je of
        None \<Rightarrow> (None, evs)
      | Some WaitError \<Rightarrow> stop_job je br ''runner wait failed'' evs
      | Some (WaitExit success status) \<Rightarrow>
          (let te = je_term je;
               swept = (if br then [SweptBrowsers (kill_recorded_browsers (te_me te) (te_ps te)
                          (te_alive te) (te_pidfile_text te))] else []);
               evs' = evs @ [ChildExited] @ swept @ [PurgedWorkdir]
           in if \<not> success then (Some (Inl (''runner exited with '' @ status)), evs')
              else (case done_metrics of
                      Some m \<Rightarrow> (Some (Inr m), evs')
                    | None \<Rightarrow> (Some (Inl (case je_stdin_error je of
                         Some e \<Rightarrow> ''runner never received its assignment: '' @ e
                       | None \<Rightarrow> ''runner exited without done event'')), evs'))))"

definition run_spawned :: "job_assign_message \<Rightarrow> duration \<Rightarrow> nat \<Rightarrow> job_env \<Rightarrow> bool \<Rightarrow> inner_result" where
  "run_spawned a limit cap je br =
     (let evs = [CreatedWorkdir, SpawnedRunner]
      in if \<not> je_stdin je then stop_job je br ''runner stdin missing'' evs
         else if \<not> je_stdout je then stop_job je br ''runner stdout missing'' evs
         else (case job_loop a limit cap (je_inputs je) None of
                 (None, ms) \<Rightarrow> (None, evs @ map Frame ms)
               | (Some (Stopped err), ms) \<Rightarrow> stop_job je br err (evs @ map Frame ms)
               | (Some (OutputEnded m), ms) \<Rightarrow> finish_job je br m (evs @ map Frame ms)))"

definition run_job_inner :: "job_assign_message \<Rightarrow> duration \<Rightarrow> nat \<Rightarrow> job_env \<Rightarrow> inner_result" where
  "run_job_inner a limit cap je =
     (case je_payload je of
        Inl e \<Rightarrow> (Some (Inl e), [])
      | Inr u \<Rightarrow>
          (if \<not> je_runner_exists je
           then (Some (Inl (''payload missing decent-render-runner at '' @ je_runner_path je)), [])
           else
             (case je_browser je of
                Inl e \<Rightarrow> (Some (Inl e), [])
              | Inr br \<Rightarrow>
                  (if \<not> je_workdir je then (Some (Inl ''create workdir''), [])
                   else if br \<and> \<not> je_wrapper je
                   then (Some (Inl ''install browser exec wrapper''), [CreatedWorkdir, PurgedWorkdir])
                   else if \<not> je_serialize je
                   then (Some (Inl ''serialize jobAssign frame''), [CreatedWorkdir, PurgedWorkdir])
                   else if \<not> je_spawn je
                   then (Some (Inl (''spawn runner '' @ je_runner_path je)),
                         [CreatedWorkdir, PurgedWorkdir])
                   else run_spawned a limit cap je br))))"

definition run_job :: "job_assign_message \<Rightarrow> duration \<Rightarrow> nat \<Rightarrow> job_env
    \<Rightarrow> job_outcome option \<times> job_event list" where
  "run_job a limit cap je =
     (case run_job_inner a limit cap je of
        (None, evs) \<Rightarrow> (None, KeepAwakeHeld # evs)
      | (Some (Inr m), evs) \<Rightarrow>
          (Some OutComplete, KeepAwakeHeld # evs @ [KeepAwakeReleased,
             Frame (JobComplete \<lparr>cmp_tenant = ja_tenant a, cmp_job_id = ja_job_id a,
               cmp_attempt = ja_attempt a, cmp_output_key = ja_output_key a, cmp_metrics = m\<rparr>)])
      | (Some (Inl err), evs) \<Rightarrow>
          (Some OutFailed, KeepAwakeHeld # evs @ [KeepAwakeReleased,
             Frame (JobFailed \<lparr>fld_tenant = ja_tenant a, fld_job_id = ja_job_id a,
               fld_attempt = ja_attempt a, fld_reason = err\<rparr>)]))"

section \<open>Purge on every path\<close>

text \<open>The child is down: it was terminated and reaped, or it exited by itself.\<close>

definition child_down :: "job_event list \<Rightarrow> bool" where
  "child_down evs \<longleftrightarrow> ChildExited \<in> set evs \<or> (\<exists>sg. Terminated sg \<in> set evs \<and> Reaped \<in> set sg)"

lemma terminate_reaps: "Reaped \<in> set (terminate_child te br)"
  by (simp add: terminate_child_def)

lemma stop_job_result:
  "stop_job je br err evs = (r, evs') \<Longrightarrow>
     r = Some (Inl err) \<and> evs' = evs @ [Terminated (terminate_child (je_term je) br), PurgedWorkdir]"
  by (simp add: stop_job_def)

definition purged_after_down :: "job_event list \<Rightarrow> bool" where
  "purged_after_down evs \<longleftrightarrow>
     (\<exists>pre. evs = pre @ [PurgedWorkdir] \<and> PurgedWorkdir \<notin> set pre
        \<and> (SpawnedRunner \<in> set pre \<longrightarrow> child_down pre))"

lemma purged_stop:
  "stop_job je br err evs = (r, evs') \<Longrightarrow> PurgedWorkdir \<notin> set evs \<Longrightarrow> purged_after_down evs'"
  unfolding purged_after_down_def stop_job_def
  by (rule exI [of _ "evs @ [Terminated (terminate_child (je_term je) br)]"])
     (auto simp: child_down_def terminate_reaps)

lemma purged_finish:
  "finish_job je br m evs = (Some r, evs') \<Longrightarrow> PurgedWorkdir \<notin> set evs \<Longrightarrow> purged_after_down evs'"
proof -
  assume f: "finish_job je br m evs = (Some r, evs')" and p: "PurgedWorkdir \<notin> set evs"
  show ?thesis
  proof (cases "je_wait je")
    case None
    then show ?thesis using f by (simp add: finish_job_def)
  next
    case (Some w)
    show ?thesis
    proof (cases w)
      case (WaitExit success status)
      let ?sw = "if br then [SweptBrowsers (kill_recorded_browsers (te_me (je_term je))
          (te_ps (je_term je)) (te_alive (je_term je)) (te_pidfile_text (je_term je)))] else []"
      have "evs' = (evs @ [ChildExited] @ ?sw) @ [PurgedWorkdir]"
        using f Some WaitExit
        by (auto simp: finish_job_def Let_def split: if_splits option.splits)
      then show ?thesis
        unfolding purged_after_down_def
        by (intro exI [of _ "evs @ [ChildExited] @ ?sw"]) (use p in \<open>auto simp: child_down_def\<close>)
    next
      case WaitError
      then show ?thesis using f Some p purged_stop by (auto simp: finish_job_def)
    qed
  qed
qed

text \<open>
  C5: No path leaves a customer's files behind. Whenever a job ends, on every one of its error
  returns as on success, the working directory it created was dropped exactly once and as its last
  act, and if a runner was spawned its tree was down before: terminated and reaped, or exited.
\<close>

theorem job_purges_on_every_path:
  assumes "run_job_inner a limit cap je = (Some r, evs)"
  shows "CreatedWorkdir \<notin> set evs \<and> SpawnedRunner \<notin> set evs
         \<or> purged_after_down evs"
proof (cases "\<exists>br. run_spawned a limit cap je br = (Some r, evs)")
  case True
  then obtain br where rs: "run_spawned a limit cap je br = (Some r, evs)" by blast
  obtain l ms where l: "job_loop a limit cap (je_inputs je) None = (l, ms)"
    by (cases "job_loop a limit cap (je_inputs je) None")
  have np: "PurgedWorkdir \<notin> set (CreatedWorkdir # SpawnedRunner # map Frame ms)"
      "PurgedWorkdir \<notin> set [CreatedWorkdir, SpawnedRunner]" by auto
  have "purged_after_down evs"
    using rs l purged_finish [OF _ np(1)] purged_stop [OF _ np(1)] purged_stop [OF _ np(2)]
    by (auto simp: run_spawned_def Let_def split: if_splits option.splits loop_end.splits)
  then show ?thesis by simp
next
  case False
  have pp: "purged_after_down [CreatedWorkdir, PurgedWorkdir]"
    unfolding purged_after_down_def by (rule exI [of _ "[CreatedWorkdir]"]) simp
  show ?thesis
    using assms False pp
    by (auto simp: run_job_inner_def split: sum.splits if_splits)
qed

section \<open>Success and frames\<close>

lemma progress_range:
  "runner_event_of j = Inr (RProgress p e f) \<Longrightarrow> 0 \<le> p \<and> p \<le> 1"
  by (auto simp: runner_event_of_def rbind_Inr_iff req_Inr split: if_splits
      dest: unit_interval_Inr)

definition progress_frame :: "job_assign_message \<Rightarrow> worker_message \<Rightarrow> bool" where
  "progress_frame a m \<longleftrightarrow> (\<exists>p e f. 0 \<le> p \<and> p \<le> 1
     \<and> m = progress_to_wire (ja_tenant a) (ja_job_id a) (ja_attempt a) p e f)"

lemma loop_frames:
  "job_loop a limit cap is dn = (r, ms) \<Longrightarrow> list_all (progress_frame a) ms"
proof (induction "is" arbitrary: dn r ms)
  case (Cons i "is")
  show ?case
  proof (cases "(a, limit, cap, i # is, dn)" rule: job_loop.cases)
    case (10 a' limit' cap' j is' dn')
    show ?thesis
    proof (cases "runner_event_of j")
      case (Inr ev)
      have "progress_frame a (progress_to_wire (ja_tenant a) (ja_job_id a) (ja_attempt a) p e f)"
        if "ev = RProgress p e f" for p e f
        unfolding progress_frame_def using progress_range [of j p e f] Inr that by blast
      then show ?thesis using Cons 10 Inr by (cases ev) (auto split: prod.splits)
    qed (use Cons 10 in auto)
  qed (use Cons in \<open>auto split: if_splits\<close>)
qed simp

lemma loop_done:
  "job_loop a limit cap is dn = (Some (OutputEnded (Some m)), ms) \<Longrightarrow>
     dn = Some m \<or> (\<exists>j sz w mm. LLine (Some j) \<in> set is \<and> runner_event_of j = Inr (RDone sz w mm)
        \<and> m = done_metrics_of a sz w mm)"
proof (induction "is" arbitrary: dn ms)
  case (Cons i "is")
  show ?case
  proof (cases "(a, limit, cap, i # is, dn)" rule: job_loop.cases)
    case (10 a' limit' cap' j is' dn')
    show ?thesis
    proof (cases "runner_event_of j")
      case (Inl e)
      then show ?thesis using Cons 10 by fastforce
    next
      case (Inr ev)
      show ?thesis
      proof (cases ev)
        case (RDone sz w mm)
        then have "job_loop a limit cap is (Some (done_metrics_of a sz w mm))
            = (Some (OutputEnded (Some m)), ms)"
          using Cons.prems 10 Inr by simp
        from Cons.IH [OF this] show ?thesis using 10 Inr RDone by fastforce
      next
        case (RProgress p e f)
        then show ?thesis using Cons 10 Inr by (fastforce split: prod.splits)
      next
        case RHeartbeat
        then show ?thesis using Cons 10 Inr by fastforce
      next
        case (RError msg)
        then show ?thesis using Cons 10 Inr by simp
      qed
    qed
  qed (use Cons in \<open>auto split: if_splits\<close>)
qed simp

lemma done_metrics_size: "met_output_size_in_bytes (done_metrics_of a sz w mm) = Some sz"
  by (simp add: done_metrics_of_def)


section \<open>A runner that closes its output\<close>

text \<open>
  The limits end with the runner's output. Once the runner has closed its standard output, a
  child that does not exit is waited for without limit: whatever would come next, a cancel, the
  wall-clock deadline, the disk cap or silence, the job does not end and nothing is killed or
  purged.
\<close>

theorem closed_output_escapes_limits:
  assumes "je_wait je = None" and "je_stdin je" and "je_stdout je"
  shows "run_spawned a limit cap (je\<lparr>je_inputs := LEof # rest\<rparr>) br
           = (None, [CreatedWorkdir, SpawnedRunner])"
  using assms by (simp add: run_spawned_def finish_job_def Let_def)

text \<open>What stops a job from outside, or by the limits the supervisor puts on it.\<close>

definition limit_hit :: "nat \<Rightarrow> loop_input \<Rightarrow> bool" where
  "limit_hit cap i = (case i of
       LDeadline \<Rightarrow> True | LCancel \<Rightarrow> True | LSilence \<Rightarrow> True | LReadError \<Rightarrow> True
     | LDisk None \<Rightarrow> True | LDisk (Some bytes) \<Rightarrow> cap < bytes | _ \<Rightarrow> False)"

lemma job_loop_stopped:
  assumes "limit_hit cap i" and "LEof \<notin> set is"
  shows "\<exists>err ms. job_loop a limit cap (is @ i # rest) dn = (Some (Stopped err), ms)"
  using assms(2)
proof (induction "is" arbitrary: dn)
  case Nil
  show ?case using assms(1) by (cases "(a, limit, cap, i # rest, dn)" rule: job_loop.cases) (auto simp: limit_hit_def)
next
  case (Cons x xs)
  show ?case
  proof (cases "(a, limit, cap, x # xs, dn)" rule: job_loop.cases)
    case (10 a' limit' cap' j is' dn')
    have further: "\<exists>err ms. job_loop a limit cap (xs @ i # rest) dn1 = (Some (Stopped err), ms)" for dn1
      using Cons by simp
    show ?thesis
    proof (cases "runner_event_of j")
      case (Inr ev)
      show ?thesis
      proof (cases ev)
        case (RDone sz w m)
        then show ?thesis using 10 Inr further [of "Some (done_metrics_of a sz w m)"] by simp
      qed (use 10 Inr further [of dn] in auto)
    qed (use 10 further [of dn] in simp)
  qed (use Cons in auto)
qed

lemma stop_job_ends:
  "\<exists>e evs'. stop_job je br err evs = (Some (Inl e), evs') \<and> child_down evs' \<and> PurgedWorkdir \<in> set evs'"
  using terminate_reaps by (auto simp: stop_job_def child_down_def)


definition sample_term :: term_env where
  "sample_term = \<lparr>te_me = 10, te_child = Some 20, te_exits_in_grace = False,
     te_child_later = Some 20, te_ps = (\<lambda>p. None), te_alive = (\<lambda>p. False), te_pidfile_text = None\<rparr>"

definition sample_env :: job_env where
  "sample_env = \<lparr>je_payload = Inr (), je_runner_path = ''/r'', je_runner_exists = True,
     je_browser = Inr False, je_workdir = True, je_wrapper = True, je_serialize = True,
     je_spawn = True, je_stdin = True, je_stdin_error = None, je_stdout = True,
     je_inputs = [LLine (Some (JObj [(''type'', JStr ''done''), (''outputSizeInBytes'', JInt 7),
       (''wallTimeMs'', JInt 9)])), LEof],
     je_wait = Some (WaitExit True ''exit status: 0''), je_term = sample_term\<rparr>"


theorem closed_output_escapes_limits_witness:
  "fst (run_spawned sample_assign 1 1
      (sample_env\<lparr>je_wait := None, je_inputs := LEof # [LCancel, LDeadline]\<rparr>) True) = None"
  using closed_output_escapes_limits [of "sample_env\<lparr>je_wait := None\<rparr>" sample_assign 1 1
      "[LCancel, LDeadline]" True]
  by (simp add: sample_env_def)

lemma sample_done: "runner_event_of (JObj [(''type'', JStr ''done''), (''outputSizeInBytes'', JInt 7),
       (''wallTimeMs'', JInt 9)]) = Inr (RDone 7 9 None)"
  by (simp add: runner_event_of_def req_def opt_def)

lemma sample_run: "\<exists>m evs. run_job_inner sample_assign 1 1 sample_env = (Some (Inr m), evs)"
  by (simp add: run_job_inner_def sample_env_def run_spawned_def Let_def sample_done finish_job_def)

theorem job_purges_on_every_path_witness:
  "\<exists>r evs. run_job_inner sample_assign 1 1 sample_env = (Some r, evs) \<and> purged_after_down evs"
proof -
  obtain m evs where r: "run_job_inner sample_assign 1 1 sample_env = (Some (Inr m), evs)"
    using sample_run by blast
  moreover have "CreatedWorkdir \<in> set evs"
    using r by (auto simp: run_job_inner_def sample_env_def run_spawned_def Let_def sample_done
        finish_job_def)
  ultimately show ?thesis using job_purges_on_every_path [OF r] by blast
qed


end
