(* ===== verification/Lease.thy ===== *)
theory Lease
  imports Session_Discipline Runner
begin

text \<open>
  What dispatch may see of a lease, one job at one attempt: the abstract protocol as an automaton
  over the frames that name the lease, and the messages of one run of a job as a word of it. The
  session refines the automaton in \<open>Lease_Session\<close> and \<open>Lease_Refine\<close>, the whole run in \<open>Lease_Process\<close>.
\<close>

section \<open>The abstract protocol\<close>

text \<open>An acknowledgement carries attempt 1 for a job without one, so that is the attempt on the wire.\<close>

type_synonym lease = "string \<times> u32"

definition lease_of :: "job_pair \<Rightarrow> lease" where
  "lease_of p = (fst p, unwrap_or 1 (snd p))"

datatype lease_event = EvAccepted | EvRefused | EvProgress | EvCompleted | EvFailed | EvCanceled

fun lease_event_of :: "worker_message \<Rightarrow> (lease \<times> lease_event) option" where
  "lease_event_of (JobAccepted m) = Some (lease_of (acc_job_id m, acc_attempt m), EvAccepted)"
| "lease_event_of (JobRejected m) = Some (lease_of (rej_job_id m, rej_attempt m), EvRefused)"
| "lease_event_of (JobProgress m) = Some (lease_of (prg_job_id m, prg_attempt m), EvProgress)"
| "lease_event_of (JobComplete m) = Some (lease_of (cmp_job_id m, cmp_attempt m), EvCompleted)"
| "lease_event_of (JobFailed m) = Some (lease_of (fld_job_id m, fld_attempt m), EvFailed)"
| "lease_event_of (JobCanceledAck m) = Some ((ack_job_id m, ack_attempt m), EvCanceled)"
| "lease_event_of (Register m) = None"
| "lease_event_of (Heartbeat m) = None"

datatype lease_state =
    LeaseUnseen | LeaseRefused | LeaseRunning | LeaseCompleted | LeaseFailed | LeaseCanceled

text \<open>
  A completion is final. A failure may still be followed by the acknowledgement of a cancel, since
  dispatch can cancel a job whose failure is on its way.
\<close>

fun lease_step :: "lease_state \<Rightarrow> lease_event \<Rightarrow> lease_state option" where
  "lease_step LeaseUnseen EvAccepted = Some LeaseRunning"
| "lease_step LeaseUnseen EvRefused = Some LeaseRefused"
| "lease_step LeaseRunning EvProgress = Some LeaseRunning"
| "lease_step LeaseRunning EvCompleted = Some LeaseCompleted"
| "lease_step LeaseRunning EvFailed = Some LeaseFailed"
| "lease_step LeaseRunning EvCanceled = Some LeaseCanceled"
| "lease_step LeaseFailed EvCanceled = Some LeaseCanceled"
| "lease_step st e = None"

fun lease_run :: "lease_state \<Rightarrow> lease_event list \<Rightarrow> lease_state option" where
  "lease_run st [] = Some st"
| "lease_run st (e # es) = Option.bind (lease_step st e) (\<lambda>st'. lease_run st' es)"

definition events_about :: "lease \<Rightarrow> worker_message \<Rightarrow> lease_event list" where
  "events_about l m = (case lease_event_of m of
     Some (l', e) \<Rightarrow> if l' = l then [e] else [] | None \<Rightarrow> [])"

definition lease_events :: "lease \<Rightarrow> worker_message list \<Rightarrow> lease_event list" where
  "lease_events l ms = concat (map (events_about l) ms)"

definition lease_state_of :: "lease \<Rightarrow> worker_message list \<Rightarrow> lease_state option" where
  "lease_state_of l ms = lease_run LeaseUnseen (lease_events l ms)"

lemma lease_run_append:
  "lease_run st (es @ fs) = Option.bind (lease_run st es) (\<lambda>st'. lease_run st' fs)"
  by (induction es arbitrary: st) (auto split: bind_splits)

text \<open>
  Completed is final, an acknowledged cancel is final, and a refusal is: whatever the word, at most
  one completion or acknowledgement is in it, and never both.
\<close>

lemma lease_run_final: "st \<in> {LeaseRefused, LeaseCompleted, LeaseCanceled} \<Longrightarrow> lease_run st es = Some st' \<Longrightarrow> es = []"
  by (cases es; cases st; cases "hd es") auto

lemma lease_events_simps [simp]:
  "lease_events l [] = []"
  "lease_events l (m # ms) = events_about l m @ lease_events l ms"
  "lease_events l (ms @ ns) = lease_events l ms @ lease_events l ns"
  by (simp_all add: lease_events_def)

lemma lease_state_append:
  "lease_state_of l (ms @ ns) = Option.bind (lease_state_of l ms) (\<lambda>st. lease_run st (lease_events l ns))"
  by (simp add: lease_state_of_def lease_run_append)

text \<open>A lease is unseen exactly when no frame named it.\<close>

lemma lease_run_unseen: "lease_run st es = Some LeaseUnseen \<Longrightarrow> es = []"
proof (induction es arbitrary: st)
  case (Cons e es)
  obtain st' where "lease_step st e = Some st'" "lease_run st' es = Some LeaseUnseen"
    using Cons.prems by (auto split: bind_splits)
  then show ?case using Cons.IH [of st'] by (cases st; cases e) auto
qed simp

lemma lease_unseen_iff: "lease_state_of l ms = Some LeaseUnseen \<longleftrightarrow> lease_events l ms = []"
  using lease_run_unseen by (auto simp: lease_state_of_def)

text \<open>
  No acknowledgement of a lease is legal where nothing was seen of it, and none was seen where it
  still runs; a frame sent before such acknowledgements acts on that state.
\<close>

lemma acks_cancel: "set (lease_events l (map JobCanceledAck acks)) \<subseteq> {EvCanceled}"
  by (auto simp: lease_events_def events_about_def split: if_splits)

lemma unseen_no_acks:
  assumes "lease_state_of l ms = Some LeaseUnseen" and "lease_state_of l (ms @ map JobCanceledAck acks) \<noteq> None"
  shows "lease_events l (map JobCanceledAck acks) = []"
proof (cases "lease_events l (map JobCanceledAck acks)")
  case (Cons e es)
  then have "e = EvCanceled" using acks_cancel [of l acks] by auto
  then show ?thesis using assms Cons by (simp add: lease_state_append)
qed simp

lemma running_no_acks:
  assumes "lease_state_of l (ms @ map JobCanceledAck acks) = Some st" and "st \<in> {LeaseUnseen, LeaseRunning, LeaseFailed}"
  shows "lease_events l (map JobCanceledAck acks) = []"
proof (cases "lease_events l (map JobCanceledAck acks)")
  case (Cons e es)
  then have e: "e = EvCanceled" "set es \<subseteq> {EvCanceled}" using acks_cancel [of l acks] by auto
  obtain st1 where st1: "lease_run st1 (e # es) = Some st"
    using assms(1) Cons by (auto simp: lease_state_append split: bind_splits)
  then have "lease_step st1 e = Some LeaseCanceled" using e(1) by (cases st1) auto
  then show ?thesis using st1 assms(2) lease_run_final [of LeaseCanceled es st] by auto
qed simp

lemma lease_state_between:
  assumes "lease_state_of l (ms @ map JobCanceledAck acks) = Some st" and "st \<in> {LeaseUnseen, LeaseRunning, LeaseFailed}"
  shows "lease_state_of l ((ms @ ns) @ map JobCanceledAck (acks @ bs))
     = lease_run st (lease_events l (ns @ map JobCanceledAck bs))"
  using running_no_acks [OF assms] assms(1)
  by (simp add: lease_state_of_def lease_run_append)

section \<open>One run of a job\<close>

fun frame_of :: "job_event \<Rightarrow> worker_message list" where
  "frame_of (Frame m) = [m]"
| "frame_of e = []"

definition job_frames :: "job_event list \<Rightarrow> worker_message list" where
  "job_frames evs = concat (map frame_of evs)"

definition assign_pair :: "job_assign_message \<Rightarrow> job_pair" where
  "assign_pair a = (ja_job_id a, ja_attempt a)"

text \<open>Progress of the job, then at most one terminal frame, of the outcome the task returns.\<close>

definition job_stream :: "job_assign_message \<Rightarrow> job_outcome option \<Rightarrow> worker_message list \<Rightarrow> bool" where
  "job_stream a out ms \<longleftrightarrow> (\<exists>ps tl. ms = ps @ tl \<and> list_all (progress_frame a) ps
     \<and> (tl = [] \<or> (\<exists>m. tl = [m] \<and> terminal_of m = Some (assign_pair a) \<and> out = Some (terminal_outcome m))))"

lemma job_frames_simps [simp]:
  "job_frames [] = []" "job_frames (e # es) = frame_of e @ job_frames es"
  "job_frames (es @ fs) = job_frames es @ job_frames fs"
  "job_frames (map Frame ms) = ms"
  by (simp_all add: job_frames_def comp_def)

lemma stop_frames: "job_frames (snd (stop_job je br err evs)) = job_frames evs"
  by (simp add: stop_job_def)

lemma finish_frames: "job_frames (snd (finish_job je br m evs)) = job_frames evs"
  by (auto simp: finish_job_def stop_frames Let_def split: option.splits wait_answer.splits)

lemma spawned_frames: "list_all (progress_frame a) (job_frames (snd (run_spawned a limit cap je br)))"
  using loop_frames [of a limit cap "je_inputs je" None]
  by (auto simp: run_spawned_def stop_frames finish_frames Let_def split: prod.split option.split loop_end.split)

lemma inner_frames: "list_all (progress_frame a) (job_frames (snd (run_job_inner a limit cap je)))"
  using spawned_frames [of a limit cap je] by (auto simp: run_job_inner_def split: sum.split)

text \<open>Every run of a job, cut off anywhere, is such a stream.\<close>

lemma run_job_stream:
  assumes "run_job a limit cap je = (out, evs)" and "prefix ms (job_frames evs)"
  shows "job_stream a out ms"
proof -
  obtain r evs1 where i: "run_job_inner a limit cap je = (r, evs1)"
    by (cases "run_job_inner a limit cap je")
  have ps: "list_all (progress_frame a) (job_frames evs1)" using inner_frames [of a limit cap je] i by simp
  obtain tl where fr: "job_frames evs = job_frames evs1 @ tl"
    and tl: "tl = [] \<or> (\<exists>m. tl = [m] \<and> terminal_of m = Some (assign_pair a) \<and> out = Some (terminal_outcome m))"
    using assms(1) i
    by (auto simp: run_job_def assign_pair_def split: option.splits sum.splits)
  show ?thesis
  proof (cases "prefix ms (job_frames evs1)")
    case True
    then have "list_all (progress_frame a) ms" using ps by (auto simp: prefix_def)
    then show ?thesis unfolding job_stream_def by (intro exI [of _ ms] exI [of _ "[]"]) simp
  next
    case False
    then have "ms = job_frames evs1 @ tl"
      using assms(2) fr tl by (auto simp: prefix_append prefix_Cons)
    then show ?thesis unfolding job_stream_def using ps tl by blast
  qed
qed

lemma progress_not_terminal: "progress_frame a m \<Longrightarrow> terminal_of m = None"
  by (auto simp: progress_frame_def progress_to_wire_def)

lemma progress_event: "progress_frame a m \<Longrightarrow> lease_event_of m = Some (lease_of (assign_pair a), EvProgress)"
  by (auto simp: progress_frame_def progress_to_wire_def assign_pair_def)

lemma terminal_event:
  "terminal_of m = Some p \<Longrightarrow> lease_event_of m = Some (lease_of p,
     case terminal_outcome m of OutComplete \<Rightarrow> EvCompleted | OutFailed \<Rightarrow> EvFailed)"
  by (cases m) auto

lemma job_stream_prefix:
  assumes "job_stream a out ms" and "prefix ns ms"
  shows "job_stream a out ns"
proof -
  obtain ps tl where ms: "ms = ps @ tl" "list_all (progress_frame a) ps"
    and tl: "tl = [] \<or> (\<exists>m. tl = [m] \<and> terminal_of m = Some (assign_pair a) \<and> out = Some (terminal_outcome m))"
    using assms(1) unfolding job_stream_def by blast
  show ?thesis
  proof (cases "prefix ns ps")
    case True
    then have "list_all (progress_frame a) ns" using ms(2) by (auto simp: prefix_def)
    then show ?thesis unfolding job_stream_def by (intro exI [of _ ns] exI [of _ "[]"]) simp
  next
    case False
    then have "ns = ms" using assms(2) ms(1) tl by (auto simp: prefix_append prefix_Cons)
    then show ?thesis using assms(1) by simp
  qed
qed

text \<open>A message of the stream is progress or the terminal frame, and nothing follows the latter.\<close>

lemma job_stream_cases:
  assumes "job_stream a out (xs @ m # ys)"
  shows "(\<forall>x\<in>set xs. terminal_of x = None)
     \<and> (progress_frame a m
        \<or> ys = [] \<and> terminal_of m = Some (assign_pair a) \<and> out = Some (terminal_outcome m))"
proof -
  obtain ps tl where ms: "xs @ m # ys = ps @ tl" "list_all (progress_frame a) ps"
    and tl: "tl = [] \<or> (\<exists>m. tl = [m] \<and> terminal_of m = Some (assign_pair a) \<and> out = Some (terminal_outcome m))"
    using assms unfolding job_stream_def by blast
  from tl show ?thesis
  proof
    assume "tl = []"
    then show ?thesis using ms by (auto simp: list_all_iff intro: progress_not_terminal)
  next
    assume "\<exists>m. tl = [m] \<and> terminal_of m = Some (assign_pair a) \<and> out = Some (terminal_outcome m)"
    then obtain z where z: "tl = [z]" "terminal_of z = Some (assign_pair a)" "out = Some (terminal_outcome z)"
      by blast
    show ?thesis
    proof (cases ys rule: rev_cases)
      case Nil
      then have "xs = ps \<and> m = z" using ms(1) z(1) by simp
      then show ?thesis using Nil z ms(2) by (auto simp: list_all_iff intro: progress_not_terminal)
    next
      case (snoc ys' y)
      then have "xs @ m # ys' = ps" using ms(1) z(1) by (metis append_Cons append_assoc append1_eq_conv)
      then show ?thesis using ms(2) by (auto simp: list_all_iff intro: progress_not_terminal)
    qed
  qed
qed

end
