(* ===== verification/Lease_Session.thy ===== *)
theory Lease_Session
  imports Lease
begin

text \<open>
  The session refines the protocol of \<open>Lease\<close>: whatever dispatch sends and however the tasks'
  messages, cancels, heartbeats and send failures interleave, the frames that name one lease,
  with the acknowledgements the session leaves for the next one, are a word of the automaton. This
  theory holds what is observed of a session, what the environment does, and the simulation
  relation; \<open>Lease_Refine\<close> takes the arms of the session through it.
\<close>

section \<open>What is observed\<close>

fun sent_by :: "event \<Rightarrow> worker_message list" where
  "sent_by (Sent m) = [m]" | "sent_by e = []"

fun consumed_by :: "task \<Rightarrow> event \<Rightarrow> worker_message list" where
  "consumed_by k (Consumed (Some k') m) = (if k' = k then [m] else [])" | "consumed_by k e = []"

fun queued_by :: "task \<Rightarrow> task option \<times> worker_message \<Rightarrow> worker_message list" where
  "queued_by k (Some k', m) = (if k' = k then [m] else [])" | "queued_by k (None, m) = []"

fun refused_by :: "task option \<times> worker_message \<Rightarrow> worker_message list" where
  "refused_by (None, m) = [m]" | "refused_by (Some k, m) = []"

definition sent_messages :: "event list \<Rightarrow> worker_message list" where
  "sent_messages tr = concat (map sent_by tr)"

definition consumed :: "task \<Rightarrow> event list \<Rightarrow> worker_message list" where
  "consumed k tr = concat (map (consumed_by k) tr)"

definition task_messages :: "task \<Rightarrow> session \<Rightarrow> worker_message list" where
  "task_messages k s = consumed k (ses_trace s) @ concat (map (queued_by k) (ses_queue s))"

definition refusals :: "lease \<Rightarrow> session \<Rightarrow> lease_event list" where
  "refusals l s = lease_events l (concat (map refused_by (ses_queue s)))"

text \<open>What dispatch has seen, and will see of the acknowledgements this session left.\<close>

definition dispatch_view :: "job_canceled_ack_message list \<Rightarrow> session \<Rightarrow> worker_message list" where
  "dispatch_view old s =
     sent_messages (ses_trace s) @ map JobCanceledAck (drop (length old) (ses_pending s))"

lemma observed_simps [simp]:
  "sent_messages [] = []" "sent_messages (e # es) = sent_by e @ sent_messages es"
  "sent_messages (es @ fs) = sent_messages es @ sent_messages fs"
  "consumed k [] = []" "consumed k (e # es) = consumed_by k e @ consumed k es"
  "consumed k (es @ fs) = consumed k es @ consumed k fs"
  by (simp_all add: sent_messages_def consumed_def)

section \<open>The environment\<close>

text \<open>
  What each task \<open>k\<close> spawned for an assignment does, \<open>jobs k a\<close>: the outcome awaiting it yields, and
  its events, the frames it sends among them. At any turn the messages a task has put on the
  channel are a prefix of those frames; awaiting it yields its outcome, or nothing for a panic.
\<close>

definition tasks_run_jobs :: "(task \<Rightarrow> job_assign_message \<Rightarrow> job_outcome option \<times> job_event list)
    \<Rightarrow> turn \<Rightarrow> session \<Rightarrow> bool" where
  "tasks_run_jobs jobs t s \<longleftrightarrow>
     (\<forall>(k, m)\<in>set (tu_arrivals t). \<exists>a. Spawned k a \<in> set (ses_trace s)
        \<and> prefix (task_messages k (before_select t s)) (job_frames (snd (jobs k a))))
   \<and> (\<forall>k a. Spawned k a \<in> set (ses_trace s) \<longrightarrow> fst (tu_join t k) \<in> {None, fst (jobs k a)})"

text \<open>Dispatch offers a lease it has not heard of, in this session or before it (\<open>hist\<close>).\<close>

definition fresh_offer :: "worker_message list \<Rightarrow> turn \<Rightarrow> session \<Rightarrow> bool" where
  "fresh_offer hist t s \<longleftrightarrow>
     (case tu_stream t of
        Some (FText (Some j)) \<Rightarrow>
          (case server_of_json j of
             Inr (JobAssign a) \<Rightarrow>
               lease_state_of (lease_of (assign_pair a)) (hist @ sent_messages (ses_trace s)) = Some LeaseUnseen
           | _ \<Rightarrow> True)
      | _ \<Rightarrow> True)"

section \<open>The simulation relation\<close>

definition task_ended :: "task \<Rightarrow> session \<Rightarrow> bool" where
  "task_ended k s \<longleftrightarrow> (\<exists>m\<in>set (consumed k (ses_trace s)). terminal_of m \<noteq> None)"

definition draining_tasks :: "session \<Rightarrow> task set" where
  "draining_tasks s = ifj_handle ` set (ses_draining s)"

definition in_flight_task :: "session \<Rightarrow> task option" where
  "in_flight_task s = map_option ifj_handle (ses_in_flight s)"

definition canceled_slot :: "session \<Rightarrow> job_pair option" where
  "canceled_slot s = map_option canceled_pair (ses_canceled s)"

text \<open>The state of a spawned lease: running until its terminal frame was read.\<close>

definition lease_of_task :: "job_canceled_ack_message list \<Rightarrow> session \<Rightarrow> task \<Rightarrow> job_assign_message
    \<Rightarrow> job_outcome option \<Rightarrow> bool" where
  "lease_of_task old s k a out \<longleftrightarrow>
     (let st = lease_state_of (lease_of (assign_pair a)) (dispatch_view old s)
      in if task_ended k s
         then in_flight_task s \<noteq> Some k \<and> canceled_slot s \<noteq> Some (assign_pair a)
            \<and> (if out = Some OutComplete then st \<in> {Some LeaseRunning, Some LeaseCompleted}
               else st \<in> {Some LeaseRunning, Some LeaseFailed}
                 \<or> st = Some LeaseCanceled \<and> k \<notin> draining_tasks s)
         else st = Some LeaseRunning)"

definition lease_spawned :: "event list \<Rightarrow> lease \<Rightarrow> bool" where
  "lease_spawned tr l \<longleftrightarrow> (\<exists>k a. Spawned k a \<in> set tr \<and> lease_of (assign_pair a) = l)"

text \<open>
  \<open>hist\<close> is what dispatch saw before this session. Nothing of a lease it already knows is in play
  here.
\<close>

definition lease_of_offer :: "worker_message list \<Rightarrow> job_canceled_ack_message list \<Rightarrow> session \<Rightarrow> lease \<Rightarrow> bool" where
  "lease_of_offer hist old s l \<longleftrightarrow>
     (if lease_spawned (ses_trace s) l
      then refusals l s = [] \<and> lease_events l hist = []
      else refusals l s = [] \<and> lease_state_of l (dispatch_view old s) = Some LeaseUnseen
         \<or> lease_events l hist = []
           \<and> (refusals l s = [] \<and> lease_state_of l (dispatch_view old s) = Some LeaseRefused
              \<or> refusals l s = [EvRefused] \<and> lease_state_of l (dispatch_view old s) = Some LeaseUnseen))"

definition spawns_distinct :: "event list \<Rightarrow> bool" where
  "spawns_distinct tr \<longleftrightarrow>
     (\<forall>k a k' a'. Spawned k a \<in> set tr \<and> Spawned k' a' \<in> set tr
        \<and> (k = k' \<or> lease_of (assign_pair a) = lease_of (assign_pair a')) \<longrightarrow> k = k' \<and> a = a')"

definition streams_ok :: "(task \<Rightarrow> job_assign_message \<Rightarrow> job_outcome option \<times> job_event list)
    \<Rightarrow> session \<Rightarrow> bool" where
  "streams_ok jobs s \<longleftrightarrow>
     (\<forall>k. task_messages k s \<noteq> [] \<longrightarrow> (\<exists>a. Spawned k a \<in> set (ses_trace s)
        \<and> job_stream a (fst (jobs k a)) (task_messages k s)))"

definition lease_inv :: "worker_message list \<Rightarrow> (task \<Rightarrow> job_assign_message \<Rightarrow> job_outcome option \<times> job_event list)
    \<Rightarrow> job_canceled_ack_message list \<Rightarrow> session \<Rightarrow> bool" where
  "lease_inv hist jobs old s \<longleftrightarrow>
     take (length old) (ses_pending s) = old
   \<and> spawns_distinct (ses_trace s)
   \<and> streams_ok jobs s
   \<and> (\<forall>k a. Spawned k a \<in> set (ses_trace s) \<longrightarrow> lease_of_task old s k a (fst (jobs k a)))
   \<and> (\<forall>l. lease_of_offer hist old s l)
   \<and> (\<forall>m\<in>set (concat (map refused_by (ses_queue s))). \<exists>r. m = JobRejected r)"

definition lease_exit :: "worker_message list \<Rightarrow> job_canceled_ack_message list \<Rightarrow> session \<Rightarrow> bool" where
  "lease_exit hist old s \<longleftrightarrow> take (length old) (ses_pending s) = old
     \<and> (\<forall>l. lease_state_of l (dispatch_view old s) \<noteq> None
          \<and> (lease_events l hist \<noteq> [] \<longrightarrow> lease_events l (dispatch_view old s) = []))"

lemma lease_of_task_cong:
  "lease_state_of (lease_of (assign_pair a)) (dispatch_view old s') = lease_state_of (lease_of (assign_pair a)) (dispatch_view old s)
   \<Longrightarrow> task_ended k s' = task_ended k s \<Longrightarrow> in_flight_task s' = in_flight_task s
   \<Longrightarrow> canceled_slot s' = canceled_slot s \<Longrightarrow> draining_tasks s' = draining_tasks s
   \<Longrightarrow> lease_of_task old s' k a out = lease_of_task old s k a out"
  by (simp add: lease_of_task_def)

lemma lease_of_offer_cong:
  "refusals l s' = refusals l s \<Longrightarrow> lease_state_of l (dispatch_view old s') = lease_state_of l (dispatch_view old s)
   \<Longrightarrow> lease_spawned (ses_trace s') l = lease_spawned (ses_trace s) l
   \<Longrightarrow> lease_of_offer hist old s' l = lease_of_offer hist old s l"
  by (simp add: lease_of_offer_def)

lemma lease_invI:
  assumes "take (length old) (ses_pending s) = old" and "spawns_distinct (ses_trace s)" and "streams_ok jobs s"
    and "\<And>k a. Spawned k a \<in> set (ses_trace s) \<Longrightarrow> lease_of_task old s k a (fst (jobs k a))"
    and "\<And>l. lease_of_offer hist old s l"
    and "\<And>x m. x \<in> set (ses_queue s) \<Longrightarrow> m \<in> set (refused_by x) \<Longrightarrow> \<exists>r. m = JobRejected r"
  shows "lease_inv hist jobs old s"
  using assms unfolding lease_inv_def by fastforce

lemma lease_invD:
  assumes "lease_inv hist jobs old s"
  shows "take (length old) (ses_pending s) = old" "spawns_distinct (ses_trace s)" "streams_ok jobs s"
    "Spawned k a \<in> set (ses_trace s) \<Longrightarrow> lease_of_task old s k a (fst (jobs k a))"
    "lease_of_offer hist old s l"
    "x \<in> set (ses_queue s) \<Longrightarrow> m \<in> set (refused_by x) \<Longrightarrow> \<exists>r. m = JobRejected r"
  using assms unfolding lease_inv_def by (blast, blast, blast, blast, blast, fastforce)

text \<open>A step that spawns nothing keeps the relation if it does so task by task and lease by lease.\<close>

lemma spawn_congs:
  assumes "\<And>k a. Spawned k a \<in> set tr' \<longleftrightarrow> Spawned k a \<in> set tr"
  shows "spawns_distinct tr' = spawns_distinct tr" and "lease_spawned tr' l = lease_spawned tr l"
  unfolding spawns_distinct_def lease_spawned_def assms by (rule refl)+

lemma streams_ok_cong:
  assumes "\<And>k a. Spawned k a \<in> set (ses_trace s') \<longleftrightarrow> Spawned k a \<in> set (ses_trace s)"
    and "\<And>k. task_messages k s' = task_messages k s"
  shows "streams_ok jobs s' = streams_ok jobs s"
  unfolding streams_ok_def assms by (rule refl)

lemma lease_inv_frame:
  assumes "lease_inv hist jobs old s"
    and sp: "\<And>k a. Spawned k a \<in> set (ses_trace s') \<longleftrightarrow> Spawned k a \<in> set (ses_trace s)"
    and "take (length old) (ses_pending s') = old" and "\<And>k. task_messages k s' = task_messages k s"
    and "\<And>k a. Spawned k a \<in> set (ses_trace s) \<Longrightarrow> lease_of_task old s k a (fst (jobs k a))
          \<Longrightarrow> lease_of_task old s' k a (fst (jobs k a))"
    and "\<And>l. lease_of_offer hist old s l \<Longrightarrow> lease_of_offer hist old s' l"
    and "\<And>x m. x \<in> set (ses_queue s') \<Longrightarrow> m \<in> set (refused_by x) \<Longrightarrow> \<exists>r. m = JobRejected r"
  shows "lease_inv hist jobs old s'"
proof (rule lease_invI)
  show "spawns_distinct (ses_trace s')" using lease_invD(2) [OF assms(1)] spawn_congs(1) [OF sp] by simp
  show "streams_ok jobs s'" using lease_invD(3) [OF assms(1)] streams_ok_cong [OF sp assms(4)] by simp
  show "lease_of_task old s' k a (fst (jobs k a))" if "Spawned k a \<in> set (ses_trace s')" for k a
    using that assms(5) lease_invD(4) [OF assms(1)] unfolding sp by blast
  show "lease_of_offer hist old s' l" for l by (rule assms(6) [OF lease_invD(5) [OF assms(1)]])
qed (use assms(3,7) in simp_all)

lemmas lease_inv_defs = lease_inv_def lease_of_task_def lease_of_offer_def streams_ok_def
  task_ended_def draining_tasks_def task_messages_def refusals_def dispatch_view_def
  in_flight_task_def canceled_slot_def

lemma lease_inv_legal: "lease_inv hist jobs old s \<Longrightarrow> lease_exit hist old s"
proof -
  assume inv: "lease_inv hist jobs old s"
  have "lease_state_of l (dispatch_view old s) \<noteq> None
      \<and> (lease_events l hist \<noteq> [] \<longrightarrow> lease_events l (dispatch_view old s) = [])" for l
  proof (cases "lease_spawned (ses_trace s) l")
    case True
    then obtain k a where sp: "Spawned k a \<in> set (ses_trace s)" "lease_of (assign_pair a) = l"
      by (auto simp: lease_spawned_def)
    then have "lease_of_task old s k a (fst (jobs k a))" using lease_invD(4) [OF inv] by simp
    moreover have "lease_events l hist = []"
      using lease_invD(5) [OF inv, of l] True by (simp add: lease_of_offer_def)
    ultimately show ?thesis using sp(2) by (auto simp: lease_of_task_def Let_def split: if_splits)
  next
    case False
    have "lease_of_offer hist old s l" by (rule lease_invD(5) [OF inv])
    then show ?thesis using False by (auto simp: lease_of_offer_def simp flip: lease_unseen_iff)
  qed
  then show ?thesis using lease_invD(1) [OF inv] unfolding lease_exit_def by blast
qed

section \<open>Steps that change nothing, or let something go\<close>

lemma lease_inv_shrink:
  assumes "lease_inv hist jobs old s"
    and "ses_in_flight s' = ses_in_flight s \<or> ses_in_flight s' = None"
    and "ses_canceled s' = ses_canceled s \<or> ses_canceled s' = None"
    and "set (ses_draining s') \<subseteq> set (ses_draining s)"
    and "ses_queue s' = ses_queue s" and "ses_trace s' = ses_trace s" and "ses_pending s' = ses_pending s"
  shows "lease_inv hist jobs old s'"
proof -
  have d: "draining_tasks s' \<subseteq> draining_tasks s" using assms(4) by (auto simp: draining_tasks_def)
  have f: "in_flight_task s' = in_flight_task s \<or> in_flight_task s' = None"
      "canceled_slot s' = canceled_slot s \<or> canceled_slot s' = None"
    using assms(2,3) by (auto simp: in_flight_task_def canceled_slot_def)
  have e: "task_ended k s' = task_ended k s" "dispatch_view old s' = dispatch_view old s"
      "task_messages k s' = task_messages k s" "refusals l s' = refusals l s" for k l
    by (simp_all add: task_ended_def dispatch_view_def task_messages_def refusals_def assms(5-7))
  have "lease_of_task old s k a out \<Longrightarrow> lease_of_task old s' k a out" for k a out
    using f d unfolding lease_of_task_def Let_def e by (auto split: if_splits)
  then show ?thesis
    using assms(1) unfolding lease_inv_def lease_of_offer_def streams_ok_def e assms(5-7) by blast
qed

fun silent :: "event \<Rightarrow> bool" where
  "silent (Sent m) = (lease_event_of m = None)"
| "silent (Consumed src m) = False"
| "silent (Spawned k a) = False"
| "silent e = True"

lemma silent_folds:
  assumes "list_all silent es"
  shows "consumed k (tr @ es) = consumed k tr" "lease_events l (sent_messages (tr @ es)) = lease_events l (sent_messages tr)"
    "Spawned k a \<in> set (tr @ es) \<longleftrightarrow> Spawned k a \<in> set tr"
proof -
  have "consumed_by k e = []" "lease_events l (sent_by e) = []" "e \<noteq> Spawned k a" if "silent e" for e
    using that by (cases e; auto simp: events_about_def)+
  then show "consumed k (tr @ es) = consumed k tr"
    "lease_events l (sent_messages (tr @ es)) = lease_events l (sent_messages tr)"
    "Spawned k a \<in> set (tr @ es) \<longleftrightarrow> Spawned k a \<in> set tr"
    using assms by (induction es) auto
qed

lemma lease_inv_note:
  assumes "list_all silent es"
  shows "lease_inv hist jobs old (note_events es s) = lease_inv hist jobs old s"
proof -
  note f = silent_folds [OF assms]
  have st: "lease_state_of l (dispatch_view old (note_events es s)) = lease_state_of l (dispatch_view old s)" for l
    using f(2) [of l "ses_trace s"] by (simp add: lease_state_of_def dispatch_view_def)
  have tm: "task_messages k (note_events es s) = task_messages k s" for k
    using f(1) [of k "ses_trace s"] by (simp add: task_messages_def)
  have en: "task_ended k (note_events es s) = task_ended k s" for k
    using f(1) [of k "ses_trace s"] by (simp add: task_ended_def)
  have sp: "Spawned k a \<in> set (ses_trace (note_events es s)) \<longleftrightarrow> Spawned k a \<in> set (ses_trace s)" for k a
    using f(3) by simp
  have "spawns_distinct (ses_trace (note_events es s)) = spawns_distinct (ses_trace s)"
    unfolding spawns_distinct_def sp by simp
  moreover have "streams_ok jobs (note_events es s) = streams_ok jobs s"
    unfolding streams_ok_def tm sp by simp
  moreover have "lease_of_task old (note_events es s) k a out = lease_of_task old s k a out" for k a out
    by (simp add: lease_of_task_def en st draining_tasks_def in_flight_task_def canceled_slot_def)
  moreover have "lease_spawned (ses_trace (note_events es s)) l = lease_spawned (ses_trace s) l" for l
    unfolding lease_spawned_def sp by simp
  then have "lease_of_offer hist old (note_events es s) l = lease_of_offer hist old s l" for l
    unfolding lease_of_offer_def st by (simp add: refusals_def)
  ultimately show ?thesis unfolding lease_inv_def sp by simp
qed

lemma lease_inv_quiet [simp]:
  "lease_inv hist jobs old (status_update f s) = lease_inv hist jobs old s"
  "lease_inv hist jobs old (surface_purges fs s) = lease_inv hist jobs old s"
  "lease_inv hist jobs old (s\<lparr>ses_gate := g\<rparr>) = lease_inv hist jobs old s"
  "lease_inv hist jobs old (s\<lparr>ses_heartbeats := h\<rparr>) = lease_inv hist jobs old s"
  "lease_inv hist jobs old (s\<lparr>ses_protected := pk\<rparr>) = lease_inv hist jobs old s"
  "lease_inv hist jobs old (s\<lparr>ses_just_canceled := jc\<rparr>) = lease_inv hist jobs old s"
  by (simp_all add: lease_inv_defs)

section \<open>Leaving the session\<close>

lemma count_distinct: "(\<And>k. count (mset xs) k \<le> 1) \<Longrightarrow> distinct xs"
proof (induction xs)
  case (Cons x xs)
  have "count (mset xs) k \<le> 1" for k
    by (rule order_trans [OF _ Cons.prems [of k]]) simp
  moreover have "x \<notin> set xs"
    using Cons.prems [of x] by (simp add: count_mset_0_iff)
  ultimately show ?case using Cons.IH by simp
qed simp

lemma owned_distinct: "owns s \<Longrightarrow> distinct (map ifj_handle (owned_jobs s))"
proof -
  assume o: "owns s"
  have "count (owned s) k \<le> 1" for k
  proof -
    have "count (owned s) k \<le> count (spawned (ses_trace s)) k"
      using o by (simp add: owns_def accounted_def)
    then show ?thesis using o by (cases "k < ses_next s") (simp_all add: owns_def fresh_def)
  qed
  then show ?thesis by (intro count_distinct) (simp add: owned_def)
qed

lemma draining_owned: "set (ses_draining s) \<subseteq> set (owned_jobs s)"
  by (auto simp: owned_jobs_def)

lemma owned_entry: "ack_inv old s \<Longrightarrow> j \<in> set (owned_jobs s) \<Longrightarrow> entry_ok (ses_trace s) j"
  by (auto simp: ack_inv_def owned_jobs_def in_flight_list_def teardown_ok_def split: option.splits)

lemma entry_spawned:
  "entry_ok tr j \<Longrightarrow> \<exists>a. Spawned (ifj_handle j) a \<in> set tr \<and> assign_pair a = job_pair_of j"
  by (auto simp: entry_ok_def job_spawned_def assign_pair_def)

lemma join_all_acks:
  "\<exists>acks. ses_pending (join_all join js s) = ses_pending s @ acks
     \<and> (\<forall>l. length (lease_events l (map JobCanceledAck acks))
          \<le> length (filter (\<lambda>j. lease_of (job_pair_of j) = l \<and> ifj_cancel_received_at j \<noteq> None
                 \<and> fst (join (ifj_handle j)) = Some OutFailed) js))"
proof (induction js arbitrary: s)
  case (Cons j js)
  obtain out now where jn: "join (ifj_handle j) = (out, now)" by (cases "join (ifj_handle j)")
  let ?P = "\<lambda>l j. lease_of (job_pair_of j) = l \<and> ifj_cancel_received_at j \<noteq> None
      \<and> fst (join (ifj_handle j)) = Some OutFailed"
  let ?q = "queue_drained_cancel_ack now (drained_ack_context j) out (ses_pending s)"
  obtain new where q: "?q = ses_pending s @ new"
    and new: "length (lease_events l (map JobCanceledAck new)) \<le> length (filter (?P l) [j])" for l
  proof (cases "?q = ses_pending s")
    case True
    then show ?thesis by (intro that [of "[]"]) simp_all
  next
    case False
    then obtain c where c: "drained_ack_context j = Some c" "out = Some OutFailed"
        "?q = ses_pending s @ [cancel_ack_for now c]"
      using queue_drained_cases [of now "drained_ack_context j" out "ses_pending s"] by blast
    then show ?thesis
      using jn by (intro that [of "[cancel_ack_for now c]"])
        (auto simp: drained_ack_context_def cancel_ack_for_def events_about_def lease_of_def
          job_pair_of_def split: option.splits)
  qed
  obtain acks where acks: "ses_pending (join_all join (j # js) s) = (ses_pending s @ new) @ acks"
      "length (lease_events l (map JobCanceledAck acks)) \<le> length (filter (?P l) js)" for l
    using Cons.IH [of "note_events [Joined (ifj_handle j) out] (s\<lparr>ses_pending := ?q\<rparr>)"] jn q by auto
  have "length (lease_events l (map JobCanceledAck (new @ acks))) \<le> length (filter (?P l) (j # js))" for l
    using new [of l] acks(2) [of l] by (auto split: if_splits)
  then show ?case using acks(1) by (intro exI [of _ "new @ acks"]) simp
qed simp

lemma take_self_length: "take (length xs) ys = xs \<Longrightarrow> length xs \<le> length ys"
  by (cases "length xs \<le> length ys") auto

lemma filter_at_most_one:
  "distinct (map f xs) \<Longrightarrow> (\<And>x. x \<in> set xs \<Longrightarrow> P x \<Longrightarrow> f x = c) \<Longrightarrow> length (filter P xs) \<le> 1"
proof (induction xs)
  case (Cons x xs)
  show ?case
  proof (cases "P x")
    case True
    then have "f x = c" using Cons.prems(2) [of x] by simp
    then have "\<not> P y" if "y \<in> set xs" for y
      using that Cons.prems(2) [of y] Cons.prems(1) by (auto simp: image_iff)
    then have "filter P xs = []" by (simp add: filter_empty_conv)
    then show ?thesis by simp
  next
    case False
    then show ?thesis using Cons by simp
  qed
qed simp

text \<open>An acknowledgement the drain queues is legal: its task had not been acknowledged, nor completed.\<close>

lemma drained_ack_legal:
  assumes inv: "lease_inv hist jobs old s" and ack: "ack_inv old s" and own: "owns s"
    and jn: "\<And>k a. Spawned k a \<in> set (ses_trace s) \<Longrightarrow> fst (tu_join t k) \<in> {None, fst (jobs k a)}"
    and acks: "length (lease_events l (map JobCanceledAck acks))
      \<le> length (filter (\<lambda>j. lease_of (job_pair_of j) = l \<and> ifj_cancel_received_at j \<noteq> None
           \<and> fst (tu_join t (ifj_handle j)) = Some OutFailed) (owned_jobs s))"
    and some: "lease_events l (map JobCanceledAck acks) \<noteq> []"
  shows "lease_events l (map JobCanceledAck acks) = [EvCanceled]" and "lease_events l hist = []"
    and "lease_state_of l (dispatch_view old s) \<in> {Some LeaseRunning, Some LeaseFailed}"
proof -
  let ?P = "\<lambda>j. lease_of (job_pair_of j) = l \<and> ifj_cancel_received_at j \<noteq> None
      \<and> fst (tu_join t (ifj_handle j)) = Some OutFailed"
  have "filter ?P (owned_jobs s) \<noteq> []" using acks some by auto
  then obtain j where j: "j \<in> set (owned_jobs s)" "?P j" by (auto simp: filter_empty_conv)
  then have dr: "ifj_handle j \<in> draining_tasks s"
    using ack by (auto simp: owned_jobs_def in_flight_list_def ack_inv_def draining_tasks_def split: option.splits)
  obtain a where a: "Spawned (ifj_handle j) a \<in> set (ses_trace s)" "assign_pair a = job_pair_of j"
    using entry_spawned [OF owned_entry [OF ack j(1)]] by blast
  have "ifj_handle x = ifj_handle j" if "x \<in> set (owned_jobs s)" "?P x" for x
    using entry_spawned [OF owned_entry [OF ack that(1)]] that(2) j(2) a lease_invD(2) [OF inv]
    unfolding spawns_distinct_def by metis
  then have "length (filter ?P (owned_jobs s)) \<le> 1"
    by (rule filter_at_most_one [OF owned_distinct [OF own]])
  then show "lease_events l (map JobCanceledAck acks) = [EvCanceled]"
    using le_trans [OF acks] some acks_cancel [of l acks]
    by (cases "lease_events l (map JobCanceledAck acks)") fastforce+
  have "lease_of (assign_pair a) = l" using a(2) j(2) by simp
  then have "lease_spawned (ses_trace s) l" unfolding lease_spawned_def using a(1) by blast
  then show "lease_events l hist = []" using lease_invD(5) [OF inv, of l] by (simp add: lease_of_offer_def)
  have "fst (jobs (ifj_handle j) a) = Some OutFailed" using jn [OF a(1)] j(2) by auto
  then show "lease_state_of l (dispatch_view old s) \<in> {Some LeaseRunning, Some LeaseFailed}"
    using lease_invD(4) [OF inv a(1)] dr j(2) a(2) by (auto simp: lease_of_task_def Let_def split: if_splits)
qed

lemma lease_exit_leave:
  assumes inv: "lease_inv hist jobs old s" and ack: "ack_inv old s" and own: "owns s"
    and jn: "\<And>k a. Spawned k a \<in> set (ses_trace s) \<Longrightarrow> fst (tu_join t k) \<in> {None, fst (jobs k a)}"
  shows "lease_exit hist old (fst (leave t d s))"
proof -
  let ?P = "\<lambda>l j. lease_of (job_pair_of j) = l \<and> ifj_cancel_received_at j \<noteq> None
      \<and> fst (tu_join t (ifj_handle j)) = Some OutFailed"
  obtain acks where acks: "ses_pending (fst (leave t d s)) = ses_pending s @ acks"
      "\<And>l. length (lease_events l (map JobCanceledAck acks)) \<le> length (filter (?P l) (owned_jobs s))"
    using join_all_acks [of "tu_join t" "owned_jobs s"
        "note_events (cancel_events (status_update (set_connection Disconnected) s))
          ((status_update (set_connection Disconnected) s)\<lparr>ses_in_flight := None, ses_draining := []\<rparr>)"]
    by (auto simp: leave_def drain_unfold)
  have len: "length old \<le> length (ses_pending s)"
    using lease_invD(1) [OF inv] by (rule take_self_length)
  have sil: "list_all silent (cancel_events s @ joins (tu_join t) (owned_jobs s))"
    by (auto simp: cancel_events_def joins_def list_all_iff split: option.splits)
  have view: "lease_state_of l (dispatch_view old (fst (leave t d s)))
      = Option.bind (lease_state_of l (dispatch_view old s)) (\<lambda>st. lease_run st (lease_events l (map JobCanceledAck acks)))" for l
    using silent_folds(2) [OF sil, of l "ses_trace s"] len
    by (simp add: dispatch_view_def acks lease_state_of_def lease_run_append)
  have events: "lease_events l (dispatch_view old (fst (leave t d s)))
      = lease_events l (dispatch_view old s) @ lease_events l (map JobCanceledAck acks)" for l
    using silent_folds(2) [OF sil, of l "ses_trace s"] len by (simp add: dispatch_view_def acks)
  have "lease_state_of l (dispatch_view old (fst (leave t d s))) \<noteq> None
      \<and> (lease_events l hist \<noteq> [] \<longrightarrow> lease_events l (dispatch_view old (fst (leave t d s))) = [])" for l
  proof (cases "lease_events l (map JobCanceledAck acks)")
    case Nil
    moreover have "lease_state_of l (dispatch_view old s) \<noteq> None
        \<and> (lease_events l hist \<noteq> [] \<longrightarrow> lease_events l (dispatch_view old s) = [])"
      using lease_inv_legal [OF inv] unfolding lease_exit_def by blast
    ultimately show ?thesis using view [of l] events [of l] by auto
  next
    case Cons
    then have "lease_events l (map JobCanceledAck acks) \<noteq> []" by simp
    from drained_ack_legal [OF inv ack own jn acks(2) this] show ?thesis using view [of l] by auto
  qed
  moreover have "take (length old) (ses_pending (fst (leave t d s))) = old"
    using lease_invD(1) [OF inv] len acks(1) by simp
  ultimately show ?thesis unfolding lease_exit_def by blast
qed

section \<open>A task's message is read\<close>

lemma spawned_unique:
  "spawns_distinct tr \<Longrightarrow> Spawned k a \<in> set tr \<Longrightarrow> Spawned k' a' \<in> set tr
     \<Longrightarrow> k = k' \<or> lease_of (assign_pair a) = lease_of (assign_pair a') \<Longrightarrow> k = k' \<and> a = a'"
  unfolding spawns_distinct_def by blast

lemma message_source:
  assumes "lease_inv hist jobs old s" and "ses_queue s = (Some k, m) # q"
  shows "\<exists>a. Spawned k a \<in> set (ses_trace s) \<and> (\<forall>x\<in>set (consumed k (ses_trace s)). terminal_of x = None)
     \<and> (progress_frame a m \<or> terminal_of m = Some (assign_pair a) \<and> fst (jobs k a) = Some (terminal_outcome m))"
proof -
  have tm: "task_messages k s = consumed k (ses_trace s) @ m # concat (map (queued_by k) q)"
    by (simp add: task_messages_def assms(2))
  then have "task_messages k s \<noteq> []" by simp
  then obtain a where "Spawned k a \<in> set (ses_trace s)"
      "job_stream a (fst (jobs k a)) (consumed k (ses_trace s) @ m # concat (map (queued_by k) q))"
    using lease_invD(3) [OF assms(1)] tm unfolding streams_ok_def by metis
  then show ?thesis using job_stream_cases by blast
qed

fun plain_event :: "event \<Rightarrow> bool" where
  "plain_event (Consumed src m) = False" | "plain_event (Spawned k a) = False" | "plain_event e = True"

lemma plain_folds:
  "list_all plain_event es \<Longrightarrow> consumed k es = []"
  "list_all plain_event es \<Longrightarrow> Spawned k a \<notin> set es"
proof -
  have "consumed_by k e = []" "e \<noteq> Spawned k a" if "plain_event e" for e
    using that by (cases e; auto)+
  then show "list_all plain_event es \<Longrightarrow> consumed k es = []"
    "list_all plain_event es \<Longrightarrow> Spawned k a \<notin> set es"
    by (induction es) auto
qed

text \<open>
  The head of the queue is read and the session sends some frames, or queues acknowledgements, all
  about the lease of that task: only its own state needs another look.
\<close>

lemma lease_inv_consume:
  assumes inv: "lease_inv hist jobs old s" and q: "ses_queue s = (Some k, m) # q"
    and sp: "Spawned k a \<in> set (ses_trace s)"
    and tr: "ses_trace s' = ses_trace s @ Consumed (Some k) m # es" and pl: "list_all plain_event es"
    and q': "ses_queue s' = q" and pend: "ses_pending s' = ses_pending s @ acks"
    and other: "\<And>l. l \<noteq> lease_of (assign_pair a) \<Longrightarrow> lease_events l (sent_messages es @ map JobCanceledAck acks) = []"
    and fl: "ses_in_flight s' = ses_in_flight s \<or> ses_in_flight s' = None"
    and cn: "ses_canceled s' = ses_canceled s \<or> ses_canceled s' = None"
    and dr: "set (ses_draining s') \<subseteq> set (ses_draining s)"
    and mine: "lease_of_task old s' k a (fst (jobs k a))"
  shows "lease_inv hist jobs old s'"
proof -
  have len: "length old \<le> length (ses_pending s)" by (rule take_self_length [OF lease_invD(1) [OF inv]])
  have spawn: "Spawned k' a' \<in> set (ses_trace s') \<longleftrightarrow> Spawned k' a' \<in> set (ses_trace s)" for k' a'
    using plain_folds(2) [OF pl] by (auto simp: tr)
  have own: "Spawned k a' \<in> set (ses_trace s) \<Longrightarrow> a' = a" for a'
    using spawned_unique [OF lease_invD(2) [OF inv] sp] by blast
  have cons: "consumed k' (ses_trace s') = consumed k' (ses_trace s) @ (if k' = k then [m] else [])" for k'
    using plain_folds(1) [OF pl] by (simp add: tr)
  have tm: "task_messages k' s' = task_messages k' s" for k'
    by (simp add: task_messages_def cons q q')
  have view: "lease_state_of l (dispatch_view old s') = lease_state_of l (dispatch_view old s)"
    if "l \<noteq> lease_of (assign_pair a)" for l
    using other [OF that] len by (simp add: dispatch_view_def tr pend lease_state_of_def)
  have d: "draining_tasks s' \<subseteq> draining_tasks s" using dr by (auto simp: draining_tasks_def)
  have f: "in_flight_task s' = in_flight_task s \<or> in_flight_task s' = None"
      "canceled_slot s' = canceled_slot s \<or> canceled_slot s' = None"
    using fl cn by (auto simp: in_flight_task_def canceled_slot_def)
  show ?thesis
  proof (rule lease_inv_frame [OF inv spawn])
    show "take (length old) (ses_pending s') = old" using lease_invD(1) [OF inv] len by (simp add: pend)
    show "lease_of_task old s' k' a' (fst (jobs k' a'))"
      if "Spawned k' a' \<in> set (ses_trace s)" "lease_of_task old s k' a' (fst (jobs k' a'))" for k' a'
    proof (cases "k' = k")
      case True
      then show ?thesis using mine own that(1) by auto
    next
      case False
      then have "lease_of (assign_pair a') \<noteq> lease_of (assign_pair a)"
        using spawned_unique [OF lease_invD(2) [OF inv] sp, of k' a'] that by metis
      then show ?thesis
        using that(2) False f d
        by (auto simp: lease_of_task_def Let_def view task_ended_def cons split: if_splits)
    qed
    show "lease_of_offer hist old s' l" if "lease_of_offer hist old s l" for l
    proof -
      have "refusals l s' = refusals l s" by (simp add: refusals_def q q')
      moreover have "l = lease_of (assign_pair a) \<Longrightarrow> lease_spawned (ses_trace s) l"
        using sp by (auto simp: lease_spawned_def)
      ultimately show ?thesis
        using that view [of l] spawn_congs(2) [OF spawn] unfolding lease_of_offer_def by metis
    qed
    show "\<exists>r. n = JobRejected r" if "x \<in> set (ses_queue s')" "n \<in> set (refused_by x)" for x n
      using lease_invD(6) [OF inv, of x n] that by (simp add: q q')
  qed (rule tm)
qed

lemma lease_view_running:
  assumes inv: "lease_inv hist jobs old s" and sp: "Spawned k a \<in> set (ses_trace s)" and ne: "\<not> task_ended k s"
    and tr: "ses_trace s' = ses_trace s @ es" and pend: "ses_pending s' = ses_pending s @ acks"
  shows "lease_state_of (lease_of (assign_pair a)) (dispatch_view old s')
     = lease_run LeaseRunning (lease_events (lease_of (assign_pair a)) (sent_messages es @ map JobCanceledAck acks))"
proof -
  have len: "length old \<le> length (ses_pending s)" by (rule take_self_length [OF lease_invD(1) [OF inv]])
  have "lease_state_of (lease_of (assign_pair a)) (dispatch_view old s) = Some LeaseRunning"
    using lease_invD(4) [OF inv sp] ne by (simp add: lease_of_task_def Let_def)
  then have "lease_state_of (lease_of (assign_pair a))
      ((sent_messages (ses_trace s) @ sent_messages es)
         @ map JobCanceledAck (drop (length old) (ses_pending s) @ acks))
    = lease_run LeaseRunning (lease_events (lease_of (assign_pair a)) (sent_messages es @ map JobCanceledAck acks))"
    unfolding dispatch_view_def by (rule lease_state_between) simp
  then show ?thesis using len by (simp add: dispatch_view_def tr pend)
qed

end
