(* ===== verification/Lease_Refine.thy ===== *)
theory Lease_Refine
  imports Lease_Session
begin

text \<open>
  The arms of the session keep the simulation relation of \<open>Lease_Session\<close>, the tasks as an interface
  with \<open>run_job\<close> as its provider, and the refinement itself.
\<close>

section \<open>Results of an arm\<close>

definition joins_ok :: "(task \<Rightarrow> job_assign_message \<Rightarrow> job_outcome option \<times> job_event list)
    \<Rightarrow> turn \<Rightarrow> session \<Rightarrow> bool" where
  "joins_ok jobs t s \<longleftrightarrow>
     (\<forall>k a. Spawned k a \<in> set (ses_trace s) \<longrightarrow> fst (tu_join t k) \<in> {None, fst (jobs k a)})"

definition lease_result :: "worker_message list \<Rightarrow> (task \<Rightarrow> job_assign_message \<Rightarrow> job_outcome option \<times> job_event list)
    \<Rightarrow> job_canceled_ack_message list \<Rightarrow> outcome \<Rightarrow> bool" where
  "lease_result hist jobs old r \<longleftrightarrow> (if snd r = None then lease_inv hist jobs old (fst r) else lease_exit hist old (fst r))"

lemma lease_result_simps [simp]:
  "lease_result hist jobs old (s, None) \<longleftrightarrow> lease_inv hist jobs old s"
  by (simp add: lease_result_def)

text \<open>What every arm may assume of the state it works on, and keeps until it leaves.\<close>

definition lease_ready :: "worker_message list \<Rightarrow> (task \<Rightarrow> job_assign_message \<Rightarrow> job_outcome option \<times> job_event list)
    \<Rightarrow> job_canceled_ack_message list \<Rightarrow> turn \<Rightarrow> session \<Rightarrow> bool" where
  "lease_ready hist jobs old t s \<longleftrightarrow> lease_inv hist jobs old s \<and> ack_inv old s \<and> owns s \<and> joins_ok jobs t s"

lemma lease_result_leave: "lease_ready hist jobs old t s \<Longrightarrow> lease_result hist jobs old (leave t d s)"
  using lease_exit_leave [of hist jobs old s t d] by (simp add: lease_result_def lease_ready_def joins_ok_def)

lemma joins_ok_status [simp]:
  "joins_ok jobs t (status_update f s) = joins_ok jobs t s"
  "joins_ok jobs t (surface_purges fs s) = joins_ok jobs t s"
  by (simp_all add: joins_ok_def)

lemma lease_ready_quiet [simp]:
  "lease_ready hist jobs old t (status_update f s) = lease_ready hist jobs old t s"
  "lease_ready hist jobs old t (surface_purges fs s) = lease_ready hist jobs old t s"
  "lease_ready hist jobs old t (s\<lparr>ses_gate := g\<rparr>) = lease_ready hist jobs old t s"
  "lease_ready hist jobs old t (s\<lparr>ses_heartbeats := h\<rparr>) = lease_ready hist jobs old t s"
  by (simp_all add: lease_ready_def joins_ok_def)

lemma lease_ready_note:
  assumes "lease_ready hist jobs old t s" and "list_all silent es"
    and "spawned es = {#}" and "joined es = {#}" and "released es = {#}"
  shows "lease_ready hist jobs old t (note_events es s)"
proof -
  have "Sent (JobCanceledAck a) \<notin> set es" for a using assms(2) by (auto simp: list_all_iff)
  moreover have "Spawned k a \<notin> set es" for k a using assms(2) by (auto simp: list_all_iff)
  ultimately show ?thesis
    using assms by (auto simp: lease_ready_def lease_inv_note ack_inv_note joins_ok_def)
qed

section \<open>The worker arm\<close>

lemma acknowledge_parts:
  assumes "ses_just_canceled s = Some c"
  obtains es acks where
    "ses_in_flight (acknowledge_cancel t s) = ses_in_flight s"
    "ses_canceled (acknowledge_cancel t s) = ses_canceled s"
    "ses_queue (acknowledge_cancel t s) = ses_queue s"
    "ses_trace (acknowledge_cancel t s) = ses_trace s @ es" "list_all plain_event es"
    "ses_pending (acknowledge_cancel t s) = ses_pending s @ acks"
    "ses_draining (acknowledge_cancel t s)
       = (case find_index (\<lambda>j. job_pair_of j = canceled_pair c) (ses_draining s) of
            None \<Rightarrow> ses_draining s | Some i \<Rightarrow> remove_at i (ses_draining s))"
    "sent_messages es @ map JobCanceledAck acks = []
     \<or> (\<exists>b. sent_messages es @ map JobCanceledAck acks = [JobCanceledAck b]
          \<and> (ack_job_id b, ack_attempt b) = lease_of (canceled_pair c))"
proof -
  let ?fi = "find_index (\<lambda>j. job_pair_of j = canceled_pair c) (ses_draining s)"
  let ?j = "case ?fi of None \<Rightarrow> [] | Some i \<Rightarrow> [Joined (ifj_handle (ses_draining s ! i))
      (fst (tu_join t (ifj_handle (ses_draining s ! i))))]"
  have c: "(ack_job_id (cancel_ack_for now c), ack_attempt (cancel_ack_for now c)) = lease_of (canceled_pair c)" for now
    by (simp add: cancel_ack_for_def lease_of_def canceled_pair_def)
  show ?thesis
  proof (cases "tu_send_ok t")
    case True
    show ?thesis
      by (rule that [of "?j @ [Sent (JobCanceledAck (cancel_ack_for (tu_now t) c))]" "[]"])
        (use assms True c in \<open>auto simp: acknowledge_cancel_def Let_def split: option.split\<close>)
  next
    case False
    let ?acks = "if MAX_PENDING_CANCEL_ACKS \<le> length (ses_pending s) then [] else [cancel_ack_for (tu_later t) c]"
    show ?thesis
      by (rule that [of ?j ?acks])
        (use assms False c in \<open>auto simp: acknowledge_cancel_def Let_def queue_pending_cancel_ack_def split: option.split\<close>)
  qed
qed

lemma remove_at_distinct:
  "distinct (map f xs) \<Longrightarrow> i < length xs \<Longrightarrow> f (xs ! i) \<notin> f ` set (remove_at i xs)"
  using id_take_nth_drop [of i xs] by (auto simp: remove_at_def dest: arg_cong [where f = "map f"])

lemma entry_of_task:
  assumes "spawns_distinct tr" and "Spawned k a \<in> set tr" and "entry_ok tr j"
  shows "ifj_handle j = k \<longleftrightarrow> job_pair_of j = assign_pair a"
proof -
  obtain a' where a': "Spawned (ifj_handle j) a' \<in> set tr" "assign_pair a' = job_pair_of j"
    using entry_spawned [OF assms(3)] by blast
  show ?thesis using spawned_unique [OF assms(1) a'(1) assms(2)] a'(2) by auto
qed

text \<open>A refusal the loop queued goes out, or is lost with the socket.\<close>

lemma lease_inv_refusal:
  assumes inv: "lease_inv hist jobs old s" and q: "ses_queue s = (None, JobRejected r) # q"
    and tr: "ses_trace s' = ses_trace s @ Consumed None (JobRejected r) # es"
    and es: "es = [] \<or> es = [Sent (JobRejected r)]"
    and same: "ses_queue s' = q" "ses_pending s' = ses_pending s" "ses_in_flight s' = ses_in_flight s"
      "ses_canceled s' = ses_canceled s" "ses_draining s' = ses_draining s"
  shows "lease_inv hist jobs old s'"
proof -
  let ?r = "lease_of (rej_job_id r, rej_attempt r)"
  have spawn: "Spawned k' a' \<in> set (ses_trace s') \<longleftrightarrow> Spawned k' a' \<in> set (ses_trace s)" for k' a'
    using es by (auto simp: tr)
  have cons: "consumed k' (ses_trace s') = consumed k' (ses_trace s)" for k'
    using es by (auto simp: tr)
  have lsp: "lease_spawned (ses_trace s') l = lease_spawned (ses_trace s) l" for l
    by (rule spawn_congs(2) [OF spawn])
  have ref: "refusals l s = (if l = ?r then [EvRefused] else []) @ refusals l s'" for l
    by (auto simp: refusals_def q same events_about_def)
  have notsp: "\<not> lease_spawned (ses_trace s) ?r" and "refusals ?r s' = []"
    and un: "lease_state_of ?r (dispatch_view old s) = Some LeaseUnseen" and hs: "lease_events ?r hist = []"
    using lease_invD(5) [OF inv, of ?r] ref [of ?r] by (auto simp: lease_of_offer_def split: if_splits)
  have seen: "lease_state_of ?r (dispatch_view old s') \<in> {Some LeaseUnseen, Some LeaseRefused}"
  proof -
    have "lease_state_of ?r ((sent_messages (ses_trace s) @ sent_messages es)
        @ map JobCanceledAck (drop (length old) (ses_pending s) @ []))
      = lease_run LeaseUnseen (lease_events ?r (sent_messages es @ map JobCanceledAck []))"
      using un unfolding dispatch_view_def by (rule lease_state_between) simp
    then show ?thesis using es by (auto simp: dispatch_view_def tr same events_about_def)
  qed
  have view: "lease_state_of l (dispatch_view old s') = lease_state_of l (dispatch_view old s)" if "l \<noteq> ?r" for l
    using es that by (auto simp: dispatch_view_def tr same lease_state_of_def events_about_def)
  show ?thesis
  proof (rule lease_inv_frame [OF inv spawn])
    show "lease_of_task old s' k a (fst (jobs k a))"
      if "Spawned k a \<in> set (ses_trace s)" and ok: "lease_of_task old s k a (fst (jobs k a))" for k a
    proof -
      have "lease_of (assign_pair a) \<noteq> ?r" using notsp that(1) by (auto simp: lease_spawned_def)
      then have "lease_of_task old s' k a (fst (jobs k a)) = lease_of_task old s k a (fst (jobs k a))"
        by (intro lease_of_task_cong view)
           (simp_all add: task_ended_def cons in_flight_task_def canceled_slot_def draining_tasks_def same)
      then show ?thesis using ok by simp
    qed
    show "lease_of_offer hist old s' l" if ok: "lease_of_offer hist old s l" for l
    proof (cases "l = ?r")
      case True
      then show ?thesis
        using notsp \<open>refusals ?r s' = []\<close> seen hs lsp [of l] unfolding lease_of_offer_def by simp
    next
      case False
      then have "lease_of_offer hist old s' l = lease_of_offer hist old s l"
        by (intro lease_of_offer_cong view lsp) (simp_all add: ref [of l])
      then show ?thesis using ok by simp
    qed
    show "\<exists>r. n = JobRejected r" if "x \<in> set (ses_queue s')" "n \<in> set (refused_by x)" for x n
      using lease_invD(6) [OF inv, of x n] that by (simp add: q same)
  qed (use lease_invD(1) [OF inv] in \<open>simp_all add: same task_messages_def cons q\<close>)
qed

text \<open>The terminal frame of task \<open>k\<close>: what settling it and handing the cancel over leave.\<close>

lemma settle_parts:
  obtains es where
    "ses_trace (hand_over_cancel p (settle_in_flight p s)) = ses_trace s @ es"
    "list_all plain_event es" "sent_messages es = []"
    "ses_in_flight (hand_over_cancel p (settle_in_flight p s))
       = (if map_option job_pair_of (ses_in_flight s) = Some p then None else ses_in_flight s)"
    "ses_canceled (hand_over_cancel p (settle_in_flight p s))
       = (if canceled_slot s = Some p then None else ses_canceled s)"
    "ses_just_canceled (hand_over_cancel p (settle_in_flight p s))
       = (if canceled_slot s = Some p then ses_canceled s else ses_just_canceled s)"
    "ses_draining (hand_over_cancel p (settle_in_flight p s)) = ses_draining s"
    "ses_queue (hand_over_cancel p (settle_in_flight p s)) = ses_queue s"
    "ses_pending (hand_over_cancel p (settle_in_flight p s)) = ses_pending s"
proof (rule that [of "case ses_in_flight s of None \<Rightarrow> [] | Some j \<Rightarrow>
     if job_pair_of j = p then [SweptCache (ifj_cache_keys j), Released (ifj_handle j)] else []"])
qed (cases p; auto simp: hand_over_cancel_def settle_in_flight_def canceled_slot_def split: option.split)+

lemma ready_worker_state:
  assumes "lease_ready hist jobs old t s" and "ses_queue s = (src, m) # q" and "not_ack m"
    and "lease_inv hist jobs old (status_update f (case terminal_of m of
           None \<Rightarrow> note_events [Consumed src m] (s\<lparr>ses_queue := q\<rparr>)
         | Some p \<Rightarrow> hand_over_cancel p (settle_in_flight p (note_events [Consumed src m] (s\<lparr>ses_queue := q\<rparr>)))))"
  shows "lease_ready hist jobs old t (status_update f (case terminal_of m of
           None \<Rightarrow> note_events [Consumed src m] (s\<lparr>ses_queue := q\<rparr>)
         | Some p \<Rightarrow> hand_over_cancel p (settle_in_flight p (note_events [Consumed src m] (s\<lparr>ses_queue := q\<rparr>)))))"
proof -
  let ?s = "note_events [Consumed src m] (s\<lparr>ses_queue := q\<rparr>)"
  have "ack_inv old (s\<lparr>ses_queue := q\<rparr>)"
    using assms(1,2) by (auto simp: lease_ready_def ack_inv_def)
  then have a: "ack_inv old ?s" by (rule ack_inv_note) simp
  have o: "owns ?s" using assms(1) by (simp add: lease_ready_def)
  have j: "joins_ok jobs t ?s" using assms(1) by (auto simp: lease_ready_def joins_ok_def)
  have "joins_ok jobs t (hand_over_cancel p (settle_in_flight p ?s))" for p
  proof -
    obtain es where "ses_trace (hand_over_cancel p (settle_in_flight p ?s)) = ses_trace ?s @ es"
        "list_all plain_event es" by (rule settle_parts)
    then show ?thesis using j plain_folds(2) [of es] by (auto simp: joins_ok_def)
  qed
  then show ?thesis using assms(4) a o j
    by (auto simp: lease_ready_def ack_inv_hand_over ack_inv_settle owns_hand_over owns_settle
        split: option.splits)
qed

lemma lease_inv_terminal:
  assumes inv: "lease_inv hist jobs old s" and ack: "ack_inv old s" and q: "ses_queue s = (Some k, m) # q"
    and sp: "Spawned k a \<in> set (ses_trace s)" and first: "\<forall>x\<in>set (consumed k (ses_trace s)). terminal_of x = None"
    and tm: "terminal_of m = Some (assign_pair a)" and out: "fst (jobs k a) = Some (terminal_outcome m)"
    and tr: "ses_trace s' = ses_trace s @ Consumed (Some k) m # es" and pl: "list_all plain_event es"
    and q': "ses_queue s' = q" and pend: "ses_pending s' = ses_pending s @ acks"
    and fl: "ses_in_flight s' = (if map_option job_pair_of (ses_in_flight s) = Some (assign_pair a) then None
         else ses_in_flight s)"
    and cn: "ses_canceled s' = (if canceled_slot s = Some (assign_pair a) then None else ses_canceled s)"
    and dr: "set (ses_draining s') \<subseteq> set (ses_draining s)"
    and seen: "sent_messages es @ map JobCanceledAck acks = []
         \<or> sent_messages es @ map JobCanceledAck acks = [m]
         \<or> terminal_outcome m = OutFailed \<and> k \<notin> draining_tasks s'
           \<and> (\<exists>b. sent_messages es @ map JobCanceledAck acks = [JobCanceledAck b]
                \<and> (ack_job_id b, ack_attempt b) = lease_of (assign_pair a))"
  shows "lease_inv hist jobs old s'"
proof (rule lease_inv_consume [OF inv q sp tr pl q' pend])
  let ?l = "lease_of (assign_pair a)"
  note ev = terminal_event [OF tm]
  show "lease_events l (sent_messages es @ map JobCanceledAck acks) = []" if "l \<noteq> ?l" for l
    using seen that ev by (auto simp: events_about_def simp del: lease_events_simps(3))
  show "ses_in_flight s' = ses_in_flight s \<or> ses_in_flight s' = None"
    "ses_canceled s' = ses_canceled s \<or> ses_canceled s' = None" by (simp_all add: fl cn)
  show "set (ses_draining s') \<subseteq> set (ses_draining s)" by (rule dr)
  have ne: "\<not> task_ended k s" using first by (simp add: task_ended_def)
  have "lease_state_of ?l (dispatch_view old s')
      = lease_run LeaseRunning (lease_events ?l (sent_messages (Consumed (Some k) m # es) @ map JobCanceledAck acks))"
    by (rule lease_view_running [OF inv sp ne]) (simp_all add: tr pend)
  then have st: "lease_state_of ?l (dispatch_view old s')
      = lease_run LeaseRunning (lease_events ?l (sent_messages es @ map JobCanceledAck acks))" by simp
  have entry: "ifj_handle j = k \<longleftrightarrow> job_pair_of j = assign_pair a" if "ses_in_flight s = Some j" for j
    using ack that by (intro entry_of_task [OF lease_invD(2) [OF inv] sp]) (simp add: ack_inv_def)
  have "in_flight_task s' \<noteq> Some k"
    using entry by (cases "ses_in_flight s") (auto simp: in_flight_task_def fl)
  moreover have "canceled_slot s' \<noteq> Some (assign_pair a)"
    by (auto simp: canceled_slot_def cn split: if_splits)
  moreover have "task_ended k s'" using tm by (auto simp: task_ended_def tr)
  moreover have "lease_state_of ?l (dispatch_view old s') = Some LeaseRunning
      \<or> lease_state_of ?l (dispatch_view old s') = Some (case terminal_outcome m of OutComplete \<Rightarrow> LeaseCompleted | OutFailed \<Rightarrow> LeaseFailed)
      \<or> lease_state_of ?l (dispatch_view old s') = Some LeaseCanceled \<and> terminal_outcome m = OutFailed
         \<and> k \<notin> draining_tasks s'"
    unfolding st using seen ev
    by (auto simp: events_about_def split: job_outcome.splits simp del: lease_events_simps(3))
  ultimately show "lease_of_task old s' k a (fst (jobs k a))"
    using out by (auto simp: lease_of_task_def Let_def split: job_outcome.splits)
qed

text \<open>A message that ends nothing is forwarded.\<close>

lemma lease_worker_forward:
  assumes rdy: "lease_ready hist jobs old t s" and q: "ses_queue s = (src, m) # q" and none: "terminal_of m = None"
  shows "lease_result hist jobs old (worker_arm t src m (s\<lparr>ses_queue := q\<rparr>))"
proof -
  have inv: "lease_inv hist jobs old s" and ack: "ack_inv old s" using rdy by (simp_all add: lease_ready_def)
  have na: "not_ack m" using ack q by (auto simp: ack_inv_def)
  let ?s = "note_events [Consumed src m] (s\<lparr>ses_queue := q\<rparr>)"
  let ?s2 = "status_update (emit_status m) ?s"
  have arm: "worker_arm t src m (s\<lparr>ses_queue := q\<rparr>)
      = (if tu_send_ok t then (note_events [Sent m] ?s2, None) else leave t DAbnormal ?s2)"
    using none by (simp add: worker_arm_def suppressed_def Let_def)
  have "lease_inv hist jobs old ?s2 \<and> lease_inv hist jobs old (note_events [Sent m] ?s2)"
  proof (cases src)
    case None
    obtain r where "m = JobRejected r" using lease_invD(6) [OF inv, of "(src, m)" m] q None by auto
    then show ?thesis
      using lease_inv_refusal [OF inv, of r q ?s2 "[]"] q None
        lease_inv_refusal [OF inv, of r q "note_events [Sent m] ?s2" "[Sent m]"] by simp
  next
    case (Some k)
    obtain a where a: "Spawned k a \<in> set (ses_trace s)" "\<forall>x\<in>set (consumed k (ses_trace s)). terminal_of x = None"
        "progress_frame a m"
      using message_source [OF inv q [unfolded Some]] none by auto
    have ne: "\<not> task_ended k s" using a(2) by (simp add: task_ended_def)
    have *: "lease_inv hist jobs old s'"
      if s': "ses_trace s' = ses_trace s @ Consumed (Some k) m # es" "es \<in> {[], [Sent m]}" "ses_queue s' = q"
        "ses_pending s' = ses_pending s" "ses_in_flight s' = ses_in_flight s" "ses_canceled s' = ses_canceled s"
        "ses_draining s' = ses_draining s" for s' es
    proof (rule lease_inv_consume [OF inv q [unfolded Some] a(1) s'(1) _ s'(3), where acks = "[]"])
      have "lease_state_of (lease_of (assign_pair a)) (dispatch_view old s')
          = lease_run LeaseRunning (lease_events (lease_of (assign_pair a))
              (sent_messages (Consumed (Some k) m # es) @ map JobCanceledAck []))"
        by (rule lease_view_running [OF inv a(1) ne]) (simp_all add: s')
      moreover have "\<not> task_ended k s'" using a(2) none s'(1,2) by (auto simp: task_ended_def)
      ultimately show "lease_of_task old s' k a (fst (jobs k a))"
        using s'(2) progress_event [OF a(3)] by (auto simp: lease_of_task_def events_about_def)
    qed (use s' progress_event [OF a(3)] in \<open>auto simp: events_about_def\<close>)
    show ?thesis
      using * [of ?s2 "[]"] * [of "note_events [Sent m] ?s2" "[Sent m]"] Some by simp
  qed
  then show ?thesis
    using ready_worker_state [OF rdy q na, of "emit_status m"] none by (simp add: arm lease_result_leave)
qed

lemma acknowledged_gone:
  assumes rdy: "lease_ready hist jobs old t s" and sp: "Spawned k a \<in> set (ses_trace s)"
    and d: "ds = (case find_index (\<lambda>j. job_pair_of j = assign_pair a) (ses_draining s) of
              None \<Rightarrow> ses_draining s | Some i \<Rightarrow> remove_at i (ses_draining s))"
  shows "k \<notin> ifj_handle ` set ds \<and> set ds \<subseteq> set (ses_draining s)"
proof -
  have inv: "lease_inv hist jobs old s" and ack: "ack_inv old s" and own: "owns s"
    using rdy by (simp_all add: lease_ready_def)
  have entry: "ifj_handle j = k \<longleftrightarrow> job_pair_of j = assign_pair a" if "j \<in> set (ses_draining s)" for j
    using that draining_owned
    by (intro entry_of_task [OF lease_invD(2) [OF inv] sp] owned_entry [OF ack]) auto
  have dist: "distinct (map ifj_handle (ses_draining s))"
    using owned_distinct [OF own] by (simp add: owned_jobs_def)
  show ?thesis
  proof (cases "find_index (\<lambda>j. job_pair_of j = assign_pair a) (ses_draining s)")
    case None
    then have "ds = ses_draining s" using d by simp
    then show ?thesis using entry None by (auto simp: find_index_None)
  next
    case (Some i)
    then have i: "i < length (ses_draining s)" "ifj_handle (ses_draining s ! i) = k"
      using find_index_Some [OF Some] entry by auto
    then show ?thesis
      using Some d remove_at_distinct [OF dist i(1)] set_remove_at_subset [of i "ses_draining s"] by auto
  qed
qed

text \<open>A terminal frame is forwarded, or suppressed when its job was canceled.\<close>

text \<open>The failed frame of a canceled job becomes its acknowledgement, sent or queued.\<close>

lemma lease_terminal_acknowledged:
  assumes rdy: "lease_ready hist jobs old t s" and q: "ses_queue s = (Some k, m) # q"
    and a: "Spawned k a \<in> set (ses_trace s)" "\<forall>x\<in>set (consumed k (ses_trace s)). terminal_of x = None"
      "terminal_of m = Some (assign_pair a)" "fst (jobs k a) = Some (terminal_outcome m)"
    and f: "terminal_outcome m = OutFailed"
    and jc: "ses_just_canceled s2 = Some c" and c: "canceled_pair c = assign_pair a"
    and es: "ses_trace s2 = ses_trace s @ Consumed (Some k) m # es" "list_all plain_event es" "sent_messages es = []"
    and fl: "ses_in_flight s2 = (if map_option job_pair_of (ses_in_flight s) = Some (assign_pair a) then None
         else ses_in_flight s)"
    and cn: "ses_canceled s2 = (if canceled_slot s = Some (assign_pair a) then None else ses_canceled s)"
    and same: "ses_draining s2 = ses_draining s" "ses_queue s2 = q" "ses_pending s2 = ses_pending s"
  shows "lease_inv hist jobs old (acknowledge_cancel t s2)"
proof -
  let ?s = "acknowledge_cancel t s2"
  have inv: "lease_inv hist jobs old s" and ack: "ack_inv old s" using rdy by (simp_all add: lease_ready_def)
  obtain fs acks where ak: "ses_in_flight ?s = ses_in_flight s2" "ses_canceled ?s = ses_canceled s2"
      "ses_queue ?s = ses_queue s2" "ses_trace ?s = ses_trace s2 @ fs" "list_all plain_event fs"
      "ses_pending ?s = ses_pending s2 @ acks"
      "ses_draining ?s = (case find_index (\<lambda>j. job_pair_of j = canceled_pair c) (ses_draining s2) of
            None \<Rightarrow> ses_draining s2 | Some i \<Rightarrow> remove_at i (ses_draining s2))"
      "sent_messages fs @ map JobCanceledAck acks = []
       \<or> (\<exists>b. sent_messages fs @ map JobCanceledAck acks = [JobCanceledAck b]
            \<and> (ack_job_id b, ack_attempt b) = lease_of (canceled_pair c))"
    by (rule acknowledge_parts [OF jc])
  have gone: "k \<notin> draining_tasks ?s" "set (ses_draining ?s) \<subseteq> set (ses_draining s)"
    using acknowledged_gone [OF rdy a(1) ak(7) [unfolded c same(1)]] by (simp_all add: draining_tasks_def)
  show ?thesis
    by (rule lease_inv_terminal [OF inv ack q a, where es = "es @ fs" and acks = acks])
      (use ak es fl cn same c gone f in auto)
qed

lemma lease_worker_terminal:
  assumes rdy: "lease_ready hist jobs old t s" and q: "ses_queue s = (Some k, m) # q"
    and a: "Spawned k a \<in> set (ses_trace s)" "\<forall>x\<in>set (consumed k (ses_trace s)). terminal_of x = None"
      "terminal_of m = Some (assign_pair a)" "fst (jobs k a) = Some (terminal_outcome m)"
  shows "lease_result hist jobs old (worker_arm t (Some k) m (s\<lparr>ses_queue := q\<rparr>))"
proof -
  have inv: "lease_inv hist jobs old s" and ack: "ack_inv old s" using rdy by (simp_all add: lease_ready_def)
  have na: "not_ack m" using ack q by (auto simp: ack_inv_def)
  let ?p = "assign_pair a" and ?s = "note_events [Consumed (Some k) m] (s\<lparr>ses_queue := q\<rparr>)"
  define s1 where "s1 = hand_over_cancel ?p (settle_in_flight ?p ?s)"
  obtain es where s1: "ses_trace s1 = ses_trace ?s @ es" "list_all plain_event es" "sent_messages es = []"
      "ses_in_flight s1 = (if map_option job_pair_of (ses_in_flight ?s) = Some ?p then None else ses_in_flight ?s)"
      "ses_canceled s1 = (if canceled_slot ?s = Some ?p then None else ses_canceled ?s)"
      "ses_just_canceled s1 = (if canceled_slot ?s = Some ?p then ses_canceled ?s else ses_just_canceled ?s)"
      "ses_draining s1 = ses_draining ?s" "ses_queue s1 = ses_queue ?s" "ses_pending s1 = ses_pending ?s"
    unfolding s1_def by (rule settle_parts)
  note base = lease_inv_terminal [OF inv ack q a]
  have slot: "canceled_slot ?s = canceled_slot s" by (simp add: canceled_slot_def)
  have sup: "suppressed m ?s \<longleftrightarrow> canceled_slot s = Some ?p"
    using a(3) by (cases ?p) (simp add: suppressed_def canceled_slot_def)
  have plain: "lease_inv hist jobs old (status_update f s1)" for f
    by (rule base [where es = es and acks = "[]"]) (use s1 slot in auto)
  have fwd: "lease_inv hist jobs old (note_events [Sent m] (status_update f s1))" for f
    by (rule base [where es = "es @ [Sent m]" and acks = "[]"]) (use s1 slot in auto)
  have rdy1: "lease_ready hist jobs old t (status_update (emit_status m) s1)"
    using ready_worker_state [OF rdy q na, of "emit_status m"] a(3) plain by (simp add: s1_def)
  show ?thesis
  proof (cases "canceled_slot s = Some ?p")
    case False
    then show ?thesis
      using sup a(3) fwd lease_result_leave [OF rdy1] by (simp add: worker_arm_def Let_def s1_def)
  next
    case True
    then obtain c where c: "ses_canceled s = Some c" "canceled_pair c = ?p" by (auto simp: canceled_slot_def)
    define s2 where "s2 = status_update (suppress_status (ses_in_flight s1 = None) (fst ?p)) s1"
    have jc: "ses_just_canceled s2 = Some c" using s1(6) slot True c(1) by (simp add: s2_def)
    have "lease_inv hist jobs old (acknowledge_cancel t s2)" if "terminal_outcome m = OutFailed"
      by (rule lease_terminal_acknowledged [OF rdy q a that jc c(2), where es = es])
        (use s1 slot True in \<open>auto simp: s2_def\<close>)
    then show ?thesis
      using sup True a(3) plain by (simp add: worker_arm_def Let_def cancel_ack_predicate_def s1_def s2_def)
  qed
qed

lemma lease_worker:
  assumes rdy: "lease_ready hist jobs old t s" and q: "ses_queue s = (src, m) # q"
  shows "lease_result hist jobs old (worker_arm t src m (s\<lparr>ses_queue := q\<rparr>))"
proof (cases "terminal_of m")
  case None
  then show ?thesis by (rule lease_worker_forward [OF rdy q])
next
  case (Some p)
  have inv: "lease_inv hist jobs old s" using rdy by (simp add: lease_ready_def)
  show ?thesis
  proof (cases src)
    case None
    then obtain r where "m = JobRejected r" using lease_invD(6) [OF inv, of "(src, m)" m] q by auto
    then show ?thesis using Some by simp
  next
    case (Some k)
    obtain a where a: "Spawned k a \<in> set (ses_trace s)" "\<forall>x\<in>set (consumed k (ses_trace s)). terminal_of x = None"
        "progress_frame a m \<or> terminal_of m = Some (assign_pair a) \<and> fst (jobs k a) = Some (terminal_outcome m)"
      using message_source [OF inv q [unfolded Some]] by blast
    then show ?thesis
      using lease_worker_terminal [OF rdy q [unfolded Some] a(1,2)] \<open>terminal_of m = Some p\<close> Some
        progress_not_terminal by fastforce
  qed
qed

section \<open>Frames from dispatch\<close>

lemma offer_unseen:
  assumes inv: "lease_inv hist jobs old s"
    and offer: "lease_state_of l (hist @ sent_messages (ses_trace s)) = Some LeaseUnseen"
  shows "\<not> lease_spawned (ses_trace s) l" and "lease_state_of l (dispatch_view old s) = Some LeaseUnseen"
    and "lease_events l (map JobCanceledAck (drop (length old) (ses_pending s))) = []"
    and "lease_events l hist = []"
proof -
  show "lease_events l hist = []" using offer by (simp add: lease_unseen_iff)
  have un: "lease_state_of l (sent_messages (ses_trace s)) = Some LeaseUnseen"
    using offer by (simp add: lease_unseen_iff)
  have "lease_state_of l (dispatch_view old s) \<noteq> None"
    using lease_inv_legal [OF inv] unfolding lease_exit_def by blast
  then show no: "lease_events l (map JobCanceledAck (drop (length old) (ses_pending s))) = []"
    using un unfolding dispatch_view_def by (intro unseen_no_acks)
  then show view: "lease_state_of l (dispatch_view old s) = Some LeaseUnseen"
    using un by (simp add: dispatch_view_def lease_state_of_def)
  show "\<not> lease_spawned (ses_trace s) l"
  proof
    assume "lease_spawned (ses_trace s) l"
    then obtain k a where "Spawned k a \<in> set (ses_trace s)" "lease_of (assign_pair a) = l"
      by (auto simp: lease_spawned_def)
    then show False using lease_invD(4) [OF inv, of k a] view by (auto simp: lease_of_task_def split: if_splits)
  qed
qed

lemma lease_inv_reject:
  assumes inv: "lease_inv hist jobs old s" and q: "ses_queue s = []"
    and un: "lease_state_of (lease_of (assign_pair a)) (hist @ sent_messages (ses_trace s)) = Some LeaseUnseen"
  shows "lease_inv hist jobs old (reject_job a r s)"
proof -
  let ?s = "reject_job a r s" and ?l = "lease_of (assign_pair a)"
  have same: "ses_trace ?s = ses_trace s" "ses_pending ?s = ses_pending s" "dispatch_view old ?s = dispatch_view old s"
    by (simp_all add: reject_job_def dispatch_view_def)
  have parts: "task_ended k ?s = task_ended k s" "in_flight_task ?s = in_flight_task s"
      "canceled_slot ?s = canceled_slot s" "draining_tasks ?s = draining_tasks s" for k
    by (simp_all add: task_ended_def in_flight_task_def canceled_slot_def draining_tasks_def reject_job_def)
  have tm: "task_messages k ?s = task_messages k s" for k
    by (simp add: task_messages_def reject_job_def)
  have ref: "refusals l s = []" "refusals l ?s = (if l = ?l then [EvRefused] else [])" for l
    by (simp_all add: refusals_def reject_job_def q events_about_def assign_pair_def)
  show ?thesis
  proof (rule lease_inv_frame [OF inv])
    show "lease_of_task old ?s k b (fst (jobs k b))"
      if "Spawned k b \<in> set (ses_trace s)" and ok: "lease_of_task old s k b (fst (jobs k b))" for k b
      using ok lease_of_task_cong [of b old ?s s k] by (simp add: same parts)
    show "lease_of_offer hist old ?s l" if ok: "lease_of_offer hist old s l" for l
    proof (cases "l = ?l")
      case True
      then show ?thesis using offer_unseen [OF inv un] by (simp add: lease_of_offer_def same ref)
    next
      case False
      then show ?thesis using ok lease_of_offer_cong [of l ?s s old hist] by (simp add: ref same)
    qed
    show "\<exists>r. n = JobRejected r" if "x \<in> set (ses_queue ?s)" "n \<in> set (refused_by x)" for x n
      using that by (auto simp: reject_job_def q)
  qed (use lease_invD(1) [OF inv] in \<open>simp_all add: same tm\<close>)
qed

lemma accepted_view:
  assumes "lease_state_of (lease_of (assign_pair a)) (dispatch_view old s) = Some LeaseUnseen"
    and "sent_messages (ses_trace s') = sent_messages (ses_trace s) @ [accept_message a]"
    and "ses_pending s' = ses_pending s"
  shows "lease_state_of l (dispatch_view old s')
      = (if l = lease_of (assign_pair a) then Some LeaseRunning else lease_state_of l (dispatch_view old s))"
proof -
  let ?l = "lease_of (assign_pair a)"
  have acc: "lease_event_of (accept_message a) = Some (?l, EvAccepted)"
    by (simp add: accept_message_def assign_pair_def)
  have "lease_state_of ?l ((sent_messages (ses_trace s) @ [accept_message a])
      @ map JobCanceledAck (drop (length old) (ses_pending s) @ []))
    = lease_run LeaseUnseen (lease_events ?l ([accept_message a] @ map JobCanceledAck []))"
    using assms(1) unfolding dispatch_view_def by (rule lease_state_between) simp
  then show ?thesis
    using acc by (auto simp: dispatch_view_def assms(2,3) events_about_def lease_state_of_def)
qed

lemma lease_inv_spawn:
  assumes inv: "lease_inv hist jobs old s" and own: "owns s"
    and un: "lease_state_of (lease_of (assign_pair a)) (hist @ sent_messages (ses_trace s)) = Some LeaseUnseen"
    and q: "ses_queue s = []"
    and tr: "ses_trace s' = ses_trace s @ [Sent (accept_message a), Spawned (ses_next s) a]"
    and fl: "in_flight_task s' = Some (ses_next s)"
    and same: "ses_queue s' = []" "ses_pending s' = ses_pending s" "ses_canceled s' = ses_canceled s"
      "ses_draining s' = ses_draining s"
  shows "lease_inv hist jobs old s'"
proof -
  let ?k = "ses_next s" and ?l = "lease_of (assign_pair a)"
  note un = offer_unseen [OF inv un]
  have new: "Spawned ?k b \<notin> set (ses_trace s)" for b
  proof -
    have "count (spawned (ses_trace s)) ?k = 0" using own by (simp add: owns_def fresh_def)
    then show ?thesis using in_spawned [of ?k "ses_trace s"] by (auto simp: count_eq_zero_iff)
  qed
  have spawn: "Spawned k b \<in> set (ses_trace s') \<longleftrightarrow> Spawned k b \<in> set (ses_trace s) \<or> k = ?k \<and> b = a" for k b
    by (auto simp: tr)
  have other: "lease_of (assign_pair b) \<noteq> ?l" if "Spawned k b \<in> set (ses_trace s)" for k b
    using un(1) that by (auto simp: lease_spawned_def)
  have view: "lease_state_of l (dispatch_view old s')
      = (if l = ?l then Some LeaseRunning else lease_state_of l (dispatch_view old s))" for l
    by (rule accepted_view [OF un(2)]) (simp_all add: tr same)
  have cons: "consumed k (ses_trace s') = consumed k (ses_trace s)" for k by (simp add: tr)
  have tm: "task_messages k s' = task_messages k s" for k
    by (simp add: task_messages_def cons q same)
  have quiet: "task_messages ?k s = []"
    using lease_invD(3) [OF inv] new unfolding streams_ok_def by blast
  show ?thesis
  proof (rule lease_invI)
    show "spawns_distinct (ses_trace s')"
      unfolding spawns_distinct_def spawn
      using spawned_unique [OF lease_invD(2) [OF inv]] new other by metis
    show "streams_ok jobs s'"
      using lease_invD(3) [OF inv] unfolding streams_ok_def tm spawn by blast
    show "lease_of_task old s' k b (fst (jobs k b))" if "Spawned k b \<in> set (ses_trace s')" for k b
    proof (cases "Spawned k b \<in> set (ses_trace s)")
      case True
      then have "k \<noteq> ?k" using new by blast
      then show ?thesis
        using lease_invD(4) [OF inv True] other [OF True] fl
        by (auto simp: lease_of_task_def Let_def view task_ended_def cons canceled_slot_def
            draining_tasks_def same split: if_splits)
    next
      case False
      then have kb: "k = ?k" "b = a" using that spawn by blast+
      have "\<not> task_ended ?k s'" using quiet by (simp add: task_ended_def cons task_messages_def)
      then show ?thesis unfolding kb by (simp add: lease_of_task_def view)
    qed
    show "lease_of_offer hist old s' l" for l
    proof (cases "l = ?l")
      case True
      then have "lease_spawned (ses_trace s') l" using spawn by (auto simp: lease_spawned_def)
      then show ?thesis using un(4) True by (simp add: lease_of_offer_def refusals_def same)
    next
      case False
      then have "lease_spawned (ses_trace s') l = lease_spawned (ses_trace s) l"
        using spawn by (auto simp: lease_spawned_def)
      then have "lease_of_offer hist old s' l = lease_of_offer hist old s l"
        using False by (intro lease_of_offer_cong) (simp_all add: view refusals_def q same)
      then show ?thesis using lease_invD(5) [OF inv, of l] by simp
    qed
  qed (use lease_invD(1) [OF inv] in \<open>simp_all add: same\<close>)
qed

text \<open>The live job moves to the teardowns; it had not ended.\<close>

lemma lease_inv_cancel:
  assumes inv: "lease_inv hist jobs old s" and ack: "ack_inv old s" and j: "ses_in_flight s = Some j"
    and tr: "ses_trace s' = ses_trace s @ es" and sil: "list_all silent es"
    and fl: "in_flight_task s' = None" and cn: "canceled_slot s' = Some (job_pair_of j)"
    and dr: "draining_tasks s' \<subseteq> insert (ifj_handle j) (draining_tasks s)"
    and same: "ses_queue s' = ses_queue s" "ses_pending s' = ses_pending s"
  shows "lease_inv hist jobs old s'"
proof -
  note f = silent_folds [OF sil]
  obtain a where a: "Spawned (ifj_handle j) a \<in> set (ses_trace s)" "assign_pair a = job_pair_of j"
    using ack j entry_spawned [of "ses_trace s" j] by (auto simp: ack_inv_def)
  have live: "\<not> task_ended (ifj_handle j) s"
    using lease_invD(4) [OF inv a(1)] j by (auto simp: lease_of_task_def in_flight_task_def split: if_splits)
  have spawn: "Spawned k b \<in> set (ses_trace s') \<longleftrightarrow> Spawned k b \<in> set (ses_trace s)" for k b
    using f(3) by (simp add: tr)
  have view: "lease_state_of l (dispatch_view old s') = lease_state_of l (dispatch_view old s)" for l
    using f(2) [of l "ses_trace s"] by (simp add: dispatch_view_def tr same lease_state_of_def)
  have cons: "consumed k (ses_trace s') = consumed k (ses_trace s)" for k using f(1) by (simp add: tr)
  have tm: "task_messages k s' = task_messages k s" for k by (simp add: task_messages_def cons same)
  show ?thesis
  proof (rule lease_inv_frame [OF inv spawn])
    show "lease_of_task old s' k b (fst (jobs k b))"
      if b: "Spawned k b \<in> set (ses_trace s)" and ok: "lease_of_task old s k b (fst (jobs k b))" for k b
    proof -
      have "task_ended k s \<Longrightarrow> k \<noteq> ifj_handle j" using live by blast
      then have "task_ended k s \<Longrightarrow> assign_pair b \<noteq> job_pair_of j"
        using spawned_unique [OF lease_invD(2) [OF inv] b a(1)] a(2) by metis
      then show ?thesis
        using ok live fl cn dr by (auto simp: lease_of_task_def Let_def view task_ended_def cons split: if_splits)
    qed
    show "lease_of_offer hist old s' l" if ok: "lease_of_offer hist old s l" for l
      using ok lease_of_offer_cong [OF _ view spawn_congs(2) [OF spawn]] by (simp add: refusals_def same)
    show "\<exists>r. n = JobRejected r" if "x \<in> set (ses_queue s')" "n \<in> set (refused_by x)" for x n
      using lease_invD(6) [OF inv, of x n] that by (simp add: same)
  qed (use lease_invD(1) [OF inv] in \<open>simp_all add: same tm\<close>)
qed

lemma lease_assign:
  assumes rdy: "lease_ready hist jobs old t s" and q: "ses_queue s = []"
    and un: "lease_state_of (lease_of (assign_pair a)) (hist @ sent_messages (ses_trace s)) = Some LeaseUnseen"
  shows "lease_result hist jobs old (assign_arm t a s)"
proof -
  have inv: "lease_inv hist jobs old s" and own: "owns s" using rdy by (simp_all add: lease_ready_def)
  let ?f = "\<lambda>st. st\<lparr>ss_current_job := Some \<lparr>js_id = ja_job_id a,
      js_tier = tier_of (ja_kind a), js_progress = 0, js_phase = Downloading\<rparr>\<rparr>"
  let ?s2 = "status_update ?f (s\<lparr>ses_gate := mark_busy (ses_gate s)\<rparr>)"
  have "lease_ready hist jobs old t ?s2" using rdy by simp
  moreover have "lease_inv hist jobs old
      (spawn_job a (status_update (set_phase Rendering) (note_events [Sent (accept_message a)] ?s2)))"
    by (rule lease_inv_spawn [OF inv own un q])
       (simp_all add: spawn_job_def in_flight_task_def q)
  ultimately show ?thesis
    using lease_inv_reject [OF inv q un]
    by (simp add: assign_arm_def Let_def lease_result_leave del: lease_ready_quiet)
qed

lemma lease_cancel:
  assumes rdy: "lease_ready hist jobs old t s"
  shows "lease_result hist jobs old (cancel_arm t m s)"
proof (cases "ses_in_flight s")
  case None
  then show ?thesis using rdy by (simp add: cancel_arm_def lease_ready_def)
next
  case (Some j)
  have inv: "lease_inv hist jobs old s" and ack: "ack_inv old s" using rdy by (simp_all add: lease_ready_def)
  show ?thesis
  proof (cases "ifj_job_id j = can_job_id m")
    case False
    then show ?thesis using Some inv by (simp add: cancel_arm_def)
  next
    case True
    obtain s' where arm: "cancel_arm t m s = (s', None)"
      using Some True by (simp add: cancel_arm_def Let_def)
    obtain es where es: "ses_trace s' = ses_trace s @ es" "list_all silent es"
    proof
      let ?es = "(if ifj_cancel j then [CancelSent (ifj_handle j)] else []) @ [SweptCache (ifj_cache_keys j)]
        @ (if length (ses_draining s) < MAX_DRAINING_TEARDOWNS then []
           else [Joined (ifj_handle j) (fst (tu_join t (ifj_handle j)))])"
      show "ses_trace s' = ses_trace s @ ?es" using arm Some True by (auto simp: cancel_arm_def Let_def)
      show "list_all silent ?es" by simp
    qed
    have "ses_draining s' = ses_draining s
        \<or> ses_draining s' = ses_draining s @ [j\<lparr>ifj_cancel_received_at := Some (tu_now t), ifj_cancel := False\<rparr>]"
      using arm Some True by (cases "length (ses_draining s) < MAX_DRAINING_TEARDOWNS")
        (auto simp: cancel_arm_def Let_def)
    then have dr: "draining_tasks s' \<subseteq> insert (ifj_handle j) (draining_tasks s)"
      by (auto simp: draining_tasks_def)
    have "in_flight_task s' = None" "canceled_slot s' = Some (job_pair_of j)"
        "ses_queue s' = ses_queue s" "ses_pending s' = ses_pending s"
      using arm Some True by (auto simp: cancel_arm_def Let_def in_flight_task_def canceled_slot_def
          canceled_pair_def job_pair_of_def)
    then have "lease_inv hist jobs old s'" by (rule lease_inv_cancel [OF inv ack Some es _ _ dr])
    then show ?thesis using arm by simp
  qed
qed

lemma lease_stream:
  assumes rdy: "lease_ready hist jobs old t s" and q: "ses_queue s = []"
    and un: "\<And>j a. item = FText (Some j) \<Longrightarrow> server_of_json j = Inr (JobAssign a) \<Longrightarrow>
       lease_state_of (lease_of (assign_pair a)) (hist @ sent_messages (ses_trace s)) = Some LeaseUnseen"
  shows "lease_result hist jobs old (stream_arm t item s)"
proof -
  have inv: "lease_inv hist jobs old s" using rdy by (simp add: lease_ready_def)
  show ?thesis
  proof (cases item)
    case (FText x)
    then show ?thesis
    proof (cases x)
      case (Some j)
      then show ?thesis
      proof (cases "server_of_json j")
        case (Inr m)
        then show ?thesis
          using FText Some un [of j] inv lease_assign [OF rdy q] lease_cancel [OF rdy]
          by (cases m) (simp_all add: update_arm_def)
      qed (use FText inv in simp)
    qed (use inv in simp)
  next
    case (FClose r)
    then show ?thesis using rdy by (auto simp: close_arm_def lease_result_leave split: option.split)
  qed (use rdy inv in \<open>simp_all add: lease_result_leave\<close>)
qed

lemma lease_heartbeat:
  assumes rdy: "lease_ready hist jobs old t s"
  shows "lease_result hist jobs old (heartbeat_arm cfg reg t s)"
proof -
  define s1 where "s1 = surface_purges (tu_purges t) s"
  define msg where "msg = Heartbeat \<lparr>hb_tenant = reg_tenant reg, hb_current_job_count = current_job_count s\<rparr>"
  have s1: "lease_ready hist jobs old t s1" using rdy by (simp add: s1_def)
  have s3: "lease_ready hist jobs old t (x\<lparr>ses_heartbeats := n\<rparr>)" if "x = note_events [Sent msg] s1" for x n
    using lease_ready_note [OF s1, of "[Sent msg]"] that by (simp add: msg_def)
  have s4: "lease_ready hist jobs old t (note_events [SentClose] (x\<lparr>ses_heartbeats := n\<rparr>))"
    if "x = note_events [Sent msg] s1" for x n
    by (rule lease_ready_note [OF s3 [OF that]]) simp_all
  show ?thesis
    using s1 s3 s4 unfolding heartbeat_arm_def Let_def s1_def [symmetric] msg_def [symmetric]
    by (auto simp: lease_ready_def intro!: lease_result_leave split: option.split)
qed

lemma lease_shutdown: "lease_ready hist jobs old t s \<Longrightarrow> lease_result hist jobs old (shutdown_arm t s)"
  unfolding shutdown_arm_def by (intro lease_result_leave lease_ready_note) simp_all

lemma lease_tick: "lease_ready hist jobs old t s \<Longrightarrow> lease_result hist jobs old (tick_arm t s)"
proof -
  assume rdy: "lease_ready hist jobs old t s"
  then have "lease_ready hist jobs old t (note_events [SentClose] (s\<lparr>ses_gate := g\<rparr>))" for g
    by (intro lease_ready_note) simp_all
  then show ?thesis
    using rdy unfolding tick_arm_def Let_def
    by (auto simp: lease_ready_def intro!: lease_result_leave split: option.split)
qed

section \<open>Tasks that run jobs\<close>

locale job_tasks =
  fixes jobs :: "task \<Rightarrow> job_assign_message \<Rightarrow> job_outcome option \<times> job_event list"
  assumes jobs_stream: "prefix ms (job_frames (snd (jobs k a))) \<Longrightarrow> job_stream a (fst (jobs k a)) ms"
begin

lemma tasks_feed: "tasks_run_jobs jobs t s \<Longrightarrow> tasks_ok t s"
proof -
  assume env: "tasks_run_jobs jobs t s"
  have "task_message m" if km: "(k, m) \<in> set (tu_arrivals t)" for k m
  proof -
    obtain a where "prefix (task_messages k (before_select t s)) (job_frames (snd (jobs k a)))"
      using env km unfolding tasks_run_jobs_def by fastforce
    then have st: "job_stream a (fst (jobs k a)) (task_messages k (before_select t s))" by (rule jobs_stream)
    have "m \<in> set (task_messages k (before_select t s))"
      using km by (force simp: task_messages_def before_select_def)
    then obtain xs ys where "task_messages k (before_select t s) = xs @ m # ys" by (auto dest: split_list)
    then have "progress_frame a m \<or> terminal_of m = Some (assign_pair a)"
      using job_stream_cases st by metis
    then show ?thesis by (cases m) (auto simp: progress_frame_def progress_to_wire_def)
  qed
  then show ?thesis by (auto simp: tasks_ok_def list_all_iff)
qed

lemma lease_inv_before:
  assumes inv: "lease_inv hist jobs old s" and env: "tasks_run_jobs jobs t s"
  shows "lease_inv hist jobs old (before_select t s)"
proof -
  let ?s = "before_select t s" and ?new = "map (\<lambda>(k, m). (Some k, m)) (tu_arrivals t)"
  have ref: "concat (map refused_by ?new) = []" by (auto simp: case_prod_beta)
  have queue: "ses_queue ?s = ses_queue s @ ?new" by (simp add: before_select_def)
  have quiet: "task_messages k ?s = task_messages k s" if "\<forall>m. (k, m) \<notin> set (tu_arrivals t)" for k
  proof -
    have "concat (map (queued_by k) ?new) = []" using that by (auto simp: case_prod_beta)
    then show ?thesis by (simp add: task_messages_def queue)
  qed
  have refs: "refusals l ?s = refusals l s" for l
    unfolding refusals_def queue map_append concat_append ref by simp
  show ?thesis
  proof (rule lease_invI)
    show "streams_ok jobs ?s"
      unfolding streams_ok_def
    proof (intro allI impI)
      fix k assume ne: "task_messages k ?s \<noteq> []"
      show "\<exists>a. Spawned k a \<in> set (ses_trace ?s) \<and> job_stream a (fst (jobs k a)) (task_messages k ?s)"
      proof (cases "\<exists>m. (k, m) \<in> set (tu_arrivals t)")
        case True
        then show ?thesis using env jobs_stream unfolding tasks_run_jobs_def by fastforce
      next
        case False
        then show ?thesis using quiet [of k] ne lease_invD(3) [OF inv] unfolding streams_ok_def by simp
      qed
    qed
    show "lease_of_task old ?s k a (fst (jobs k a))" if "Spawned k a \<in> set (ses_trace ?s)" for k a
    proof -
      have "lease_of_task old ?s k a (fst (jobs k a)) = lease_of_task old s k a (fst (jobs k a))"
        by (rule lease_of_task_cong)
           (simp_all add: dispatch_view_def task_ended_def in_flight_task_def canceled_slot_def draining_tasks_def)
      then show ?thesis using lease_invD(4) [OF inv] that by simp
    qed
    show "lease_of_offer hist old ?s l" for l
    proof -
      have "lease_of_offer hist old ?s l = lease_of_offer hist old s l"
        by (rule lease_of_offer_cong) (simp_all add: refs dispatch_view_def)
      then show ?thesis using lease_invD(5) [OF inv, of l] by simp
    qed
    show "\<exists>r. n = JobRejected r" if "x \<in> set (ses_queue ?s)" "n \<in> set (refused_by x)" for x n
      using that lease_invD(6) [OF inv, of x n] by (auto simp: queue)
  qed (use lease_invD(1,2) [OF inv] in simp_all)
qed

lemma lease_turn:
  assumes safe: "safe old s" and inv: "lease_inv hist jobs old s"
    and env: "tasks_run_jobs jobs t s" and fresh: "fresh_offer hist t s"
  shows "lease_result hist jobs old (session_turn cfg reg t s)"
proof -
  let ?s = "before_select t s"
  have rdy: "lease_ready hist jobs old t ?s"
    using safe env lease_inv_before [OF inv env] ack_inv_before tasks_feed
    by (auto simp: lease_ready_def safe_def joins_ok_def tasks_run_jobs_def)
  have st: "lease_result hist jobs old (stream_arm t item ?s)" if "ses_queue ?s = []" "tu_stream t = Some item" for item
    by (rule lease_stream [OF rdy that(1)]) (use fresh that(2) in \<open>simp add: fresh_offer_def\<close>)
  show ?thesis
    using rdy lease_shutdown [OF rdy] lease_tick [OF rdy] lease_heartbeat [OF rdy] lease_worker [OF rdy] st
    unfolding session_turn_def select_arm_def
    by (auto simp: lease_ready_def split: list.split option.split)
qed

end

sublocale job_tasks \<subseteq> session_lease: machine_invariant "session_turn cfg reg"
    "\<lambda>t s. tasks_run_jobs jobs t s \<and> fresh_offer hist t s" "\<lambda>s. safe old s \<and> lease_inv hist jobs old s"
    "\<lambda>s d. lease_exit hist old s \<and> length (ses_pending s) \<le> MAX_PENDING_CANCEL_ACKS" for cfg reg hist old
proof unfold_locales
  fix s t s' and d :: disconnect
  assume inv: "safe old s \<and> lease_inv hist jobs old s" and ok: "tasks_run_jobs jobs t s \<and> fresh_offer hist t s"
  then have r: "lease_result hist jobs old (session_turn cfg reg t s)" by (intro lease_turn) auto
  have t: "tasks_ok t s" using ok tasks_feed by blast
  show "safe old s' \<and> lease_inv hist jobs old s'" if "session_turn cfg reg t s = (s', None)"
    using r that session_safe.inv_step [OF _ t that] inv by (auto simp: lease_result_def)
  show "lease_exit hist old s' \<and> length (ses_pending s') \<le> MAX_PENDING_CANCEL_ACKS"
    if "session_turn cfg reg t s = (s', Some d)"
    using r that session_safe.inv_exit [OF _ t that] inv
    by (auto simp: lease_result_def disc_exit_def bounded_def)
qed

section \<open>The session refines the protocol\<close>

context machine_invariant begin

lemma all_okI:
  "(\<And>pre i post s'. is = pre @ i # post \<Longrightarrow> run_until step pre s = (s', None) \<Longrightarrow> ok i s') \<Longrightarrow> all_ok is s"
proof (induction "is" arbitrary: s)
  case (Cons i "is")
  have "ok i s" using Cons.prems [of "[]" i "is" s] by simp
  moreover have "all_ok is s1" if st: "step i s = (s1, None)" for s1
  proof (rule Cons.IH)
    fix pre j post s'
    assume "is = pre @ j # post" and "run_until step pre s1 = (s', None)"
    then show "ok j s'" using Cons.prems [of "i # pre" j post s'] st by simp
  qed
  ultimately show ?case by (auto split: prod.split option.split)
qed simp

end

definition job_runs :: "(task \<Rightarrow> duration) \<Rightarrow> (task \<Rightarrow> nat) \<Rightarrow> (task \<Rightarrow> job_env) \<Rightarrow> task
    \<Rightarrow> job_assign_message \<Rightarrow> job_outcome option \<times> job_event list" where
  "job_runs limit cap env k a = run_job a (limit k) (cap k) (env k)"

interpretation runner: job_tasks "job_runs limit cap env" for limit cap env
  by unfold_locales (auto simp: job_runs_def intro: run_job_stream [OF prod.collapse [symmetric]])

lemma lease_start: "lease_inv hist jobs pending (session_start mx cfg now keys pending obs)"
  by (rule lease_invI)
     (auto simp: session_start_def spawns_distinct_def streams_ok_def task_messages_def lease_of_offer_def
       lease_spawned_def refusals_def dispatch_view_def lease_state_of_def)

text \<open>
  The frames of one session that name one lease, followed by the acknowledgements it left, are a word
  of the protocol; and nothing more is said of a lease dispatch knew before.
\<close>

lemma session_lease_word:
  assumes "run_session_loop cfg reg ts (session_start mx cfg now keys pending obs) = (s', d)"
    and "length pending \<le> MAX_PENDING_CANCEL_ACKS"
    and "\<And>pre t post s. ts = pre @ t # post
       \<Longrightarrow> run_session_loop cfg reg pre (session_start mx cfg now keys pending obs) = (s, None)
       \<Longrightarrow> tasks_run_jobs (job_runs limit cap env) t s \<and> fresh_offer hist t s"
  shows "\<exists>left. ses_pending s' = pending @ left \<and> length (ses_pending s') \<le> MAX_PENDING_CANCEL_ACKS
     \<and> (\<forall>l. lease_state_of l (sent_messages (ses_trace s') @ map JobCanceledAck left) \<noteq> None
          \<and> (lease_events l hist \<noteq> [] \<longrightarrow>
               lease_events l (sent_messages (ses_trace s') @ map JobCanceledAck left) = []))"
proof -
  let ?s = "session_start mx cfg now keys pending obs" and ?jobs = "job_runs limit cap env"
  have "safe pending ?s \<and> lease_inv hist ?jobs pending ?s"
    using safe_start [of pending mx cfg now keys obs] lease_start assms(2) by simp
  moreover have "runner.session_lease.all_ok cfg reg limit cap env hist ts ?s"
    using assms(3) unfolding run_session_loop_def by (intro runner.session_lease.all_okI)
  ultimately have "case run_until (session_turn cfg reg) ts ?s of
      (s', None) \<Rightarrow> safe pending s' \<and> lease_inv hist ?jobs pending s'
    | (s', Some d) \<Rightarrow> lease_exit hist pending s' \<and> length (ses_pending s') \<le> MAX_PENDING_CANCEL_ACKS"
    by (rule runner.session_lease.run_invariant)
  then have ex: "lease_exit hist pending s'" "length (ses_pending s') \<le> MAX_PENDING_CANCEL_ACKS"
    using assms(1) lease_inv_legal
    by (auto simp: run_session_loop_def safe_def disc_def bounded_def split: option.splits)
  then have "ses_pending s' = pending @ drop (length pending) (ses_pending s')"
    by (metis append_take_drop_id lease_exit_def)
  then show ?thesis using ex unfolding lease_exit_def dispatch_view_def by metis
qed

end
