(* ===== verification/Session_Cache.thy ===== *)
theory Session_Cache
  imports Session_Own Cache
begin

text \<open>
  What the cache sweeps of a session protect. The invariant \<open>keyed\<close> says that the job in flight
  carries the cache keys of the last assignment accepted and that the remembered keys are those of
  the last sweep; with the sweep's own lemma, no artifact of that job is evicted.
\<close>

section \<open>The last assignment and the last sweep of a trace\<close>

fun assigned_by :: "event \<Rightarrow> job_assign_message option \<Rightarrow> job_assign_message option" where
  "assigned_by (Spawned k a) l = Some a" | "assigned_by _ l = l"

fun swept_by :: "event \<Rightarrow> string list \<Rightarrow> string list" where
  "swept_by (SweptCache ks) l = ks" | "swept_by _ l = l"

definition last_assigned :: "event list \<Rightarrow> job_assign_message option" where
  "last_assigned tr = fold assigned_by tr None"

definition last_swept :: "string list \<Rightarrow> event list \<Rightarrow> string list" where
  "last_swept keys tr = fold swept_by tr keys"

lemma last_append [simp]:
  "last_assigned (tr @ es) = fold assigned_by es (last_assigned tr)"
  "last_swept keys (tr @ es) = fold swept_by es (last_swept keys tr)"
  by (simp_all add: last_assigned_def last_swept_def)

lemma last_Nil [simp]: "last_assigned [] = None" "last_swept keys [] = keys"
  by (simp_all add: last_assigned_def last_swept_def)

fun keyed_sweep :: "event list \<Rightarrow> event \<Rightarrow> bool" where
  "keyed_sweep tr (SweptCache ks) = (\<exists>a. last_assigned tr = Some a \<and> ks = cache_keys_for a)"
| "keyed_sweep tr _ = True"

text \<open>Events that neither accept a job nor sweep.\<close>

fun quiet_event :: "event \<Rightarrow> bool" where
  "quiet_event (Spawned k a) = False" | "quiet_event (SweptCache ks) = False"
| "quiet_event _ = True"

lemma quiet_folds:
  assumes "list_all quiet_event es"
  shows "fold assigned_by es l = l" and "fold swept_by es ks = ks"
proof -
  have "assigned_by e l' = l'" "swept_by e ks' = ks'" if "quiet_event e" for e l' ks'
    using that by (cases e; simp)+
  then show "fold assigned_by es l = l" "fold swept_by es ks = ks"
    using assms by (induction es) simp_all
qed

lemma quiet_keyed: "quiet_event e \<Longrightarrow> keyed_sweep tr e"
  by (cases e) simp_all

lemma quiet_joins: "list_all quiet_event (joins join js)"
  by (simp add: joins_def list_all_iff)

lemma quiet_cancel: "list_all quiet_event (cancel_events s)"
  by (simp add: cancel_events_def split: option.splits)

section \<open>The invariant\<close>

definition keyed :: "string list \<Rightarrow> session \<Rightarrow> bool" where
  "keyed keys s \<longleftrightarrow> every_event keyed_sweep (ses_trace s)
     \<and> ses_protected s = last_swept keys (ses_trace s)
     \<and> (\<forall>j. ses_in_flight s = Some j \<longrightarrow>
          (\<exists>a. last_assigned (ses_trace s) = Some a \<and> ifj_cache_keys j = cache_keys_for a))"

lemma keyed_cong:
  "ses_in_flight s' = ses_in_flight s \<Longrightarrow> ses_trace s' = ses_trace s \<Longrightarrow>
   ses_protected s' = ses_protected s \<Longrightarrow> keyed keys s' = keyed keys s"
  by (simp add: keyed_def)

lemma keyed_quiet:
  assumes "keyed keys s" and "list_all quiet_event es" and "ses_trace s' = ses_trace s @ es"
    and "ses_protected s' = ses_protected s"
    and "ses_in_flight s' = ses_in_flight s \<or> ses_in_flight s' = None"
  shows "keyed keys s'"
proof -
  have "every_event keyed_sweep (ses_trace s @ es)"
    by (rule every_event_appendI)
       (use assms(1,2) in \<open>auto simp: keyed_def list_all_iff quiet_keyed\<close>)
  then show ?thesis
    using assms quiet_folds [OF assms(2)] by (auto simp: keyed_def)
qed

lemma keyed_leave: "keyed keys s \<Longrightarrow> keyed keys (fst (leave t d s))"
  by (erule keyed_quiet [where es = "cancel_events s @ joins (tu_join t) (owned_jobs s)"])
     (simp_all add: quiet_joins quiet_cancel)

lemma keyed_note: "list_all quiet_event es \<Longrightarrow> keyed keys s \<Longrightarrow> keyed keys (note_events es s)"
  by (rule keyed_quiet [where es = es and s = s]) simp_all

lemma keyed_same [simp]:
  "keyed keys (status_update f s) = keyed keys s"
  "keyed keys (surface_purges fs s) = keyed keys s"
  "keyed keys (before_select t s) = keyed keys s"
  "keyed keys (s\<lparr>ses_gate := g\<rparr>) = keyed keys s" "keyed keys (s\<lparr>ses_queue := q\<rparr>) = keyed keys s"
  "keyed keys (s\<lparr>ses_pending := p\<rparr>) = keyed keys s"
  "keyed keys (s\<lparr>ses_heartbeats := h\<rparr>) = keyed keys s"
  "keyed keys (s\<lparr>ses_canceled := c\<rparr>) = keyed keys s"
  "keyed keys (s\<lparr>ses_just_canceled := jc\<rparr>) = keyed keys s"
  "keyed keys (s\<lparr>ses_draining := dr\<rparr>) = keyed keys s"
  by (rule keyed_cong; simp)+

lemma keyed_settle: "keyed keys s \<Longrightarrow> keyed keys (settle_in_flight p s)"
  by (cases "ses_in_flight s") (auto simp: settle_in_flight_def keyed_def every_event_two)

lemma keyed_hand_over: "keyed keys s \<Longrightarrow> keyed keys (hand_over_cancel p s)"
  by (simp add: hand_over_cancel_def)

lemma keyed_acknowledge: "keyed keys s \<Longrightarrow> keyed keys (acknowledge_cancel t s)"
  by (auto simp: acknowledge_cancel_def Let_def keyed_note split: option.splits)

lemma keyed_worker: "keyed keys s \<Longrightarrow> keyed keys (fst (worker_arm t src msg s))"
  unfolding worker_arm_def Let_def
  by (auto simp: keyed_leave keyed_note keyed_settle keyed_hand_over keyed_acknowledge
      split: option.splits)

lemma every_event_three:
  "every_event P (tr @ [e, f, g]) \<longleftrightarrow>
     every_event P tr \<and> P tr e \<and> P (tr @ [e]) f \<and> P (tr @ [e, f]) g"
  using every_event_snoc [of P "tr @ [e, f]" g] by (simp add: every_event_two)

lemma keyed_cancel: "keyed keys s \<Longrightarrow> keyed keys (fst (cancel_arm t m s))"
  by (cases "ses_in_flight s")
     (auto simp: cancel_arm_def Let_def keyed_def every_event_snoc every_event_two
      every_event_three)

lemma keyed_assign: "keyed keys s \<Longrightarrow> keyed keys (fst (assign_arm t a s))"
proof -
  assume k: "keyed keys s"
  have "keyed keys (spawn_job a s1)" if "keyed keys s1" for s1
    using that by (auto simp: spawn_job_def keyed_def every_event_snoc)
  then show ?thesis
    using k by (auto simp: assign_arm_def Let_def reject_job_def keyed_leave keyed_note)
qed

lemma keyed_stream: "keyed keys s \<Longrightarrow> keyed keys (fst (stream_arm t item s))"
proof (cases "(t, item, s)" rule: stream_arm.cases)
  case (2 t' j s')
  assume k: "keyed keys s"
  have "keyed keys (fst (server_arm t m s))" for m
    using k keyed_assign [of keys s t] keyed_cancel [of keys s t]
    by (cases m) (auto simp: update_arm_def Let_def)
  then show ?thesis using 2 k by (auto split: sum.splits)
qed (auto simp: close_arm_def keyed_leave split: option.splits)

lemma keyed_turn [inv_rules]: "keyed keys s \<Longrightarrow> keyed keys (fst (session_turn cfg reg t s))"
  unfolding session_turn_def select_arm_def
  by (auto simp: shutdown_arm_def tick_arm_def heartbeat_arm_def Let_def keyed_leave keyed_note
      keyed_worker keyed_stream split: option.splits list.splits)

interpretation session_keyed: machine_invariant "session_turn cfg reg" "\<lambda>t s. True" "keyed keys"
    "\<lambda>s' d. keyed keys s'" for cfg reg keys
  by unfold_locales (metis fst_conv keyed_turn)+

lemma keyed_start: "keyed keys (session_start mx cfg now keys pending obs)"
  by (simp add: session_start_def keyed_def)

lemma keyed_run:
  assumes "run_session_loop cfg reg ts (session_start mx cfg now keys pending obs) = (s', d)"
  shows "keyed keys s'"
proof -
  have "session_keyed.all_ok cfg reg ts (session_start mx cfg now keys pending obs)"
    by (rule session_keyed.all_ok_trivial) simp
  from session_keyed.run_invariant [OF keyed_start this] show ?thesis
    using assms by (cases d) (simp_all add: run_session_loop_def)
qed

section \<open>The property\<close>

text \<open>
  C10: The artifacts of the latest job survive. Every cache sweep a session runs, after a terminal
  frame or a cancel, protects exactly the payload, browser and bundle of the assignment accepted
  last, so the sweep deletes none of them; and what the session hands to the next startup sweep is
  the protected set of its last sweep.
\<close>

theorem latest_job_artifacts_survive:
  assumes "run_session_loop cfg reg ts (session_start mx cfg now keys pending obs) = (s', d)"
    and "ses_trace s' = tr1 @ SweptCache ks # tr2"
    and "sweep_caches max_time cap ks rm roots = (out, gone)" and "e \<in> set gone"
  shows "(\<exists>a. last_assigned tr1 = Some a \<and> ks = cache_keys_for a
            \<and> ce_kind e @ '':'' @ ce_sha e \<notin>
                {''payloads:'' @ ja_payload_sha256 a, ''bundles:'' @ ja_bundle_sha256 a}
            \<and> Some (ce_kind e @ '':'' @ ce_sha e)
                \<noteq> map_option (\<lambda>sha. ''browsers:'' @ sha) (ja_browser_sha256 a))
     \<and> ses_protected s' = last_swept keys (ses_trace s')"
proof -
  have k: "keyed keys s'" by (rule keyed_run [OF assms(1)])
  then have "keyed_sweep tr1 (SweptCache ks)"
    using assms(2) by (auto simp: keyed_def dest: every_eventD)
  then obtain a where a: "last_assigned tr1 = Some a" "ks = cache_keys_for a" by auto
  have "in_flight_key e \<notin> set ks" by (rule swept_unprotected [OF assms(3,4)])
  then show ?thesis
    using a k by (auto simp: cache_keys_for_def in_flight_key_def keyed_def split: option.splits)
qed

definition cancel_turns :: "turn list" where
  "cancel_turns = [allow_turn, frame_turn (JobAssign (job_of ''a'' (Some 1))),
     frame_turn (cancel_of_job ''a'')]"

lemma cancel_run:
  "ses_trace (fst (run_session_loop sample_config sample_register cancel_turns
     (session_start (secs 10000) sample_config (secs 10) [] [] (channels default_status))))
   = [Sent (accept_message (job_of ''a'' (Some 1))), Spawned 0 (job_of ''a'' (Some 1)), CancelSent 0]
     @ SweptCache (cache_keys_for (job_of ''a'' (Some 1))) # []"
  by (simp add: cancel_turns_def run_eval del: server_to_json.simps)

theorem latest_job_artifacts_survive_witness:
  "''payloads:aa'' \<noteq> ''payloads:'' @ ja_payload_sha256 (job_of ''a'' (Some 1))"
proof -
  let ?ks = "cache_keys_for (job_of ''a'' (Some 1))"
  have r: "sweep_caches 1000 2048 ?ks (\<lambda>e. True) sample_roots
      = (\<lparr>so_entries = 2, so_bytes_before = 4096, so_bytes_after = 2048, so_evicted = 1\<rparr>,
         [sample_entry ''aa'' 2048 5])"
    by (simp add: sweep_caches_def sweep_entries_lru_def sample_scan total_bytes_def lru_order_def
        sample_entry_def in_flight_key_def cache_keys_for_def job_of_def sample_assign_def)
  have g: "sample_entry ''aa'' 2048 5 \<in> set [sample_entry ''aa'' 2048 5]" by simp
  from latest_job_artifacts_survive [OF surjective_pairing cancel_run r g]
  show ?thesis by (simp add: last_assigned_def sample_entry_def)
qed

end
