(* ===== verification/Backoff.thy ===== *)
theory Backoff
  imports Complex_Main Dr_Base
begin

unbundle bit_operations_syntax

text \<open>
  The reconnect delay (\<open>crates/supervisor-core/src/connection.rs\<close>, \<open>ReconnectBackoff\<close>): a 32-bit
  attempt counter, the saturating exponential target, full jitter from an xorshift64* generator.
  A \<open>Duration\<close> is at most \<open>DUR_MAX\<close> nanoseconds. The draw and the product with it are taken as
  exact rationals, rounded once to the nanosecond; the source computes them in \<open>f64\<close>.
\<close>

section \<open>The random source\<close>

definition XORSHIFT_MULT :: u64 where "XORSHIFT_MULT = 0x2545F4914F6CDD1D"

definition shift_right_xor :: "nat \<Rightarrow> u64 \<Rightarrow> u64" where
  "shift_right_xor k x = x XOR drop_bit k x"

definition shift_left_xor :: "nat \<Rightarrow> u64 \<Rightarrow> u64" where
  "shift_left_xor k x = x XOR push_bit k x"

definition xorshift_state :: "u64 \<Rightarrow> u64" where
  "xorshift_state s = shift_right_xor 27 (shift_left_xor 25 (shift_right_xor 12 s))"

definition xorshift_draw :: "u64 \<Rightarrow> rat" where
  "xorshift_draw s = of_nat (unat (drop_bit 11 (s * XORSHIFT_MULT))) / of_nat (2 ^ 53)"

definition xorshift_next :: "u64 \<Rightarrow> rat \<times> u64" where
  "xorshift_next s = (let s' = xorshift_state s in (xorshift_draw s', s'))"

text \<open>The seed: the clock's nanoseconds, or a constant when it is before the epoch, made odd.\<close>

definition rng_seed :: "nat option \<Rightarrow> u64" where
  "rng_seed clock =
     (case clock of Some n \<Rightarrow> of_nat n | None \<Rightarrow> 0x9E3779B97F4A7C15) OR 1"

section \<open>The backoff\<close>

definition DUR_MAX :: duration where
  "DUR_MAX = 18446744073709551615 * 1000000000 + 999999999"

record reconnect_backoff =
  rb_base :: duration
  rb_max :: duration
  rb_attempt :: u32
  rb_rng :: u64

definition backoff_new :: "duration \<Rightarrow> duration \<Rightarrow> nat option \<Rightarrow> reconnect_backoff" where
  "backoff_new base mx clock =
     \<lparr>rb_base = base, rb_max = mx, rb_attempt = 0, rb_rng = rng_seed clock\<rparr>"

definition dur_saturating_mul :: "duration \<Rightarrow> u32 \<Rightarrow> duration" where
  "dur_saturating_mul d k = (if d * unat k \<le> DUR_MAX then d * unat k else DUR_MAX)"

definition checked_shl1 :: "u32 \<Rightarrow> u32 option" where
  "checked_shl1 k = (if unat k < 32 then Some (push_bit (unat k) 1) else None)"

definition backoff_target :: "reconnect_backoff \<Rightarrow> duration" where
  "backoff_target b =
     (let shift = min (rb_attempt b) 31;
          factor = (case checked_shl1 shift of Some f \<Rightarrow> f | None \<Rightarrow> -1)
      in min (dur_saturating_mul (rb_base b) factor) (rb_max b))"

definition mul_f64 :: "duration \<Rightarrow> rat \<Rightarrow> duration" where
  "mul_f64 d u = nat (round (of_nat d * u))"

definition clamp01 :: "rat \<Rightarrow> rat" where
  "clamp01 u = (if u < 0 then 0 else if 1 < u then 1 else u)"

definition next_delay :: "reconnect_backoff \<Rightarrow> duration \<times> reconnect_backoff" where
  "next_delay b =
     (let t = backoff_target b;
          a = (if rb_attempt b = -1 then -1 else rb_attempt b + 1);
          (u, r) = xorshift_next (rb_rng b)
      in (mul_f64 t (clamp01 u), b\<lparr>rb_attempt := a, rb_rng := r\<rparr>))"

definition session_lasted :: "duration \<Rightarrow> reconnect_backoff \<Rightarrow> reconnect_backoff" where
  "session_lasted d b = (if rb_max b \<le> d then b\<lparr>rb_attempt := 0\<rparr> else b)"

section \<open>The random source never sticks at zero\<close>

lemma shift_right_xor_eq_0: "0 < k \<Longrightarrow> shift_right_xor k x = 0 \<Longrightarrow> x = 0"
proof -
  assume k: "0 < k" and z: "shift_right_xor k x = 0"
  have same: "bit x n = bit x (k + n)" for n
  proof -
    have "bit (shift_right_xor k x) n = (bit x n \<noteq> bit x (k + n))"
      by (auto simp: shift_right_xor_def bit_xor_iff bit_drop_bit_eq)
    with z show ?thesis by simp
  qed
  have up: "bit x n \<Longrightarrow> bit x (n + m * k)" for n m
  proof (induction m)
    case (Suc m)
    then have "bit x (k + (n + m * k))" by (simp only: same [symmetric])
    then show ?case by (simp add: ac_simps)
  qed simp
  have "\<not> bit x n" for n
  proof
    assume "bit x n"
    then have "bit x (n + 64 * k)" by (rule up)
    then have "n + 64 * k < 64" using bit_imp_le_length [of x] by fastforce
    with k show False by simp
  qed
  then show "x = 0" by (simp add: bit_eq_iff)
qed

lemma shift_left_xor_eq_0: "0 < k \<Longrightarrow> shift_left_xor k x = 0 \<Longrightarrow> x = 0"
proof -
  assume k: "0 < k" and z: "shift_left_xor k x = 0"
  have "\<not> bit x n" for n
  proof (induction n rule: less_induct)
    case (less n)
    show ?case
    proof
      assume b: "bit x n"
      then have n: "n < 64" using bit_imp_le_length [of x] by fastforce
      have "\<not> bit (shift_left_xor k x) n" by (simp add: z)
      then have "k \<le> n \<and> bit x (n - k)"
        using b n by (auto simp: shift_left_xor_def bit_xor_iff bit_push_bit_iff)
      with less.IH [of "n - k"] k show False by simp
    qed
  qed
  then show "x = 0" by (simp add: bit_eq_iff)
qed

lemma xorshift_state_neq_0 [inv_rules]: "s \<noteq> 0 \<Longrightarrow> xorshift_state s \<noteq> 0"
  unfolding xorshift_state_def
  by (metis shift_right_xor_eq_0 shift_left_xor_eq_0 zero_less_numeral)

lemma rng_seed_neq_0: "rng_seed clock \<noteq> 0"
proof
  assume "rng_seed clock = 0"
  moreover have "bit (rng_seed clock) 0" by (simp add: rng_seed_def bit_or_iff)
  ultimately show False by simp
qed

lemma xorshift_draw_range: "0 \<le> xorshift_draw s \<and> xorshift_draw s < 1"
proof -
  have "unat (drop_bit 11 (s * XORSHIFT_MULT)) = drop_bit 11 (unat (s * XORSHIFT_MULT))"
    by (rule unat_drop_bit_eq)
  also have "\<dots> = unat (s * XORSHIFT_MULT) div 2 ^ 11"
    by (rule drop_bit_eq_div)
  also have "\<dots> < 2 ^ 53"
    using unat_less_exp [of "s * XORSHIFT_MULT"] by (simp add: div_less_iff_less_mult)
  finally have "unat (drop_bit 11 (s * XORSHIFT_MULT)) < 2 ^ 53" .
  then have "(of_nat (unat (drop_bit 11 (s * XORSHIFT_MULT))) :: rat) < of_nat (2 ^ 53)"
    by (simp only: of_nat_less_iff)
  moreover have "(0 :: rat) \<le> of_nat (unat (drop_bit 11 (s * XORSHIFT_MULT)))"
    by (rule of_nat_0_le_iff)
  ultimately show ?thesis unfolding xorshift_draw_def by (simp only: divide_less_eq_1_pos
        zero_le_divide_iff) simp
qed

text \<open>The states of the source after any number of draws.\<close>

definition rng_after :: "nat option \<Rightarrow> nat \<Rightarrow> u64" where
  "rng_after clock n = (xorshift_state ^^ n) (rng_seed clock)"

lemma rng_after_neq_0: "rng_after clock n \<noteq> 0"
  unfolding rng_after_def by (induction n) (simp_all add: rng_seed_neq_0 xorshift_state_neq_0)

section \<open>The target and the delay\<close>

lemma min_attempt_unat: "unat (min (a::u32) 31) = min (unat a) 31"
  by (auto simp: min_def word_le_nat_alt)

lemma unat_push_bit_one:
  assumes "n < 32"
  shows "unat (push_bit n (1::u32)) = 2 ^ n"
proof -
  have "push_bit n (1::u32) = word_of_nat (2 ^ n)" by (simp add: push_bit_eq_mult)
  then have "unat (push_bit n (1::u32)) = take_bit LENGTH(32) (2 ^ n)"
    by (simp only: unsigned_of_nat of_nat_id)
  also have "\<dots> = 2 ^ n mod 2 ^ 32"
    by (simp only: take_bit_eq_mod) simp
  also have "\<dots> = 2 ^ n"
    using assms by (intro mod_less power_strict_increasing) simp_all
  finally show ?thesis .
qed

lemma backoff_target_eq:
  "backoff_target b = min (min (rb_base b * 2 ^ min (unat (rb_attempt b)) 31) DUR_MAX) (rb_max b)"
proof -
  let ?k = "min (unat (rb_attempt b)) 31"
  have "unat (min (rb_attempt b) 31) = ?k" by (rule min_attempt_unat)
  then have "checked_shl1 (min (rb_attempt b) 31) = Some (push_bit ?k 1)"
    by (simp add: checked_shl1_def)
  moreover have "unat (push_bit ?k (1::u32)) = 2 ^ ?k" by (rule unat_push_bit_one) simp
  ultimately show ?thesis by (simp add: backoff_target_def dur_saturating_mul_def min_def)
qed

text \<open>
  The delay target of attempt \<open>n\<close> is \<open>base * 2 ^ n\<close> capped at the configured maximum: the
  32-bit shift and the saturating product never wrap, whatever the counter, for every maximum a
  \<open>Duration\<close> can hold and every base of at least one nanosecond that the cap reaches by
  \<open>2 ^ 31\<close> doublings.
\<close>

theorem backoff_target_exponential:
  assumes "rb_max b \<le> DUR_MAX" and "rb_max b \<le> rb_base b * 2 ^ 31"
  shows "backoff_target b = min (rb_base b * 2 ^ unat (rb_attempt b)) (rb_max b)"
proof (cases "unat (rb_attempt b) \<le> 31")
  case True
  then show ?thesis using assms(1) by (simp add: backoff_target_eq min_def)
next
  case False
  then have "(2::nat) ^ 31 \<le> 2 ^ unat (rb_attempt b)"
    by (intro power_increasing) simp_all
  then have "rb_base b * 2 ^ 31 \<le> rb_base b * 2 ^ unat (rb_attempt b)"
    by (rule mult_le_mono2)
  with assms(2) have "rb_max b \<le> rb_base b * 2 ^ unat (rb_attempt b)" by (rule order_trans)
  moreover have "min (unat (rb_attempt b)) 31 = 31" using False by simp
  ultimately show ?thesis using assms by (simp only: backoff_target_eq)
qed

theorem backoff_target_exponential_witness:
  "backoff_target \<lparr>rb_base = secs 1, rb_max = secs 60, rb_attempt = 3, rb_rng = 1\<rparr>
     = min (secs 1 * 2 ^ 3) (secs 60)"
  using backoff_target_exponential
    [of "\<lparr>rb_base = secs 1, rb_max = secs 60, rb_attempt = 3, rb_rng = 1\<rparr>"]
  by (simp add: DUR_MAX_def)

lemma mul_f64_le: "0 \<le> u \<Longrightarrow> u \<le> 1 \<Longrightarrow> mul_f64 d u \<le> d"
proof -
  assume u: "0 \<le> u" "u \<le> 1"
  have "of_nat d * u \<le> of_nat d * 1" using u by (intro mult_left_mono) simp_all
  then have "round (of_nat d * u) \<le> round (of_nat d :: rat)" by (intro round_mono) simp
  then show ?thesis by (simp add: mul_f64_def)
qed

lemma clamp01_range: "0 \<le> clamp01 u \<and> clamp01 u \<le> 1"
  by (simp add: clamp01_def)

lemma next_delay_rng: "rb_rng (snd (next_delay b)) = xorshift_state (rb_rng b)"
  by (simp add: next_delay_def xorshift_next_def Let_def)

lemma next_delay_conf [simp]:
  "rb_base (snd (next_delay b)) = rb_base b" "rb_max (snd (next_delay b)) = rb_max b"
  by (simp_all add: next_delay_def xorshift_next_def Let_def)

lemma unat_plus_one:
  assumes "(a :: u32) \<noteq> -1"
  shows "unat (a + 1) = unat a + 1"
proof -
  have "unat (-1 :: u32) = 4294967295" by (simp add: unsigned_minus_1_eq_mask mask_eq_exp_minus_1)
  then have "unat a \<noteq> 4294967295" using assms word_unat_eq_iff [of a "-1"] by metis
  moreover have "unat a < 4294967296" using unat_less_exp [of a] by simp
  ultimately show ?thesis by (simp add: unat_word_ariths)
qed

lemma next_delay_attempt:
  "unat (rb_attempt (snd (next_delay b))) = min (unat (rb_attempt b) + 1) (2 ^ 32 - 1)"
proof (cases "rb_attempt b = -1")
  case True
  then show ?thesis by (simp add: next_delay_def xorshift_next_def Let_def unsigned_minus_1_eq_mask mask_eq_exp_minus_1)
next
  case False
  then have "unat (rb_attempt b + 1) = unat (rb_attempt b) + 1"
    by (rule unat_plus_one)
  moreover have "unat (rb_attempt b + 1) < 2 ^ 32"
    using unat_less_exp [of "rb_attempt b + 1"] by simp
  ultimately show ?thesis
    using False by (simp add: next_delay_def xorshift_next_def Let_def)
qed

text \<open>
  A reconnect delay never exceeds the current target nor the configured maximum; drawing it
  counts the attempt (saturating at the 32-bit maximum), and a session that lasted at least the
  maximum starts the curve again while a shorter one leaves it alone.
\<close>

theorem next_delay_bounded_and_counts:
  "(case next_delay b of (d, b') \<Rightarrow>
      d \<le> backoff_target b \<and> d \<le> rb_max b
      \<and> unat (rb_attempt b') = min (unat (rb_attempt b) + 1) (2 ^ 32 - 1)
      \<and> backoff_target (session_lasted (rb_max b') b') = min (min (rb_base b) DUR_MAX) (rb_max b)
      \<and> (rb_max b' = 0 \<or> session_lasted (rb_max b' - 1) b' = b'))"
proof -
  obtain d b' where n: "next_delay b = (d, b')" by (cases "next_delay b")
  have "d = mul_f64 (backoff_target b) (clamp01 (xorshift_draw (xorshift_state (rb_rng b))))"
    using n by (simp add: next_delay_def xorshift_next_def Let_def)
  then have d: "d \<le> backoff_target b" using mul_f64_le clamp01_range by simp
  have "backoff_target b \<le> rb_max b" by (simp add: backoff_target_eq)
  moreover have "rb_base b' = rb_base b" "rb_max b' = rb_max b"
    using n next_delay_conf [of b] by simp_all
  ultimately show ?thesis
    using n d next_delay_attempt [of b] by (auto simp: session_lasted_def backoff_target_eq)
qed

text \<open>
  The jitter source is sound for the life of the process: from every seed, after any number of
  draws, its state is not the absorbing zero and its draw lies in \<open>[0, 1)\<close>.
\<close>

theorem jitter_source_sound:
  "rng_after clock n \<noteq> 0
   \<and> 0 \<le> xorshift_draw (rng_after clock n) \<and> xorshift_draw (rng_after clock n) < 1"
  using rng_after_neq_0 xorshift_draw_range by blast

end
