(* ===== verification/Reconnect.thy ===== *)
theory Reconnect
  imports Session_Discipline Session_Cache Backoff
begin

text \<open>
  The process-level connection loop (\<open>crates/supervisor-core/src/connection.rs\<close>): the handshake
  request, the initial-connect retries, registration, the flush of queued acknowledgements, one
  whole session (\<open>run_session\<close>) and the reconnect loop around it (\<open>run_until_exit\<close>, \<open>run\<close>). What the
  network answers is a list of tries per session; building a request from a URL and a header value
  from a string are parameters (\<open>tungstenite\<close> and \<open>http\<close>). The startup cache sweep shows
  as an event with the keys it protects; what the two startup sweeps do to the disk is modelled in
  \<open>Cache\<close> and \<open>Sweep\<close>.
\<close>

section \<open>Handshake\<close>

record handshake =
  hs_url :: string
  hs_authorization :: string

definition handshake_request :: "(string \<Rightarrow> bool) \<Rightarrow> (string \<Rightarrow> bool) \<Rightarrow> connection_config
    \<Rightarrow> string + handshake" where
  "handshake_request url_ok header_ok cfg =
     (if \<not> url_ok (cc_dispatch_url cfg) then Inl ''invalid url''
      else if \<not> header_ok (''Bearer '' @ cc_token cfg)
      then Inl ''worker token is not a valid header value''
      else Inr \<lparr>hs_url = cc_dispatch_url cfg, hs_authorization = ''Bearer '' @ cc_token cfg\<rparr>)"

section \<open>The initial connect\<close>

datatype connect_result = ConnOk | ConnHttp nat string | ConnErr string

fun is_auth_rejection :: "connect_result \<Rightarrow> bool" where
  "is_auth_rejection (ConnHttp st e) = (st = 401 \<or> st = 403)"
| "is_auth_rejection _ = False"

fun connect_error_text :: "connect_result \<Rightarrow> string" where
  "connect_error_text (ConnHttp st e) = e"
| "connect_error_text (ConnErr e) = e"
| "connect_error_text ConnOk = []"

text \<open>\<open>StatusCode\<close> as it is displayed, for the two codes the message can carry and its fallback.\<close>

definition rejection_status :: "connect_result \<Rightarrow> string" where
  "rejection_status r =
     (case r of ConnHttp st e \<Rightarrow>
        (if st = 401 then ''401 Unauthorized'' else if st = 403 then ''403 Forbidden''
         else show_nat st)
      | _ \<Rightarrow> ''500 Internal Server Error'')"

definition auth_rejection_msg :: "connect_result \<Rightarrow> string" where
  "auth_rejection_msg r =
     ''Dispatch rejected this node's credentials (HTTP '' @ rejection_status r
     @ ''): the worker token                      is invalid, expired, or revoked. Re-run `decent login` with a fresh                      token. (Retrying will not help.)''"

definition unreachable_msg :: "u32 \<Rightarrow> connect_result \<Rightarrow> string" where
  "unreachable_msg mx r = ''Failed to connect to dispatch after '' @ show_nat (unat mx)
     @ '' attempts: '' @ connect_error_text r"

record connect_try =
  ct_shutdown :: bool
  ct_result :: connect_result
  ct_shutdown_in_retry :: bool

datatype connect_end = CeConnected | CeShutdown | CeError string

definition status_init :: "connection_config \<Rightarrow> register_message \<Rightarrow> observability \<Rightarrow> observability" where
  "status_init cfg reg obs =
     update_status (\<lambda>st. st\<lparr>ss_connection := Connecting,
       ss_dispatch_url := Some (cc_dispatch_url cfg),
       ss_node_identity := Some (from_register_fields (reg_chip reg)
         (case reg_platform reg of Company \<Rightarrow> ''company'' | Community \<Rightarrow> ''community'')
         (reg_supervisor_version reg)),
       ss_allow_real_jobs := allows_real_jobs obs,
       ss_auto_upgrade_enabled := auto_upgrade_enabled obs,
       ss_last_error := None, ss_update_available := None\<rparr>) obs"

definition fail_status :: "string \<Rightarrow> supervisor_status \<Rightarrow> supervisor_status" where
  "fail_status msg st = st\<lparr>ss_connection := Disconnected, ss_last_error := Some msg\<rparr>"

text \<open>The result is nothing when the tries given end before the loop does; \<open>n\<close> counts the connects.\<close>

fun connect_loop :: "connection_config \<Rightarrow> u32 \<Rightarrow> connect_try list \<Rightarrow> observability
    \<Rightarrow> connect_end option \<times> nat \<times> observability" where
  "connect_loop cfg attempts [] obs = (None, 0, obs)"
| "connect_loop cfg attempts (c # cs) obs =
     (let attempts = attempts + 1;
          r = ct_result c
      in if ct_shutdown c
         then (Some CeShutdown, 0, update_status (set_connection Disconnected) obs)
         else if r = ConnOk then (Some CeConnected, 1, obs)
         else if is_auth_rejection r
         then (Some (CeError (auth_rejection_msg r)), 1,
               update_status (fail_status (auth_rejection_msg r)) obs)
         else if attempts < cc_max_connect_attempts cfg
         then (if ct_shutdown_in_retry c
               then (Some CeShutdown, 1, update_status (set_connection Disconnected) obs)
               else (case connect_loop cfg attempts cs obs of (e, n, obs') \<Rightarrow> (e, Suc n, obs')))
         else (let msg = unreachable_msg (cc_max_connect_attempts cfg) r
               in (Some (CeError msg), 1, update_status (fail_status msg) obs)))"

section \<open>Registration and flush\<close>

text \<open>\<open>ok k\<close>: does the \<open>k\<close>-th send of the flush succeed. The result is what was sent and what is left.\<close>

fun flush_acks :: "(nat \<Rightarrow> bool) \<Rightarrow> nat \<Rightarrow> job_canceled_ack_message list
    \<Rightarrow> job_canceled_ack_message list \<times> job_canceled_ack_message list" where
  "flush_acks ok k [] = ([], [])"
| "flush_acks ok k (a # pending) =
     (if ok k then (case flush_acks ok (Suc k) pending of (sent, left) \<Rightarrow> (a # sent, left))
      else ([], a # pending))"

section \<open>One session\<close>

record session_input =
  si_tries :: "connect_try list"
  si_register_ok :: bool
  si_flush_ok :: "nat \<Rightarrow> bool"
  si_now :: instant
  si_turns :: "turn list"
  si_elapsed :: duration
  si_shutdown_in_backoff :: bool

datatype session_result = SrDisconnect disconnect | SrError string | SrRunning

text \<open>The ghost log, in order: each startup cache sweep, the frames sent at registration and by the
  flush, and the trace of the session.\<close>

record run_state =
  rs_protected :: "string list"
  rs_pending :: "job_canceled_ack_message list"
  rs_obs :: observability
  rs_backoff :: reconnect_backoff
  rs_flushed :: "job_canceled_ack_message list"
  rs_delays :: "duration list"
  rs_log :: "event list"

definition run_session :: "instant \<Rightarrow> connection_config \<Rightarrow> register_message \<Rightarrow> session_input
    \<Rightarrow> run_state \<Rightarrow> session_result \<times> run_state" where
  "run_session mx cfg reg inp s =
     (case connect_loop cfg 0 (si_tries inp) (status_init cfg reg (rs_obs s)) of
        (None, _, obs) \<Rightarrow> (SrRunning, s\<lparr>rs_obs := obs\<rparr>)
      | (Some CeShutdown, _, obs) \<Rightarrow> (SrDisconnect DShutdown, s\<lparr>rs_obs := obs\<rparr>)
      | (Some (CeError e), _, obs) \<Rightarrow> (SrError e, s\<lparr>rs_obs := obs\<rparr>)
      | (Some CeConnected, _, obs) \<Rightarrow>
          (let obs1 = update_status (set_connection Connected) obs;
               s1 = s\<lparr>rs_log := rs_log s @ [SweptCache (rs_protected s)]\<rparr>
           in if \<not> si_register_ok inp
              then (SrDisconnect DAbnormal,
                    s1\<lparr>rs_obs := update_status (set_connection Disconnected) obs1\<rparr>)
              else
                let obs2 = update_status (set_connection Registered) obs1;
                    (sent, left) = flush_acks (si_flush_ok inp) 0 (rs_pending s);
                    (e, d) = run_session_loop cfg reg (si_turns inp)
                               (session_start mx cfg (si_now inp) (rs_protected s) left obs2)
                in ((case d of Some x \<Rightarrow> SrDisconnect x | None \<Rightarrow> SrRunning),
                    s1\<lparr>rs_protected := ses_protected e, rs_pending := ses_pending e,
                       rs_obs := ses_obs e, rs_flushed := rs_flushed s @ sent,
                       rs_log := rs_log s1 @ map Sent (Register reg # map JobCanceledAck sent)
                                  @ ses_trace e\<rparr>)))"

section \<open>The reconnect loop\<close>

datatype connection_exit =
    ExShutdown | ExHeartbeatLimit | ExUpgradeRequired | ExDisconnected | ExAutoUpgrade string

datatype run_result = RunExit connection_exit | RunError string | RunGoing

fun terminal_exit :: "disconnect \<Rightarrow> connection_exit option" where
  "terminal_exit DShutdown = Some ExShutdown"
| "terminal_exit DHeartbeatLimit = Some ExHeartbeatLimit"
| "terminal_exit DUpgradeRequired = Some ExUpgradeRequired"
| "terminal_exit (DAutoUpgrade v) = Some (ExAutoUpgrade v)"
| "terminal_exit DAbnormal = None"
| "terminal_exit DClean = None"

text \<open>One turn of the loop: a session, and the backoff sleep when the loop goes on.\<close>

definition reconnect_turn :: "instant \<Rightarrow> connection_config \<Rightarrow> register_message \<Rightarrow> session_input
    \<Rightarrow> run_state \<Rightarrow> run_state \<times> run_result option" where
  "reconnect_turn mx cfg reg inp s =
     (case run_session mx cfg reg inp s of
        (SrRunning, s1) \<Rightarrow> (s1, Some RunGoing)
      | (SrError e, s1) \<Rightarrow> (s1, Some (RunError e))
      | (SrDisconnect d, s1) \<Rightarrow>
          (case terminal_exit d of
             Some x \<Rightarrow> (s1, Some (RunExit x))
           | None \<Rightarrow>
               (if \<not> cc_reconnect cfg then (s1, Some (RunExit ExDisconnected))
                else
                  let b = session_lasted (si_elapsed inp) (rs_backoff s1);
                      (delay, b') = next_delay b;
                      s2 = s1\<lparr>rs_backoff := b', rs_delays := rs_delays s1 @ [delay],
                              rs_obs := update_status (set_connection Reconnecting) (rs_obs s1)\<rparr>
                  in if si_shutdown_in_backoff inp
                     then (s2\<lparr>rs_obs := update_status (set_connection Disconnected) (rs_obs s2)\<rparr>,
                           Some (RunExit ExShutdown))
                     else (s2, None))))"

definition run_start :: "connection_config \<Rightarrow> register_message \<Rightarrow> nat option \<Rightarrow> observability
    \<Rightarrow> run_state" where
  "run_start cfg reg clock obs =
     \<lparr>rs_protected = [], rs_pending = [], rs_obs = status_init cfg reg obs,
      rs_backoff = backoff_new (cc_reconnect_backoff_base cfg) (cc_reconnect_backoff_max cfg) clock,
      rs_flushed = [], rs_delays = [], rs_log = []\<rparr>"

definition run_until_exit :: "(string \<Rightarrow> bool) \<Rightarrow> (string \<Rightarrow> bool) \<Rightarrow> instant \<Rightarrow> connection_config
    \<Rightarrow> register_message \<Rightarrow> nat option \<Rightarrow> session_input list \<Rightarrow> observability
    \<Rightarrow> run_state \<times> run_result" where
  "run_until_exit url_ok header_ok mx cfg reg clock inps obs =
     (case handshake_request url_ok header_ok cfg of
        Inl e \<Rightarrow> (run_start cfg reg clock obs\<lparr>rs_obs := obs\<rparr>, RunError e)
      | Inr hs \<Rightarrow>
          (case run_until (reconnect_turn mx cfg reg) inps (run_start cfg reg clock obs) of
             (s, Some r) \<Rightarrow> (s, r) | (s, None) \<Rightarrow> (s, RunGoing)))"

fun run_result_unit :: "run_result \<Rightarrow> (string + unit) option" where
  "run_result_unit (RunExit x) = Some (Inr ())"
| "run_result_unit (RunError e) = Some (Inl e)"
| "run_result_unit RunGoing = None"

section \<open>The connect loop ends\<close>

lemma connect_loop_bound:
  "unat attempts \<le> unat (cc_max_connect_attempts cfg) - 1 \<Longrightarrow>
     fst (snd (connect_loop cfg attempts cs obs))
       \<le> max 1 (unat (cc_max_connect_attempts cfg) - unat attempts)
   \<and> (fst (connect_loop cfg attempts cs obs) = None \<longrightarrow>
        length cs < max 1 (unat (cc_max_connect_attempts cfg) - unat attempts))"
proof (induction cs arbitrary: attempts)
  case (Cons c cs)
  let ?mx = "cc_max_connect_attempts cfg"
  show ?case
  proof (cases "\<not> ct_shutdown c \<and> ct_result c \<noteq> ConnOk \<and> \<not> is_auth_rejection (ct_result c)
      \<and> attempts + 1 < ?mx \<and> \<not> ct_shutdown_in_retry c")
    case True
    then have "attempts \<noteq> -1" using Cons.prems unat_less_exp [of ?mx]
      by (auto simp: unsigned_minus_1_eq_mask mask_eq_exp_minus_1)
    then have u: "unat (attempts + 1) = unat attempts + 1" by (rule unat_plus_one)
    with True have lt: "unat attempts + 1 < unat ?mx" by (simp add: word_less_nat_alt)
    have "fst (snd (connect_loop cfg (attempts + 1) cs obs))
        \<le> max 1 (unat ?mx - unat (attempts + 1))
      \<and> (fst (connect_loop cfg (attempts + 1) cs obs) = None \<longrightarrow>
           length cs < max 1 (unat ?mx - unat (attempts + 1)))"
      by (rule Cons.IH) (use lt u in simp)
    then show ?thesis using True lt u by (auto simp: Let_def split: prod.splits)
  qed (auto simp: Let_def)
qed simp

text \<open>
  The initial connect ends. A session connects at most \<open>max_connect_attempts\<close> times (once when
  that is zero), whatever the network answers, and given that many tries it has an answer.
\<close>

theorem initial_connect_bounded:
  "fst (snd (connect_loop cfg 0 cs obs)) \<le> max 1 (unat (cc_max_connect_attempts cfg))
   \<and> (fst (connect_loop cfg 0 cs obs) = None \<longrightarrow>
        length cs < max 1 (unat (cc_max_connect_attempts cfg)))"
  using connect_loop_bound [of 0 cfg cs obs] by simp

theorem initial_connect_bounded_witness:
  "fst (snd (connect_loop sample_config 0 [] (channels default_status)))
     \<le> max 1 (unat (cc_max_connect_attempts sample_config))
   \<and> fst (connect_loop sample_config 0 [] (channels default_status)) = None"
  using initial_connect_bounded [of sample_config "[]" "channels default_status"] by simp

text \<open>
  Bad credentials are not retried: the first HTTP 401 or 403 ends the connect with the
  credentials error on the status, whatever attempts are left; other failures before it were
  retried.
\<close>

theorem auth_rejection_fails_fast:
  assumes "list_all (\<lambda>c. \<not> ct_shutdown c \<and> (\<exists>e. ct_result c = ConnErr e)
                       \<and> \<not> ct_shutdown_in_retry c) cs"
    and "length cs < unat (cc_max_connect_attempts cfg)"
    and "\<not> ct_shutdown c" and "is_auth_rejection (ct_result c)"
  shows "connect_loop cfg 0 (cs @ c # cs') obs
     = (Some (CeError (auth_rejection_msg (ct_result c))), Suc (length cs),
        update_status (fail_status (auth_rejection_msg (ct_result c))) obs)"
proof -
  have "connect_loop cfg attempts (cs @ c # cs') obs
     = (Some (CeError (auth_rejection_msg (ct_result c))), Suc (length cs),
        update_status (fail_status (auth_rejection_msg (ct_result c))) obs)"
    if "unat attempts + length cs < unat (cc_max_connect_attempts cfg)" for attempts
    using that assms(1)
  proof (induction cs arbitrary: attempts)
    case Nil
    then show ?case using assms(3,4) by (cases "ct_result c") (auto simp: Let_def)
  next
    case (Cons x xs)
    then obtain e where x: "ct_result x = ConnErr e" by auto
    have "attempts \<noteq> -1" using Cons.prems unat_less_exp [of "cc_max_connect_attempts cfg"]
      by (auto simp: unsigned_minus_1_eq_mask mask_eq_exp_minus_1)
    then have u: "unat (attempts + 1) = unat attempts + 1" by (rule unat_plus_one)
    have "attempts + 1 < cc_max_connect_attempts cfg"
      using u Cons.prems by (simp add: word_less_nat_alt)
    moreover have "unat (attempts + 1) + length xs < unat (cc_max_connect_attempts cfg)"
      using u Cons.prems by simp
    ultimately show ?case using Cons x by (simp add: Let_def)
  qed
  from this [of 0] assms(2) show ?thesis by simp
qed

theorem auth_rejection_fails_fast_witness:
  "fst (connect_loop sample_config 0
     [\<lparr>ct_shutdown = False, ct_result = ConnErr ''e'', ct_shutdown_in_retry = False\<rparr>,
      \<lparr>ct_shutdown = False, ct_result = ConnHttp 401 ''u'', ct_shutdown_in_retry = False\<rparr>]
     (channels default_status))
   = Some (CeError (auth_rejection_msg (ConnHttp 401 ''u'')))"
  using auth_rejection_fails_fast
    [of "[\<lparr>ct_shutdown = False, ct_result = ConnErr ''e'', ct_shutdown_in_retry = False\<rparr>]"
        sample_config
        "\<lparr>ct_shutdown = False, ct_result = ConnHttp 401 ''u'', ct_shutdown_in_retry = False\<rparr>"
        "[]" "channels default_status"]
  by (simp add: sample_config_def config_new_def)

section \<open>Acknowledgements are not lost\<close>

lemma flush_acks_parts:
  "flush_acks ok k pending = (sent, left) \<Longrightarrow>
     pending = sent @ left \<and> (\<forall>i < length sent. ok (k + i))
     \<and> (left \<noteq> [] \<longrightarrow> \<not> ok (k + length sent))"
proof (induction pending arbitrary: k sent left)
  case (Cons a pending)
  show ?case
  proof (cases "ok k")
    case True
    obtain se le where f: "flush_acks ok (Suc k) pending = (se, le)"
      by (cases "flush_acks ok (Suc k) pending")
    with True Cons.prems have "sent = a # se" "left = le" by auto
    then show ?thesis using Cons.IH [OF f] True by (auto simp: less_Suc_eq_0_disj)
  next
    case False
    then show ?thesis using Cons.prems by auto
  qed
qed simp

lemma queue_pending_prefix: "prefix p (queue_pending_cancel_ack now c p)"
  by (simp add: queue_pending_cancel_ack_def)

lemma queue_drained_prefix: "prefix p (queue_drained_cancel_ack now c out p)"
  using queue_drained_cases [of now c out p] by auto

lemma join_all_prefix: "prefix (ses_pending s) (ses_pending (join_all join js s))"
proof (induction js arbitrary: s)
  case (Cons j js)
  obtain out now where jn: "join (ifj_handle j) = (out, now)" by (cases "join (ifj_handle j)")
  let ?q = "queue_drained_cancel_ack now (drained_ack_context j) out (ses_pending s)"
  have "prefix (ses_pending s) ?q" by (rule queue_drained_prefix)
  also have "prefix ?q (ses_pending (join_all join (j # js) s))"
    using Cons.IH [of "note_events [Joined (ifj_handle j) out] (s\<lparr>ses_pending := ?q\<rparr>)"] jn
    by simp
  finally show ?case .
qed simp

lemma leave_prefix: "prefix (ses_pending s) (ses_pending (fst (leave t d s)))"
  using join_all_prefix [of "note_events (cancel_events (status_update (set_connection Disconnected) s))
      ((status_update (set_connection Disconnected) s)\<lparr>ses_in_flight := None, ses_draining := []\<rparr>)"]
  by (simp add: leave_def drain_unfold)

lemma acknowledge_prefix: "prefix (ses_pending s) (ses_pending (acknowledge_cancel t s))"
  by (auto simp: acknowledge_cancel_def Let_def queue_pending_prefix split: option.splits)

lemma worker_pending:
  "ses_pending (settle_in_flight p s) = ses_pending s"
  "ses_pending (hand_over_cancel p s) = ses_pending s"
  by (simp_all add: settle_in_flight_def hand_over_cancel_def split: option.splits)

lemma worker_prefix: "prefix (ses_pending s) (ses_pending (fst (worker_arm t src msg s)))"
proof -
  define s0 where "s0 = note_events [Consumed src msg] s"
  define s1 where "s1 = (case terminal_of msg of
      None \<Rightarrow> s0 | Some p \<Rightarrow> hand_over_cancel p (settle_in_flight p s0))"
  have p: "ses_pending s1 = ses_pending s"
    by (simp add: s1_def s0_def worker_pending split: option.splits)
  have l: "prefix (ses_pending s) (ses_pending (fst (leave t d (status_update f s1))))" for d f
    using leave_prefix [of "status_update f s1" t d] p by simp
  have a: "prefix (ses_pending s) (ses_pending (acknowledge_cancel t (status_update f s1)))" for f
    using acknowledge_prefix [of "status_update f s1" t] p by simp
  show ?thesis
    unfolding worker_arm_def s0_def [symmetric] s1_def [symmetric] Let_def
    using l a p by auto
qed

lemma server_prefix: "prefix (ses_pending s) (ses_pending (fst (server_arm t m s)))"
proof (cases m)
  case (JobAssign a)
  let ?s2 = "status_update (\<lambda>st. st\<lparr>ss_current_job := Some \<lparr>js_id = ja_job_id a,
      js_tier = tier_of (ja_kind a), js_progress = 0, js_phase = Downloading\<rparr>\<rparr>)
      (s\<lparr>ses_gate := mark_busy (ses_gate s)\<rparr>)"
  show ?thesis
    using leave_prefix [of ?s2 t DAbnormal] JobAssign
    by (simp add: assign_arm_def Let_def reject_job_def spawn_job_def)
qed (auto simp: cancel_arm_def update_arm_def Let_def split: option.splits)

lemma stream_prefix: "prefix (ses_pending s) (ses_pending (fst (stream_arm t item s)))"
  using leave_prefix [of s t] leave_prefix [of "status_update f s" t for f] server_prefix [of s t]
  by (cases "(t, item, s)" rule: stream_arm.cases)
     (auto simp: close_arm_def split: sum.splits option.splits)

lemma turn_prefix: "prefix (ses_pending s) (ses_pending (fst (session_turn cfg reg t s)))"
proof -
  let ?s = "before_select t s"
  have sh: "prefix (ses_pending s) (ses_pending (fst (shutdown_arm t ?s)))"
    unfolding shutdown_arm_def
    using leave_prefix [of "note_events [SentClose]
      (if ses_in_flight ?s \<noteq> None then status_update (set_phase Canceled) ?s else ?s)" t DShutdown]
    by (simp split: if_splits)
  have tk: "prefix (ses_pending s) (ses_pending (fst (tick_arm t ?s)))"
    using leave_prefix [of "note_events [SentClose] (?s\<lparr>ses_gate := g\<rparr>)" t for g]
    by (simp add: tick_arm_def Let_def split: option.splits)
  have hb: "prefix (ses_pending s) (ses_pending (fst (heartbeat_arm cfg reg t ?s)))"
    using leave_prefix [of "surface_purges (tu_purges t) ?s" t DAbnormal]
      leave_prefix [of "note_events es ((note_events es' (surface_purges (tu_purges t) ?s))\<lparr>ses_heartbeats := h\<rparr>)"
        t DHeartbeatLimit for es es' h]
    by (simp add: heartbeat_arm_def Let_def split: option.splits)
  have wk: "prefix (ses_pending s) (ses_pending (fst (worker_arm t src msg (?s\<lparr>ses_queue := q\<rparr>))))"
    for src msg q
    using worker_prefix [of "?s\<lparr>ses_queue := q\<rparr>"] by simp
  have st: "prefix (ses_pending s) (ses_pending (fst (stream_arm t item ?s)))" for item
    using stream_prefix [of ?s] by simp
  show ?thesis
    unfolding session_turn_def select_arm_def
    using sh tk hb wk st by (auto split: list.splits option.splits)
qed

lemma loop_prefix: "prefix (ses_pending s) (ses_pending (fst (run_session_loop cfg reg ts s)))"
  unfolding run_session_loop_def
proof (induction ts arbitrary: s)
  case (Cons t ts)
  obtain s1 d where r: "session_turn cfg reg t s = (s1, d)" by (cases "session_turn cfg reg t s")
  then have "prefix (ses_pending s) (ses_pending s1)" using turn_prefix [of s cfg reg t] by simp
  then show ?case using Cons.IH [of s1] r by (cases d) (auto intro: prefix_order.trans)
qed simp


definition sample_session :: "turn list \<Rightarrow> session_input" where
  "sample_session ts =
     \<lparr>si_tries = [\<lparr>ct_shutdown = False, ct_result = ConnOk, ct_shutdown_in_retry = False\<rparr>],
      si_register_ok = True, si_flush_ok = (\<lambda>k. True), si_now = secs 10, si_turns = ts,
      si_elapsed = secs 5, si_shutdown_in_backoff = False\<rparr>"

definition queue_one :: "job_canceled_ack_message \<Rightarrow> run_state" where
  "queue_one a = (run_start sample_config sample_register None (channels default_status))
     \<lparr>rs_pending := [a]\<rparr>"

definition late_ack :: job_canceled_ack_message where
  "late_ack = \<lparr>ack_tenant = ''driffs'', ack_job_id = ''a'', ack_attempt = 1,
     ack_teardown_ms = Some 812\<rparr>"


section \<open>The whole run\<close>

definition run_ok :: "connection_config \<Rightarrow> run_state \<Rightarrow> bool" where
  "run_ok cfg s \<longleftrightarrow> rb_max (rs_backoff s) = cc_reconnect_backoff_max cfg
     \<and> (\<forall>d\<in>set (rs_delays s). d \<le> cc_reconnect_backoff_max cfg)
     \<and> length (rs_pending s) \<le> MAX_PENDING_CANCEL_ACKS"

definition run_exit_ok :: "connection_config \<Rightarrow> run_state \<Rightarrow> run_result \<Rightarrow> bool" where
  "run_exit_ok cfg s r \<longleftrightarrow> run_ok cfg s \<and> (r = RunExit ExDisconnected \<longrightarrow> \<not> cc_reconnect cfg)"

definition input_ok :: "session_input \<Rightarrow> run_state \<Rightarrow> bool" where
  "input_ok inp s \<longleftrightarrow> well_fed (si_turns inp)"

lemma run_session_backoff [simp]:
  "rs_backoff (snd (run_session mx cfg reg inp s)) = rs_backoff s"
  "rs_delays (snd (run_session mx cfg reg inp s)) = rs_delays s"
  by (auto simp: run_session_def Let_def split: prod.splits option.splits connect_end.splits)

lemma run_session_pending:
  assumes "well_fed (si_turns inp)" and "length (rs_pending s) \<le> MAX_PENDING_CANCEL_ACKS"
  shows "length (rs_pending (snd (run_session mx cfg reg inp s))) \<le> MAX_PENDING_CANCEL_ACKS"
proof -
  obtain sent left where f: "flush_acks (si_flush_ok inp) 0 (rs_pending s) = (sent, left)"
    by (cases "flush_acks (si_flush_ok inp) 0 (rs_pending s)")
  then have left: "length left \<le> MAX_PENDING_CANCEL_ACKS"
    using flush_acks_parts [OF f] assms(2) by simp
  have "length (ses_pending (fst (run_session_loop cfg reg (si_turns inp)
      (session_start mx cfg now keys left obs)))) \<le> MAX_PENDING_CANCEL_ACKS" for now keys obs
    using session_disc_exit [OF assms(1) left prod.collapse [symmetric]]
    by (simp add: disc_exit_def bounded_def)
  then show ?thesis
    using assms(2) f
    by (auto simp: run_session_def Let_def split: prod.splits option.splits connect_end.splits)
       (metis fst_conv)
qed

lemma session_lasted_conf [simp]: "rb_max (session_lasted d b) = rb_max b"
  by (simp add: session_lasted_def)

lemma next_delay_le: "next_delay b = (d, b') \<Longrightarrow> d \<le> rb_max b \<and> rb_max b' = rb_max b"
proof -
  assume n: "next_delay b = (d, b')"
  have "d = mul_f64 (backoff_target b) (clamp01 (xorshift_draw (xorshift_state (rb_rng b))))"
    using n by (simp add: next_delay_def xorshift_next_def Let_def)
  then have "d \<le> backoff_target b" using mul_f64_le clamp01_range by simp
  then show ?thesis using n next_delay_conf [of b] by (simp add: backoff_target_eq)
qed

lemma run_ok_session:
  "run_ok cfg s \<Longrightarrow> input_ok inp s \<Longrightarrow> run_ok cfg (snd (run_session mx cfg reg inp s))"
  by (simp add: run_ok_def input_ok_def run_session_pending)

lemma reconnect_turn_ok:
  assumes "run_ok cfg s" and "input_ok inp s"
  shows "run_ok cfg (fst (reconnect_turn mx cfg reg inp s))
    \<and> (snd (reconnect_turn mx cfg reg inp s) = Some (RunExit ExDisconnected) \<longrightarrow> \<not> cc_reconnect cfg)"
proof -
  obtain r s1 where rs: "run_session mx cfg reg inp s = (r, s1)"
    by (cases "run_session mx cfg reg inp s")
  have ok: "run_ok cfg s1" using run_ok_session [OF assms, of mx reg] rs by simp
  obtain d b' where nd: "next_delay (session_lasted (si_elapsed inp) (rs_backoff s1)) = (d, b')"
    by (cases "next_delay (session_lasted (si_elapsed inp) (rs_backoff s1))")
  have "d \<le> cc_reconnect_backoff_max cfg \<and> rb_max b' = cc_reconnect_backoff_max cfg"
    using next_delay_le [OF nd] ok by (simp add: run_ok_def)
  then show ?thesis
    using ok rs nd
    by (cases r; cases "case r of SrDisconnect x \<Rightarrow> terminal_exit x | _ \<Rightarrow> None")
       (auto simp: reconnect_turn_def run_ok_def Let_def split: disconnect.splits elim!: terminal_exit.elims)
qed

interpretation reconnect_run: machine_invariant "reconnect_turn mx cfg reg" input_ok "run_ok cfg"
    "run_exit_ok cfg" for mx cfg reg
proof unfold_locales
  fix s inp s' x
  assume a: "run_ok cfg s" "input_ok inp s"
  show "run_ok cfg s'" if "reconnect_turn mx cfg reg inp s = (s', None)"
    using reconnect_turn_ok [OF a, of mx reg] that by simp
  show "run_exit_ok cfg s' x" if "reconnect_turn mx cfg reg inp s = (s', Some x)"
    using reconnect_turn_ok [OF a, of mx reg] that by (simp add: run_exit_ok_def)
qed

lemma inputs_ok: "\<forall>inp\<in>set inps. well_fed (si_turns inp) \<Longrightarrow> reconnect_run.all_ok mx cfg reg inps s"
  by (induction inps arbitrary: s) (auto simp: input_ok_def split: prod.splits option.splits)

lemma run_ok_start: "run_ok cfg (run_start cfg reg clock obs)"
  by (simp add: run_ok_def run_start_def backoff_new_def)

text \<open>
  The reconnect loop over any number of sessions: no delay between two sessions exceeds the
  configured maximum, the queue of acknowledgements carried from session to session never exceeds
  thirty-two, and the run ends as merely disconnected only for a caller that turned reconnecting
  off.
\<close>

theorem reconnect_loop_bounded:
  assumes "\<forall>inp\<in>set inps. well_fed (si_turns inp)"
  shows "(case run_until_exit url_ok header_ok mx cfg reg clock inps obs of (s, r) \<Rightarrow>
            (\<forall>d\<in>set (rs_delays s). d \<le> cc_reconnect_backoff_max cfg)
            \<and> length (rs_pending s) \<le> 32
            \<and> (r = RunExit ExDisconnected \<longrightarrow> \<not> cc_reconnect cfg))"
proof -
  have inv: "case run_until (reconnect_turn mx cfg reg) inps (run_start cfg reg clock obs) of
      (s, None) \<Rightarrow> run_ok cfg s | (s, Some x) \<Rightarrow> run_exit_ok cfg s x"
    by (rule reconnect_run.run_invariant [OF run_ok_start inputs_ok [OF assms]])
  show ?thesis
  proof (cases "handshake_request url_ok header_ok cfg")
    case (Inl e)
    then show ?thesis by (simp add: run_until_exit_def run_start_def)
  next
    case (Inr hs)
    obtain s r where "run_until (reconnect_turn mx cfg reg) inps (run_start cfg reg clock obs) = (s, r)"
      by (cases "run_until (reconnect_turn mx cfg reg) inps (run_start cfg reg clock obs)")
    then show ?thesis
      using inv Inr
      by (cases r) (auto simp: run_until_exit_def run_ok_def run_exit_ok_def
          MAX_PENDING_CANCEL_ACKS_def)
  qed
qed

theorem reconnect_loop_bounded_witness:
  "length (rs_pending (fst (run_until_exit (\<lambda>u. True) (\<lambda>h. True) (secs 10000) sample_config
     sample_register None [sample_session [end_turn], sample_session [shutdown_turn]]
     (channels default_status)))) \<le> 32"
  using reconnect_loop_bounded
    [where inps = "[sample_session [end_turn], sample_session [shutdown_turn]]"
       and url_ok = "\<lambda>u. True" and header_ok = "\<lambda>h. True" and mx = "secs 10000"
       and cfg = sample_config and reg = sample_register and clock = None
       and obs = "channels default_status"]
  by (simp add: sample_session_def well_fed_def turn_defs split: prod.splits)

section \<open>Cache sweeps over the life of the process\<close>

definition job_seen :: "event list \<Rightarrow> job_assign_message \<Rightarrow> bool" where
  "job_seen tr a \<longleftrightarrow> (\<exists>k. Spawned k a \<in> set tr)"

fun seen_sweep :: "event list \<Rightarrow> event \<Rightarrow> bool" where
  "seen_sweep tr (SweptCache ks) = (ks = [] \<or> (\<exists>a. job_seen tr a \<and> ks = cache_keys_for a))"
| "seen_sweep tr _ = True"

definition log_ok :: "run_state \<Rightarrow> bool" where
  "log_ok s \<longleftrightarrow> every_event seen_sweep (rs_log s)
     \<and> rs_protected s = last_swept [] (rs_log s)
     \<and> (rs_protected s = [] \<or> (\<exists>a. job_seen (rs_log s) a \<and> rs_protected s = cache_keys_for a))"

lemma every_event_append:
  assumes "every_event P tr" and "every_event (\<lambda>t e. P (tr @ t) e) es"
  shows "every_event P (tr @ es)"
  using assms(2)
proof (induction es rule: rev_induct)
  case (snoc e es)
  then show ?case
    using every_event_snoc [of P "tr @ es" e] by (simp add: every_event_snoc)
qed (simp add: assms(1))

lemma every_event_mono:
  assumes "every_event P tr" and "\<And>t e. P t e \<Longrightarrow> Q t e"
  shows "every_event Q tr"
  using assms by (auto simp: every_event_def)

lemma last_assigned_seen: "last_assigned tr = Some a \<Longrightarrow> job_seen tr a"
proof (induction tr rule: rev_induct)
  case (snoc e tr)
  then show ?case by (cases e) (auto simp: job_seen_def)
qed simp

lemma last_swept_cases:
  "last_swept ks tr = ks \<or> SweptCache (last_swept ks tr) \<in> set tr"
proof (induction tr rule: rev_induct)
  case (snoc e tr)
  then show ?case by (cases e) auto
qed simp

lemma every_sweptD:
  assumes "every_event seen_sweep tr" and "SweptCache ks \<in> set tr"
  shows "ks = [] \<or> (\<exists>a. job_seen tr a \<and> ks = cache_keys_for a)"
proof -
  from assms(2) obtain t1 t2 where tr: "tr = t1 @ SweptCache ks # t2" by (meson split_list)
  then have "seen_sweep t1 (SweptCache ks)" using assms(1) every_eventD by blast
  then show ?thesis using tr by (auto simp: job_seen_def)
qed

lemma log_ok_startup:
  assumes "log_ok s"
  shows "log_ok (s\<lparr>rs_log := rs_log s @ [SweptCache (rs_protected s)], rs_obs := obs\<rparr>)"
  using assms by (auto simp: log_ok_def every_event_snoc job_seen_def)

lemma every_sent:
  assumes "every_event P tr" and "\<And>t m. P t (Sent m)"
  shows "every_event P (tr @ map Sent ms)"
  using assms by (induction ms rule: rev_induct) (simp_all add: every_event_snoc flip: append_assoc)

lemma fold_sent: "fold swept_by (map Sent ms) keys = keys"
  by (induction ms) simp_all

lemma log_ok_session:
  assumes "log_ok s" and "keyed (rs_protected s) e"
    and "rs_log s' = rs_log s @ SweptCache (rs_protected s) # map Sent ms @ ses_trace e"
    and "rs_protected s' = ses_protected e"
  shows "log_ok s'"
proof -
  let ?l = "rs_log s @ SweptCache (rs_protected s) # map Sent ms"
  have "seen_sweep (?l @ t) ev" if "keyed_sweep t ev" for t ev
    using that last_assigned_seen [of t]
    by (cases ev) (fastforce simp: job_seen_def)+
  then have "every_event (\<lambda>t. seen_sweep (?l @ t)) (ses_trace e)"
    using assms(2) by (auto simp: keyed_def elim: every_event_mono)
  moreover have "every_event seen_sweep ?l"
    using log_ok_startup [OF assms(1), of "rs_obs s"] every_sent
      [of seen_sweep "rs_log s @ [SweptCache (rs_protected s)]" ms] by (simp add: log_ok_def)
  ultimately have ev: "every_event seen_sweep (rs_log s')"
    using every_event_append [of seen_sweep ?l "ses_trace e"] assms(3) by simp
  moreover have sw: "rs_protected s' = last_swept [] (rs_log s')"
    using assms by (simp add: log_ok_def keyed_def last_swept_def fold_sent)
  moreover have "rs_protected s' = [] \<or> (\<exists>a. job_seen (rs_log s') a \<and> rs_protected s' = cache_keys_for a)"
    using last_swept_cases [of "[]" "rs_log s'"] every_sweptD [OF ev] sw by auto
  ultimately show ?thesis by (simp add: log_ok_def)
qed

lemma log_ok_fields [simp]:
  "log_ok (s\<lparr>rs_obs := obs\<rparr>) = log_ok s" "log_ok (s\<lparr>rs_backoff := b\<rparr>) = log_ok s"
  "log_ok (s\<lparr>rs_delays := ds\<rparr>) = log_ok s" "log_ok (s\<lparr>rs_flushed := fl\<rparr>) = log_ok s"
  "log_ok (s\<lparr>rs_pending := pn\<rparr>) = log_ok s"
  by (simp_all add: log_ok_def)

lemma log_ok_run_session:
  assumes "log_ok s"
  shows "log_ok (snd (run_session mx cfg reg inp s))"
proof -
  obtain x n obs where c: "connect_loop cfg 0 (si_tries inp) (status_init cfg reg (rs_obs s)) = (x, n, obs)"
    by (metis prod_cases3)
  show ?thesis
  proof (cases "x = Some CeConnected \<and> si_register_ok inp")
    case True
    obtain sent left where f: "flush_acks (si_flush_ok inp) 0 (rs_pending s) = (sent, left)"
      by (cases "flush_acks (si_flush_ok inp) 0 (rs_pending s)")
    let ?st = "session_start mx cfg (si_now inp) (rs_protected s) left
      (update_status (set_connection Registered) (update_status (set_connection Connected) obs))"
    obtain e d where r: "run_session_loop cfg reg (si_turns inp) ?st = (e, d)"
      by (cases "run_session_loop cfg reg (si_turns inp) ?st")
    have "keyed (rs_protected s) e" by (rule keyed_run [OF r])
    then show ?thesis
      using c f r True
      by (intro log_ok_session [OF assms, of e _ "Register reg # map JobCanceledAck sent"])
        (simp_all add: run_session_def Let_def)
  next
    case False
    then show ?thesis
      using c assms log_ok_startup [OF assms]
      by (auto simp: run_session_def Let_def split: option.splits connect_end.splits)
  qed
qed

lemma log_ok_turn [inv_rules]:
  assumes "log_ok s"
  shows "log_ok (fst (reconnect_turn mx cfg reg inp s))"
proof -
  obtain r s1 where rs: "run_session mx cfg reg inp s = (r, s1)"
    by (cases "run_session mx cfg reg inp s")
  have "log_ok s1" using log_ok_run_session [OF assms, of mx cfg reg inp] rs by simp
  then show ?thesis
    using rs by (auto simp: reconnect_turn_def Let_def split: session_result.splits option.splits
        prod.splits)
qed

interpretation reconnect_log: machine_invariant "reconnect_turn mx cfg reg" "\<lambda>inp s. True" log_ok
    "\<lambda>s r. log_ok s" for mx cfg reg
  by unfold_locales (metis fst_conv log_ok_turn)+

lemma log_ok_start: "log_ok (run_start cfg reg clock obs)"
  by (simp add: log_ok_def run_start_def)

lemma log_ok_run: "log_ok (fst (run_until_exit url_ok header_ok mx cfg reg clock inps obs))"
proof -
  have "reconnect_log.all_ok mx cfg reg inps (run_start cfg reg clock obs)"
    by (rule reconnect_log.all_ok_trivial) simp
  from reconnect_log.run_invariant [OF log_ok_start this] show ?thesis
    using log_ok_start by (auto simp: run_until_exit_def split: sum.splits option.splits prod.splits)
qed


definition two_sessions :: "turn list \<Rightarrow> run_state" where
  "two_sessions ts = fst (run_until_exit (\<lambda>u. True) (\<lambda>h. True) (secs 10000) sample_config
     sample_register None [sample_session ts, sample_session [end_turn]] (channels default_status))"

lemmas reconnect_eval = two_sessions_def run_until_exit_def handshake_request_def
  reconnect_turn_def run_session_def run_start_def backoff_new_def sample_session_def
  status_init_def from_register_fields_def sample_register_def next_delay_def
  xorshift_next_def session_lasted_def

lemma canceled_two_sessions:
  "rs_log (two_sessions (cancel_turns @ [end_turn]))
     = [SweptCache [], Sent (Register sample_register), Sent (accept_message (job_of ''a'' (Some 1))),
        Spawned 0 (job_of ''a'' (Some 1)), CancelSent 0,
        SweptCache (cache_keys_for (job_of ''a'' (Some 1))), Joined 0 (Some OutFailed)]
       @ SweptCache (cache_keys_for (job_of ''a'' (Some 1)))
       # [Sent (Register sample_register),
          Sent (JobCanceledAck \<lparr>ack_tenant = ''driffs'', ack_job_id = ''a'', ack_attempt = 1,
            ack_teardown_ms = Some 10000\<rparr>)]"
  by (simp add: reconnect_eval cancel_turns_def run_eval cancel_ack_for_def Let_def
      unwrap_or_def del: server_to_json.simps)


text \<open>
  The job a lost socket interrupts is not among the protected. A job runs when the socket ends;
  its task is signalled and awaited, but the startup sweep of the next connect protects nothing,
  although dispatch may assign that very job again.
\<close>

theorem interrupted_job_unprotected_on_reconnect:
  "rs_log (two_sessions [allow_turn, frame_turn (JobAssign (job_of ''a'' (Some 1))), end_turn])
     = [SweptCache [], Sent (Register sample_register), Sent (accept_message (job_of ''a'' (Some 1))),
        Spawned 0 (job_of ''a'' (Some 1)), CancelSent 0, Joined 0 (Some OutFailed), SweptCache [],
        Sent (Register sample_register)]"
  by (simp add: reconnect_eval run_eval Let_def del: server_to_json.simps)

end
