(* ===== verification/Lease_Process.thy ===== *)
theory Lease_Process
  imports Lease_Refine Reconnect
begin

text \<open>
  The lease protocol over the life of the process: any number of sessions, the flush of the
  acknowledgements one session leaves at the start of the next, the sends that fail. The sessions
  are composed by the reconnect loop; each is taken through \<open>session_lease_word\<close>.
\<close>

section \<open>A session of the run\<close>

text \<open>The state the session loop starts in, if the session gets as far as registering.\<close>

definition opened :: "instant \<Rightarrow> connection_config \<Rightarrow> register_message \<Rightarrow> session_input \<Rightarrow> run_state
    \<Rightarrow> session option" where
  "opened mx cfg reg inp s =
     (case connect_loop cfg 0 (si_tries inp) (status_init cfg reg (rs_obs s)) of
        (Some CeConnected, _, obs) \<Rightarrow>
          (if si_register_ok inp
           then Some (session_start mx cfg (si_now inp) (rs_protected s)
                  (snd (flush_acks (si_flush_ok inp) 0 (rs_pending s)))
                  (update_status (set_connection Registered) (update_status (set_connection Connected) obs)))
           else None)
      | _ \<Rightarrow> None)"

text \<open>What dispatch has been sent when the session loop starts.\<close>

definition heard :: "register_message \<Rightarrow> session_input \<Rightarrow> run_state \<Rightarrow> worker_message list" where
  "heard reg inp s = sent_messages (rs_log s)
     @ Register reg # map JobCanceledAck (fst (flush_acks (si_flush_ok inp) 0 (rs_pending s)))"

text \<open>
  The environment of a session: its tasks run jobs, and dispatch offers leases it has not heard of
  in any session so far.
\<close>

definition session_env :: "instant \<Rightarrow> connection_config \<Rightarrow> register_message \<Rightarrow> session_input \<Rightarrow> run_state
    \<Rightarrow> bool" where
  "session_env mx cfg reg inp s \<longleftrightarrow>
     (\<exists>limit cap env. \<forall>st pre t post u. opened mx cfg reg inp s = Some st
        \<and> si_turns inp = pre @ t # post \<and> run_session_loop cfg reg pre st = (u, None)
        \<longrightarrow> tasks_run_jobs (job_runs limit cap env) t u \<and> fresh_offer (heard reg inp s) t u)"

lemma sent_map [simp]: "sent_messages (map Sent ms) = ms" "sent_messages (map (Sent \<circ> f) xs) = map f xs"
  by (simp_all add: sent_messages_def comp_def)

lemma run_session_closed:
  assumes "opened mx cfg reg inp s = None"
  shows "sent_messages (rs_log (snd (run_session mx cfg reg inp s))) = sent_messages (rs_log s)"
    and "rs_pending (snd (run_session mx cfg reg inp s)) = rs_pending s"
  using assms
  by (auto simp: opened_def run_session_def Let_def split: prod.splits option.splits connect_end.splits if_splits)

lemma run_session_open:
  assumes "opened mx cfg reg inp s = Some st" and "run_session_loop cfg reg (si_turns inp) st = (e, d)"
  shows "sent_messages (rs_log (snd (run_session mx cfg reg inp s))) = heard reg inp s @ sent_messages (ses_trace e)"
    and "rs_pending (snd (run_session mx cfg reg inp s)) = ses_pending e"
  using assms
  by (auto simp: opened_def heard_def run_session_def Let_def case_prod_beta
      split: prod.splits option.splits connect_end.splits if_splits)

section \<open>The run\<close>

definition leases_ok :: "run_state \<Rightarrow> bool" where
  "leases_ok s \<longleftrightarrow> length (rs_pending s) \<le> MAX_PENDING_CANCEL_ACKS
     \<and> (\<forall>l. lease_state_of l (sent_messages (rs_log s) @ map JobCanceledAck (rs_pending s)) \<noteq> None)"

lemma leases_okD:
  "leases_ok s \<Longrightarrow> lease_state_of l (sent_messages (rs_log s) @ map JobCanceledAck (rs_pending s)) \<noteq> None"
  "leases_ok s \<Longrightarrow> leases_ok (s\<lparr>rs_obs := ob\<rparr>)"
  unfolding leases_ok_def by (blast, simp)

text \<open>A lease dispatch knows is left alone, apart from what was queued for it; a new one starts afresh.\<close>

lemma lease_word_extend:
  assumes "lease_state_of l (hist @ map JobCanceledAck left) \<noteq> None"
    and "lease_state_of l (ms @ map JobCanceledAck new) \<noteq> None"
    and "lease_events l hist \<noteq> [] \<Longrightarrow> lease_events l (ms @ map JobCanceledAck new) = []"
  shows "lease_state_of l ((hist @ ms) @ map JobCanceledAck (left @ new)) \<noteq> None"
proof (cases "lease_events l hist = []")
  case True
  then have "lease_state_of l hist = Some LeaseUnseen" by (simp add: lease_unseen_iff)
  then have "lease_events l (map JobCanceledAck left) = []" using assms(1) by (rule unseen_no_acks)
  then show ?thesis using assms(2) True by (simp add: lease_state_of_def)
next
  case False
  then show ?thesis using assms(1,3) by (simp add: lease_state_of_def)
qed

lemma leases_ok_session:
  assumes ok: "leases_ok s" and env: "session_env mx cfg reg inp s"
  shows "leases_ok (snd (run_session mx cfg reg inp s))"
proof (cases "opened mx cfg reg inp s")
  case None
  then show ?thesis using ok run_session_closed [OF None] by (simp add: leases_ok_def)
next
  case (Some st)
  obtain sent left where f: "flush_acks (si_flush_ok inp) 0 (rs_pending s) = (sent, left)"
    by (cases "flush_acks (si_flush_ok inp) 0 (rs_pending s)")
  have parts: "rs_pending s = sent @ left" using flush_acks_parts [OF f] by simp
  obtain now keys obs where st: "st = session_start mx cfg now keys left obs"
    using Some f by (auto simp: opened_def split: prod.splits option.splits connect_end.splits if_splits)
  obtain e d where run: "run_session_loop cfg reg (si_turns inp) st = (e, d)"
    by (cases "run_session_loop cfg reg (si_turns inp) st")
  obtain limit cap env' where jobs: "\<And>pre t post u. si_turns inp = pre @ t # post
      \<Longrightarrow> run_session_loop cfg reg pre st = (u, None)
      \<Longrightarrow> tasks_run_jobs (job_runs limit cap env') t u \<and> fresh_offer (heard reg inp s) t u"
    using env Some unfolding session_env_def by blast
  have "length left \<le> MAX_PENDING_CANCEL_ACKS" using ok parts by (simp add: leases_ok_def)
  then have "\<exists>new. ses_pending e = left @ new \<and> length (ses_pending e) \<le> MAX_PENDING_CANCEL_ACKS
     \<and> (\<forall>l. lease_state_of l (sent_messages (ses_trace e) @ map JobCanceledAck new) \<noteq> None
          \<and> (lease_events l (heard reg inp s) \<noteq> [] \<longrightarrow>
               lease_events l (sent_messages (ses_trace e) @ map JobCanceledAck new) = []))"
    by (rule session_lease_word [OF run [unfolded st]]) (rule jobs [unfolded st])
  then obtain new where new: "ses_pending e = left @ new" "length (ses_pending e) \<le> MAX_PENDING_CANCEL_ACKS"
      "\<And>l. lease_state_of l (sent_messages (ses_trace e) @ map JobCanceledAck new) \<noteq> None"
      "\<And>l. lease_events l (heard reg inp s) \<noteq> [] \<Longrightarrow>
         lease_events l (sent_messages (ses_trace e) @ map JobCanceledAck new) = []"
    by blast
  have "lease_state_of l (heard reg inp s @ map JobCanceledAck left) \<noteq> None" for l
    using leases_okD(1) [OF ok, of l] f parts by (simp add: heard_def lease_state_of_def events_about_def)
  then have "lease_state_of l ((heard reg inp s @ sent_messages (ses_trace e)) @ map JobCanceledAck (left @ new)) \<noteq> None" for l
    using new(3,4) by (rule lease_word_extend)
  then show ?thesis using run_session_open [OF Some run] new(1,2) by (simp add: leases_ok_def)
qed

lemma leases_ok_turn:
  assumes "leases_ok s" and "session_env mx cfg reg inp s"
  shows "leases_ok (fst (reconnect_turn mx cfg reg inp s))"
proof -
  obtain r s1 where rs: "run_session mx cfg reg inp s = (r, s1)"
    by (cases "run_session mx cfg reg inp s")
  have "leases_ok s1" using leases_ok_session [OF assms] rs by simp
  then show ?thesis
    using rs by (auto simp: reconnect_turn_def leases_ok_def Let_def
        split: session_result.splits option.splits prod.splits)
qed

interpretation process_lease: machine_invariant "reconnect_turn mx cfg reg" "session_env mx cfg reg"
    leases_ok "\<lambda>s r. leases_ok s" for mx cfg reg
  by unfold_locales (metis fst_conv leases_ok_turn)+

text \<open>
  C2: What dispatch sees of a lease over the life of the process is a word of the lease protocol. Let
  every task run a job the way \<open>run_job\<close> does, and let dispatch offer only leases it has not heard of.
  Then, over any number of sessions and however assignments, cancels, progress, terminal frames,
  heartbeats, failing sends, lost sockets and interrupted flushes interleave, the frames that name one
  lease, followed by the acknowledgements still queued, are: accepted or refused once, progress only
  while it runs, at most one of completed and failed, at most one acknowledged cancel, nothing after
  a completion and nothing but the acknowledgement after a failure.
\<close>

theorem process_refines_lease_protocol:
  assumes "\<And>pre inp post s. inps = pre @ inp # post
       \<Longrightarrow> run_until (reconnect_turn mx cfg reg) pre (run_start cfg reg clock obs) = (s, None)
       \<Longrightarrow> session_env mx cfg reg inp s"
  shows "case run_until_exit url_ok header_ok mx cfg reg clock inps obs of (s, r) \<Rightarrow>
     lease_state_of l (sent_messages (rs_log s) @ map JobCanceledAck (rs_pending s)) \<noteq> None"
proof -
  let ?s = "run_start cfg reg clock obs"
  have start: "leases_ok ?s" by (simp add: leases_ok_def run_start_def lease_state_of_def)
  have "process_lease.all_ok mx cfg reg inps ?s"
    by (rule process_lease.all_okI) (rule assms)
  from process_lease.run_invariant [OF start this]
  have "leases_ok (fst (run_until_exit url_ok header_ok mx cfg reg clock inps obs))"
    using leases_okD(2) [OF start]
    by (auto simp: run_until_exit_def split: sum.splits option.splits prod.splits)
  then show ?thesis using leases_okD(1) by (simp add: case_prod_beta)
qed

section \<open>A cancel acknowledged by the next session\<close>

definition stopped_env :: job_env where
  "stopped_env = sample_env\<lparr>je_payload := Inl ''r''\<rparr>"

lemma stopped_job:
  "run_job (job_of jid att) w c stopped_env = (Some OutFailed,
     [KeepAwakeHeld, KeepAwakeReleased, Frame (failed_of jid att)])"
  by (simp add: run_job_def run_job_inner_def stopped_env_def failed_of_def)

definition lease_turns :: "turn list" where
  "lease_turns = cancel_turns @ [end_turn]"

lemma four_prefixes:
  "[a, b, c, d] = pre @ t # post \<Longrightarrow>
     pre = [] \<and> t = a \<or> pre = [a] \<and> t = b \<or> pre = [a, b] \<and> t = c \<or> pre = [a, b, c] \<and> t = d"
  by (auto simp: Cons_eq_append_conv)

lemma lease_env_first:
  "session_env (secs 10000) sample_config sample_register (sample_session lease_turns)
     (run_start sample_config sample_register None (channels default_status))"
  unfolding session_env_def
proof (intro exI allI impI, elim conjE)
  note defs = tasks_run_jobs_def fresh_offer_def task_messages_def job_runs_def stopped_job lease_state_of_def
    heard_def events_about_def
  fix st pre t post u
  assume st: "opened (secs 10000) sample_config sample_register (sample_session lease_turns)
      (run_start sample_config sample_register None (channels default_status)) = Some st"
    and ts: "si_turns (sample_session lease_turns) = pre @ t # post"
    and run: "run_session_loop sample_config sample_register pre st = (u, None)"
  have "pre = [] \<and> t = allow_turn \<or> pre = [allow_turn] \<and> t = frame_turn (JobAssign (job_of ''a'' (Some 1)))
     \<or> pre = [allow_turn, frame_turn (JobAssign (job_of ''a'' (Some 1)))] \<and> t = frame_turn (cancel_of_job ''a'')
     \<or> pre = cancel_turns \<and> t = end_turn"
    using four_prefixes [of allow_turn _ _ end_turn pre t post] ts
    by (simp add: sample_session_def lease_turns_def cancel_turns_def)
  then show "tasks_run_jobs (job_runs (\<lambda>k. 1) (\<lambda>k. 1) (\<lambda>k. stopped_env)) t u
      \<and> fresh_offer (heard sample_register (sample_session lease_turns)
           (run_start sample_config sample_register None (channels default_status))) t u"
    using st run
    by (elim disjE) (auto simp: opened_def reconnect_eval cancel_turns_def run_eval defs accept_message_def
        simp del: server_to_json.simps)
qed

lemma lease_env_second:
  "session_env mx cfg reg (sample_session [end_turn]) s"
  unfolding session_env_def
  by (intro exI allI impI, elim conjE)
    (auto simp: opened_def sample_session_def Cons_eq_append_conv run_session_loop_def session_start_def
      tasks_run_jobs_def fresh_offer_def turn_defs split: prod.splits option.splits connect_end.splits)

theorem process_refines_lease_protocol_witness:
  "lease_state_of (''a'', 1) (sent_messages (rs_log (two_sessions lease_turns))) = Some LeaseCanceled
   \<and> lease_state_of (''a'', 1) (sent_messages (rs_log (two_sessions lease_turns))
       @ map JobCanceledAck (rs_pending (two_sessions lease_turns))) \<noteq> None"
proof
  show "lease_state_of (''a'', 1) (sent_messages (rs_log (two_sessions lease_turns))) = Some LeaseCanceled"
    by (simp add: lease_turns_def canceled_two_sessions lease_state_of_def events_about_def
        accept_message_def lease_of_def unwrap_or_def)
  have "case run_until_exit (\<lambda>u. True) (\<lambda>h. True) (secs 10000) sample_config sample_register None
      [sample_session lease_turns, sample_session [end_turn]] (channels default_status) of (s, r) \<Rightarrow>
    lease_state_of (''a'', 1) (sent_messages (rs_log s) @ map JobCanceledAck (rs_pending s)) \<noteq> None"
  proof (rule process_refines_lease_protocol)
    fix pre inp post s
    assume "[sample_session lease_turns, sample_session [end_turn]] = pre @ inp # post"
      and run: "run_until (reconnect_turn (secs 10000) sample_config sample_register) pre
        (run_start sample_config sample_register None (channels default_status)) = (s, None)"
    then have "pre = [] \<and> inp = sample_session lease_turns \<or> inp = sample_session [end_turn]"
      by (auto simp: Cons_eq_append_conv)
    then show "session_env (secs 10000) sample_config sample_register inp s"
      using run lease_env_first lease_env_second by auto
  qed
  then show "lease_state_of (''a'', 1) (sent_messages (rs_log (two_sessions lease_turns))
       @ map JobCanceledAck (rs_pending (two_sessions lease_turns))) \<noteq> None"
    by (simp add: two_sessions_def case_prod_beta)
qed

end
