(* ===== verification/Job_Artifacts.thy ===== *)
theory Job_Artifacts
  imports Runner Artifact_Fetch
begin

text \<open>
  A job on the node's cached artifacts (\<open>ensure_payload\<close>, \<open>ensure_browser\<close> and the start of
  \<open>run_job_inner\<close> in \<open>crates/supervisor-core/src/runner.rs\<close>): the two kinds of cache under the worker
  root, filled by \<open>ensure_artifact\<close>, the browser resolved through its manifest, and what the job of
  \<open>Runner\<close> is answered by them. The contents of both caches are content addressed.
\<close>

section \<open>The artifacts of a job\<close>

record artifact_stores =
  as_payloads :: kind_store
  as_browsers :: kind_store

datatype artifact_error = ArtifactFill fill_error | BrowserManifest manifest_error

definition ensure_payload :: "job_assign_message \<Rightarrow> fill_env \<Rightarrow> artifact_stores
    \<Rightarrow> (fill_error + string) \<times> artifact_stores" where
  "ensure_payload a env st =
     (case ensure_artifact (ja_payload_sha256 a) ''decent-render-runner'' env (as_payloads st) of
        (r, ks) \<Rightarrow> (r, st\<lparr>as_payloads := ks\<rparr>))"

text \<open>
  \<open>decode\<close> reads a file as text, \<open>there t p\<close>: does the path \<open>p\<close> exist below the directory \<open>t\<close>. A path is
  the list of its components under the worker root.
\<close>

definition manifest_of :: "(u8 list \<Rightarrow> string option) \<Rightarrow> artifact_dir option \<Rightarrow> string option" where
  "manifest_of decode d = Option.bind d (\<lambda>t. Option.bind (t ''executable'') decode)"

definition ensure_browser :: "(u8 list \<Rightarrow> string option) \<Rightarrow> (artifact_dir \<Rightarrow> string list \<Rightarrow> bool)
    \<Rightarrow> job_assign_message \<Rightarrow> fill_env \<Rightarrow> artifact_stores
    \<Rightarrow> (artifact_error + string list option) \<times> artifact_stores" where
  "ensure_browser decode there a env st =
     (case (ja_browser_sha256 a, ja_browser_get_url a) of
        (Some sha, Some url) \<Rightarrow>
          (case ensure_artifact sha ''executable'' env (as_browsers st) of
             (Inl e, ks) \<Rightarrow> (Inl (ArtifactFill e), st\<lparr>as_browsers := ks\<rparr>)
           | (Inr dir, ks) \<Rightarrow>
               (case browser_executable_in [''browsers'', dir] (manifest_of decode (ks dir))
                       (\<lambda>p. case ks dir of None \<Rightarrow> False | Some t \<Rightarrow> there t (drop 2 p)) of
                  Inl e \<Rightarrow> (Inl (BrowserManifest e), st\<lparr>as_browsers := ks\<rparr>)
                | Inr p \<Rightarrow> (Inr (Some p), st\<lparr>as_browsers := ks\<rparr>)))
      | _ \<Rightarrow> (Inr None, st))"

text \<open>What the artifacts answer the job; \<open>jf_error\<close> words an error.\<close>

record job_fetch =
  jf_payload :: fill_env
  jf_browser :: fill_env
  jf_decode :: "u8 list \<Rightarrow> string option"
  jf_there :: "artifact_dir \<Rightarrow> string list \<Rightarrow> bool"
  jf_error :: "artifact_error \<Rightarrow> string"

definition fetched_env :: "job_assign_message \<Rightarrow> job_fetch \<Rightarrow> job_env \<Rightarrow> artifact_stores
    \<Rightarrow> job_env \<times> artifact_stores" where
  "fetched_env a jf je st =
     (case ensure_payload a (jf_payload jf) st of
        (Inl e, st1) \<Rightarrow> (je\<lparr>je_payload := Inl (jf_error jf (ArtifactFill e))\<rparr>, st1)
      | (Inr dir, st1) \<Rightarrow>
          (let je1 = je\<lparr>je_payload := Inr (),
                        je_runner_exists := has_file ''decent-render-runner'' (as_payloads st1 dir)\<rparr>
           in if \<not> je_runner_exists je1 then (je1, st1)
              else (case ensure_browser (jf_decode jf) (jf_there jf) a (jf_browser jf) st1 of
                      (Inl e, st2) \<Rightarrow> (je1\<lparr>je_browser := Inl (jf_error jf e)\<rparr>, st2)
                    | (Inr b, st2) \<Rightarrow> (je1\<lparr>je_browser := Inr (b \<noteq> None)\<rparr>, st2))))"

definition run_job_on :: "job_assign_message \<Rightarrow> duration \<Rightarrow> nat \<Rightarrow> job_fetch \<Rightarrow> job_env \<Rightarrow> artifact_stores
    \<Rightarrow> (job_outcome option \<times> job_event list) \<times> artifact_stores" where
  "run_job_on a limit cap jf je st =
     (case fetched_env a jf je st of (je', st') \<Rightarrow> (run_job a limit cap je', st'))"

section \<open>Content addressing\<close>

text \<open>
  Every file of a cached directory, apart from the downloaded archive and the last-use marker, was
  unpacked from bytes whose digest the directory, or its hidden download sibling, is named after.
\<close>

definition from_archive :: "(u8 list \<Rightarrow> u8 list) \<Rightarrow> (u8 list \<Rightarrow> artifact_dir \<times> bool) \<Rightarrow> string \<Rightarrow> artifact_dir
    \<Rightarrow> bool" where
  "from_archive digest untar n t \<longleftrightarrow>
     (\<forall>f v. t f = Some v \<and> f \<noteq> tar_file \<and> f \<noteq> ''.last-use'' \<longrightarrow>
        (\<exists>bytes. n \<in> {hex_lower (digest bytes), tmp_name (hex_lower (digest bytes))}
           \<and> fst (untar bytes) f = Some v))"

definition content_addressed :: "(u8 list \<Rightarrow> u8 list) \<Rightarrow> (u8 list \<Rightarrow> artifact_dir \<times> bool) \<Rightarrow> kind_store
    \<Rightarrow> bool" where
  "content_addressed digest untar ks \<longleftrightarrow> (\<forall>n t. ks n = Some t \<longrightarrow> from_archive digest untar n t)"

text \<open>The fetch is the download of \<open>artifact_fetch.rs\<close>, the archive unpacks the one way it does.\<close>

definition honest :: "(u8 list \<Rightarrow> u8 list) \<Rightarrow> (u8 list \<Rightarrow> artifact_dir \<times> bool) \<Rightarrow> fill_env \<Rightarrow> bool" where
  "honest digest untar env \<longleftrightarrow> fe_untar env = untar
     \<and> (\<exists>create_ok wr rm_ok resp. fe_fetch env = download_to_file_hashed digest create_ok wr rm_ok resp)"

definition digest_shaped :: "string \<Rightarrow> bool" where
  "digest_shaped sha \<longleftrightarrow> list_all (\<lambda>c. c \<in> set ''0123456789abcdef'') sha"

lemma content_addressed_updI:
  "content_addressed digest untar ks \<Longrightarrow> from_archive digest untar n t \<Longrightarrow> content_addressed digest untar (ks(n \<mapsto> t))"
  by (simp add: content_addressed_def)

lemma content_addressed_None: "content_addressed digest untar ks \<Longrightarrow> content_addressed digest untar (ks(n := None))"
  by (simp add: content_addressed_def)

lemma content_addressed_remove: "content_addressed digest untar ks \<Longrightarrow> content_addressed digest untar (remove_if b n ks)"
  by (simp add: remove_if_def content_addressed_None)

lemma from_archive_special:
  "from_archive digest untar n t \<Longrightarrow> f \<in> {tar_file, ''.last-use''} \<Longrightarrow> from_archive digest untar n (t(f := x))"
  unfolding from_archive_def by auto

lemmas content_addressed_intros =
  content_addressed_updI content_addressed_None content_addressed_remove from_archive_special

lemma hex_digit_shaped: "d < 16 \<Longrightarrow> hex_digit d \<in> set ''0123456789abcdef''"
proof -
  have "list_all (\<lambda>d. hex_digit d \<in> set ''0123456789abcdef'') [0..<16]" by code_simp
  then show "d < 16 \<Longrightarrow> ?thesis" unfolding list_all_iff by (simp del: list.set)
qed

lemma hex_lower_shaped: "digest_shaped (hex_lower d)"
proof -
  have "list_all (\<lambda>c. c \<in> set ''0123456789abcdef'') [hex_digit (unat b div 16), hex_digit (unat b mod 16)]"
    for b :: u8
  proof -
    have "unat b div 16 < 16" "unat b mod 16 < 16" using unat_u8_lt [of b] by auto
    then show ?thesis using hex_digit_shaped by (simp del: list.set)
  qed
  then show ?thesis unfolding digest_shaped_def hex_lower_def
    by (induction d) (simp_all del: list.set)
qed

lemma tmp_not_digest: "\<not> digest_shaped (tmp_name sha)"
  by (simp add: digest_shaped_def tmp_name_def)

lemma tmp_name_inj: "tmp_name x = tmp_name y \<longleftrightarrow> x = y"
  by (simp add: tmp_name_def)

text \<open>The hidden sibling's files may be published under the digest itself, and nowhere else.\<close>

lemma from_archive_publish:
  "from_archive digest untar (tmp_name sha) t \<Longrightarrow> from_archive digest untar sha t"
  using tmp_not_digest hex_lower_shaped unfolding from_archive_def by (metis insert_iff singletonD tmp_name_inj)

lemma from_archive_digest:
  assumes "from_archive digest untar sha t" and "digest_shaped sha" and "t f = Some v"
    and "f \<noteq> tar_file" and "f \<noteq> ''.last-use''"
  shows "\<exists>bytes. hex_lower (digest bytes) = sha \<and> fst (untar bytes) f = Some v"
  using assms tmp_not_digest unfolding from_archive_def by (metis insert_iff singletonD)

lemma content_addressedD: "content_addressed digest untar ks \<Longrightarrow> ks n = Some t \<Longrightarrow> from_archive digest untar n t"
  by (simp add: content_addressed_def)

lemma fetch_digest:
  assumes "honest digest untar env" and "fe_fetch env = (Inr h, disk)"
  shows "\<exists>bytes. disk = Some bytes \<and> h = hex_lower (digest bytes)"
proof -
  obtain create_ok wr rm_ok resp where
    d: "download_to_file_hashed_capped digest ARTIFACT_MAX_BYTES create_ok wr rm_ok resp = (Inr h, disk)"
    using assms by (auto simp: honest_def download_to_file_hashed_def)
  then obtain re u where "resp = Some re"
      and l: "download_loop ARTIFACT_MAX_BYTES wr rm_ok 0 [] (re_body re) = (Inr u, disk)"
      and h: "h = hex_lower (digest (concat (map (\<lambda>x. case x of Chunk c \<Rightarrow> c | _ \<Rightarrow> []) (re_body re))))"
    by (auto simp: download_to_file_hashed_capped_def split: option.splits if_splits prod.splits sum.splits)
  show ?thesis using download_loop_result [OF l] h by simp
qed

lemma content_addressed_install:
  assumes "content_addressed digest untar ks" and "from_archive digest untar (tmp_name sha) t"
    and "install_artifact sha marker env t ks = (r, ks')"
  shows "content_addressed digest untar ks'"
proof -
  define t1 where "t1 = (if fe_rm_tar env then t(tar_file := None) else t)"
  define ks1 where "ks1 = ks(tmp_name sha \<mapsto> t1)"
  define ks2 where "ks2 = (if ks1 sha \<noteq> None then remove_if (fe_rm_dir env) sha ks1 else ks1)"
  have t1: "from_archive digest untar (tmp_name sha) t1"
    using assms(2) by (simp add: t1_def from_archive_special)
  have c1: "content_addressed digest untar ks1"
    unfolding ks1_def using assms(1) t1 by (rule content_addressed_updI)
  then have c2: "content_addressed digest untar ks2" by (simp add: ks2_def content_addressed_remove)
  then have "content_addressed digest untar (ks2(tmp_name sha := None, sha \<mapsto> t1))"
    by (intro content_addressed_updI content_addressed_None from_archive_publish [OF t1])
  then show ?thesis
    using assms(3) c1 c2 unfolding install_artifact_def Let_def t1_def [symmetric] ks1_def [symmetric]
      ks2_def [symmetric]
    by (auto split: if_splits intro: content_addressed_remove)
qed

lemma from_archive_extract:
  assumes "from_archive digest untar (tmp_name (hex_lower (digest bytes))) t"
  shows "from_archive digest untar (tmp_name (hex_lower (digest bytes))) (t ++ fst (untar bytes))"
  using assms unfolding from_archive_def map_add_def
  by (auto split: option.splits)

text \<open>The verified archive is unpacked into the hidden sibling, which is published if all goes well.\<close>

lemma content_addressed_unpack:
  assumes ks: "content_addressed digest untar ks" and t: "from_archive digest untar (tmp_name sha) t"
    and sha: "sha = hex_lower (digest bytes)" and un: "fe_untar env = untar"
    and run: "(case extract_tar_capped mx (fe_untar env) du bytes t of
        (t2, Some e) \<Rightarrow> (Inl e, ks(tmp_name sha \<mapsto> t2))
      | (t2, None) \<Rightarrow> install_artifact sha marker env t2 ks) = (r, ks')"
  shows "content_addressed digest untar ks'"
proof -
  obtain t2 e where x: "extract_tar_capped mx (fe_untar env) du bytes t = (t2, e)"
    by (cases "extract_tar_capped mx (fe_untar env) du bytes t")
  have "t2 = t ++ fst (untar bytes)"
    using x un by (auto simp: extract_tar_capped_def Let_def split: prod.splits)
  then have t2: "from_archive digest untar (tmp_name sha) t2" using from_archive_extract t sha by simp
  show ?thesis
    using run x content_addressed_install [OF ks t2] content_addressed_updI [OF ks t2]
    by (cases e) auto
qed

lemma content_addressed_ensure:
  assumes ok: "content_addressed digest untar ks" and env: "honest digest untar env"
    and run: "ensure_artifact sha marker env ks = (r, ks')"
  shows "content_addressed digest untar ks'"
proof (cases "has_file marker (ks sha)")
  case True
  then have "ks' = ks \<or> (\<exists>b t. ks sha = Some t \<and> ks' = ks(sha \<mapsto> t(''.last-use'' \<mapsto> b)))"
    using run by (auto simp: ensure_artifact_def Let_def has_file_def split: option.splits)
  then show ?thesis
    using ok by (auto intro!: content_addressed_updI from_archive_special dest: content_addressedD)
next
  case False
  define ks0 where "ks0 = (if ks (tmp_name sha) \<noteq> None then remove_if (fe_rm_tmp env) (tmp_name sha) ks else ks)"
  define t0 where "t0 = (case ks0 (tmp_name sha) of Some t \<Rightarrow> t | None \<Rightarrow> Map.empty)"
  obtain res disk where f: "fe_fetch env = (res, disk)" by (cases "fe_fetch env")
  define t1 where "t1 = t0(tar_file := disk)"
  define ks1 where "ks1 = ks0(tmp_name sha \<mapsto> t1)"
  have k0: "content_addressed digest untar ks0" using ok by (simp add: ks0_def content_addressed_remove)
  have "from_archive digest untar (tmp_name sha) t0"
    unfolding t0_def using content_addressedD [OF k0] by (auto simp: from_archive_def split: option.split)
  then have t1: "from_archive digest untar (tmp_name sha) t1" by (simp add: t1_def from_archive_special)
  have k1: "content_addressed digest untar ks1" unfolding ks1_def using k0 t1 by (rule content_addressed_updI)
  note unfold = ensure_artifact_def Let_def ks0_def [symmetric] f t0_def [symmetric] t1_def [symmetric]
    ks1_def [symmetric] prod.case
  show ?thesis
  proof (cases "fe_mkdir_parent env \<and> fe_mkdir_tmp env \<and> res = Inr sha")
    case True
    then obtain bytes where "disk = Some bytes" "sha = hex_lower (digest bytes)"
      using fetch_digest [OF env] f by blast
    moreover have "fe_untar env = untar" using env by (simp add: honest_def)
    ultimately show ?thesis
      using run False True unfolding unfold by (intro content_addressed_unpack [OF k1 t1]) auto
  next
    case not: False
    then have "ks' \<in> {ks, ks0, ks1, remove_if (fe_rm_tmp env) (tmp_name sha) ks1}"
      using run False unfolding unfold by (auto split: if_splits sum.splits)
    then show ?thesis using ok k0 k1 content_addressed_remove by auto
  qed
qed

lemma ensured_file:
  assumes "ensure_artifact sha marker env ks = (Inr dir, ks')"
  shows "dir = sha \<and> has_file marker (ks' sha)"
proof (cases "has_file marker (ks sha)")
  case True
  then show ?thesis
    using assms by (auto simp: ensure_artifact_def Let_def has_file_def split: option.splits)
next
  case False
  then show ?thesis
    using assms unfolding ensure_artifact_def Let_def
    by (auto dest: install_Inr split: if_splits sum.splits prod.splits option.splits)
qed

section \<open>What a job runs\<close>

text \<open>The runner is only started once the payload, its runner and the browser have been answered.\<close>

lemma spawned_needs_artifacts:
  assumes "SpawnedRunner \<in> set (snd (run_job a limit cap je))"
  shows "je_payload je \<noteq> Inl e" and "je_runner_exists je" and "je_browser je \<noteq> Inl e"
  using assms
  by (auto simp: run_job_def run_job_inner_def split: sum.splits option.splits prod.splits if_splits)

definition stores_addressed :: "(u8 list \<Rightarrow> u8 list) \<Rightarrow> (u8 list \<Rightarrow> artifact_dir \<times> bool) \<Rightarrow> artifact_stores
    \<Rightarrow> bool" where
  "stores_addressed digest untar st \<longleftrightarrow>
     content_addressed digest untar (as_payloads st) \<and> content_addressed digest untar (as_browsers st)"

text \<open>The file \<open>f\<close> under the entry \<open>sha\<close> is what an archive with that digest unpacks to.\<close>

definition verified_file :: "(u8 list \<Rightarrow> u8 list) \<Rightarrow> (u8 list \<Rightarrow> artifact_dir \<times> bool) \<Rightarrow> string \<Rightarrow> string
    \<Rightarrow> kind_store \<Rightarrow> bool" where
  "verified_file digest untar sha f ks \<longleftrightarrow>
     (\<exists>t bytes. ks sha = Some t \<and> t f \<noteq> None \<and> hex_lower (digest bytes) = sha \<and> fst (untar bytes) f = t f)"

lemma ensured_verified:
  assumes "content_addressed digest untar ks" and "honest digest untar env" and "digest_shaped sha"
    and "marker \<noteq> tar_file" and "marker \<noteq> ''.last-use''"
    and "ensure_artifact sha marker env ks = (Inr dir, ks')"
  shows "dir = sha \<and> content_addressed digest untar ks' \<and> verified_file digest untar sha marker ks'"
proof -
  have ks': "content_addressed digest untar ks'" by (rule content_addressed_ensure [OF assms(1,2,6)])
  have d: "dir = sha" "has_file marker (ks' sha)" using ensured_file [OF assms(6)] by simp_all
  then obtain t v where "ks' sha = Some t" "t marker = Some v" by (auto simp: has_file_def split: option.splits)
  moreover from this have "\<exists>bytes. hex_lower (digest bytes) = sha \<and> fst (untar bytes) marker = Some v"
    using content_addressedD [OF ks'] assms(3-5) by (intro from_archive_digest)
  ultimately show ?thesis using d(1) ks' unfolding verified_file_def by fastforce
qed

lemma payload_verified:
  assumes "stores_addressed digest untar st" and "honest digest untar env"
    and "ensure_payload a env st = (r, st')"
  shows "stores_addressed digest untar st'"
    and "digest_shaped (ja_payload_sha256 a) \<Longrightarrow> r = Inr dir \<Longrightarrow> dir = ja_payload_sha256 a
      \<and> has_file ''decent-render-runner'' (as_payloads st' dir)
      \<and> verified_file digest untar dir ''decent-render-runner'' (as_payloads st')"
proof -
  obtain ks where run: "ensure_artifact (ja_payload_sha256 a) ''decent-render-runner'' env (as_payloads st) = (r, ks)"
      "st' = st\<lparr>as_payloads := ks\<rparr>"
    using assms(3) by (auto simp: ensure_payload_def split: prod.splits)
  then show "stores_addressed digest untar st'"
    using assms(1) content_addressed_ensure [OF _ assms(2)] by (auto simp: stores_addressed_def)
  assume d: "digest_shaped (ja_payload_sha256 a)" and r: "r = Inr dir"
  note e = run(1) [unfolded r]
  show "dir = ja_payload_sha256 a \<and> has_file ''decent-render-runner'' (as_payloads st' dir)
      \<and> verified_file digest untar dir ''decent-render-runner'' (as_payloads st')"
    using assms(1) run(2) ensured_file [OF e] ensured_verified [OF _ assms(2) d _ _ e]
    by (auto simp: stores_addressed_def tar_file_def)
qed

lemma browser_verified:
  assumes "stores_addressed digest untar st" and "honest digest untar env"
    and "ensure_browser decode there a env st = (r, st')"
  shows "stores_addressed digest untar st'" and "as_payloads st' = as_payloads st"
    and "ja_browser_sha256 a = Some b \<Longrightarrow> ja_browser_get_url a = Some url \<Longrightarrow> digest_shaped b \<Longrightarrow> r = Inr p
      \<Longrightarrow> verified_file digest untar b ''executable'' (as_browsers st')"
proof -
  have "\<exists>ks. (ks = as_browsers st \<or> (\<exists>sha r'. ensure_artifact sha ''executable'' env (as_browsers st) = (r', ks)))
      \<and> st' = st\<lparr>as_browsers := ks\<rparr>"
    using assms(3) by (auto simp: ensure_browser_def split: option.splits sum.splits prod.splits intro: exI [of _ "as_browsers st"])
  then show "stores_addressed digest untar st'" "as_payloads st' = as_payloads st"
    using assms(1) content_addressed_ensure [OF _ assms(2)] by (auto simp: stores_addressed_def)
  assume b: "ja_browser_sha256 a = Some b" "ja_browser_get_url a = Some url" "digest_shaped b" and "r = Inr p"
  then obtain dir ks where "ensure_artifact b ''executable'' env (as_browsers st) = (Inr dir, ks)"
      "st' = st\<lparr>as_browsers := ks\<rparr>"
    using assms(3) by (auto simp: ensure_browser_def split: sum.splits prod.splits)
  then show "verified_file digest untar b ''executable'' (as_browsers st')"
    using assms(1) ensured_verified [OF _ assms(2) b(3)] by (auto simp: stores_addressed_def tar_file_def)
qed

lemma fetched_verified:
  assumes st: "stores_addressed digest untar st"
    and env: "honest digest untar (jf_payload jf)" "honest digest untar (jf_browser jf)"
    and sha: "digest_shaped (ja_payload_sha256 a)" "\<And>b. ja_browser_sha256 a = Some b \<Longrightarrow> digest_shaped b"
    and run: "fetched_env a jf je st = (je', st')"
  shows "stores_addressed digest untar st'"
    and "(\<And>e. je_payload je' \<noteq> Inl e) \<Longrightarrow> (\<And>e. je_browser je' \<noteq> Inl e) \<Longrightarrow>
      verified_file digest untar (ja_payload_sha256 a) ''decent-render-runner'' (as_payloads st')
      \<and> (\<forall>b url. ja_browser_sha256 a = Some b \<and> ja_browser_get_url a = Some url \<longrightarrow>
           verified_file digest untar b ''executable'' (as_browsers st'))"
proof -
  obtain r st1 where p: "ensure_payload a (jf_payload jf) st = (r, st1)"
    by (cases "ensure_payload a (jf_payload jf) st")
  note pv = payload_verified [OF st env(1) p]
  obtain rb st2 where b: "ensure_browser (jf_decode jf) (jf_there jf) a (jf_browser jf) st1 = (rb, st2)"
    by (cases "ensure_browser (jf_decode jf) (jf_there jf) a (jf_browser jf) st1")
  note bv = browser_verified [OF pv(1) env(2) b]
  show "stores_addressed digest untar st'"
    using run p b pv(1) bv(1) by (auto simp: fetched_env_def Let_def split: sum.splits if_splits)
  assume ne: "\<And>e. je_payload je' \<noteq> Inl e" "\<And>e. je_browser je' \<noteq> Inl e"
  have "r \<noteq> Inl e" for e
    using run p ne(1) [of "jf_error jf (ArtifactFill e)"] by (auto simp: fetched_env_def)
  then obtain dir where dir: "r = Inr dir" by (cases r) auto
  note ok = pv(2) [OF sha(1) dir]
  have "rb \<noteq> Inl e" for e
    using run p b dir ok ne(2) [of "jf_error jf e"] by (auto simp: fetched_env_def Let_def)
  then obtain path where path: "rb = Inr path" "st' = st2"
    using run p b dir ok by (cases rb) (auto simp: fetched_env_def Let_def)
  show "verified_file digest untar (ja_payload_sha256 a) ''decent-render-runner'' (as_payloads st')
      \<and> (\<forall>b url. ja_browser_sha256 a = Some b \<and> ja_browser_get_url a = Some url \<longrightarrow>
           verified_file digest untar b ''executable'' (as_browsers st'))"
    using ok path bv(2) bv(3) sha(2) by auto
qed

text \<open>
  A job only ever runs verified artifacts. As long as the two caches are content addressed, fetches
  are downloads whose bytes are hashed and the digests of an assignment look like digests, a job keeps
  both caches content addressed whatever fails on the way; and when it starts a runner, that runner
  was unpacked from bytes with the payload's digest, and the manifest of the browser, when one is
  named, from bytes with the browser's.
\<close>

theorem job_runs_verified_artifacts:
  assumes "stores_addressed digest untar st"
    and "honest digest untar (jf_payload jf)" and "honest digest untar (jf_browser jf)"
    and "digest_shaped (ja_payload_sha256 a)" and "\<And>b. ja_browser_sha256 a = Some b \<Longrightarrow> digest_shaped b"
    and "run_job_on a limit cap jf je st = ((out, evs), st')"
  shows "stores_addressed digest untar st'
    \<and> (SpawnedRunner \<in> set evs \<longrightarrow>
         verified_file digest untar (ja_payload_sha256 a) ''decent-render-runner'' (as_payloads st')
         \<and> (\<forall>b url. ja_browser_sha256 a = Some b \<and> ja_browser_get_url a = Some url \<longrightarrow>
              verified_file digest untar b ''executable'' (as_browsers st')))"
proof -
  obtain je' where je': "fetched_env a jf je st = (je', st')" "run_job a limit cap je' = (out, evs)"
    using assms(6) by (auto simp: run_job_on_def split: prod.splits)
  note v = fetched_verified [OF assms(1-5) je'(1)]
  show ?thesis
    using v spawned_needs_artifacts [of a limit cap je'] je'(2) by (metis snd_conv)
qed

definition digest_of :: "u8 list \<Rightarrow> u8 list" where "digest_of bytes = [171]"

definition untar_of :: "u8 list \<Rightarrow> artifact_dir \<times> bool" where
  "untar_of bytes = ([''decent-render-runner'' \<mapsto> bytes, ''executable'' \<mapsto> bytes], True)"

definition fetch_ok :: fill_env where
  "fetch_ok = sample_fill\<lparr>fe_untar := untar_of, fe_fetch := download_to_file_hashed digest_of True (\<lambda>k. True) True
     (Some \<lparr>re_content_length = None, re_body = [Chunk [1]]\<rparr>)\<rparr>"

definition sample_jobs_fetch :: job_fetch where
  "sample_jobs_fetch = \<lparr>jf_payload = fetch_ok, jf_browser = fetch_ok, jf_decode = (\<lambda>b. Some ''chrome''),
     jf_there = (\<lambda>t p. True), jf_error = (\<lambda>e. ''artifact'')\<rparr>"

definition empty_stores :: artifact_stores where
  "empty_stores = \<lparr>as_payloads = Map.empty, as_browsers = Map.empty\<rparr>"

definition ab_assign :: job_assign_message where
  "ab_assign = sample_assign\<lparr>ja_payload_sha256 := ''ab'', ja_browser_sha256 := Some ''ab'', ja_browser_get_url := Some ''u''\<rparr>"

lemmas artifact_eval = ensure_payload_def ensure_browser_def ensure_artifact_def Let_def has_file_def
  sample_fill_def extract_tar_capped_def ARTIFACT_MAX_EXTRACTED_BYTES_def install_artifact_def
  tar_file_def tmp_name_def

lemma char_ab: "char_of (97 :: nat) = CHR ''a''" "char_of (98 :: nat) = CHR ''b''"
  by (code_simp, code_simp)

lemma fetch_ok_fields:
  "fe_mkdir_parent fetch_ok" "fe_mkdir_tmp fetch_ok" "fe_rename fetch_ok" "fe_rm_tar fetch_ok"
  "fe_untar fetch_ok = untar_of" "fe_du fetch_ok = (\<lambda>d. 10)" "fe_fetch fetch_ok = (Inr ''ab'', Some [1])"
  by (simp_all add: fetch_ok_def sample_fill_def download_to_file_hashed_def download_to_file_hashed_capped_def
      over_length_def ARTIFACT_MAX_BYTES_def digest_of_def hex_lower_def hex_digit_def char_ab)

lemma ensure_ok:
  assumes "m \<in> {''decent-render-runner'', ''executable''}"
  shows "ensure_artifact ''ab'' m fetch_ok Map.empty
    = (Inr ''ab'', [''ab'' \<mapsto> [''decent-render-runner'' \<mapsto> [1], ''executable'' \<mapsto> [1]]])"
  using assms
  by (auto simp: artifact_eval fetch_ok_fields untar_of_def fun_eq_iff)

lemma fetch_ok_honest: "honest digest_of untar_of fetch_ok"
  unfolding honest_def by (simp add: fetch_ok_def) blast

definition ab_env :: job_env where
  "ab_env = sample_env\<lparr>je_stdin := False\<rparr>"

definition ab_dir :: artifact_dir where
  "ab_dir = [''decent-render-runner'' \<mapsto> [1], ''executable'' \<mapsto> [1]]"

lemmas ab_eval = run_job_on_def fetched_env_def ensure_payload_def ensure_browser_def has_file_def
  sample_jobs_fetch_def ab_assign_def sample_assign_def manifest_of_def browser_executable_in_def trim_def
  is_ws_def is_absolute_def starts_with_def path_parts_def run_job_def run_job_inner_def run_spawned_def
  stop_job_def sample_env_def ab_env_def

lemma ab_job_spawns:
  obtains out evs where "run_job_on ab_assign 1 1 sample_jobs_fetch ab_env empty_stores
       = ((out, evs), \<lparr>as_payloads = [''ab'' \<mapsto> ab_dir], as_browsers = [''ab'' \<mapsto> ab_dir]\<rparr>)"
    and "SpawnedRunner \<in> set evs"
  by (simp add: ab_eval ensure_ok empty_stores_def ab_dir_def)

lemma ab_digests:
  "digest_shaped (ja_payload_sha256 ab_assign)" "ja_browser_sha256 ab_assign = Some b \<Longrightarrow> digest_shaped b"
  by (auto simp: ab_assign_def digest_shaped_def)

theorem job_runs_verified_artifacts_witness:
  "\<exists>out evs st'. run_job_on ab_assign 1 1 sample_jobs_fetch ab_env empty_stores = ((out, evs), st')
   \<and> verified_file digest_of untar_of ''ab'' ''decent-render-runner'' (as_payloads st')
   \<and> verified_file digest_of untar_of ''ab'' ''executable'' (as_browsers st')"
proof -
  obtain out evs where run: "run_job_on ab_assign 1 1 sample_jobs_fetch ab_env empty_stores
       = ((out, evs), \<lparr>as_payloads = [''ab'' \<mapsto> ab_dir], as_browsers = [''ab'' \<mapsto> ab_dir]\<rparr>)"
    and sp: "SpawnedRunner \<in> set evs"
    by (rule ab_job_spawns)
  have "stores_addressed digest_of untar_of empty_stores"
    by (simp add: stores_addressed_def content_addressed_def empty_stores_def)
  moreover have "honest digest_of untar_of (jf_payload sample_jobs_fetch)" "honest digest_of untar_of (jf_browser sample_jobs_fetch)"
    by (simp_all add: sample_jobs_fetch_def fetch_ok_honest)
  ultimately show ?thesis
    using job_runs_verified_artifacts [OF _ _ _ ab_digests run] run sp by (auto simp: ab_assign_def)
qed

text \<open>
  A digest that does not look like one is not refused. The hidden directory an oversized archive was
  left in is a complete entry for an assignment that names it: the archive no ceiling let through
  runs.
\<close>

theorem hidden_download_accepted:
  "(case ensure_artifact ''ab'' ''executable'' bomb_fill Map.empty of (r, ks) \<Rightarrow>
      r = Inl OverExtracted
      \<and> fst (ensure_artifact (tmp_name ''ab'') ''executable'' env ks) = Inr (tmp_name ''ab''))"
  by (simp add: artifact_eval bomb_fill_def split: option.split)

end
