(* ===== verification/Node_Disk.thy ===== *)
theory Node_Disk
  imports Job_Artifacts Session_Cache
begin

text \<open>
  The artifact caches over the life of a node: the jobs that fill them (\<open>ensure_artifact\<close> in
  \<open>crates/supervisor-core/src/runner.rs\<close>) and the sweeps that evict from them
  (\<open>crates/supervisor-core/src/cache.rs\<close>) as the steps of one machine that starts on an empty disk. Jobs
  and sweeps are taken one at a time. A process killed while it fills a cache leaves what a step of
  the fill that fails leaves; a removal that fails or is cut short is a step of its own.
\<close>

section \<open>What the publisher serves\<close>

text \<open>
  \<open>pb_archive\<close> is what an archive holds; \<open>pb_served\<close> are the bodies the URLs of assignments ever answer.
  Two different bodies that were served do not have the same digest.
\<close>

record publisher =
  pb_digest :: "u8 list \<Rightarrow> u8 list"
  pb_archive :: "u8 list \<Rightarrow> artifact_dir"
  pb_served :: "u8 list list"

definition collision_free :: "publisher \<Rightarrow> bool" where
  "collision_free w \<longleftrightarrow>
     list_all (\<lambda>x. list_all (\<lambda>y. pb_digest w x = pb_digest w y \<longrightarrow> x = y) (pb_served w)) (pb_served w)"

definition named_archive :: "publisher \<Rightarrow> string \<Rightarrow> u8 list \<Rightarrow> bool" where
  "named_archive w sha b \<longleftrightarrow> b \<in> set (pb_served w) \<and> hex_lower (pb_digest w b) = sha"

text \<open>The two files of a cached directory that are not the archive's.\<close>

definition own_file :: "string \<Rightarrow> bool" where
  "own_file f \<longleftrightarrow> f = tar_file \<or> f = ''.last-use''"

text \<open>
  A fetch is the download of \<open>artifact_fetch.rs\<close> from the publisher. \<open>tar\<close> unpacks the archive when it
  succeeds; when it fails it leaves any part of the archive's files, with any contents.
\<close>

definition body_bytes :: "response \<Rightarrow> u8 list" where
  "body_bytes re = concat (map (\<lambda>x. case x of Chunk c \<Rightarrow> c | _ \<Rightarrow> []) (re_body re))"

definition fetches_from :: "publisher \<Rightarrow> fill_env \<Rightarrow> bool" where
  "fetches_from w env \<longleftrightarrow>
     (\<exists>create_ok wr rm_ok resp. fe_fetch env = download_to_file_hashed (pb_digest w) create_ok wr rm_ok resp
        \<and> (case resp of None \<Rightarrow> True | Some re \<Rightarrow> body_bytes re \<in> set (pb_served w)))
     \<and> (\<forall>b t ok. fe_untar env b = (t, ok) \<longrightarrow>
          dom t \<subseteq> dom (pb_archive w b) \<and> (ok \<longrightarrow> t = pb_archive w b))"

lemma named_archive_unique:
  "collision_free w \<Longrightarrow> named_archive w sha x \<Longrightarrow> named_archive w sha y \<Longrightarrow> x = y"
  by (auto simp: named_archive_def collision_free_def list_all_iff dest: hex_lower_inj)

lemma fetch_named:
  assumes "fetches_from w env" and "fe_fetch env = (Inr sha, disk)"
  obtains b where "disk = Some b" and "named_archive w sha b"
proof -
  obtain create_ok wr rm_ok resp where
    d: "download_to_file_hashed_capped (pb_digest w) ARTIFACT_MAX_BYTES create_ok wr rm_ok resp = (Inr sha, disk)"
    and s: "case resp of None \<Rightarrow> True | Some re \<Rightarrow> body_bytes re \<in> set (pb_served w)"
    using assms by (auto simp: fetches_from_def download_to_file_hashed_def)
  then obtain re u where re: "resp = Some re"
      and l: "download_loop ARTIFACT_MAX_BYTES wr rm_ok 0 [] (re_body re) = (Inr u, disk)"
      and h: "sha = hex_lower (pb_digest w (body_bytes re))"
    by (auto simp: download_to_file_hashed_capped_def body_bytes_def split: option.splits if_splits prod.splits sum.splits)
  show ?thesis
    using that download_loop_result [OF l] h s re by (simp add: named_archive_def body_bytes_def)
qed

section \<open>One cache\<close>

text \<open>
  An entry is the archive it is named after, file by file; a removal that was cut short may have
  taken files away. A hidden download directory only has files of its own archive, whatever they
  hold.
\<close>

definition unpacked :: "publisher \<Rightarrow> bool \<Rightarrow> string \<Rightarrow> artifact_dir \<Rightarrow> bool" where
  "unpacked w torn sha t \<longleftrightarrow>
     (\<exists>b. named_archive w sha b
        \<and> (\<forall>f. own_file f \<or> t f = pb_archive w b f \<or> (torn \<and> t f = None)))"

definition scratch_of :: "publisher \<Rightarrow> string \<Rightarrow> artifact_dir \<Rightarrow> bool" where
  "scratch_of w sha t \<longleftrightarrow>
     (\<forall>f. own_file f \<or> t f = None \<or> (\<exists>b. named_archive w sha b \<and> pb_archive w b f \<noteq> None))"

definition kind_ok :: "publisher \<Rightarrow> (string \<Rightarrow> bool) \<Rightarrow> kind_store \<Rightarrow> bool" where
  "kind_ok w torn ks \<longleftrightarrow>
     (\<forall>sha t. ks sha = Some t \<longrightarrow> digest_shaped sha \<longrightarrow> unpacked w (torn sha) sha t)
     \<and> (\<forall>sha t. ks (tmp_name sha) = Some t \<longrightarrow> scratch_of w sha t)"

lemma kind_okD:
  "kind_ok w torn ks \<Longrightarrow> ks sha = Some t \<Longrightarrow> digest_shaped sha \<Longrightarrow> unpacked w (torn sha) sha t"
  "kind_ok w torn ks \<Longrightarrow> ks (tmp_name sha) = Some t \<Longrightarrow> scratch_of w sha t"
  by (simp_all add: kind_ok_def)

lemma kind_ok_empty: "kind_ok w torn Map.empty"
  by (simp add: kind_ok_def)

lemma kind_ok_drop: "kind_ok w torn ks \<Longrightarrow> kind_ok w torn (ks(n := None))"
  by (simp add: kind_ok_def)

lemma kind_ok_remove: "kind_ok w torn ks \<Longrightarrow> kind_ok w torn (remove_if b n ks)"
  by (simp add: remove_if_def kind_ok_drop)

lemma kind_ok_scratch: "kind_ok w torn ks \<Longrightarrow> scratch_of w sha t \<Longrightarrow> kind_ok w torn (ks(tmp_name sha \<mapsto> t))"
  using tmp_not_digest by (auto simp: kind_ok_def tmp_name_inj)

lemma kind_ok_publish:
  "kind_ok w torn ks \<Longrightarrow> digest_shaped sha \<Longrightarrow> unpacked w (torn sha) sha t \<Longrightarrow> kind_ok w torn (ks(sha \<mapsto> t))"
  using tmp_not_digest by (auto simp: kind_ok_def)

lemma scratch_empty: "scratch_of w sha Map.empty"
  by (simp add: scratch_of_def)

lemma own_files: "own_file tar_file" "own_file ''.last-use''"
  by (simp_all add: own_file_def)

lemma scratch_own: "scratch_of w sha t \<Longrightarrow> own_file f \<Longrightarrow> scratch_of w sha (t(f := x))"
  by (auto simp: scratch_of_def)

lemma unpacked_own: "unpacked w torn sha t \<Longrightarrow> own_file f \<Longrightarrow> unpacked w torn sha (t(f := x))"
  by (auto simp: unpacked_def)

lemma unpacked_weaken: "unpacked w torn sha t \<Longrightarrow> (torn \<Longrightarrow> torn') \<Longrightarrow> unpacked w torn' sha t"
  unfolding unpacked_def by blast

lemmas kind_ok_intros = kind_ok_drop kind_ok_remove kind_ok_scratch scratch_own own_files

text \<open>Unpacking the whole archive over what is left of an earlier try gives the archive.\<close>

lemma unpack_over:
  assumes "collision_free w" and "scratch_of w sha t" and "named_archive w sha b"
  shows "unpacked w False sha (t ++ pb_archive w b)"
proof -
  have "own_file f \<or> (t ++ pb_archive w b) f = pb_archive w b f" for f
  proof (cases "pb_archive w b f")
    case None
    have "pb_archive w b' f = None" if "named_archive w sha b'" for b'
      using None named_archive_unique [OF assms(1) that assms(3)] by simp
    then have "own_file f \<or> t f = None" using assms(2) by (auto simp: scratch_of_def)
    then show ?thesis using None by (auto simp: map_add_def)
  qed (simp add: map_add_def)
  then show ?thesis using assms(3) by (auto simp: unpacked_def)
qed

lemma unpack_part:
  assumes "scratch_of w sha t" and "named_archive w sha b" and "dom files \<subseteq> dom (pb_archive w b)"
  shows "scratch_of w sha (t ++ files)"
  unfolding scratch_of_def
proof
  fix f
  show "own_file f \<or> (t ++ files) f = None \<or> (\<exists>b. named_archive w sha b \<and> pb_archive w b f \<noteq> None)"
  proof (cases "files f")
    case None
    then show ?thesis using assms(1) by (simp add: scratch_of_def map_add_def)
  next
    case (Some v)
    then have "pb_archive w b f \<noteq> None" using assms(3) by (auto simp: dom_def)
    then show ?thesis using assms(2) by blast
  qed
qed

lemma unpacked_scratch: "unpacked w torn sha t \<Longrightarrow> scratch_of w sha t"
  unfolding unpacked_def scratch_of_def by metis

lemma kind_ok_install:
  assumes "kind_ok w torn ks" and "digest_shaped sha" and "unpacked w False sha t"
    and "install_artifact sha marker env t ks = (r, ks')"
  shows "kind_ok w torn ks'"
proof -
  define t1 where "t1 = (if fe_rm_tar env then t(tar_file := None) else t)"
  define ks1 where "ks1 = ks(tmp_name sha \<mapsto> t1)"
  define ks2 where "ks2 = (if ks1 sha \<noteq> None then remove_if (fe_rm_dir env) sha ks1 else ks1)"
  have t1: "unpacked w False sha t1" using assms(3) by (simp add: t1_def unpacked_own own_files)
  then have c1: "kind_ok w torn ks1"
    unfolding ks1_def using assms(1) by (intro kind_ok_scratch unpacked_scratch)
  then have c2: "kind_ok w torn ks2" by (simp add: ks2_def kind_ok_remove)
  then have "kind_ok w torn (ks2(tmp_name sha := None, sha \<mapsto> t1))"
    using t1 assms(2) by (auto intro: kind_ok_publish kind_ok_drop unpacked_weaken)
  then show ?thesis
    using assms(4) c1 c2 unfolding install_artifact_def Let_def t1_def [symmetric] ks1_def [symmetric]
      ks2_def [symmetric]
    by (auto split: if_splits intro: kind_ok_remove)
qed


text \<open>The archive is unpacked into the hidden sibling only after its digest was checked.\<close>

lemma kind_ok_unpack:
  assumes w: "collision_free w" and ks: "kind_ok w torn ks" and sha: "digest_shaped sha"
    and t: "scratch_of w sha t" and b: "named_archive w sha b" and env: "fetches_from w env"
    and run: "(case extract_tar_capped mx (fe_untar env) du b t of
        (t2, Some e) \<Rightarrow> (Inl e, ks(tmp_name sha \<mapsto> t2))
      | (t2, None) \<Rightarrow> install_artifact sha marker env t2 ks) = (r, ks')"
  shows "kind_ok w torn ks'"
proof -
  obtain files ok where u: "fe_untar env b = (files, ok)" by (cases "fe_untar env b")
  then have part: "dom files \<subseteq> dom (pb_archive w b)" and whole: "ok \<Longrightarrow> files = pb_archive w b"
    using env unfolding fetches_from_def by blast+
  obtain e where x: "extract_tar_capped mx (fe_untar env) du b t = (t ++ files, e)"
      and ok: "e = None \<longrightarrow> ok"
    using u by (cases ok) (auto simp: extract_tar_capped_def Let_def)
  show ?thesis
  proof (cases e)
    case None
    then have "unpacked w False sha (t ++ files)" using whole ok unpack_over [OF w t b] by simp
    then show ?thesis using run x None kind_ok_install [OF ks sha] by simp
  next
    case (Some err)
    then show ?thesis using run x kind_ok_scratch [OF ks unpack_part [OF t b part]] by auto
  qed
qed

lemma kind_ok_ensure:
  assumes w: "collision_free w" and ok: "kind_ok w torn ks" and env: "fetches_from w env"
    and sha: "digest_shaped sha" and run: "ensure_artifact sha marker env ks = (r, ks')"
  shows "kind_ok w torn ks'"
proof (cases "has_file marker (ks sha)")
  case True
  then have "ks' = ks \<or> (\<exists>b t. ks sha = Some t \<and> ks' = ks(sha \<mapsto> t(''.last-use'' \<mapsto> b)))"
    using run by (auto simp: ensure_artifact_def Let_def has_file_def split: option.splits)
  then show ?thesis
    using ok sha by (auto intro!: kind_ok_publish unpacked_own own_files dest: kind_okD(1))
next
  case False
  define ks0 where "ks0 = (if ks (tmp_name sha) \<noteq> None then remove_if (fe_rm_tmp env) (tmp_name sha) ks else ks)"
  define t0 where "t0 = (case ks0 (tmp_name sha) of Some t \<Rightarrow> t | None \<Rightarrow> Map.empty)"
  obtain res disk where f: "fe_fetch env = (res, disk)" by (cases "fe_fetch env")
  define t1 where "t1 = t0(tar_file := disk)"
  define ks1 where "ks1 = ks0(tmp_name sha \<mapsto> t1)"
  have k0: "kind_ok w torn ks0" using ok by (simp add: ks0_def kind_ok_remove)
  have "scratch_of w sha t0"
    unfolding t0_def using kind_okD(2) [OF k0] scratch_empty by (auto split: option.split)
  then have t1: "scratch_of w sha t1" by (simp add: t1_def scratch_own own_files)
  have k1: "kind_ok w torn ks1" unfolding ks1_def using k0 t1 by (rule kind_ok_scratch)
  note unfold = ensure_artifact_def Let_def ks0_def [symmetric] f t0_def [symmetric] t1_def [symmetric]
    ks1_def [symmetric] prod.case
  show ?thesis
  proof (cases "fe_mkdir_parent env \<and> fe_mkdir_tmp env \<and> res = Inr sha")
    case True
    then obtain b where "disk = Some b" "named_archive w sha b" using fetch_named [OF env] f by blast
    then show ?thesis
      using run False True unfolding unfold by (intro kind_ok_unpack [OF w k1 sha t1 _ env]) auto
  next
    case not: False
    then have "ks' \<in> {ks, ks0, ks1, remove_if (fe_rm_tmp env) (tmp_name sha) ks1}"
      using run False unfolding unfold by (auto split: if_splits sum.splits)
    then show ?thesis using ok k0 k1 kind_ok_remove by auto
  qed
qed


section \<open>The machine\<close>

definition store_of :: "string \<Rightarrow> artifact_stores \<Rightarrow> kind_store" where
  "store_of k st = (if k = ''payloads'' then as_payloads st
                    else if k = ''browsers'' then as_browsers st else Map.empty)"

definition map_kind :: "string \<Rightarrow> (kind_store \<Rightarrow> kind_store) \<Rightarrow> artifact_stores \<Rightarrow> artifact_stores" where
  "map_kind k f st = (if k = ''payloads'' then st\<lparr>as_payloads := f (as_payloads st)\<rparr>
                      else if k = ''browsers'' then st\<lparr>as_browsers := f (as_browsers st)\<rparr> else st)"

text \<open>The listing a sweep scans is one of the store: names that are there, markers that are there.\<close>

definition listing_of :: "(string \<Rightarrow> listed list option) \<Rightarrow> artifact_stores \<Rightarrow> bool" where
  "listing_of roots st \<longleftrightarrow>
     (\<forall>k\<in>{''payloads'', ''browsers''}. \<forall>ls l n. roots k = Some ls \<longrightarrow> l \<in> set ls \<longrightarrow> li_name l = Some n \<longrightarrow>
        (\<forall>m. li_has_marker l m = has_file m (store_of k st n)))"

definition evict_entry :: "cache_entry \<Rightarrow> artifact_stores \<Rightarrow> artifact_stores" where
  "evict_entry e = map_kind (ce_kind e) (\<lambda>ks. ks(ce_sha e := None))"

definition evict_stores :: "cache_entry list \<Rightarrow> artifact_stores \<Rightarrow> artifact_stores" where
  "evict_stores gone = fold evict_entry gone"

definition digest_assign :: "job_assign_message \<Rightarrow> bool" where
  "digest_assign a \<longleftrightarrow> digest_shaped (ja_payload_sha256 a)
     \<and> (case ja_browser_sha256 a of None \<Rightarrow> True | Some b \<Rightarrow> digest_shaped b)"

text \<open>
  \<open>Job\<close>: an assignment is run and these were its events. \<open>Swept\<close>: a sweep with these keys protected
  evicted these entries. \<open>CutShort\<close>: a removal of the directory \<open>n\<close> of a cache failed, or the process
  died in it, and the files \<open>keep\<close> are left.
\<close>

datatype node_act = Job job_assign_message "job_event list" | Swept "string list" "cache_entry list"
  | CutShort string string

inductive node_step :: "publisher \<Rightarrow> artifact_stores \<Rightarrow> node_act \<Rightarrow> artifact_stores \<Rightarrow> bool"
  for w :: publisher where
  node_job: "run_job_on a limit cap jf je st = ((out, evs), st') \<Longrightarrow> digest_assign a \<Longrightarrow>
     fetches_from w (jf_payload jf) \<Longrightarrow> fetches_from w (jf_browser jf) \<Longrightarrow> node_step w st (Job a evs) st'"
| node_sweep: "listing_of roots st \<Longrightarrow> sweep_caches mx cap in_flight rm roots = (out, gone) \<Longrightarrow>
     node_step w st (Swept in_flight gone) (evict_stores gone st)"
| node_cut: "node_step w st (CutShort k n) (map_kind k (\<lambda>ks. ks(n := map_option (\<lambda>t. t |` keep) (ks n))) st)"

inductive_cases node_jobE: "node_step w st (Job a evs) st'"
inductive_cases node_sweptE: "node_step w st (Swept in_flight gone) st'"

text \<open>The acts of a node since its disk was empty, the latest first.\<close>

inductive node_run :: "publisher \<Rightarrow> node_act list \<Rightarrow> artifact_stores \<Rightarrow> bool" for w :: publisher where
  node_fresh: "node_run w [] empty_stores"
| node_more: "node_run w acts st \<Longrightarrow> node_step w st act st' \<Longrightarrow> node_run w (act # acts) st'"

section \<open>The invariant\<close>

definition was_cut :: "node_act list \<Rightarrow> string \<Rightarrow> string \<Rightarrow> bool" where
  "was_cut acts k n \<longleftrightarrow> CutShort k n \<in> set acts"

definition disk_ok :: "publisher \<Rightarrow> node_act list \<Rightarrow> artifact_stores \<Rightarrow> bool" where
  "disk_ok w acts st \<longleftrightarrow> kind_ok w (was_cut acts ''payloads'') (as_payloads st)
     \<and> kind_ok w (was_cut acts ''browsers'') (as_browsers st)"

lemma was_cut_Cons: "was_cut (act # acts) k n \<longleftrightarrow> act = CutShort k n \<or> was_cut acts k n"
  by (auto simp: was_cut_def)

lemma kind_ok_weaken: "kind_ok w torn ks \<Longrightarrow> (\<And>n. torn n \<Longrightarrow> torn' n) \<Longrightarrow> kind_ok w torn' ks"
  unfolding kind_ok_def by (blast intro: unpacked_weaken)

lemma disk_ok_Cons: "disk_ok w acts st \<Longrightarrow> disk_ok w (act # acts) st"
  by (auto simp: disk_ok_def was_cut_Cons elim!: kind_ok_weaken)

lemma unpacked_cut: "unpacked w torn sha t \<Longrightarrow> unpacked w True sha (t |` keep)"
  unfolding unpacked_def restrict_map_def by fastforce

lemma scratch_cut: "scratch_of w sha t \<Longrightarrow> scratch_of w sha (t |` keep)"
  by (auto simp: scratch_of_def restrict_map_def)

lemma kind_ok_cut:
  assumes ok: "kind_ok w torn ks" and n: "torn n"
  shows "kind_ok w torn (ks(n := map_option (\<lambda>t. t |` keep) (ks n)))"
proof (cases "ks n")
  case None
  then show ?thesis using kind_ok_drop [OF ok, of n] by simp
next
  case (Some t)
  show ?thesis
    unfolding kind_ok_def
  proof (intro conjI allI impI)
    fix sha u
    assume u: "(ks(n := map_option (\<lambda>t. t |` keep) (ks n))) sha = Some u"
    show "unpacked w (torn sha) sha u" if "digest_shaped sha"
      using u that kind_okD(1) [OF ok] n by (cases "sha = n") (auto intro: unpacked_cut)
  next
    fix sha u
    assume u: "(ks(n := map_option (\<lambda>t. t |` keep) (ks n))) (tmp_name sha) = Some u"
    show "scratch_of w sha u"
      using u kind_okD(2) [OF ok] by (cases "tmp_name sha = n") (auto intro: scratch_cut)
  qed
qed

lemma disk_ok_cut:
  assumes "disk_ok w acts st"
  shows "disk_ok w (CutShort k n # acts) (map_kind k (\<lambda>ks. ks(n := map_option (\<lambda>t. t |` keep) (ks n))) st)"
proof -
  have "was_cut (CutShort k n # acts) k n" by (simp add: was_cut_def)
  then show ?thesis
    using disk_ok_Cons [OF assms, of "CutShort k n"] unfolding disk_ok_def map_kind_def
    by (cases "k = ''payloads''"; cases "k = ''browsers''") (simp_all add: kind_ok_cut del: fun_upd_apply)
qed

lemma disk_ok_evict_entry: "disk_ok w acts st \<Longrightarrow> disk_ok w acts (evict_entry e st)"
  unfolding disk_ok_def evict_entry_def map_kind_def
  by (cases "ce_kind e = ''payloads''"; cases "ce_kind e = ''browsers''")
     (simp_all add: kind_ok_drop del: fun_upd_apply)

lemma disk_ok_evict: "disk_ok w acts st \<Longrightarrow> disk_ok w acts (evict_stores gone st)"
  unfolding evict_stores_def
  by (induction gone arbitrary: st) (simp_all add: disk_ok_evict_entry)

text \<open>The entry a job is answered: the archive's files, but for those a cut removal took away.\<close>

definition runs_archive :: "publisher \<Rightarrow> bool \<Rightarrow> string \<Rightarrow> string \<Rightarrow> kind_store \<Rightarrow> bool" where
  "runs_archive w torn sha f ks \<longleftrightarrow>
     (case ks sha of None \<Rightarrow> False | Some t \<Rightarrow> t f \<noteq> None \<and> unpacked w torn sha t)"

lemma ensured_archive:
  assumes "kind_ok w torn ks" and "digest_shaped sha" and "has_file marker (ks sha)"
  shows "runs_archive w (torn sha) sha marker ks"
  using assms by (auto simp: runs_archive_def has_file_def dest: kind_okD(1) split: option.splits)

lemma payload_run:
  assumes w: "collision_free w" and st: "disk_ok w acts st" and env: "fetches_from w env"
    and a: "digest_assign a" and run: "ensure_payload a env st = (r, st')"
  shows "disk_ok w acts st'"
    and "r = Inr dir \<Longrightarrow> dir = ja_payload_sha256 a \<and> has_file ''decent-render-runner'' (as_payloads st' dir)"
proof -
  obtain ks where e: "ensure_artifact (ja_payload_sha256 a) ''decent-render-runner'' env (as_payloads st) = (r, ks)"
      and st': "st' = st\<lparr>as_payloads := ks\<rparr>"
    using run by (auto simp: ensure_payload_def split: prod.splits)
  show "disk_ok w acts st'"
    using st a kind_ok_ensure [OF w _ env _ e] st' by (simp add: disk_ok_def digest_assign_def)
  show "r = Inr dir \<Longrightarrow> dir = ja_payload_sha256 a \<and> has_file ''decent-render-runner'' (as_payloads st' dir)"
    using ensured_file [of "ja_payload_sha256 a" "''decent-render-runner''" env "as_payloads st" dir ks] e st'
    by auto
qed

lemma browser_run:
  assumes w: "collision_free w" and st: "disk_ok w acts st" and env: "fetches_from w env"
    and a: "digest_assign a" and run: "ensure_browser decode there a env st = (r, st')"
  shows "disk_ok w acts st'" and "as_payloads st' = as_payloads st"
    and "ja_browser_sha256 a = Some b \<Longrightarrow> ja_browser_get_url a = Some url \<Longrightarrow> r = Inr p
      \<Longrightarrow> has_file ''executable'' (as_browsers st' b)"
proof -
  have "st' = st \<or> (\<exists>b r' ks. ja_browser_sha256 a = Some b \<and> st' = st\<lparr>as_browsers := ks\<rparr>
      \<and> ensure_artifact b ''executable'' env (as_browsers st) = (r', ks))"
    using run by (auto simp: ensure_browser_def split: option.splits sum.splits prod.splits)
  then show "disk_ok w acts st'" "as_payloads st' = as_payloads st"
    using st a kind_ok_ensure [OF w _ env] by (auto simp: disk_ok_def digest_assign_def)
  assume "ja_browser_sha256 a = Some b" "ja_browser_get_url a = Some url" "r = Inr p"
  then show "has_file ''executable'' (as_browsers st' b)"
    using run ensured_file [of b "''executable''" env "as_browsers st"]
    by (auto simp: ensure_browser_def split: sum.splits prod.splits)
qed

lemma fetched_run:
  assumes w: "collision_free w" and st: "disk_ok w acts st" and a: "digest_assign a"
    and env: "fetches_from w (jf_payload jf)" "fetches_from w (jf_browser jf)"
    and run: "fetched_env a jf je st = (je', st')"
  shows "disk_ok w acts st'"
    and "(\<And>e. je_payload je' \<noteq> Inl e) \<Longrightarrow> (\<And>e. je_browser je' \<noteq> Inl e) \<Longrightarrow>
      has_file ''decent-render-runner'' (as_payloads st' (ja_payload_sha256 a))
      \<and> (\<forall>b url. ja_browser_sha256 a = Some b \<longrightarrow> ja_browser_get_url a = Some url \<longrightarrow>
           has_file ''executable'' (as_browsers st' b))"
proof -
  obtain r st1 where p: "ensure_payload a (jf_payload jf) st = (r, st1)"
    by (cases "ensure_payload a (jf_payload jf) st")
  note pv = payload_run [OF w st env(1) a p]
  obtain rb st2 where b: "ensure_browser (jf_decode jf) (jf_there jf) a (jf_browser jf) st1 = (rb, st2)"
    by (cases "ensure_browser (jf_decode jf) (jf_there jf) a (jf_browser jf) st1")
  note bv = browser_run [OF w pv(1) env(2) a b]
  show "disk_ok w acts st'"
    using run p b pv(1) bv(1) by (auto simp: fetched_env_def Let_def split: sum.splits if_splits)
  assume ne: "\<And>e. je_payload je' \<noteq> Inl e" "\<And>e. je_browser je' \<noteq> Inl e"
  have "r \<noteq> Inl e" for e
    using run p ne(1) [of "jf_error jf (ArtifactFill e)"] by (auto simp: fetched_env_def)
  then obtain dir where dir: "r = Inr dir" by (cases r) auto
  note d = pv(2) [OF dir]
  have "rb \<noteq> Inl e" for e
    using run p b dir d ne(2) [of "jf_error jf e"] by (auto simp: fetched_env_def Let_def)
  then obtain q where q: "rb = Inr q" "st' = st2"
    using run p b dir d by (cases rb) (auto simp: fetched_env_def Let_def)
  show "has_file ''decent-render-runner'' (as_payloads st' (ja_payload_sha256 a))
      \<and> (\<forall>b url. ja_browser_sha256 a = Some b \<longrightarrow> ja_browser_get_url a = Some url \<longrightarrow>
           has_file ''executable'' (as_browsers st' b))"
    using d q bv(2) bv(3) by auto
qed

lemma disk_ok_step:
  assumes "collision_free w" and "disk_ok w acts st" and "node_step w st act st'"
  shows "disk_ok w (act # acts) st'"
  using assms(3)
proof cases
  case (node_job a limit cap jf je out evs)
  then obtain je' where "fetched_env a jf je st = (je', st')"
    by (auto simp: run_job_on_def split: prod.splits)
  then show ?thesis using fetched_run(1) [OF assms(1,2)] node_job disk_ok_Cons by blast
qed (use assms(2) disk_ok_cut disk_ok_evict disk_ok_Cons in blast)+

lemma disk_ok_run: "node_run w acts st \<Longrightarrow> collision_free w \<Longrightarrow> disk_ok w acts st"
proof (induction rule: node_run.induct)
  case node_fresh
  show ?case by (simp add: disk_ok_def empty_stores_def kind_ok_empty)
qed (rule disk_ok_step)


text \<open>
  C6: A node only ever runs what its publisher published. Take any history of jobs, sweeps and cut
  removals on a node whose disk was empty, with archives of different digests and assignments that
  name digests. A job that starts a runner starts it from an entry that is, file by file, the
  archive with the payload's digest, whatever downloads, unpackings and removals failed before it,
  and the browser named by the assignment is the archive with the browser's; the one thing that can
  be missing is what a removal of that very entry took before it was cut short.
\<close>

theorem node_runs_published_artifacts:
  assumes "node_run w acts st" and "collision_free w" and "node_step w st (Job a evs) st'"
    and "SpawnedRunner \<in> set evs"
  shows "runs_archive w (was_cut acts ''payloads'' (ja_payload_sha256 a)) (ja_payload_sha256 a)
           ''decent-render-runner'' (as_payloads st')
     \<and> (\<forall>b url. ja_browser_sha256 a = Some b \<and> ja_browser_get_url a = Some url \<longrightarrow>
          runs_archive w (was_cut acts ''browsers'' b) b ''executable'' (as_browsers st'))"
proof -
  obtain limit cap jf je out where run: "run_job_on a limit cap jf je st = ((out, evs), st')"
    and a: "digest_assign a" and env: "fetches_from w (jf_payload jf)" "fetches_from w (jf_browser jf)"
    using assms(3) by (rule node_jobE)
  then obtain je' where je': "fetched_env a jf je st = (je', st')" "run_job a limit cap je' = (out, evs)"
    by (auto simp: run_job_on_def split: prod.splits)
  note f = fetched_run [OF assms(2) disk_ok_run [OF assms(1,2)] a env je'(1)]
  have "SpawnedRunner \<in> set (snd (run_job a limit cap je'))" using assms(4) je'(2) by simp
  note marks = f(2) [OF spawned_needs_artifacts(1) [OF this] spawned_needs_artifacts(3) [OF this]]
  have "kind_ok w (was_cut acts ''payloads'') (as_payloads st')" "kind_ok w (was_cut acts ''browsers'') (as_browsers st')"
    using f(1) by (simp_all add: disk_ok_def)
  then show ?thesis
    using marks a by (auto simp: digest_assign_def intro!: ensured_archive)
qed

section \<open>What a sweep leaves\<close>

lemma evict_store:
  assumes "k \<in> {''payloads'', ''browsers''}"
  shows "store_of k (evict_stores gone st) n
     = (if (k, n) \<in> set (map (\<lambda>e. (ce_kind e, ce_sha e)) gone) then None else store_of k st n)"
  unfolding evict_stores_def
proof (induction gone arbitrary: st)
  case (Cons e gone)
  have "store_of k (evict_entry e st) n = (if (k, n) = (ce_kind e, ce_sha e) then None else store_of k st n)"
    using assms by (auto simp: store_of_def evict_entry_def map_kind_def)
  then show ?case using Cons by auto
qed simp

lemma tmp_name_hidden: "starts_with (tmp_name sha) ''.''"
  by (simp add: tmp_name_def starts_with_def)

text \<open>An entry a sweep takes is a visible one, complete, and under no protected key.\<close>

lemma swept_entry:
  assumes "node_step w st (Swept in_flight gone) st'" and "k \<in> {''payloads'', ''browsers''}"
    and "store_of k st' n \<noteq> store_of k st n"
  shows "store_of k st' n = None \<and> k @ '':'' @ n \<notin> set in_flight \<and> \<not> starts_with n ''.''
     \<and> has_file (completion_marker k) (store_of k st n)"
  using assms(1)
proof (rule node_sweptE)
  fix roots mx cap rm out
  assume st': "st' = evict_stores gone st" and l: "listing_of roots st"
    and sw: "sweep_caches mx cap in_flight rm roots = (out, gone)"
  have "(k, n) \<in> set (map (\<lambda>e. (ce_kind e, ce_sha e)) gone)" and none: "store_of k st' n = None"
    using assms(3) evict_store [OF assms(2), of gone st n] st' by (auto split: if_splits)
  then obtain e where e: "e \<in> set gone" "ce_kind e = k" "ce_sha e = n" by auto
  then obtain ls l where "roots k = Some ls" "l \<in> set ls" "li_name l = Some n"
      and x: "li_has_marker l (completion_marker k)" "k @ '':'' @ n \<notin> set in_flight" "\<not> starts_with n ''.''"
    using protected_never_evicted [OF sw e(1)] by auto
  then have "has_file (completion_marker k) (store_of k st n)"
    using l assms(2) unfolding listing_of_def by blast
  then show ?thesis using none x by simp
qed


section \<open>Witnesses\<close>

definition runner_dir :: artifact_dir where
  "runner_dir = [''decent-render-runner'' \<mapsto> [1]]"

definition two_payloads :: artifact_stores where
  "two_payloads = \<lparr>as_payloads = [''aa'' \<mapsto> runner_dir, ''bb'' \<mapsto> runner_dir], as_browsers = Map.empty\<rparr>"

definition two_roots :: "string \<Rightarrow> listed list option" where
  "two_roots = (\<lambda>k. if k = ''payloads'' then Some (map (\<lambda>n. (sample_listed n)\<lparr>li_has_marker :=
     (\<lambda>m. has_file m (as_payloads two_payloads n))\<rparr>) [''aa'', ''bb'']) else None)"

lemma two_scan:
  "scan_caches 1000 two_roots = [sample_entry ''aa'' 2048 5, sample_entry ''bb'' 2048 5]"
  by (simp add: scan_caches_def cache_kinds_def scan_root_def two_roots_def two_payloads_def List.map_filter_def
      scan_entry_def sample_listed_def starts_with_def dir_size_empty entry_last_use_def runner_dir_def
      modified_at_def mtime_or_0_def sample_entry_def has_file_def completion_marker_def)

definition aa_assign :: job_assign_message where
  "aa_assign = sample_assign\<lparr>ja_payload_sha256 := ''aa'', ja_browser_sha256 := None\<rparr>"

definition ab_publisher :: publisher where
  "ab_publisher = \<lparr>pb_digest = digest_of, pb_archive = (\<lambda>b. fst (untar_of b)), pb_served = [[1]]\<rparr>"

lemma two_sweep:
  "node_step ab_publisher two_payloads (Swept (cache_keys_for aa_assign) [sample_entry ''bb'' 2048 5])
     (evict_stores [sample_entry ''bb'' 2048 5] two_payloads)"
proof (rule node_sweep)
  show "listing_of two_roots two_payloads"
    by (simp add: listing_of_def two_roots_def store_of_def sample_listed_def)
  show "sweep_caches 1000 2048 (cache_keys_for aa_assign) (\<lambda>e. True) two_roots
      = (\<lparr>so_entries = 2, so_bytes_before = 4096, so_bytes_after = 2048, so_evicted = 1\<rparr>,
         [sample_entry ''bb'' 2048 5])"
    by (simp add: sweep_caches_def sweep_entries_lru_def two_scan total_bytes_def lru_order_def
        sample_entry_def in_flight_key_def cache_keys_for_def aa_assign_def sample_assign_def)
qed


text \<open>A job on the empty disk, and the same job after a removal of its payload was cut short.\<close>

lemma fetch_ok_from: "fetches_from ab_publisher fetch_ok"
proof -
  have "fe_fetch fetch_ok = download_to_file_hashed digest_of True (\<lambda>k. True) True
      (Some \<lparr>re_content_length = None, re_body = [Chunk [1]]\<rparr>)" by (simp add: fetch_ok_def)
  then show ?thesis
    by (auto simp: fetches_from_def ab_publisher_def body_bytes_def fetch_ok_fields untar_of_def
        intro!: exI [of _ True] exI [of _ "\<lambda>k. True"] exI [of _ "Some \<lparr>re_content_length = None, re_body = [Chunk [1]]\<rparr>"])
qed

lemma ab_step:
  assumes "run_job_on ab_assign 1 1 sample_jobs_fetch ab_env st = ((out, evs), st')"
  shows "node_step ab_publisher st (Job ab_assign evs) st'"
proof (rule node_job [OF assms])
  show "digest_assign ab_assign" using ab_digests by (simp add: digest_assign_def split: option.split)
qed (simp_all add: sample_jobs_fetch_def fetch_ok_from)

lemma ab_collision_free: "collision_free ab_publisher"
  by (simp add: collision_free_def ab_publisher_def)

theorem node_runs_published_artifacts_witness:
  "\<exists>evs st'. node_step ab_publisher empty_stores (Job ab_assign evs) st'
     \<and> runs_archive ab_publisher False ''ab'' ''decent-render-runner'' (as_payloads st')
     \<and> runs_archive ab_publisher False ''ab'' ''executable'' (as_browsers st')"
proof -
  obtain out evs where run: "run_job_on ab_assign 1 1 sample_jobs_fetch ab_env empty_stores
       = ((out, evs), \<lparr>as_payloads = [''ab'' \<mapsto> ab_dir], as_browsers = [''ab'' \<mapsto> ab_dir]\<rparr>)"
    and sp: "SpawnedRunner \<in> set evs"
    by (rule ab_job_spawns)
  let ?st = "\<lparr>as_payloads = [''ab'' \<mapsto> ab_dir], as_browsers = [''ab'' \<mapsto> ab_dir]\<rparr>"
  have "ja_payload_sha256 ab_assign = ''ab''" "ja_browser_sha256 ab_assign = Some ''ab''"
      "ja_browser_get_url ab_assign = Some ''u''"
    by (simp_all add: ab_assign_def)
  then have "runs_archive ab_publisher False ''ab'' ''decent-render-runner'' (as_payloads ?st)
      \<and> runs_archive ab_publisher False ''ab'' ''executable'' (as_browsers ?st)"
    using node_runs_published_artifacts [OF node_fresh ab_collision_free ab_step [OF run] sp]
    by (simp add: was_cut_def)
  then show ?thesis using ab_step [OF run] by blast
qed

definition cut_stores :: artifact_stores where
  "cut_stores = \<lparr>as_payloads = [''ab'' \<mapsto> runner_dir], as_browsers = [''ab'' \<mapsto> ab_dir]\<rparr>"

lemma cut_job_spawns:
  obtains out evs where "run_job_on ab_assign 1 1 sample_jobs_fetch ab_env cut_stores = ((out, evs), cut_stores)"
    and "SpawnedRunner \<in> set evs"
proof -
  have "ensure_artifact ''ab'' ''decent-render-runner'' fetch_ok [''ab'' \<mapsto> runner_dir] = (Inr ''ab'', [''ab'' \<mapsto> runner_dir])"
    "ensure_artifact ''ab'' ''executable'' fetch_ok [''ab'' \<mapsto> ab_dir] = (Inr ''ab'', [''ab'' \<mapsto> ab_dir])"
    by (simp_all add: ensure_artifact_def Let_def has_file_def runner_dir_def ab_dir_def fetch_ok_def sample_fill_def)
  then show ?thesis
    using that by (simp add: ab_eval cut_stores_def runner_dir_def ab_dir_def)
qed

text \<open>
  The exception is real. An entry whose removal was cut short still has its completion marker when
  the marker is among the files left; the next job with that payload is answered the entry as
  complete and runs it without the files that are gone.
\<close>

theorem cut_entry_still_runs:
  "\<exists>acts evs. node_run ab_publisher acts cut_stores
     \<and> node_step ab_publisher cut_stores (Job ab_assign evs) cut_stores \<and> SpawnedRunner \<in> set evs
     \<and> named_archive ab_publisher ''ab'' [1] \<and> pb_archive ab_publisher [1] ''executable'' \<noteq> None
     \<and> as_payloads cut_stores ''ab'' = Some runner_dir \<and> runner_dir ''executable'' = None"
proof -
  obtain out evs where run: "run_job_on ab_assign 1 1 sample_jobs_fetch ab_env empty_stores
       = ((out, evs), \<lparr>as_payloads = [''ab'' \<mapsto> ab_dir], as_browsers = [''ab'' \<mapsto> ab_dir]\<rparr>)"
    by (rule ab_job_spawns)
  let ?st = "\<lparr>as_payloads = [''ab'' \<mapsto> ab_dir], as_browsers = [''ab'' \<mapsto> ab_dir]\<rparr>"
  have "ab_dir |` {''decent-render-runner''} = runner_dir"
    by (simp add: ab_dir_def runner_dir_def restrict_map_def fun_eq_iff)
  then have "cut_stores = map_kind ''payloads'' (\<lambda>ks. ks(''ab'' := map_option (\<lambda>t. t |` {''decent-render-runner''}) (ks ''ab''))) ?st"
    by (simp add: map_kind_def cut_stores_def)
  then have "node_run ab_publisher [CutShort ''payloads'' ''ab'', Job ab_assign evs] cut_stores"
    using node_more [OF node_more [OF node_fresh ab_step [OF run]] node_cut [of ab_publisher ?st "''payloads''" "''ab''"
        "{''decent-render-runner''}"]] by simp
  moreover obtain out' evs' where "run_job_on ab_assign 1 1 sample_jobs_fetch ab_env cut_stores = ((out', evs'), cut_stores)"
      "SpawnedRunner \<in> set evs'"
    by (rule cut_job_spawns)
  moreover have "named_archive ab_publisher ''ab'' [1] \<and> pb_archive ab_publisher [1] ''executable'' \<noteq> None
      \<and> as_payloads cut_stores ''ab'' = Some runner_dir \<and> runner_dir ''executable'' = None"
    by (simp add: named_archive_def ab_publisher_def untar_of_def cut_stores_def runner_dir_def digest_of_def
        hex_lower_def hex_digit_def char_ab)
  ultimately show ?thesis using ab_step by blast
qed

end
