(* ===== verification/Sweep.thy ===== *)
theory Sweep
  imports Fs Purge
begin

text \<open>
  The startup sweep of abandoned working directories (\<open>crates/supervisor-core/src/sweep.rs\<close>): the
  classification of a temp-dir name, the pid and age rules, and the retry of this process's own
  failed purges. The temp dir is the list of its entries (a name that is not UTF-8 is nothing);
  what \<open>kill(pid, 0)\<close> and \<open>remove_dir_all\<close> answer, the clock and the process's pid are arguments.
\<close>

section \<open>Names\<close>

definition STALE_RUNNER_DIR_AGE :: duration where "STALE_RUNNER_DIR_AGE = secs (7 * 24 * 60 * 60)"
definition MIN_EPOCH_NANOS :: nat where "MIN_EPOCH_NANOS = 1000000000000000000"

datatype classification = Supervisor nat | Runner | Foreign

definition supervisor_fields :: "string list \<Rightarrow> nat option" where
  "supervisor_fields parts =
     (let k = length parts
      in if k < 5 then None
         else (case parse_uint u32_bound (parts ! (k - 3)) of None \<Rightarrow> None
               | Some pid \<Rightarrow>
           (case parse_uint u64_bound (parts ! (k - 2)) of None \<Rightarrow> None
               | Some nanos \<Rightarrow>
           (case parse_uint u64_bound (parts ! (k - 1)) of None \<Rightarrow> None
               | Some ctr \<Rightarrow>
                   (if pid \<noteq> 0 \<and> MIN_EPOCH_NANOS \<le> nanos then Some pid else None)))))"

definition runner_suffix :: "string list \<Rightarrow> bool" where
  "runner_suffix parts =
     (3 \<le> length parts
      \<and> (let suffix = last parts
         in length suffix = 6 \<and> list_all (\<lambda>c. is_ascii_alnum c \<or> c = CHR ''_'') suffix))"

definition classify_dir_name :: "string \<Rightarrow> classification" where
  "classify_dir_name name =
     (if \<not> starts_with name ''job-'' then Foreign
      else let parts = split_on CHR ''-'' name
           in case supervisor_fields parts of
                Some pid \<Rightarrow> Supervisor pid
              | None \<Rightarrow> if runner_suffix parts then Runner else Foreign)"

section \<open>The sweep of a directory\<close>

datatype kill_answer = KillOk | KillEsrch | KillOther

definition pid_is_dead :: "nat \<Rightarrow> (nat \<Rightarrow> kill_answer) \<Rightarrow> nat \<Rightarrow> bool" where
  "pid_is_dead me kill0 pid = (if pid = me then False else kill0 pid = KillEsrch)"

definition should_remove :: "nat \<Rightarrow> (nat \<Rightarrow> kill_answer) \<Rightarrow> nat \<Rightarrow> duration \<Rightarrow> string \<Rightarrow> fsnode \<Rightarrow> bool" where
  "should_remove me kill0 now stale name n =
     (case classify_dir_name name of
        Supervisor owner \<Rightarrow> owner \<noteq> me \<and> pid_is_dead me kill0 owner
      | Runner \<Rightarrow> stale \<le> now - newest_mtime n
      | Foreign \<Rightarrow> False)"

type_synonym dir_entry = "string option \<times> fsnode"

text \<open>
  The names removed, in listing order; \<open>rm name\<close> tells whether \<open>remove_dir_all\<close> succeeds on that
  entry. A base that cannot be listed is nothing.
\<close>

fun sweep_entries :: "(string \<Rightarrow> fsnode \<Rightarrow> bool) \<Rightarrow> (string \<Rightarrow> bool) \<Rightarrow> dir_entry list \<Rightarrow> string list" where
  "sweep_entries doomed rm [] = []"
| "sweep_entries doomed rm ((None, n) # es) = sweep_entries doomed rm es"
| "sweep_entries doomed rm ((Some name, n) # es) =
     (if doomed name n \<and> rm name then name # sweep_entries doomed rm es
      else sweep_entries doomed rm es)"

definition sweep_dir :: "nat \<Rightarrow> (nat \<Rightarrow> kill_answer) \<Rightarrow> nat \<Rightarrow> duration \<Rightarrow> (string \<Rightarrow> bool)
    \<Rightarrow> dir_entry list option \<Rightarrow> string list" where
  "sweep_dir me kill0 now stale rm base =
     (case base of None \<Rightarrow> []
      | Some es \<Rightarrow> sweep_entries (should_remove me kill0 now stale) rm es)"

section \<open>Retrying this process's failed purges\<close>

text \<open>\<open>file_name().and_then(to_str).unwrap_or_default()\<close>: the last component of the recorded path.\<close>

definition file_name :: "path \<Rightarrow> string" where
  "file_name p = (if p = [] then [] else last p)"

definition may_retry :: "nat \<Rightarrow> (nat \<Rightarrow> kill_answer) \<Rightarrow> path \<Rightarrow> bool" where
  "may_retry me kill0 p =
     (case classify_dir_name (file_name p) of
        Supervisor owner \<Rightarrow> \<not> (owner \<noteq> me \<and> \<not> pid_is_dead me kill0 owner)
      | _ \<Rightarrow> False)"

fun retry_failures :: "(path \<Rightarrow> bool) \<Rightarrow> (path \<Rightarrow> bool) \<Rightarrow> purge_failure list \<Rightarrow> purge_failure list
    \<Rightarrow> nat \<Rightarrow> purge_failure list \<times> nat" where
  "retry_failures may rm [] l k = (l, k)"
| "retry_failures may rm (f # fs) l k =
     (if may (pf_path f) \<and> rm (pf_path f)
      then retry_failures may rm fs (clear_purge_failure (pf_path f) l) (Suc k)
      else retry_failures may rm fs l k)"

definition sweep_stale_workdirs :: "nat \<Rightarrow> (nat \<Rightarrow> kill_answer) \<Rightarrow> nat \<Rightarrow> (string \<Rightarrow> bool)
    \<Rightarrow> (path \<Rightarrow> bool) \<Rightarrow> dir_entry list option \<Rightarrow> purge_failure list \<Rightarrow> purge_failure list \<times> nat" where
  "sweep_stale_workdirs me kill0 now rm rm_path base l =
     retry_failures (may_retry me kill0) rm_path (outstanding_purge_failures l) l
       (length (sweep_dir me kill0 now STALE_RUNNER_DIR_AGE rm base))"

section \<open>What the sweep may and must remove\<close>

lemma sweep_entries_set:
  "x \<in> set (sweep_entries doomed rm es) \<longleftrightarrow>
     (\<exists>n. (Some x, n) \<in> set es \<and> doomed x n \<and> rm x)"
  by (induction doomed rm es rule: sweep_entries.induct) auto

lemma sweep_dir_set:
  "x \<in> set (sweep_dir me kill0 now stale rm (Some es)) \<longleftrightarrow>
     (\<exists>n. (Some x, n) \<in> set es \<and> should_remove me kill0 now stale x n \<and> rm x)"
  by (simp add: sweep_dir_def sweep_entries_set)

lemma starts_with_job: "starts_with (''job-'' @ s) ''job-''"
  by (rule starts_with_append)

lemma dash_range: "(of_char CHR ''-'' :: nat) < 48" by simp

lemma workdir_name_parts:
  "split_on CHR ''-'' (workdir_name pfx pid nanos ctr)
     = split_on CHR ''-'' pfx @ [show_nat pid, show_nat nanos, show_nat ctr]"
  using show_nat_not_in [of "CHR ''-''"]
  by (simp add: workdir_name_def split_on_append_sep split_on_no_sep)

lemma classify_workdir_name:
  assumes "0 < pid" and "pid < u32_bound" and "MIN_EPOCH_NANOS \<le> nanos" and "nanos < u64_bound"
    and "ctr < u64_bound"
  shows "classify_dir_name (workdir_name (''job-'' @ jid) pid nanos ctr) = Supervisor pid"
proof -
  let ?name = "workdir_name (''job-'' @ jid) pid nanos ctr"
  let ?front = "split_on CHR ''-'' (''job-'' @ jid)"
  have "?front = [''job''] @ split_on CHR ''-'' jid"
    using split_on_append_sep [of "CHR ''-''" "''job''" jid] by simp
  then have front: "2 \<le> length ?front"
    using length_split_on_pos [of "CHR ''-''" jid] by (simp add: Suc_le_eq)
  have parts: "split_on CHR ''-'' ?name = ?front @ [show_nat pid, show_nat nanos, show_nat ctr]"
    by (rule workdir_name_parts)
  have "supervisor_fields (?front @ [show_nat pid, show_nat nanos, show_nat ctr]) = Some pid"
    using front assms
    by (simp add: supervisor_fields_def Let_def nth_append parse_show_nat)
  moreover have "starts_with ?name ''job-''"
    unfolding workdir_name_def append_assoc by (rule starts_with_append)
  ultimately show ?thesis unfolding classify_dir_name_def Let_def parts by simp
qed

text \<open>
  Every working directory the supervisor creates is recognised by the sweep as its own: for
  every job id, dashes and all, the name made from a real pid, a clock after 2001 and a counter
  classifies as a supervisor directory with exactly that pid.
\<close>

theorem workdir_name_classifies:
  assumes "0 < pid" and "pid < u32_bound" and "MIN_EPOCH_NANOS \<le> nanos" and "nanos < u64_bound"
    and "ctr < u64_bound"
  shows "classify_dir_name (workdir_name (''job-'' @ jid) pid nanos ctr) = Supervisor pid"
  by (rule classify_workdir_name [OF assms])

theorem workdir_name_classifies_witness:
  "classify_dir_name (workdir_name (''job-'' @ ''a-b'') 4242 1700000000000000000 3) = Supervisor 4242"
  by (rule workdir_name_classifies)
     (simp_all add: u32_bound_def u64_bound_def MIN_EPOCH_NANOS_def)

text \<open>
  C9: The sweep never deletes a live or a foreign directory. Whatever is in the temp dir, a name it
  removes is either a supervisor directory of another process whose pid is proved dead, or a
  runner directory in which nothing, at any depth, was modified within the age limit; a directory
  of this process, of a pid that answers the probe or of one it may not probe, and a name it does
  not recognise, stay.
\<close>

theorem sweep_removes_only_abandoned:
  assumes "x \<in> set (sweep_dir me kill0 now stale rm (Some es))"
  shows "\<exists>n. (Some x, n) \<in> set es
     \<and> ((\<exists>pid. classify_dir_name x = Supervisor pid \<and> pid \<noteq> me \<and> kill0 pid = KillEsrch)
        \<or> (classify_dir_name x = Runner
           \<and> (\<forall>k\<in>set (nodes_below n). stale \<le> now - modified_at k)))"
proof -
  from assms obtain n where n: "(Some x, n) \<in> set es" "should_remove me kill0 now stale x n"
    by (auto simp: sweep_dir_set)
  show ?thesis
  proof (cases "classify_dir_name x")
    case (Supervisor pid)
    then show ?thesis using n by (auto simp: should_remove_def pid_is_dead_def split: if_splits)
  next
    case Runner
    then have s: "stale \<le> now - newest_mtime n" using n by (simp add: should_remove_def)
    have "stale \<le> now - modified_at k" if "k \<in> set (nodes_below n)" for k
      using newest_mtime_bound [OF that] s by linarith
    then show ?thesis using n(1) Runner by blast
  next
    case Foreign
    then show ?thesis using n by (simp add: should_remove_def)
  qed
qed

definition dead_name :: string where
  "dead_name = workdir_name (''job-'' @ ''a'') 77 1700000000000000000 0"

lemma dead_name_class: "classify_dir_name dead_name = Supervisor 77"
  unfolding dead_name_def
  by (rule classify_workdir_name) (simp_all add: u32_bound_def u64_bound_def MIN_EPOCH_NANOS_def)

theorem sweep_removes_only_abandoned_witness:
  "\<exists>n. (Some dead_name, n) \<in> set [(Some dead_name, Gone), (Some ''other'', Gone)]
     \<and> ((\<exists>pid. classify_dir_name dead_name = Supervisor pid \<and> pid \<noteq> 42
           \<and> (\<lambda>p. if p = 77 then KillEsrch else KillOk) pid = KillEsrch)
        \<or> (classify_dir_name dead_name = Runner
           \<and> (\<forall>k\<in>set (nodes_below n). STALE_RUNNER_DIR_AGE \<le> 0 - modified_at k)))"
proof (rule sweep_removes_only_abandoned [where rm = "\<lambda>x. True"])
  show "dead_name \<in> set (sweep_dir 42 (\<lambda>p. if p = 77 then KillEsrch else KillOk) 0
      STALE_RUNNER_DIR_AGE (\<lambda>x. True) (Some [(Some dead_name, Gone), (Some ''other'', Gone)]))"
    by (auto simp: sweep_dir_set should_remove_def pid_is_dead_def dead_name_class)
qed

text \<open>
  A directory created under any job id by a process now dead does not outlive the next sweep: it
  is removed whenever the file system lets it be.
\<close>

theorem sweep_reclaims_dead_owner:
  assumes "(Some (workdir_name (''job-'' @ jid) pid nanos ctr), n) \<in> set es"
    and "0 < pid" and "pid < u32_bound" and "MIN_EPOCH_NANOS \<le> nanos" and "nanos < u64_bound"
    and "ctr < u64_bound" and "pid \<noteq> me" and "kill0 pid = KillEsrch"
    and "rm (workdir_name (''job-'' @ jid) pid nanos ctr)"
  shows "workdir_name (''job-'' @ jid) pid nanos ctr
           \<in> set (sweep_dir me kill0 now stale rm (Some es))"
proof -
  have "classify_dir_name (workdir_name (''job-'' @ jid) pid nanos ctr) = Supervisor pid"
    by (rule classify_workdir_name) (use assms in auto)
  then show ?thesis
    using assms by (auto simp: sweep_dir_set should_remove_def pid_is_dead_def)
qed

theorem sweep_reclaims_dead_owner_witness:
  "workdir_name (''job-'' @ ''a'') 77 1700000000000000000 0
     \<in> set (sweep_dir 42 (\<lambda>p. KillEsrch) 0 0 (\<lambda>x. True)
          (Some [(Some (workdir_name (''job-'' @ ''a'') 77 1700000000000000000 0), Gone)]))"
  by (rule sweep_reclaims_dead_owner)
     (simp_all add: u32_bound_def u64_bound_def MIN_EPOCH_NANOS_def)

section \<open>The retry pass\<close>

lemma retry_failures_fold:
  "fst (retry_failures may rm fs l k)
     = fold (\<lambda>p l. if may p \<and> rm p then clear_purge_failure p l else l) (map pf_path fs) l"
  by (induction may rm fs l k rule: retry_failures.induct) simp_all

text \<open>
  The retry pass goes through this process's whole record: afterwards the record holds exactly
  the paths it held before that it may not touch (a name that is not a supervisor directory, or a
  live sibling's) or that the file system again refused to remove, in the same order, and every
  reclaimed path is off the record.
\<close>

theorem retry_leaves_only_unreclaimed:
  "map pf_path (fst (sweep_stale_workdirs me kill0 now rm rm_path base l))
     = filter (\<lambda>p. \<not> (may_retry me kill0 p \<and> rm_path p)) (map pf_path l)"
proof -
  have "map pf_path (fst (retry_failures (may_retry me kill0) rm_path l l k))
      = filter (\<lambda>q. \<not> (q \<in> set (map pf_path l) \<and> may_retry me kill0 q \<and> rm_path q)) (map pf_path l)"
    for k
    unfolding retry_failures_fold
    using purge_ledger.fold_clear_paths [of "\<lambda>p. may_retry me kill0 p \<and> rm_path p"] .
  moreover have "filter (\<lambda>q. \<not> (q \<in> set (map pf_path l) \<and> may_retry me kill0 q \<and> rm_path q))
        (map pf_path l) = filter (\<lambda>q. \<not> (may_retry me kill0 q \<and> rm_path q)) (map pf_path l)"
    by (rule filter_cong) auto
  ultimately show ?thesis
    by (simp only: sweep_stale_workdirs_def outstanding_purge_failures_def)
qed

end
