(* ===== verification/Node_Workdirs.thy ===== *)
theory Node_Workdirs
  imports Sweep
begin

text \<open>
  The working directories of a machine on which any number of supervisors start, take jobs, end them,
  sweep and die (\<open>crates/supervisor-core/src/purge.rs\<close> and \<open>sweep.rs\<close> together): the temp dir they
  share, and per live process its counter, the directories its guards hold and its record of failed
  purges. A sweep is one step. The answer \<open>ESRCH\<close> of a probe means that there is no such process.
\<close>

section \<open>The machine\<close>

text \<open>
  Two fields are bookkeeping of the model: \<open>pr_lost\<close>, the paths the bounded record dropped, and
  \<open>pr_old\<close>, what was in the temp dir when the process started.
\<close>

record proc =
  pr_counter :: u64
  pr_jobs :: "path list"
  pr_ledger :: "purge_failure list"
  pr_lost :: "path list"
  pr_old :: dirs

record machine =
  mc_dirs :: dirs
  mc_procs :: "nat \<Rightarrow> proc option"

definition new_proc :: "dirs \<Rightarrow> proc" where
  "new_proc fs = \<lparr>pr_counter = 0, pr_jobs = [], pr_ledger = [], pr_lost = [], pr_old = fs\<rparr>"

definition ledger_paths :: "proc \<Rightarrow> path list" where
  "ledger_paths pr = map pf_path (pr_ledger pr)"

definition set_proc :: "nat \<Rightarrow> proc option \<Rightarrow> dirs \<Rightarrow> machine \<Rightarrow> machine" where
  "set_proc pid pr fs m = m\<lparr>mc_dirs := fs, mc_procs := (mc_procs m)(pid := pr)\<rparr>"

text \<open>The start and the end of a job, as far as its directory goes.\<close>

definition job_starts :: "path \<Rightarrow> (path \<Rightarrow> string option) \<Rightarrow> (nat \<Rightarrow> nat) \<Rightarrow> string \<Rightarrow> nat \<Rightarrow> proc \<Rightarrow> dirs
    \<Rightarrow> proc \<times> dirs" where
  "job_starts tmp mk_err nanos jid pid pr fs =
     (case workdir_new mk_err tmp (''job-'' @ jid) pid nanos (pr_counter pr) fs of
        (Inl e, c, fs') \<Rightarrow> (pr\<lparr>pr_counter := c\<rparr>, fs')
      | (Inr p, c, fs') \<Rightarrow> (pr\<lparr>pr_counter := c, pr_jobs := p # pr_jobs pr\<rparr>, fs'))"

definition job_ends :: "(nat \<Rightarrow> rm_result) \<Rightarrow> path \<Rightarrow> proc \<Rightarrow> dirs \<Rightarrow> proc \<times> dirs" where
  "job_ends rm p pr fs =
     (case workdir_drop rm p (pr_ledger pr) fs of (l, fs') \<Rightarrow>
        (pr\<lparr>pr_jobs := remove1 p (pr_jobs pr), pr_ledger := l,
            pr_lost := pr_lost pr @ filter (\<lambda>q. q \<noteq> p \<and> q \<notin> set (map pf_path l)) (ledger_paths pr)\<rparr>, fs'))"

text \<open>A sweep by the process \<open>me\<close> of the temp dir's entries \<open>es\<close>, then of its own failures.\<close>

definition swept_paths :: "path \<Rightarrow> nat \<Rightarrow> (nat \<Rightarrow> kill_answer) \<Rightarrow> nat \<Rightarrow> (string \<Rightarrow> bool) \<Rightarrow> (path \<Rightarrow> bool)
    \<Rightarrow> dir_entry list option \<Rightarrow> proc \<Rightarrow> path list" where
  "swept_paths tmp me kill0 now rm rm_path base pr =
     map (\<lambda>x. tmp @ [x]) (sweep_dir me kill0 now STALE_RUNNER_DIR_AGE rm base)
     @ filter (\<lambda>p. may_retry me kill0 p \<and> rm_path p) (ledger_paths pr)"

definition sweeps :: "path \<Rightarrow> nat \<Rightarrow> (nat \<Rightarrow> kill_answer) \<Rightarrow> nat \<Rightarrow> (string \<Rightarrow> bool) \<Rightarrow> (path \<Rightarrow> bool)
    \<Rightarrow> dir_entry list option \<Rightarrow> proc \<Rightarrow> dirs \<Rightarrow> proc \<times> dirs" where
  "sweeps tmp me kill0 now rm rm_path base pr fs =
     (pr\<lparr>pr_ledger := fst (sweep_stale_workdirs me kill0 now rm rm_path base (pr_ledger pr))\<rparr>,
      fold remove_tree (swept_paths tmp me kill0 now rm rm_path base pr) fs)"

text \<open>\<open>owned tmp pid p\<close>: the path is the temp dir's entry with a supervisor name of that process.\<close>

definition owned :: "path \<Rightarrow> nat \<Rightarrow> path \<Rightarrow> bool" where
  "owned tmp pid p \<longleftrightarrow>
     length p = Suc (length tmp) \<and> take (length tmp) p = tmp \<and> classify_dir_name (last p) = Supervisor pid"

definition sane_clock :: "(nat \<Rightarrow> nat) \<Rightarrow> bool" where
  "sane_clock nanos \<longleftrightarrow> (\<forall>i. MIN_EPOCH_NANOS \<le> nanos i \<and> nanos i < u64_bound)"

datatype wd_act = Started nat | Died nat | JobStarts nat string | JobWrites nat path | JobEnds nat path
  | Sweeps nat | Others

text \<open>
  The other programs of the machine do as they like, but not in a directory with a supervisor's name.
\<close>

inductive wd_step :: "path \<Rightarrow> machine \<Rightarrow> wd_act \<Rightarrow> machine \<Rightarrow> bool" for tmp :: path where
  wd_started: "mc_procs m pid = None \<Longrightarrow> 0 < pid \<Longrightarrow> pid < u32_bound \<Longrightarrow>
     wd_step tmp m (Started pid) (set_proc pid (Some (new_proc (mc_dirs m))) (mc_dirs m) m)"
| wd_died: "wd_step tmp m (Died pid) (set_proc pid None (mc_dirs m) m)"
| wd_job: "mc_procs m pid = Some pr \<Longrightarrow> sane_clock nanos \<Longrightarrow>
     job_starts tmp mk_err nanos jid pid pr (mc_dirs m) = (pr', fs) \<Longrightarrow>
     wd_step tmp m (JobStarts pid jid) (set_proc pid (Some pr') fs m)"
| wd_writes: "mc_procs m pid = Some pr \<Longrightarrow> p \<in> set (pr_jobs pr) \<Longrightarrow>
     (\<And>q. q = p \<or> \<not> under p q \<Longrightarrow> fs q = mc_dirs m q) \<Longrightarrow>
     wd_step tmp m (JobWrites pid p) (m\<lparr>mc_dirs := fs\<rparr>)"
| wd_ends: "mc_procs m pid = Some pr \<Longrightarrow> p \<in> set (pr_jobs pr) \<Longrightarrow>
     job_ends rm p pr (mc_dirs m) = (pr', fs) \<Longrightarrow>
     wd_step tmp m (JobEnds pid p) (set_proc pid (Some pr') fs m)"
| wd_sweeps: "mc_procs m pid = Some pr \<Longrightarrow> (\<And>q. kill0 q = KillEsrch \<Longrightarrow> mc_procs m q = None) \<Longrightarrow>
     sweeps tmp pid kill0 now rm rm_path base pr (mc_dirs m) = (pr', fs) \<Longrightarrow>
     wd_step tmp m (Sweeps pid) (set_proc pid (Some pr') fs m)"
| wd_others: "(\<And>p pid q. owned tmp pid p \<Longrightarrow> under p q \<Longrightarrow> fs q = mc_dirs m q) \<Longrightarrow>
     wd_step tmp m Others (m\<lparr>mc_dirs := fs\<rparr>)"

definition bare_machine :: machine where
  "bare_machine = \<lparr>mc_dirs = Map.empty, mc_procs = Map.empty\<rparr>"

inductive wd_run :: "path \<Rightarrow> machine \<Rightarrow> bool" for tmp :: path where
  wd_bare: "wd_run tmp bare_machine"
| wd_more: "wd_run tmp m \<Longrightarrow> wd_step tmp m act m' \<Longrightarrow> wd_run tmp m'"

section \<open>Paths\<close>

lemma owned_iff: "owned tmp pid p \<longleftrightarrow> (\<exists>n. p = tmp @ [n] \<and> classify_dir_name n = Supervisor pid)"
proof
  assume o: "owned tmp pid p"
  have "p = tmp @ drop (length tmp) p" using o by (metis append_take_drop_id owned_def)
  moreover have "length (drop (length tmp) p) = 1" using o by (simp add: owned_def)
  ultimately obtain n where "p = tmp @ [n]" by (metis One_nat_def length_0_conv length_Suc_conv)
  then show "\<exists>n. p = tmp @ [n] \<and> classify_dir_name n = Supervisor pid"
    using o by (auto simp: owned_def)
qed (auto simp: owned_def)

lemma owned_unique: "owned tmp pid p \<Longrightarrow> owned tmp pid' p \<Longrightarrow> pid = pid'"
  by (simp add: owned_def)

lemma under_self [simp]: "under p p"
  by (simp add: under_def)

lemma under_sibling: "length p = length q \<Longrightarrow> under p q \<longleftrightarrow> p = q"
  by (auto simp: under_def)

lemma under_same: "under p x \<Longrightarrow> under q x \<Longrightarrow> length p = length q \<Longrightarrow> p = q"
  by (auto simp: under_def)

lemma under_owned: "owned tmp pid p \<Longrightarrow> owned tmp pid' q \<Longrightarrow> under p x \<Longrightarrow> under q x \<Longrightarrow> p = q"
  by (rule under_same) (auto simp: owned_def)

lemma fold_remove_tree:
  "fold remove_tree ps fs q = (if \<exists>p\<in>set ps. under p q then None else fs q)"
  by (induction ps arbitrary: fs) (auto simp: remove_tree_def)

lemma created_owned:
  assumes "0 < pid" and "pid < u32_bound" and "sane_clock nanos"
    and "workdir_new mk_err tmp (''job-'' @ jid) pid nanos c fs = (Inr p, c', fs')"
  shows "owned tmp pid p" and "fs p = None" and "fs' = fs(p \<mapsto> private_mode)"
proof -
  have r: "fs p = None \<and> fs' = fs(p \<mapsto> private_mode)
      \<and> (\<exists>i k. p = tmp @ [workdir_name (''job-'' @ jid) pid (nanos i) (unat (k :: u64))])"
    using workdir_loop_result [OF assms(4) [unfolded workdir_new_def]] by auto
  then show "fs p = None" "fs' = fs(p \<mapsto> private_mode)" by auto
  have "unat k < u64_bound" for k :: u64 using unsigned_less [of k] by (simp add: u64_bound_def)
  then show "owned tmp pid p"
    using r assms(1-3) classify_workdir_name by (auto simp: owned_iff sane_clock_def)
qed

lemma failed_creation: "workdir_new mk_err tmp pfx pid nanos c fs = (Inl e, c', fs') \<Longrightarrow> fs' = fs"
  using workdir_loop_result [of mk_err tmp pfx pid nanos "[0..<8]" c fs] by (auto simp: workdir_new_def)

section \<open>The invariant\<close>

text \<open>
  The files of a supervisor's directory are in it. A live process holds the directories of its
  jobs, private and apart from the failures it has on record, which are still there; and any other
  directory with its pid is one it lost track of or one that was there before it.
\<close>

definition rooted :: "path \<Rightarrow> dirs \<Rightarrow> bool" where
  "rooted tmp fs \<longleftrightarrow> (\<forall>pid p q. owned tmp pid p \<longrightarrow> under p q \<longrightarrow> fs q \<noteq> None \<longrightarrow> fs p \<noteq> None)"

definition proc_ok :: "path \<Rightarrow> nat \<Rightarrow> dirs \<Rightarrow> proc \<Rightarrow> bool" where
  "proc_ok tmp pid fs pr \<longleftrightarrow> 0 < pid \<and> pid < u32_bound \<and> distinct (pr_jobs pr)
     \<and> (\<forall>p\<in>set (pr_jobs pr). owned tmp pid p \<and> fs p = Some private_mode \<and> p \<notin> set (ledger_paths pr))
     \<and> (\<forall>p\<in>set (ledger_paths pr). owned tmp pid p \<and> fs p \<noteq> None)
     \<and> (\<forall>p. owned tmp pid p \<longrightarrow> fs p \<noteq> None \<longrightarrow>
          p \<in> set (pr_jobs pr) \<or> p \<in> set (ledger_paths pr) \<or> p \<in> set (pr_lost pr) \<or> pr_old pr p \<noteq> None)"

definition machine_ok :: "path \<Rightarrow> machine \<Rightarrow> bool" where
  "machine_ok tmp m \<longleftrightarrow> rooted tmp (mc_dirs m)
     \<and> (\<forall>pid pr. mc_procs m pid = Some pr \<longrightarrow> proc_ok tmp pid (mc_dirs m) pr)"

lemma machine_okD: "machine_ok tmp m \<Longrightarrow> mc_procs m pid = Some pr \<Longrightarrow> proc_ok tmp pid (mc_dirs m) pr"
  by (simp add: machine_ok_def)

lemma rootedD: "rooted tmp fs \<Longrightarrow> owned tmp pid p \<Longrightarrow> under p q \<Longrightarrow> fs q \<noteq> None \<Longrightarrow> fs p \<noteq> None"
  unfolding rooted_def by blast

lemma proc_ok_cong:
  assumes "\<And>p. owned tmp pid p \<Longrightarrow> fs' p = fs p"
  shows "proc_ok tmp pid fs' pr = proc_ok tmp pid fs pr"
  using assms unfolding proc_ok_def by (auto 0 3)

lemma machine_ok_set:
  assumes "machine_ok tmp m" and "rooted tmp fs" and "pr = None \<or> proc_ok tmp pid fs (the pr)"
    and "\<And>pid' p. pid' \<noteq> pid \<Longrightarrow> mc_procs m pid' \<noteq> None \<Longrightarrow> owned tmp pid' p \<Longrightarrow> fs p = mc_dirs m p"
  shows "machine_ok tmp (set_proc pid pr fs m)"
proof -
  have "proc_ok tmp pid' fs pr'" if "((mc_procs m)(pid := pr)) pid' = Some pr'" for pid' pr'
  proof (cases "pid' = pid")
    case True
    then show ?thesis using that assms(3) by auto
  next
    case False
    then have live: "mc_procs m pid' = Some pr'" using that by simp
    then have "fs p = mc_dirs m p" if "owned tmp pid' p" for p using assms(4) [OF False _ that] by simp
    then show ?thesis using proc_ok_cong machine_okD [OF assms(1) live] by blast
  qed
  then show ?thesis using assms(2) by (simp add: machine_ok_def set_proc_def)
qed

lemma rooted_make: "rooted tmp fs \<Longrightarrow> rooted tmp (fs(p \<mapsto> x))" if "owned tmp pid p"
  using that under_owned [OF that] unfolding rooted_def by (metis fun_upd_apply option.simps(3) under_self)

lemma rooted_remove: "rooted tmp fs \<Longrightarrow> (\<And>p. p \<in> set ps \<Longrightarrow> length p = Suc (length tmp))
    \<Longrightarrow> rooted tmp (fold remove_tree ps fs)"
  unfolding rooted_def fold_remove_tree owned_def
  by (metis under_same under_self under_sibling)

section \<open>The steps keep it\<close>

lemma job_starts_ok:
  assumes "proc_ok tmp pid fs pr" and "rooted tmp fs" and "sane_clock nanos"
    and run: "job_starts tmp mk_err nanos jid pid pr fs = (pr', fs')"
  shows "rooted tmp fs' \<and> proc_ok tmp pid fs' pr'
     \<and> (\<forall>q. fs q \<noteq> None \<or> fs' q = None \<or> owned tmp pid q) \<and> (\<forall>q. fs q \<noteq> None \<longrightarrow> fs' q = fs q)"
proof -
  obtain r c' fs1 where w: "workdir_new mk_err tmp (''job-'' @ jid) pid nanos (pr_counter pr) fs = (r, c', fs1)"
    by (metis prod_cases3)
  show ?thesis
  proof (cases r)
    case (Inl e)
    then have "fs' = fs" "pr' = pr\<lparr>pr_counter := c'\<rparr>"
      using run w failed_creation by (auto simp: job_starts_def)
    then show ?thesis using assms(1,2) by (auto simp: proc_ok_def ledger_paths_def)
  next
    case (Inr p)
    have pid: "0 < pid" "pid < u32_bound" using assms(1) by (simp_all add: proc_ok_def)
    note c = created_owned [OF pid assms(3) w [unfolded Inr]]
    have st: "fs' = fs(p \<mapsto> private_mode)" "pr' = pr\<lparr>pr_counter := c', pr_jobs := p # pr_jobs pr\<rparr>"
      using run w Inr c(3) by (auto simp: job_starts_def)
    have "p \<notin> set (pr_jobs pr)" "p \<notin> set (ledger_paths pr)"
      using assms(1) c(2) by (auto simp: proc_ok_def)
    then have "proc_ok tmp pid fs' pr'"
      using assms(1) c(1) unfolding st proc_ok_def ledger_paths_def by auto
    then show ?thesis using rooted_make [OF c(1) assms(2)] c(1,2) st(1) by auto
  qed
qed

lemma workdir_drop_cases:
  assumes "workdir_drop rm p l fs = (l', fs')"
  obtains (gone) "l' = clear_purge_failure p l" "fs' = remove_tree p fs"
  | (kept) f where "pf_path f = p" "l' = record_purge_failure f l" "fs' = fs"
proof (cases "fst (remove_dir_all_with_retry rm)")
  case None
  then show ?thesis using assms gone by (simp add: workdir_drop_def)
next
  case (Some e)
  then show ?thesis
    using assms kept [of "\<lparr>pf_path = p, pf_error = e, pf_attempts = of_nat PURGE_ATTEMPTS\<rparr>"]
    by (simp add: workdir_drop_def)
qed

lemma job_ends_ok:
  assumes ok: "proc_ok tmp pid fs pr" and "rooted tmp fs" and p: "p \<in> set (pr_jobs pr)"
    and run: "job_ends rm p pr fs = (pr', fs')"
  shows "rooted tmp fs' \<and> proc_ok tmp pid fs' pr' \<and> (\<forall>q. fs' q = fs q \<or> under p q)"
proof -
  obtain l where d: "workdir_drop rm p (pr_ledger pr) fs = (l, fs')"
    and pr': "pr_jobs pr' = remove1 p (pr_jobs pr)" "pr_ledger pr' = l" "pr_old pr' = pr_old pr"
      "pr_lost pr' = pr_lost pr @ filter (\<lambda>q. q \<noteq> p \<and> q \<notin> set (map pf_path l)) (ledger_paths pr)"
    using run by (auto simp: job_ends_def split: prod.splits)
  have own: "owned tmp pid p" using ok p by (simp add: proc_ok_def)
  have jobs: "set (pr_jobs pr') = set (pr_jobs pr) - {p}" "distinct (pr_jobs pr')"
    using ok pr'(1) by (simp_all add: proc_ok_def set_remove1_eq)
  from d show ?thesis
  proof (cases rule: workdir_drop_cases)
    case gone
    have paths: "set (ledger_paths pr') = set (ledger_paths pr) - {p}"
      using pr'(2) gone(1) by (auto simp: ledger_paths_def purge_ledger.clear_paths)
    have fs': "fs' q = (if q = p then None else fs q)" if "owned tmp pid q" for q
      using under_owned [OF own that, of q] gone(2) by (auto simp: remove_tree_def)
    have "rooted tmp fs'"
      using rooted_remove [OF assms(2), of "[p]"] gone(2) own by (simp add: owned_def)
    moreover have "proc_ok tmp pid fs' pr'"
      using ok jobs pr' unfolding proc_ok_def paths by (auto simp: fs' ledger_paths_def)
    ultimately show ?thesis using gone(2) by (simp add: remove_tree_def)
  next
    case (kept f)
    have paths: "p \<in> set (ledger_paths pr')" "set (ledger_paths pr') \<subseteq> insert p (set (ledger_paths pr))"
      using pr'(2) kept purge_ledger.record_shown [of f] purge_ledger.record_paths [of f]
      by (auto simp: ledger_paths_def)
    have lost: "set (pr_lost pr') = set (pr_lost pr) \<union> (set (ledger_paths pr) - insert p (set (ledger_paths pr')))"
      using pr'(2,4) by (auto simp: ledger_paths_def)
    have "proc_ok tmp pid fs pr'"
      using ok jobs paths p unfolding proc_ok_def lost pr'(3) by auto
    then show ?thesis using kept(3) assms(2) by simp
  qed
qed

lemma should_remove_cases:
  assumes "should_remove me kill0 now stale x n"
  shows "classify_dir_name x = Runner
     \<or> (\<exists>dead. classify_dir_name x = Supervisor dead \<and> dead \<noteq> me \<and> kill0 dead = KillEsrch)"
  using assms
  by (cases "classify_dir_name x") (auto simp: should_remove_def pid_is_dead_def split: if_splits)

lemma swept_paths_cases:
  assumes "q \<in> set (swept_paths tmp me kill0 now rm rm_path base pr)"
  obtains (entry) x where "q = tmp @ [x]" "classify_dir_name x = Runner
       \<or> (\<exists>dead. classify_dir_name x = Supervisor dead \<and> dead \<noteq> me \<and> kill0 dead = KillEsrch)"
  | (failure) "q \<in> set (ledger_paths pr)" "may_retry me kill0 q" "rm_path q"
proof -
  consider x where "q = tmp @ [x]" "x \<in> set (sweep_dir me kill0 now STALE_RUNNER_DIR_AGE rm base)"
    | "q \<in> set (ledger_paths pr)" "may_retry me kill0 q" "rm_path q"
    using assms by (auto simp: swept_paths_def)
  then show ?thesis
  proof cases
    case 1
    then obtain es where "base = Some es" by (cases base) (auto simp: sweep_dir_def)
    then obtain n where "should_remove me kill0 now STALE_RUNNER_DIR_AGE x n"
      using 1(2) by (auto simp: sweep_dir_set)
    then show ?thesis using entry [OF 1(1)] should_remove_cases by blast
  qed (rule failure)
qed

lemma sweeps_ledger:
  assumes "sweeps tmp me kill0 now rm rm_path base pr fs = (pr', fs')"
  shows "ledger_paths pr' = filter (\<lambda>p. \<not> (may_retry me kill0 p \<and> rm_path p)) (ledger_paths pr)"
    and "pr_jobs pr' = pr_jobs pr" and "pr_lost pr' = pr_lost pr" and "pr_old pr' = pr_old pr"
    and "fs' = fold remove_tree (swept_paths tmp me kill0 now rm rm_path base pr) fs"
  using assms retry_leaves_only_unreclaimed [of me kill0 now rm rm_path base "pr_ledger pr"]
  by (auto simp: sweeps_def ledger_paths_def)

text \<open>A sweep touches nothing of a live process but the failures on the sweeping one's own record.\<close>

lemma sweep_spares_live:
  assumes ok: "proc_ok tmp me fs pr" and live: "kill0 pid \<noteq> KillEsrch" and o: "owned tmp pid p"
    and p: "under p x" and q: "q \<in> set (swept_paths tmp me kill0 now rm rm_path base pr)" and u: "under q x"
  shows "q = p \<and> pid = me \<and> p \<in> set (ledger_paths pr) \<and> rm_path p"
  using q
proof (cases rule: swept_paths_cases)
  case (entry y)
  then have "q = p" using under_same [OF u p] o by (simp add: owned_def)
  then show ?thesis using entry o live by (auto simp: owned_def)
next
  case failure
  then have "owned tmp me q" using ok by (simp add: proc_ok_def)
  then show ?thesis using under_owned [OF _ o u p] owned_unique o failure by blast
qed

lemma sweeps_ok:
  assumes ok: "proc_ok tmp me fs pr" and r: "rooted tmp fs" and me: "kill0 me \<noteq> KillEsrch"
    and run: "sweeps tmp me kill0 now rm rm_path base pr fs = (pr', fs')"
  shows "rooted tmp fs' \<and> proc_ok tmp me fs' pr'"
    and "owned tmp pid p \<Longrightarrow> kill0 pid \<noteq> KillEsrch \<Longrightarrow> pid = me \<longrightarrow> p \<notin> set (ledger_paths pr)
      \<Longrightarrow> under p x \<Longrightarrow> fs' x = fs x"
proof -
  note s = sweeps_ledger [OF run]
  have spare: "fs' x = fs x" if "owned tmp pid p" "kill0 pid \<noteq> KillEsrch" "pid = me \<longrightarrow> p \<notin> set (ledger_paths pr)"
    "under p x" for pid p x
  proof -
    have "\<not> under q x" if "q \<in> set (swept_paths tmp me kill0 now rm rm_path base pr)" for q
      using sweep_spares_live [of tmp me fs pr kill0 pid p x, OF ok \<open>kill0 pid \<noteq> KillEsrch\<close> \<open>owned tmp pid p\<close>
          \<open>under p x\<close> that] \<open>pid = me \<longrightarrow> p \<notin> set (ledger_paths pr)\<close> by blast
    then show ?thesis using s(5) by (auto simp: fold_remove_tree)
  qed
  then show "owned tmp pid p \<Longrightarrow> kill0 pid \<noteq> KillEsrch \<Longrightarrow> pid = me \<longrightarrow> p \<notin> set (ledger_paths pr)
      \<Longrightarrow> under p x \<Longrightarrow> fs' x = fs x" .
  have len: "length q = Suc (length tmp)" if "q \<in> set (swept_paths tmp me kill0 now rm rm_path base pr)" for q
    using that ok by (cases rule: swept_paths_cases) (auto simp: proc_ok_def owned_def)
  have rt: "rooted tmp fs'" unfolding s(5) using r len by (rule rooted_remove)
  have job: "fs' p = fs p" if "p \<in> set (pr_jobs pr)" for p
    using spare [OF _ me, of p p] ok that by (auto simp: proc_ok_def)
  have kept: "fs' p = fs p" if "p \<in> set (ledger_paths pr')" for p
  proof -
    have p: "owned tmp me p" "\<not> (may_retry me kill0 p \<and> rm_path p)"
      using that ok s(1) by (auto simp: proc_ok_def)
    then have "may_retry me kill0 p" by (auto simp: may_retry_def file_name_def owned_def)
    then have "\<not> rm_path p" using p(2) by blast
    then have "\<not> under q p" if "q \<in> set (swept_paths tmp me kill0 now rm rm_path base pr)" for q
      using sweep_spares_live [of tmp me fs pr kill0 me p p, OF ok me p(1) under_self that] by blast
    then show ?thesis using s(5) by (auto simp: fold_remove_tree)
  qed
  have gone: "fs' p = None" if "p \<in> set (ledger_paths pr)" "p \<notin> set (ledger_paths pr')" for p
  proof -
    have "p \<in> set (swept_paths tmp me kill0 now rm rm_path base pr)"
      using that s(1) by (simp add: swept_paths_def)
    then show ?thesis unfolding s(5) fold_remove_tree using under_self by auto
  qed
  have sub: "fs' p \<noteq> None \<Longrightarrow> fs p \<noteq> None" for p unfolding s(5) fold_remove_tree by (auto split: if_splits)
  have "proc_ok tmp me fs' pr'"
    using ok job kept gone sub s(1-4) unfolding proc_ok_def by auto
  with rt show "rooted tmp fs' \<and> proc_ok tmp me fs' pr'" by simp
qed

text \<open>A change that leaves every supervisor directory itself in place.\<close>

lemma machine_ok_content:
  assumes ok: "machine_ok tmp m" and same: "\<And>pid p. owned tmp pid p \<Longrightarrow> fs p = mc_dirs m p"
    and new: "\<And>pid p q. owned tmp pid p \<Longrightarrow> under p q \<Longrightarrow> fs q \<noteq> None \<Longrightarrow> mc_dirs m q \<noteq> None \<or> mc_dirs m p \<noteq> None"
  shows "machine_ok tmp (m\<lparr>mc_dirs := fs\<rparr>)"
  unfolding machine_ok_def
proof (intro conjI allI impI)
  have "fs p \<noteq> None" if "owned tmp pid p" "under p q" "fs q \<noteq> None" for pid p q
    using new [OF that] same [OF that(1)] rootedD [OF _ that(1,2)] ok by (auto simp: machine_ok_def)
  then show "rooted tmp (mc_dirs (m\<lparr>mc_dirs := fs\<rparr>))" by (simp add: rooted_def)
  show "proc_ok tmp pid (mc_dirs (m\<lparr>mc_dirs := fs\<rparr>)) pr" if "mc_procs (m\<lparr>mc_dirs := fs\<rparr>) pid = Some pr" for pid pr
    using proc_ok_cong [of tmp pid fs "mc_dirs m" pr] same machine_okD [OF ok] that by simp
qed

lemma machine_ok_step:
  assumes ok: "machine_ok tmp m" and step: "wd_step tmp m act m'"
  shows "machine_ok tmp m'"
proof -
  have r: "rooted tmp (mc_dirs m)" using ok by (simp add: machine_ok_def)
  note set = machine_ok_set [OF ok]
  from step show ?thesis
  proof cases
    case (wd_started pid)
    then show ?thesis by (auto intro!: set r simp: proc_ok_def new_proc_def ledger_paths_def)
  next
    case (wd_died pid)
    then show ?thesis by (auto intro!: set r)
  next
    case (wd_job pid pr nanos mk_err jid pr' fs)
    note j = job_starts_ok [OF machine_okD [OF ok wd_job(3)] r wd_job(4,5)]
    have "fs p = mc_dirs m p" if "pid' \<noteq> pid" "owned tmp pid' p" for pid' p
      using j that owned_unique by metis
    then show ?thesis using j wd_job(2) by (auto intro!: set)
  next
    case (wd_writes pid pr p fs)
    have p: "owned tmp pid p" "mc_dirs m p \<noteq> None"
      using machine_okD [OF ok wd_writes(3)] wd_writes(4) by (auto simp: proc_ok_def)
    have "fs p' = mc_dirs m p'" if "owned tmp pid' p'" for pid' p'
      using wd_writes(5) under_owned [OF p(1) that _ under_self] by blast
    moreover have "mc_dirs m q \<noteq> None \<or> mc_dirs m p' \<noteq> None"
      if "owned tmp pid' p'" "under p' q" "fs q \<noteq> None" for pid' p' q
    proof (cases "under p q")
      case True
      then show ?thesis using under_owned [OF p(1) that(1) _ that(2)] p(2) by blast
    next
      case False
      then show ?thesis using wd_writes(5) [of q] that(3) by simp
    qed
    ultimately show ?thesis unfolding wd_writes(2) by (rule machine_ok_content [OF ok])
  next
    case (wd_ends pid pr p rm pr' fs)
    note j = job_ends_ok [OF machine_okD [OF ok wd_ends(3)] r wd_ends(4,5)]
    have "owned tmp pid p" using machine_okD [OF ok wd_ends(3)] wd_ends(4) by (simp add: proc_ok_def)
    then have "fs p' = mc_dirs m p'" if "pid' \<noteq> pid" "owned tmp pid' p'" for pid' p'
      using j that owned_unique under_owned [OF _ that(2) _ under_self] by metis
    then show ?thesis using j wd_ends(2) by (auto intro!: set)
  next
    case (wd_sweeps pid pr kill0 now rm rm_path base pr' fs)
    have live: "kill0 q \<noteq> KillEsrch" if "mc_procs m q \<noteq> None" for q using wd_sweeps(4) [of q] that by auto
    note j = sweeps_ok [OF machine_okD [OF ok wd_sweeps(3)] r live wd_sweeps(5)]
    have "fs p = mc_dirs m p" if "pid' \<noteq> pid" "mc_procs m pid' \<noteq> None" "owned tmp pid' p" for pid' p
      using j(2) [OF _ that(3) live [OF that(2)] _ under_self] that(1) wd_sweeps(3) by simp
    then show ?thesis using j(1) wd_sweeps(2,3) by (auto intro!: set)
  next
    case (wd_others fs)
    have "fs p = mc_dirs m p" if "owned tmp pid p" for pid p using wd_others(3) [OF that under_self] .
    moreover have "mc_dirs m q \<noteq> None \<or> mc_dirs m p \<noteq> None"
      if "owned tmp pid p" "under p q" "fs q \<noteq> None" for pid p q using wd_others(3) [OF that(1,2)] that(3) by simp
    ultimately show ?thesis unfolding wd_others(2) by (rule machine_ok_content [OF ok])
  qed
qed

lemma machine_ok_run: "wd_run tmp m \<Longrightarrow> machine_ok tmp m"
proof (induction rule: wd_run.induct)
  case wd_bare
  show ?case by (simp add: machine_ok_def bare_machine_def rooted_def)
qed (rule machine_ok_step)

text \<open>What a step can do to the files of a running job.\<close>

lemma running_step:
  assumes ok: "machine_ok tmp m" and step: "wd_step tmp m act m'" and live: "mc_procs m pid = Some pr"
    and p: "p \<in> set (pr_jobs pr)"
  shows "act = JobEnds pid p \<or> act = JobWrites pid p \<and> mc_dirs m' p = mc_dirs m p
      \<or> (\<forall>q. under p q \<longrightarrow> mc_dirs m' q = mc_dirs m q)"
proof -
  have o: "owned tmp pid p" "p \<notin> set (ledger_paths pr)" "mc_dirs m p \<noteq> None"
    using machine_okD [OF ok live] p by (auto simp: proc_ok_def)
  have r: "rooted tmp (mc_dirs m)" using ok by (simp add: machine_ok_def)
  from step show ?thesis
  proof cases
    case (wd_job pid' pr1 nanos mk_err jid pr' fs)
    note j = job_starts_ok [OF machine_okD [OF ok wd_job(3)] r wd_job(4,5)]
    have "fs q = mc_dirs m q" if "under p q" for q
    proof (cases "mc_dirs m q")
      case None
      have "\<not> owned tmp pid' q" using under_owned [OF o(1) _ that under_self] None o(3) by auto
      moreover have "mc_dirs m q \<noteq> None \<or> fs q = None \<or> owned tmp pid' q" using j by blast
      ultimately show ?thesis using None by simp
    qed (use j in auto)
    then show ?thesis using wd_job(2) by (simp add: set_proc_def)
  next
    case (wd_writes pid' pr' p' fs)
    have o': "owned tmp pid' p'" using machine_okD [OF ok wd_writes(3)] wd_writes(4) by (simp add: proc_ok_def)
    show ?thesis
    proof (cases "p' = p")
      case True
      then show ?thesis using wd_writes owned_unique [OF o(1)] o' by auto
    next
      case False
      then show ?thesis using wd_writes(2,5) under_owned [OF o(1) o'] by auto
    qed
  next
    case (wd_ends pid' pr1 p' rm pr' fs)
    note j = job_ends_ok [OF machine_okD [OF ok wd_ends(3)] r wd_ends(4,5)]
    have o': "owned tmp pid' p'" using machine_okD [OF ok wd_ends(3)] wd_ends(4) by (simp add: proc_ok_def)
    show ?thesis
    proof (cases "p' = p")
      case True
      then show ?thesis using wd_ends(1) owned_unique [OF o(1)] o' by auto
    next
      case False
      then show ?thesis using wd_ends(2) j under_owned [OF o(1) o'] by (auto simp: set_proc_def)
    qed
  next
    case (wd_sweeps pid' pr1 kill0 now rm rm_path base pr' fs)
    have live': "kill0 q \<noteq> KillEsrch" if "mc_procs m q \<noteq> None" for q using wd_sweeps(4) [of q] that by auto
    have me: "kill0 pid' \<noteq> KillEsrch" "kill0 pid \<noteq> KillEsrch" using live' live wd_sweeps(3) by simp_all
    have "pid = pid' \<longrightarrow> p \<notin> set (ledger_paths pr1)" using o(2) live wd_sweeps(3) by auto
    then have "fs q = mc_dirs m q" if "under p q" for q
      using sweeps_ok(2) [OF machine_okD [OF ok wd_sweeps(3)] r me(1) wd_sweeps(5) o(1) me(2) _ that] by blast
    then show ?thesis using wd_sweeps(2) by (simp add: set_proc_def)
  qed (use o(1) in \<open>auto simp: set_proc_def\<close>)
qed

section \<open>Properties\<close>

text \<open>
  C7: A running job has its directory to itself for as long as it runs. However many supervisors share
  the machine, and however their jobs, sweeps, deaths and restarts interleave: the directory of a
  running job is there, private, and held by no other job of any process; and in the next step,
  whoever takes it, it stays, with every file below it as it was, unless that step is the job's own
  write or its end.
\<close>

theorem running_job_keeps_directory:
  assumes "wd_run tmp m" and "wd_step tmp m act m'" and "mc_procs m pid = Some pr" and "p \<in> set (pr_jobs pr)"
  shows "mc_dirs m p = Some private_mode \<and> distinct (pr_jobs pr)
     \<and> (\<forall>pid' pr'. mc_procs m pid' = Some pr' \<and> p \<in> set (pr_jobs pr') \<longrightarrow> pid' = pid)
     \<and> (act = JobEnds pid p
        \<or> mc_dirs m' p = Some private_mode
          \<and> (act = JobWrites pid p \<or> (\<forall>q. under p q \<longrightarrow> mc_dirs m' q = mc_dirs m q)))"
proof -
  have ok: "machine_ok tmp m" using assms(1) by (rule machine_ok_run)
  note pr = machine_okD [OF ok assms(3)]
  have p: "owned tmp pid p" "mc_dirs m p = Some private_mode" "p \<notin> set (ledger_paths pr)"
    using pr assms(4) by (auto simp: proc_ok_def)
  have uniq: "pid' = pid" if "mc_procs m pid' = Some pr'" "p \<in> set (pr_jobs pr')" for pid' pr'
    using machine_okD [OF ok that(1)] that(2) p(1) owned_unique by (auto simp: proc_ok_def)
  have same: "act = JobEnds pid p \<or> act = JobWrites pid p \<and> mc_dirs m' p = mc_dirs m p
      \<or> (\<forall>q. under p q \<longrightarrow> mc_dirs m' q = mc_dirs m q)"
    using running_step [OF ok assms(2-4)] .
  then show ?thesis using p(2) pr uniq under_self [of p] by (auto simp: proc_ok_def)
qed

text \<open>
  C8: What a sweep leaves of customer content. When the temp dir was listed, the probes told the dead
  from the living and no removal was refused, every file still in a supervisor's directory belongs
  to a process that is alive, and it is in the directory of one of its running jobs, in one a
  sibling has on record as a failed purge and retries itself, in one that fell off the bounded
  record, or in one that was there before a process of that pid started.
\<close>

theorem sweep_leaves_accounted:
  assumes "wd_run tmp m" and "mc_procs m me = Some pr"
    and "\<And>q. kill0 q = KillEsrch \<longleftrightarrow> mc_procs m q = None"
    and "\<And>k p. owned tmp k p \<Longrightarrow> mc_dirs m p \<noteq> None \<Longrightarrow> \<exists>n. (Some (last p), n) \<in> set es"
    and "sweeps tmp me kill0 now (\<lambda>x. True) (\<lambda>p. True) (Some es) pr (mc_dirs m) = (pr', fs)"
    and "owned tmp pid p" and "under p q" and "fs q \<noteq> None"
  shows "\<exists>r. mc_procs m pid = Some r
     \<and> (p \<in> set (pr_jobs r) \<or> pid \<noteq> me \<and> p \<in> set (ledger_paths r) \<or> p \<in> set (pr_lost r) \<or> pr_old r p \<noteq> None)"
proof -
  have ok: "machine_ok tmp m" using assms(1) by (rule machine_ok_run)
  note s = sweeps_ledger [OF assms(5)]
  have "\<not> under y q" if "y \<in> set (swept_paths tmp me kill0 now (\<lambda>x. True) (\<lambda>p. True) (Some es) pr)" for y
    using assms(8) that unfolding s(5) fold_remove_tree by meson
  then have not_swept: "p \<notin> set (swept_paths tmp me kill0 now (\<lambda>x. True) (\<lambda>p. True) (Some es) pr)"
    using assms(7) by blast
  have "mc_dirs m q \<noteq> None" using assms(8) unfolding s(5) fold_remove_tree by (auto split: if_splits)
  then have there: "mc_dirs m p \<noteq> None" using rootedD [OF _ assms(6,7)] ok by (simp add: machine_ok_def)
  then obtain n where n: "(Some (last p), n) \<in> set es" using assms(4,6) by blast
  have last: "p = tmp @ [last p]" "classify_dir_name (last p) = Supervisor pid"
    using assms(6) by (auto simp: owned_iff)
  have "kill0 pid \<noteq> KillEsrch"
  proof
    assume dead: "kill0 pid = KillEsrch"
    then have "pid \<noteq> me" using assms(2,3) by auto
    then have "last p \<in> set (sweep_dir me kill0 now STALE_RUNNER_DIR_AGE (\<lambda>x. True) (Some es))"
      using n last(2) dead by (auto simp: sweep_dir_set should_remove_def pid_is_dead_def)
    then show False using not_swept last(1) by (auto simp: swept_paths_def)
  qed
  then obtain r where r: "mc_procs m pid = Some r" using assms(3) by (cases "mc_procs m pid") auto
  have "pid \<noteq> me" if "p \<in> set (ledger_paths r)"
  proof
    assume me: "pid = me"
    then have "may_retry me kill0 p" using last(2) assms(6) by (auto simp: may_retry_def file_name_def owned_def)
    then show False using not_swept that r me assms(2) by (simp add: swept_paths_def)
  qed
  then show ?thesis using machine_okD [OF ok r] assms(6) there r by (auto simp: proc_ok_def)
qed

text \<open>
  A supervisor that gets the pid of a dead one, as under a container that starts it with the same
  pid every time, takes what that one left for its own: its sweeps never touch it.
\<close>

theorem own_pid_leftover_stays:
  assumes "wd_run tmp m" and "mc_procs m me = Some pr" and "kill0 me \<noteq> KillEsrch"
    and "sweeps tmp me kill0 now rm rm_path base pr (mc_dirs m) = (pr', fs)"
    and "owned tmp me p" and "p \<notin> set (ledger_paths pr)" and "under p q"
  shows "fs q = mc_dirs m q"
proof -
  have ok: "machine_ok tmp m" using assms(1) by (rule machine_ok_run)
  then have "rooted tmp (mc_dirs m)" by (simp add: machine_ok_def)
  from sweeps_ok(2) [OF machine_okD [OF ok assms(2)] this assms(3,4,5,3) _ assms(7)] assms(6)
  show ?thesis by simp
qed

section \<open>Witnesses\<close>

definition wd_tmp :: path where "wd_tmp = [''tmp'']"

definition wd_path :: "nat \<Rightarrow> path" where
  "wd_path pid = wd_tmp @ [workdir_name (''job-'' @ ''a'') pid 1700000000000000000 0]"

definition holding :: "nat \<Rightarrow> machine" where
  "holding pid = \<lparr>mc_dirs = [wd_path pid \<mapsto> private_mode],
     mc_procs = [pid \<mapsto> (new_proc Map.empty)\<lparr>pr_counter := 1, pr_jobs := [wd_path pid]\<rparr>]\<rparr>"

lemma holding_run:
  assumes "0 < pid" and "pid < u32_bound"
  shows "wd_run wd_tmp (holding pid)"
proof -
  let ?m = "set_proc pid (Some (new_proc Map.empty)) Map.empty bare_machine"
  have run: "wd_run wd_tmp ?m"
    using wd_more [OF wd_bare wd_started [of bare_machine pid]] assms by (simp add: bare_machine_def)
  have "[0..<8] = 0 # [1..<8::nat]" by (simp add: upt_rec)
  then have "job_starts wd_tmp (\<lambda>p. None) (\<lambda>i. 1700000000000000000) ''a'' pid (new_proc Map.empty) Map.empty
      = ((new_proc Map.empty)\<lparr>pr_counter := 1, pr_jobs := [wd_path pid]\<rparr>, [wd_path pid \<mapsto> private_mode])"
    by (simp add: job_starts_def workdir_new_def create_private_dir_def new_proc_def wd_path_def Let_def)
  moreover have "sane_clock (\<lambda>i. 1700000000000000000)"
    by (simp add: sane_clock_def MIN_EPOCH_NANOS_def u64_bound_def)
  ultimately have "wd_step wd_tmp ?m (JobStarts pid ''a'') (holding pid)"
    using wd_job [of ?m pid "new_proc Map.empty"] by (simp add: set_proc_def holding_def bare_machine_def)
  then show ?thesis using run by (rule wd_more [rotated])
qed

lemma wd_path_owned: "0 < pid \<Longrightarrow> pid < u32_bound \<Longrightarrow> owned wd_tmp pid (wd_path pid)"
  using classify_workdir_name [of pid 1700000000000000000 0 "''a''"]
  by (simp add: owned_iff wd_path_def MIN_EPOCH_NANOS_def u64_bound_def)

theorem running_job_keeps_directory_witness:
  "wd_run wd_tmp (holding 77) \<and> wd_path 77 \<in> set (pr_jobs (the (mc_procs (holding 77) 77)))
   \<and> mc_dirs (set_proc 77 None (mc_dirs (holding 77)) (holding 77)) (wd_path 77) = Some private_mode"
proof -
  have run: "wd_run wd_tmp (holding 77)" by (rule holding_run) (simp_all add: u32_bound_def)
  obtain pr where pr: "mc_procs (holding 77) 77 = Some pr" "wd_path 77 \<in> set (pr_jobs pr)"
    by (simp add: holding_def)
  show ?thesis using running_job_keeps_directory [OF run wd_died [of wd_tmp "holding 77" 77] pr] run pr by simp
qed

definition restarted :: "nat \<Rightarrow> machine" where
  "restarted pid = set_proc pid (Some (new_proc [wd_path 77 \<mapsto> private_mode])) [wd_path 77 \<mapsto> private_mode]
     (set_proc 77 None [wd_path 77 \<mapsto> private_mode] (holding 77))"

lemma restarted_run:
  assumes "0 < pid" and "pid < u32_bound"
  shows "wd_run wd_tmp (restarted pid)"
proof -
  have "wd_run wd_tmp (holding 77)" by (rule holding_run) (simp_all add: u32_bound_def)
  then have died: "wd_run wd_tmp (set_proc 77 None [wd_path 77 \<mapsto> private_mode] (holding 77))"
    using wd_more [OF _ wd_died [of wd_tmp "holding 77" 77]] by (simp add: holding_def)
  show ?thesis
    using wd_more [OF died wd_started [of _ pid]] assms by (simp add: restarted_def set_proc_def holding_def)
qed

theorem sweep_leaves_accounted_witness:
  "snd (sweeps wd_tmp 42 (\<lambda>q. if q = 42 then KillOk else KillEsrch) 0 (\<lambda>x. True) (\<lambda>p. True)
     (Some [(Some (last (wd_path 77)), Gone)]) (new_proc [wd_path 77 \<mapsto> private_mode])
     (mc_dirs (restarted 42))) (wd_path 77) = None"
proof (rule ccontr)
  let ?kill = "\<lambda>q. if q = 42 then KillOk else KillEsrch"
  assume left: "\<not> ?thesis"
  have run: "wd_run wd_tmp (restarted 42)" by (rule restarted_run) (simp_all add: u32_bound_def)
  have me: "mc_procs (restarted 42) 42 = Some (new_proc [wd_path 77 \<mapsto> private_mode])"
    by (simp add: restarted_def set_proc_def)
  have kill: "?kill q = KillEsrch \<longleftrightarrow> mc_procs (restarted 42) q = None" for q
    by (simp add: restarted_def set_proc_def holding_def)
  have listed: "\<exists>n. (Some (last p), n) \<in> set [(Some (last (wd_path 77)), Gone)]"
    if "owned wd_tmp k p" "mc_dirs (restarted 42) p \<noteq> None" for k p
    using that by (auto simp: restarted_def set_proc_def split: if_splits)
  have own: "owned wd_tmp 77 (wd_path 77)" by (rule wd_path_owned) (simp_all add: u32_bound_def)
  obtain pr' fs where sw: "sweeps wd_tmp 42 ?kill 0 (\<lambda>x. True) (\<lambda>p. True) (Some [(Some (last (wd_path 77)), Gone)])
      (new_proc [wd_path 77 \<mapsto> private_mode]) (mc_dirs (restarted 42)) = (pr', fs)" by fastforce
  have "fs (wd_path 77) \<noteq> None" using left sw by simp
  from sweep_leaves_accounted [OF run me kill listed sw own under_self this]
  show False by (simp add: restarted_def set_proc_def holding_def)
qed

end
