(* ===== verification/Browser_Wrapper.thy ===== *)
theory Browser_Wrapper
  imports Processes Purge
begin

text \<open>
  The browser wrapper (\<open>write_browser_wrapper\<close> in \<open>crates/supervisor-core/src/runner.rs\<close>): the shell script
  that records a browser's pid and start time before it becomes the browser, composed with the
  sweep of \<open>Processes\<close> that reads the record. Of the shell only the two words of the script that
  matter are modelled: the file an output is appended to, and the line \<open>echo\<close> writes there.
\<close>

section \<open>The script\<close>

abbreviation lf :: char where "lf \<equiv> CHR 0x0A"
abbreviation quot :: char where "quot \<equiv> CHR 0x22"

definition wrapper_text :: "string \<Rightarrow> string \<Rightarrow> string" where
  "wrapper_text pidfile real =
     ''#!/bin/sh'' @ [lf] @ ''echo '' @ [quot] @ ''$$ $(ps -o lstart= -p $$ 2>/dev/null)'' @ [quot]
     @ '' >> '' @ pidfile @ [lf] @ ''exec '' @ [quot] @ real @ [quot] @ '' '' @ [quot] @ ''$@'' @ [quot, lf]"

datatype wrapper_error = WriteWrapper string | ChmodWrapper string

definition wrapper_path :: "string \<Rightarrow> string" where
  "wrapper_path workdir = workdir @ ''/.decent-browser-wrapper''"

definition pidfile_path :: "string \<Rightarrow> string" where
  "pidfile_path workdir = workdir @ ''/.decent-browser-pids''"

text \<open>The files after the call; \<open>write_ok\<close> and \<open>chmod_ok\<close> say how the two operations end.\<close>

definition write_browser_wrapper :: "bool \<Rightarrow> bool \<Rightarrow> string \<Rightarrow> string \<Rightarrow> (string \<Rightarrow> string option)
    \<Rightarrow> (wrapper_error + string \<times> string) \<times> (string \<Rightarrow> string option)" where
  "write_browser_wrapper write_ok chmod_ok workdir real fs =
     (let wrapper = wrapper_path workdir;
          pidfile = pidfile_path workdir
      in if \<not> write_ok then (Inl (WriteWrapper wrapper), fs)
         else let fs1 = fs(wrapper \<mapsto> wrapper_text pidfile real)
              in if \<not> chmod_ok then (Inl (ChmodWrapper wrapper), fs1)
                 else (Inr (wrapper, pidfile), fs1))"

section \<open>What the shell does with it\<close>

text \<open>An unquoted word ends at a blank, a line feed or an operator; other text stands for itself.\<close>

definition word_end :: "char \<Rightarrow> bool" where
  "word_end c \<longleftrightarrow> c \<in> {CHR '' '', CHR 0x09, lf, CHR '';'', CHR ''&'', CHR ''|'', CHR ''<'', CHR ''>'', CHR ''('', CHR '')''}"

fun after :: "string \<Rightarrow> string \<Rightarrow> string" where
  "after pat [] = []"
| "after pat (c # cs) = (if starts_with (c # cs) pat then drop (length pat) (c # cs) else after pat cs)"

definition append_target :: "string \<Rightarrow> string" where
  "append_target script = takeWhile (\<lambda>c. \<not> word_end c) (after ''>> '' script)"

text \<open>
  \<open>echo\<close> prints the pid, a blank and what \<open>ps\<close> printed without its last line feeds; nothing when
  there is no \<open>ps\<close>.
\<close>

definition strip_newlines :: "string \<Rightarrow> string" where
  "strip_newlines s = rev (dropWhile (\<lambda>c. c = lf) (rev s))"

definition echo_line :: "nat \<Rightarrow> string option \<Rightarrow> string" where
  "echo_line pid ps_out =
     show_nat pid @ '' '' @ (case ps_out of None \<Rightarrow> [] | Some s \<Rightarrow> strip_newlines s)"

definition launch :: "string \<Rightarrow> nat \<times> string option \<Rightarrow> (string \<Rightarrow> string option) \<Rightarrow> (string \<Rightarrow> string option)" where
  "launch script b fs =
     (let f = append_target script
      in fs(f \<mapsto> (case fs f of None \<Rightarrow> [] | Some s \<Rightarrow> s) @ echo_line (fst b) (snd b) @ [lf]))"

definition launch_all :: "string \<Rightarrow> (nat \<times> string option) list \<Rightarrow> (string \<Rightarrow> string option)
    \<Rightarrow> (string \<Rightarrow> string option)" where
  "launch_all script bs fs = fold (launch script) bs fs"

section \<open>The record is read back\<close>

lemma split_ws_word:
  "list_all (\<lambda>c. \<not> is_ws c) w \<Longrightarrow> acc \<noteq> [] \<or> w \<noteq> [] \<Longrightarrow>
     split_ws_acc acc (w @ CHR '' '' # s) = (rev acc @ w) # split_ws_acc [] s"
  by (induction w arbitrary: acc) (auto simp: is_ws_def)

lemma split_ws_trailing:
  "list_all is_ws z \<Longrightarrow> split_ws_acc acc (s @ z) = split_ws_acc acc s"
proof (induction s arbitrary: acc)
  case Nil
  have "split_ws_acc [] z = []" using Nil by (induction z) auto
  then show ?case using Nil by (cases z) auto
qed simp

lemma strip_newlines_words: "split_whitespace (strip_newlines s) = split_whitespace s"
proof -
  have "s = strip_newlines s @ rev (takeWhile (\<lambda>c. c = lf) (rev s))"
    unfolding strip_newlines_def by (metis rev_append rev_rev_ident takeWhile_dropWhile_id)
  moreover have "list_all is_ws (rev (takeWhile (\<lambda>c. c = lf) (rev s)))"
    by (auto simp: list_all_iff is_ws_def dest: set_takeWhileD)
  ultimately show ?thesis unfolding split_whitespace_def by (metis split_ws_trailing)
qed

lemma parse_echo_line:
  assumes "pid < u32_bound"
  shows "parse_pid_line (echo_line pid ps_out) = Some (pid, case ps_out of None \<Rightarrow> None
     | Some s \<Rightarrow> (let r = join_words (split_whitespace s) in if r = [] then None else Some r))"
proof -
  have "list_all (\<lambda>c. \<not> is_ws c) (show_nat pid)"
    using show_nat_range by (fastforce simp: list_all_iff is_ws_def Let_def)
  then have "split_whitespace (echo_line pid ps_out)
      = show_nat pid # (case ps_out of None \<Rightarrow> [] | Some s \<Rightarrow> split_whitespace s)"
    unfolding echo_line_def split_whitespace_def
    by (simp add: split_ws_word strip_newlines_words [unfolded split_whitespace_def] split: option.split)
  then show ?thesis
    by (auto simp: parse_pid_line_def parse_show_nat [OF assms] join_words_def Let_def split: option.split)
qed

text \<open>Characters that stand for themselves anywhere in an unquoted word.\<close>

definition shell_plain :: "char \<Rightarrow> bool" where
  "shell_plain c \<longleftrightarrow> is_ascii_alnum c \<or> c \<in> set ''/._-''"

lemma plain_not_end: "shell_plain c \<Longrightarrow> \<not> word_end c"
  by (auto simp: shell_plain_def word_end_def is_ascii_alnum_def Let_def)

lemma wrapper_appends_to_pidfile:
  assumes "list_all shell_plain pidfile"
  shows "append_target (wrapper_text pidfile real) = pidfile"
proof -
  have "after ''>> '' (wrapper_text pidfile real)
      = pidfile @ lf # ''exec '' @ [quot] @ real @ [quot] @ '' '' @ [quot] @ ''$@'' @ [quot, lf]"
    by (simp add: wrapper_text_def starts_with_def)
  then show ?thesis
    using assms plain_not_end
    by (simp add: append_target_def takeWhile_append list_all_iff word_end_def)
qed

lemma launch_all_record:
  "launch_all script bs fs (append_target script) = (case bs of [] \<Rightarrow> fs (append_target script)
     | _ \<Rightarrow> Some ((case fs (append_target script) of None \<Rightarrow> [] | Some s \<Rightarrow> s)
              @ concat (map (\<lambda>b. echo_line (fst b) (snd b) @ [lf]) bs)))"
  unfolding launch_all_def
  by (induction bs arbitrary: fs) (auto simp: launch_def Let_def split: list.split)

text \<open>What \<open>ps\<close> prints is one line.\<close>

definition one_line :: "string option \<Rightarrow> bool" where
  "one_line ps_out \<longleftrightarrow> (case ps_out of None \<Rightarrow> True
     | Some s \<Rightarrow> lf \<notin> set (strip_newlines s) \<and> CHR 0x0D \<notin> set (strip_newlines s))"

lemma lines_of_record:
  assumes "\<And>p out. (p, out) \<in> set bs \<Longrightarrow> one_line out"
  shows "lines_of (concat (map (\<lambda>b. echo_line (fst b) (snd b) @ [lf]) bs)) = map (\<lambda>b. echo_line (fst b) (snd b)) bs"
  using assms
proof (induction bs)
  case (Cons b bs)
  have "one_line (snd b)" using Cons.prems [of "fst b" "snd b"] by simp
  then have "lf \<notin> set (echo_line (fst b) (snd b))" "CHR 0x0D \<notin> set (echo_line (fst b) (snd b))"
    by (auto simp: echo_line_def one_line_def show_nat_not_in split: option.splits)
  moreover from this(2) have "echo_line (fst b) (snd b) = [] \<or> last (echo_line (fst b) (snd b)) \<noteq> CHR 0x0D"
    using last_in_set by metis
  moreover have "lines_of (concat (map (\<lambda>b. echo_line (fst b) (snd b) @ [lf]) bs)) = map (\<lambda>b. echo_line (fst b) (snd b)) bs"
    by (rule Cons.IH) (rule Cons.prems [OF list.set_intros(2)])
  ultimately show ?case by (simp add: lines_of_line)
qed simp

lemma kill_lines_complete:
  "line \<in> set ls \<Longrightarrow> kill_target me ps alive line = Some pid \<Longrightarrow> pid \<in> set (kill_lines me ps alive ls)"
  by (induction ls) (auto split: option.splits)

text \<open>
  C19: A recorded browser is swept. The wrapper written for a working directory whose path needs no
  quoting appends to the very file the sweep reads; each browser the job launches leaves a line
  there, whatever was launched before and after it; and every one of them that still has the start
  time \<open>ps\<close> gave when it was launched is killed.
\<close>

theorem recorded_browser_swept:
  assumes "write_browser_wrapper True True workdir real fs = (Inr (wrapper, pidfile), fs1)"
    and "list_all shell_plain workdir" and "fs pidfile = None"
    and "fs1 wrapper = Some script"
    and "\<And>p out. (p, out) \<in> set bs \<Longrightarrow> one_line out"
    and "(pid, Some s) \<in> set bs" and "pid < u32_bound" and "pid \<noteq> 0" and "pid \<noteq> me"
    and "process_start_time ps pid = Some (join_words (split_whitespace s))"
  shows "pid \<in> set (kill_recorded_browsers me ps alive (launch_all script bs fs1 pidfile))"
proof -
  have w: "wrapper = wrapper_path workdir" "pidfile = pidfile_path workdir" "wrapper \<noteq> pidfile"
    and fs1: "fs1 = fs(wrapper \<mapsto> wrapper_text pidfile real)"
    using assms(1) by (auto simp: write_browser_wrapper_def Let_def wrapper_path_def pidfile_path_def)
  have "list_all shell_plain pidfile"
    using assms(2) by (simp add: w(2) pidfile_path_def shell_plain_def is_ascii_alnum_def Let_def)
  then have t: "append_target script = pidfile"
    using assms(4) fs1 wrapper_appends_to_pidfile [of pidfile real] by auto
  have "launch_all script bs fs1 pidfile = Some (concat (map (\<lambda>b. echo_line (fst b) (snd b) @ [lf]) bs))"
    using launch_all_record [of script bs fs1] t assms(3,6) fs1 w(3) by (auto split: list.splits)
  moreover have "echo_line pid (Some s) \<in> set (map (\<lambda>b. echo_line (fst b) (snd b)) bs)"
    using assms(6) by force
  moreover have "kill_target me ps alive (echo_line pid (Some s)) = Some pid"
    using assms(7-10) parse_echo_line [of pid "Some s"]
    by (auto simp: kill_target_def process_start_time_def Let_def split: option.splits if_splits)
  ultimately show ?thesis
    by (simp add: kill_recorded_browsers_def lines_of_record [OF assms(5)] kill_lines_complete)
qed

theorem recorded_browser_swept_witness:
  "77 \<in> set (kill_recorded_browsers 1 (\<lambda>p. Some (''Mon  9'' @ [lf])) (\<lambda>p. True)
     (launch_all (wrapper_text (pidfile_path ''/tmp/job-a-1-2-0'') ''/b'') [(76, None), (77, Some (''Mon  9'' @ [lf]))]
        (Map.empty(wrapper_path ''/tmp/job-a-1-2-0'' \<mapsto> wrapper_text (pidfile_path ''/tmp/job-a-1-2-0'') ''/b''))
        (pidfile_path ''/tmp/job-a-1-2-0'')))"
proof (rule recorded_browser_swept)
  show "write_browser_wrapper True True ''/tmp/job-a-1-2-0'' ''/b'' Map.empty
     = (Inr (wrapper_path ''/tmp/job-a-1-2-0'', pidfile_path ''/tmp/job-a-1-2-0''),
        Map.empty(wrapper_path ''/tmp/job-a-1-2-0'' \<mapsto> wrapper_text (pidfile_path ''/tmp/job-a-1-2-0'') ''/b''))"
    by (simp add: write_browser_wrapper_def Let_def)
  show "list_all shell_plain ''/tmp/job-a-1-2-0''"
    by (simp add: shell_plain_def is_ascii_alnum_def Let_def)
  show "one_line out" if "(p, out) \<in> set [(76 :: nat, None), (77, Some (''Mon  9'' @ [lf]))]" for p out
    using that by (auto simp: one_line_def strip_newlines_def)
  show "process_start_time (\<lambda>p. Some (''Mon  9'' @ [lf])) 77 = Some (join_words (split_whitespace (''Mon  9'' @ [lf])))"
    by (simp add: process_start_time_def join_words_def split_whitespace_def is_ws_def Let_def)
qed (simp_all add: u32_bound_def)

section \<open>A job id that is not one word\<close>

text \<open>
  The path is not quoted, and the job id in it is what dispatch sent. With a blank in the id the
  record goes to another file: no browser of that job is ever swept. With a semicolon the rest of
  the path is a command of its own.
\<close>

definition blank_workdir :: "nat \<Rightarrow> nat \<Rightarrow> nat \<Rightarrow> string" where
  "blank_workdir pid nanos unique = ''/tmp/'' @ workdir_name (''job-'' @ ''a b'') pid nanos unique"

theorem blank_in_job_id_loses_record:
  assumes "\<forall>f. fs f = None" and "p = pidfile_path (blank_workdir pid nanos unique)"
  shows "append_target (wrapper_text p real) = ''/tmp/job-a''
   \<and> kill_recorded_browsers me ps alive (launch_all (wrapper_text p real) bs fs p) = []"
proof -
  have t: "append_target (wrapper_text p real) = ''/tmp/job-a''"
    by (simp add: append_target_def wrapper_text_def starts_with_def word_end_def assms(2) pidfile_path_def
        blank_workdir_def workdir_name_def)
  have "fs f = None \<Longrightarrow> f \<noteq> append_target script \<Longrightarrow> launch_all script bs fs f = None" for f fs script
    unfolding launch_all_def by (induction bs arbitrary: fs) (simp_all add: launch_def Let_def)
  moreover have "p \<noteq> ''/tmp/job-a''"
    by (simp add: assms(2) pidfile_path_def blank_workdir_def workdir_name_def)
  ultimately have "launch_all (wrapper_text p real) bs fs p = None" using assms(1) t by simp
  then show ?thesis using t by (simp add: kill_recorded_browsers_def)
qed

end
