(* ===== verification/Session_Gate.thy ===== *)
theory Session_Gate
  imports Session_Runs
begin

text \<open>
  The gate inside a session: how the idle window of the unattended upgrade relates to the turns of
  the loop. A window opens on a maintenance tick that finds the session idle, survives only turns
  that accept no job, and belongs to a gate whose history is that of the session's own calls.
\<close>

section \<open>Which turns touch the gate\<close>

definition window_kept :: "session \<Rightarrow> session \<Rightarrow> bool" where
  "window_kept s s' \<longleftrightarrow> gate_idle_since (ses_gate s') = None
     \<or> gate_idle_since (ses_gate s') = gate_idle_since (ses_gate s)
       \<and> spawned (ses_trace s') = spawned (ses_trace s)"

lemma window_same:
  "ses_gate s' = ses_gate s \<Longrightarrow> spawned (ses_trace s') = spawned (ses_trace s) \<Longrightarrow> window_kept s s'"
  by (simp add: window_kept_def)

lemma worker_parts_gate [simp]:
  "ses_gate (settle_in_flight p s) = ses_gate s"
  "ses_gate (hand_over_cancel p s) = ses_gate s"
  "ses_gate (acknowledge_cancel t s) = ses_gate s"
  "spawned (ses_trace (settle_in_flight p s)) = spawned (ses_trace s)"
  "spawned (ses_trace (hand_over_cancel p s)) = spawned (ses_trace s)"
  "spawned (ses_trace (acknowledge_cancel t s)) = spawned (ses_trace s)"
  by (simp_all add: settle_in_flight_def hand_over_cancel_def acknowledge_cancel_def Let_def
      split: option.splits)

lemma worker_gate:
  "worker_arm t src msg s = (s', None) \<Longrightarrow>
     ses_gate s' = ses_gate s \<and> spawned (ses_trace s') = spawned (ses_trace s)"
  unfolding worker_arm_def Let_def
  by (auto split: if_splits option.splits simp: leave_def)

lemma server_gate:
  assumes "server_arm t m s = (s', None)"
  shows "window_kept s s' \<and> (\<exists>h. ses_gate s' = fold gate_apply h (ses_gate s)
           \<and> list_all (\<lambda>c. \<forall>en idle now. c \<noteq> Observe en idle now) h)"
proof (cases m)
  case (JobAssign a)
  show ?thesis
  proof (cases "allows_real_jobs (ses_obs s) \<and> ses_in_flight s = None")
    case True
    then have "ses_gate s' = mark_busy (ses_gate s)"
      using assms JobAssign
      by (auto simp: assign_arm_def Let_def leave_def spawn_job_def split: if_splits)
    then show ?thesis
      by (intro conjI exI [of _ "[MarkBusy]"]) (simp_all add: window_kept_def mark_busy_def)
  next
    case False
    then have "ses_gate s' = ses_gate s \<and> ses_trace s' = ses_trace s"
      using assms JobAssign by (auto simp: assign_arm_def reject_job_def split: if_splits)
    then show ?thesis by (intro conjI exI [of _ "[]"]) (simp_all add: window_same)
  qed
next
  case (UpdateAvailable u)
  then have "ses_gate s' = announce (upd_supervisor_version u) (ses_gate s)"
      "ses_trace s' = ses_trace s"
    using assms by (auto simp: update_arm_def Let_def)
  then show ?thesis
    by (intro conjI exI [of _ "[Announce (upd_supervisor_version u)]"])
       (auto simp: window_kept_def announce_def)
next
  case (Cancel c)
  then have "ses_gate s' = ses_gate s \<and> spawned (ses_trace s') = spawned (ses_trace s)"
    using assms by (auto simp: cancel_arm_def Let_def split: option.splits if_splits)
  then show ?thesis by (intro conjI exI [of _ "[]"]) (simp_all add: window_same)
next
  case (Ping p)
  then show ?thesis using assms by (intro conjI exI [of _ "[]"]) (auto simp: window_same)
qed

lemma stream_gate:
  assumes "stream_arm t item s = (s', None)"
  shows "window_kept s s' \<and> (\<exists>h. ses_gate s' = fold gate_apply h (ses_gate s)
           \<and> list_all (\<lambda>c. \<forall>en idle now. c \<noteq> Observe en idle now) h)"
proof (cases "\<exists>m. server_arm t m s = (s', None)")
  case True
  then show ?thesis using server_gate by blast
next
  case False
  then have "s' = s"
    using assms
    by (cases "(t, item, s)" rule: stream_arm.cases)
       (auto simp: close_arm_def leave_def split: sum.splits option.splits if_splits)
  then show ?thesis by (intro conjI exI [of _ "[]"]) (simp_all add: window_same)
qed

text \<open>What a maintenance tick that goes on does.\<close>

definition tick_observes :: "turn \<Rightarrow> session \<Rightarrow> auto_upgrade_gate" where
  "tick_observes t s =
     gate_observe (auto_upgrade_enabled (ses_obs (before_select t s)))
       (session_idle t (before_select t s)) (tu_now t) (ses_gate s)"

definition idle_tick :: "turn \<Rightarrow> session \<Rightarrow> bool" where
  "idle_tick t s \<longleftrightarrow> tu_tick t \<and> ses_in_flight s = None
     \<and> list_all (\<lambda>j. tu_finished t (ifj_handle j)) (ses_draining s)
     \<and> auto_upgrade_flag (fold operator_apply (tu_operator t) (ses_obs s))"

lemma turn_gate:
  assumes "session_turn cfg reg t s = (s', None)"
  shows "window_kept s s' \<and> (\<exists>h. ses_gate s' = fold gate_apply h (ses_gate s)
           \<and> list_all (\<lambda>c. \<forall>en idle now. c \<noteq> Observe en idle now) h)
     \<or> tu_tick t \<and> ses_gate s' = tick_observes t s \<and> ses_trace s' = ses_trace s"
proof -
  let ?b = "before_select t s"
  have b: "window_kept ?b = window_kept s" by (simp add: fun_eq_iff window_kept_def)
  have nil: ?thesis if "ses_gate s' = ses_gate s \<and> spawned (ses_trace s') = spawned (ses_trace s)"
    using that by (intro disjI1 conjI exI [of _ "[]"]) (simp_all add: window_same)
  have sel: "select_arm cfg reg t ?b = (s', None)" using assms by (simp add: session_turn_def)
  have sh: "\<not> tu_shutdown t" using sel by (auto simp: select_arm_def shutdown_arm_def leave_def)
  show ?thesis
  proof (cases "tu_tick t \<and> cc_auto_upgrade cfg \<noteq> None")
    case True
    then have "tick_arm t ?b = (s', None)" using sel sh by (simp add: select_arm_def)
    then show ?thesis
      using True by (auto simp: tick_arm_def Let_def leave_def tick_observes_def split: option.splits)
  next
    case notick: False
    show ?thesis
    proof (cases "tu_heartbeat t")
      case True
      then have "heartbeat_arm cfg reg t ?b = (s', None)" using sel sh notick by (simp only: select_arm_def if_True if_False)
      then show ?thesis
        by (intro nil) (auto simp: heartbeat_arm_def Let_def leave_def split: option.splits if_splits)
    next
      case nobeat: False
      show ?thesis
      proof (cases "ses_queue ?b")
        case (Cons m q)
        then have "worker_arm t (fst m) (snd m) (?b\<lparr>ses_queue := q\<rparr>) = (s', None)"
          using sel sh notick nobeat
          by (cases m) (simp only: select_arm_def if_True if_False list.case prod.case fst_conv snd_conv)
        from worker_gate [OF this] show ?thesis by (intro nil) simp
      next
        case Nil
        then have st: "(case tu_stream t of Some item \<Rightarrow> stream_arm t item ?b | None \<Rightarrow> (?b, None)) = (s', None)"
          using sel sh notick nobeat
          by (simp only: select_arm_def if_True if_False list.case)
        show ?thesis
        proof (cases "tu_stream t")
          case None
          then have "s' = ?b" using st by simp
          then show ?thesis by (intro nil) simp
        next
          case (Some item)
          then have "stream_arm t item ?b = (s', None)"
            using st by simp
          from stream_gate [OF this] show ?thesis by (simp add: b)
        qed
      qed
    qed
  qed
qed

section \<open>The idle window of a run\<close>

lemma tick_window:
  assumes "ses_gate s' = tick_observes t s" and "gate_idle_since (ses_gate s') = Some t0"
  shows "gate_idle_since (ses_gate s) = Some t0 \<or> t0 = tu_now t \<and> (tu_tick t \<longrightarrow> idle_tick t s)"
  using assms
  by (auto simp: tick_observes_def gate_observe_def idle_tick_def session_idle_def
      auto_upgrade_enabled_def before_select_def split: if_splits option.splits)

lemma run_until_snoc:
  "run_until step (ts @ [t]) s = (s', r) \<Longrightarrow>
     (\<exists>s1. run_until step ts s = (s1, None) \<and> step t s1 = (s', r))
     \<or> (r \<noteq> None \<and> run_until step ts s = (s', r))"
  by (induction ts arbitrary: s) (auto split: prod.splits option.splits)

text \<open>
  \<open>opened ts s0 t0 s\<close>: among the turns \<open>ts\<close> from \<open>s0\<close> to \<open>s\<close> there was an idle tick at \<open>t0\<close> after which no
  job task was spawned.
\<close>

definition opened :: "connection_config \<Rightarrow> register_message \<Rightarrow> turn list \<Rightarrow> session \<Rightarrow> instant \<Rightarrow> session
    \<Rightarrow> bool" where
  "opened cfg reg ts s0 t0 s \<longleftrightarrow>
     (\<exists>ts1 t1 ts2 s1. ts = ts1 @ t1 # ts2 \<and> run_session_loop cfg reg ts1 s0 = (s1, None)
        \<and> idle_tick t1 s1 \<and> tu_now t1 = t0 \<and> spawned (ses_trace s) = spawned (ses_trace s1))"

lemma opened_snoc:
  "opened cfg reg ts s0 t0 s \<Longrightarrow> spawned (ses_trace s') = spawned (ses_trace s) \<Longrightarrow>
     opened cfg reg (ts @ [t]) s0 t0 s'"
  unfolding opened_def by (metis append.assoc append_Cons)

lemma window_opened:
  assumes "gate_idle_since (ses_gate s0) = None"
  shows "run_session_loop cfg reg ts s0 = (s, None) \<Longrightarrow> gate_idle_since (ses_gate s) = Some t0 \<Longrightarrow>
     opened cfg reg ts s0 t0 s"
proof (induction ts arbitrary: s rule: rev_induct)
  case Nil
  then show ?case using assms by (simp add: run_session_loop_def)
next
  case (snoc t ts)
  from run_until_snoc [OF snoc.prems(1) [unfolded run_session_loop_def]]
  obtain s1 where s1: "run_session_loop cfg reg ts s0 = (s1, None)"
      "session_turn cfg reg t s1 = (s, None)"
    by (auto simp: run_session_loop_def)
  from turn_gate [OF s1(2)] show ?case
  proof (elim disjE)
    assume "window_kept s1 s \<and> (\<exists>h. ses_gate s = fold gate_apply h (ses_gate s1)
           \<and> list_all (\<lambda>c. \<forall>en idle now. c \<noteq> Observe en idle now) h)"
    then show ?thesis
      using opened_snoc [OF snoc.IH [OF s1(1)]] snoc.prems(2) unfolding window_kept_def by simp
  next
    assume tk: "tu_tick t \<and> ses_gate s = tick_observes t s1 \<and> ses_trace s = ses_trace s1"
    then have "gate_idle_since (ses_gate s1) = Some t0 \<or> t0 = tu_now t \<and> idle_tick t s1"
      using tick_window [of s t s1 t0] snoc.prems(2) by simp
    then consider "gate_idle_since (ses_gate s1) = Some t0" | "t0 = tu_now t" "idle_tick t s1"
      by blast
    then show ?thesis
    proof cases
      case 1
      then show ?thesis using opened_snoc [OF snoc.IH [OF s1(1)]] tk by simp
    next
      case 2
      have "ts @ [t] = ts @ t # []" by simp
      moreover have "spawned (ses_trace s) = spawned (ses_trace s1)" using tk by simp
      ultimately show ?thesis using 2 s1(1) unfolding opened_def by blast
    qed
  qed
qed

lemma start_window: "gate_idle_since (ses_gate (session_start mx cfg now keys pending obs)) = None"
  by (simp add: session_start_def gate_new_at_def)

lemma run_upgrade_split:
  assumes "run_session_loop cfg reg ts s0 = (s', Some (DAutoUpgrade v))"
  obtains ts1 t ts2 s1 where "ts = ts1 @ t # ts2" and "run_session_loop cfg reg ts1 s0 = (s1, None)"
    and "session_turn cfg reg t s1 = (s', Some (DAutoUpgrade v))"
proof -
  have "\<exists>ts1 t ts2 s1. ts = ts1 @ t # ts2 \<and> run_until (session_turn cfg reg) ts1 s0 = (s1, None)
      \<and> session_turn cfg reg t s1 = (s', Some (DAutoUpgrade v))"
    using assms unfolding run_session_loop_def
  proof (induction ts rule: rev_induct)
    case (snoc t ts)
    from run_until_snoc [OF snoc.prems] snoc.IH show ?case by (metis append.assoc append_Cons)
  qed simp
  then show ?thesis using that unfolding run_session_loop_def by blast
qed

text \<open>The gate of a run is the gate of a history of calls, whose observations are the run's ticks.\<close>

definition history_of :: "instant \<Rightarrow> connection_config \<Rightarrow> instant \<Rightarrow> turn list \<Rightarrow> session \<Rightarrow> gate_call list \<Rightarrow> bool" where
  "history_of mx cfg now ts s h \<longleftrightarrow> ses_gate s = gate_after mx (cc_auto_upgrade cfg) now h
     \<and> (\<forall>en idle x. Observe en idle x \<in> set h \<longrightarrow> (\<exists>t\<in>set ts. tu_tick t \<and> tu_now t = x))"

lemma gate_after_append: "gate_after mx p st (h @ h') = fold gate_apply h' (gate_after mx p st h)"
  by (simp add: gate_after_def)

lemma tick_history:
  assumes "history_of mx cfg now ts s h" and "tu_tick t"
    and "ses_gate s' = gate_observe en idle (tu_now t) (ses_gate s)"
  shows "history_of mx cfg now (ts @ [t]) s' (h @ [Observe en idle (tu_now t)])"
  using assms unfolding history_of_def by (auto simp: gate_after_append)

lemma run_history:
  "run_session_loop cfg reg ts (session_start mx cfg now keys pending obs) = (s, None) \<Longrightarrow>
     \<exists>h. history_of mx cfg now ts s h"
proof (induction ts arbitrary: s rule: rev_induct)
  case Nil
  then show ?case
    by (intro exI [of _ "[]"])
       (auto simp: history_of_def run_session_loop_def session_start_def gate_after_def)
next
  case (snoc t ts)
  from run_until_snoc [OF snoc.prems(1) [unfolded run_session_loop_def]]
  obtain s1 where s1: "run_session_loop cfg reg ts (session_start mx cfg now keys pending obs) = (s1, None)"
      "session_turn cfg reg t s1 = (s, None)"
    by (auto simp: run_session_loop_def)
  from snoc.IH [OF s1(1)] obtain h where h: "history_of mx cfg now ts s1 h" by blast
  from turn_gate [OF s1(2)] show ?case
  proof (elim disjE)
    assume "window_kept s1 s \<and> (\<exists>h. ses_gate s = fold gate_apply h (ses_gate s1)
           \<and> list_all (\<lambda>c. \<forall>en idle now. c \<noteq> Observe en idle now) h)"
    then obtain h' where "ses_gate s = fold gate_apply h' (ses_gate s1)"
        "list_all (\<lambda>c. \<forall>en idle now. c \<noteq> Observe en idle now) h'" by blast
    then have "history_of mx cfg now (ts @ [t]) s (h @ h')"
      using h by (fastforce simp: history_of_def gate_after_append list_all_iff)
    then show ?thesis by blast
  next
    assume "tu_tick t \<and> ses_gate s = tick_observes t s1 \<and> ses_trace s = ses_trace s1"
    then show ?thesis using tick_history [OF h] unfolding tick_observes_def by blast
  qed
qed

lemma upgrade_exit:
  assumes "run_session_loop cfg reg ts (session_start mx cfg now keys pending obs)
             = (s', Some (DAutoUpgrade v))"
  obtains ts1 t ts2 s1 where "ts = ts1 @ t # ts2" and "tu_tick t"
    and "run_session_loop cfg reg ts1 (session_start mx cfg now keys pending obs) = (s1, None)"
    and "ready (tu_now t) (tick_observes t s1) = Some v"
    and "spawned (ses_trace s') = spawned (ses_trace s1)"
proof -
  obtain ts1 t ts2 s1 where sp: "ts = ts1 @ t # ts2"
      "run_session_loop cfg reg ts1 (session_start mx cfg now keys pending obs) = (s1, None)"
      "session_turn cfg reg t s1 = (s', Some (DAutoUpgrade v))"
    using run_upgrade_split [OF assms] .
  have arm: "tick_arm t (before_select t s1) = (s', Some (DAutoUpgrade v))" "tu_tick t"
    using upgrade_exit_arm [OF sp(3)] by simp_all
  then obtain w where w: "ready (tu_now t) (tick_observes t s1) = Some w"
      and lv: "leave t (DAutoUpgrade w)
          (note_events [SentClose] (before_select t s1\<lparr>ses_gate := tick_observes t s1\<rparr>))
        = (s', Some (DAutoUpgrade v))"
    by (auto simp: tick_arm_def Let_def tick_observes_def split: option.splits)
  have "w = v" using leave_disconnect [OF lv [symmetric]] by simp
  moreover have "spawned (ses_trace s') = spawned (ses_trace s1)"
    using leave_sel(10) [of t "DAutoUpgrade w"
        "note_events [SentClose] (before_select t s1\<lparr>ses_gate := tick_observes t s1\<rparr>)"] lv
    by simp
  ultimately show ?thesis using that sp arm w by blast
qed

text \<open>
  C37: The quiet period is real. If a session hands over for an upgrade, there was an earlier or equal
  tick, at least the quiet period before, at which the session was idle with the operator's flag
  on, and from that tick to the hand-over not a single job task was spawned, however short.
\<close>

theorem handoff_after_quiet_stretch:
  assumes "run_session_loop cfg reg ts (session_start mx cfg now keys pending obs)
             = (s', Some (DAutoUpgrade v))"
  shows "\<exists>ts1 t1 ts2 s1 policy. ts = ts1 @ t1 # ts2
     \<and> run_session_loop cfg reg ts1 (session_start mx cfg now keys pending obs) = (s1, None)
     \<and> idle_tick t1 s1 \<and> spawned (ses_trace s') = spawned (ses_trace s1)
     \<and> cc_auto_upgrade cfg = Some policy
     \<and> (\<exists>t\<in>set (t1 # ts2). tu_tick t \<and> aup_quiet_period policy \<le> tu_now t - tu_now t1)"
proof -
  let ?s0 = "session_start mx cfg now keys pending obs"
  obtain us t vs s1 where x: "ts = us @ t # vs" "tu_tick t" "run_session_loop cfg reg us ?s0 = (s1, None)"
      "ready (tu_now t) (tick_observes t s1) = Some v" "spawned (ses_trace s') = spawned (ses_trace s1)"
    using upgrade_exit [OF assms] .
  obtain h where "history_of mx cfg now us s1 h" using run_history [OF x(3)] by blast
  then have pol: "gate_policy (ses_gate s1) = cc_auto_upgrade cfg" by (simp add: history_of_def)
  from x(4) obtain policy t0 where r: "gate_policy (tick_observes t s1) = Some policy"
      "gate_idle_since (tick_observes t s1) = Some t0" "aup_quiet_period policy \<le> tu_now t - t0"
    by (auto simp: ready_def split: option.splits if_splits)
  have policy: "cc_auto_upgrade cfg = Some policy"
    using r(1) pol by (auto simp: tick_observes_def gate_observe_def split: if_splits option.splits)
  have "gate_idle_since (ses_gate s1) = Some t0 \<or> t0 = tu_now t \<and> idle_tick t s1"
    using tick_window [of "s1\<lparr>ses_gate := tick_observes t s1\<rparr>" t s1 t0] r(2) x(2) by simp
  then show ?thesis
  proof
    assume "gate_idle_since (ses_gate s1) = Some t0"
    from window_opened [OF start_window x(3) this]
    obtain ts1 t1 ts2 s2 where o2: "us = ts1 @ t1 # ts2" "run_session_loop cfg reg ts1 ?s0 = (s2, None)"
        "idle_tick t1 s2" "tu_now t1 = t0" "spawned (ses_trace s1) = spawned (ses_trace s2)"
      unfolding opened_def by blast
    show ?thesis
      by (intro exI [of _ ts1] exI [of _ t1] exI [of _ "ts2 @ t # vs"] exI [of _ s2] exI [of _ policy])
         (use o2 x r policy in auto)
  next
    assume "t0 = tu_now t \<and> idle_tick t s1"
    then show ?thesis
      by (intro exI [of _ us] exI [of _ t] exI [of _ vs] exI [of _ s1] exI [of _ policy])
         (use x r policy in auto)
  qed
qed

lemma run_upgrade_policy:
  assumes "run_session_loop cfg reg ts (session_start mx cfg now keys pending obs)
             = (s', Some (DAutoUpgrade v))"
  shows "\<exists>p. cc_auto_upgrade cfg = Some p"
proof -
  obtain us t vs s1 where x: "ts = us @ t # vs" "tu_tick t"
      "run_session_loop cfg reg us (session_start mx cfg now keys pending obs) = (s1, None)"
      "ready (tu_now t) (tick_observes t s1) = Some v"
    using upgrade_exit [OF assms] .
  obtain h where "history_of mx cfg now us s1 h" using run_history [OF x(3)] by blast
  then have "gate_policy (ses_gate s1) = cc_auto_upgrade cfg" by (simp add: history_of_def)
  with x(4) show ?thesis
    by (auto simp: ready_def tick_observes_def gate_observe_def split: if_splits option.splits)
qed

lemma suppressed_session_waits:
  assumes "run_session_loop cfg reg ts (session_start mx cfg now keys pending obs)
             = (s', Some (DAutoUpgrade v))"
    and "cc_auto_upgrade cfg = Some p" and "aup_suppressed_version p = Some v"
    and "aup_suppressed_for p = Some d" and "now + d \<le> mx"
  shows "\<exists>t1\<in>set ts. \<exists>t2\<in>set ts. tu_tick t1 \<and> tu_tick t2 \<and> now + d \<le> tu_now t1
           \<and> aup_quiet_period p \<le> tu_now t2 - tu_now t1"
proof -
  obtain us t vs s1 where x: "ts = us @ t # vs" "tu_tick t"
      "run_session_loop cfg reg us (session_start mx cfg now keys pending obs) = (s1, None)"
      "ready (tu_now t) (tick_observes t s1) = Some v"
    using upgrade_exit [OF assms(1)] .
  obtain h where h: "history_of mx cfg now us s1 h" using run_history [OF x(3)] by blast
  obtain en idle where ob: "tick_observes t s1 = gate_observe en idle (tu_now t) (ses_gate s1)"
    by (simp add: tick_observes_def)
  let ?h = "h @ [Observe en idle (tu_now t)]"
  have hist: "history_of mx cfg now (us @ [t]) (s1\<lparr>ses_gate := tick_observes t s1\<rparr>) ?h"
    by (rule tick_history [OF h x(2)]) (simp add: ob)
  then have g: "tick_observes t s1 = gate_after mx (Some p) now ?h"
    by (simp add: history_of_def assms(2))
  have "gate_target (gate_after mx (Some p) now ?h) = Some v"
    using x(4) unfolding g by (auto simp: ready_def split: option.splits if_splits)
  then have la: "last_announced ?h = Some v" by (simp only: gate_target_after)
  have "gate_policy (gate_after mx (Some p) now ?h) = Some p" by (rule gate_policy_after)
  with x(4) obtain t0 where t0: "gate_idle_since (gate_after mx (Some p) now ?h) = Some t0"
      "aup_quiet_period p \<le> tu_now t - t0"
    unfolding g ready_def by (auto split: option.splits if_splits)
  from gate_idle_unsuppressed [OF assms(3-5) t0(1) la]
  have w: "now + d \<le> t0" "Observe True True t0 \<in> set ?h" by simp_all
  from hist w(2) obtain t1 where "t1 \<in> set (us @ [t])" "tu_tick t1" "tu_now t1 = t0"
    unfolding history_of_def by blast
  then show ?thesis using w(1) t0(2) x(1,2) by auto
qed

text \<open>
  The suppression of a failed target binds the session: while the policy names the announced
  version, a session that started at \<open>now\<close> hands over for it only after an idle tick at least the
  suppression after \<open>now\<close>, and the quiet period on top.
\<close>

theorem suppressed_upgrade_waits_in_session:
  assumes "run_session_loop cfg reg ts (session_start mx cfg now keys pending obs)
             = (s', Some (DAutoUpgrade v))"
    and "cc_auto_upgrade cfg = Some p" and "aup_suppressed_version p = Some v"
    and "aup_suppressed_for p = Some d" and "now + d \<le> mx"
  shows "\<exists>t1\<in>set ts. \<exists>t2\<in>set ts. tu_tick t1 \<and> tu_tick t2 \<and> now + d \<le> tu_now t1
           \<and> aup_quiet_period p \<le> tu_now t2 - tu_now t1"
  using suppressed_session_waits [OF assms] .

section \<open>A run that upgrades\<close>

definition gate_config :: "string option \<Rightarrow> connection_config" where
  "gate_config w = sample_config\<lparr>cc_auto_upgrade := Some \<lparr>aup_quiet_period = secs 30,
     aup_suppressed_version = w, aup_suppressed_for = map_option (\<lambda>v. secs 60) w\<rparr>\<rparr>"

definition gate_turns :: "turn list" where
  "gate_turns = [(frame_turn (UpdateAvailable \<lparr>upd_tenant = ''driffs'', upd_supervisor_version = ''2.0.0'',
       upd_payload_version = ''2''\<rparr>))
       \<lparr>tu_operator := [SetAutoUpgrade True]\<rparr>,
     quiet_turn\<lparr>tu_tick := True, tu_now := secs 100\<rparr>, quiet_turn\<lparr>tu_tick := True, tu_now := secs 130\<rparr>]"

definition gate_start :: "string option \<Rightarrow> session" where
  "gate_start w =
     session_start (secs 10000) (gate_config w) (secs 10) [] [] (channels default_status)"

lemma gate_run: "x = None \<or> x = Some ''2.0.0'' \<Longrightarrow>
   snd (run_session_loop (gate_config x) sample_register gate_turns (gate_start x)) = Some (DAutoUpgrade ''2.0.0'')"
  by (auto simp: gate_turns_def gate_start_def gate_config_def run_eval Let_def announce_def update_arm_def
        auto_upgrade_enabled_def set_auto_upgrade_enabled_def session_idle_def gate_observe_def
        target_suppressed_def ready_def gate_new_at_def simp del: server_to_json.simps)

theorem handoff_after_quiet_stretch_witness:
  "\<exists>s' t1 s1. run_session_loop (gate_config None) sample_register gate_turns (gate_start None)
       = (s', Some (DAutoUpgrade ''2.0.0'')) \<and> t1 \<in> set gate_turns \<and> idle_tick t1 s1
     \<and> spawned (ses_trace s') = spawned (ses_trace s1)"
proof -
  obtain s' where r: "run_session_loop (gate_config None) sample_register gate_turns (gate_start None)
      = (s', Some (DAutoUpgrade ''2.0.0''))"
    using gate_run [of None] by (metis prod.collapse)
  from handoff_after_quiet_stretch [OF r [unfolded gate_start_def]] obtain ts1 t1 ts2 s1 where
    "gate_turns = ts1 @ t1 # ts2" "idle_tick t1 s1" "spawned (ses_trace s') = spawned (ses_trace s1)"
    by blast
  moreover from this(1) have "t1 \<in> set gate_turns" by (metis in_set_conv_decomp)
  ultimately show ?thesis using r by blast
qed

theorem suppressed_upgrade_waits_in_session_witness:
  "\<exists>s' t1. run_session_loop (gate_config (Some ''2.0.0'')) sample_register gate_turns
         (gate_start (Some ''2.0.0'')) = (s', Some (DAutoUpgrade ''2.0.0''))
     \<and> t1 \<in> set gate_turns \<and> secs 70 \<le> tu_now t1"
proof -
  obtain s' where r: "run_session_loop (gate_config (Some ''2.0.0'')) sample_register gate_turns
      (gate_start (Some ''2.0.0'')) = (s', Some (DAutoUpgrade ''2.0.0''))"
    using gate_run [of "Some ''2.0.0''"] by (metis prod.collapse)
  have p: "cc_auto_upgrade (gate_config (Some ''2.0.0'')) = Some \<lparr>aup_quiet_period = secs 30,
      aup_suppressed_version = Some ''2.0.0'', aup_suppressed_for = Some (secs 60)\<rparr>"
    by (simp add: gate_config_def)
  have "\<exists>t1\<in>set gate_turns. \<exists>t2\<in>set gate_turns. tu_tick t1 \<and> tu_tick t2
      \<and> secs 10 + secs 60 \<le> tu_now t1 \<and> secs 30 \<le> tu_now t2 - tu_now t1"
    using suppressed_upgrade_waits_in_session [OF r [unfolded gate_start_def] p, of "secs 60"]
    by simp
  then show ?thesis using r by fastforce
qed

end
