(* ===== verification/Versions.thy ===== *)
theory Versions
  imports Dr_Base
begin

text \<open>
  Release versions as the CLI reads them (\<open>bins/decent/src/main.rs\<close>): the version word of a line, the
  triplet it denotes, the version a Homebrew formula pins, and the verdict after the package
  manager ran. \<open>[u64; 3]\<close> compares lexicographically; here a triplet is a type of its own with that
  order.
\<close>

section \<open>Triplets\<close>

datatype version = Version (vmajor: nat) (vminor: nat) (vpatch: nat)

instantiation version :: linorder
begin

definition less_version :: "version \<Rightarrow> version \<Rightarrow> bool" where
  "less_version a b \<longleftrightarrow>
     vmajor a < vmajor b
     \<or> vmajor a = vmajor b \<and> (vminor a < vminor b \<or> vminor a = vminor b \<and> vpatch a < vpatch b)"

definition less_eq_version :: "version \<Rightarrow> version \<Rightarrow> bool" where
  "less_eq_version a b \<longleftrightarrow> a < b \<or> a = (b :: version)"

instance
  by standard (auto simp: less_version_def less_eq_version_def intro: version.expand)

end

section \<open>Reading a version\<close>

text \<open>\<open>str::trim_start_matches\<close>.\<close>

lemma prefix_shorter: "p \<noteq> [] \<Longrightarrow> starts_with s p \<Longrightarrow> length s - length p < length s"
  by (auto simp: starts_with_prefix prefix_def)

function trim_start_matches :: "string \<Rightarrow> string \<Rightarrow> string" where
  "trim_start_matches p s =
     (if p \<noteq> [] \<and> starts_with s p then trim_start_matches p (drop (length p) s) else s)"
  by pat_completeness auto
termination
  by (relation "measure (\<lambda>(p, s). length s)") (simp_all add: prefix_shorter)

declare trim_start_matches.simps [simp del]

definition is_digit :: "char \<Rightarrow> bool" where
  "is_digit c = (digit_val c \<noteq> None)"

definition version_word :: "string \<Rightarrow> bool" where
  "version_word w =
     (let parts = split_on CHR ''.'' w
      in length parts = 3 \<and> list_all (\<lambda>n. n \<noteq> [] \<and> list_all is_digit n) parts)"

definition parse_version_word :: "string \<Rightarrow> string option" where
  "parse_version_word text =
     find version_word
       (map (\<lambda>w. trim_start_matches ''v'' (trim_start_matches ''rust-'' w)) (split_whitespace text))"

definition version_triplet :: "string \<Rightarrow> version option" where
  "version_triplet text =
     (case parse_version_word text of
        None \<Rightarrow> None
      | Some v \<Rightarrow>
          (case map (parse_uint u64_bound) (split_on CHR ''.'' v) of
             Some a # Some b # Some c # _ \<Rightarrow> Some (Version a b c)
           | _ \<Rightarrow> None))"

definition strip_prefix :: "string \<Rightarrow> string \<Rightarrow> string option" where
  "strip_prefix p s = (if starts_with s p then Some (drop (length p) s) else None)"

definition formula_line_version :: "string \<Rightarrow> string option" where
  "formula_line_version l =
     (case strip_prefix ''version'' (trim_start l) of
        None \<Rightarrow> None
      | Some rest \<Rightarrow>
          (case strip_prefix [CHR 0x22] (trim_start rest) of
             None \<Rightarrow> None
           | Some q \<Rightarrow> parse_version_word (hd (split_on CHR 0x22 q))))"

fun find_map :: "('a \<Rightarrow> 'b option) \<Rightarrow> 'a list \<Rightarrow> 'b option" where
  "find_map f [] = None"
| "find_map f (x # xs) = (case f x of Some y \<Rightarrow> Some y | None \<Rightarrow> find_map f xs)"

definition parse_formula_version :: "string \<Rightarrow> string option" where
  "parse_formula_version formula = find_map formula_line_version (lines_of formula)"

section \<open>After the package manager\<close>

datatype upgrade_outcome = AlreadyCurrent string | Upgraded string string

definition upgrade_outcome_of :: "string \<Rightarrow> string option \<Rightarrow> string option \<Rightarrow> string + upgrade_outcome" where
  "upgrade_outcome_of before after latest =
     (case after of
        Some a \<Rightarrow>
          (if a \<noteq> before then Inr (Upgraded before a)
           else (case latest of
                   Some l \<Rightarrow> if l \<noteq> before then Inl ''channel offers a newer version'' else Inr (AlreadyCurrent before)
                 | None \<Rightarrow> Inr (AlreadyCurrent before)))
      | None \<Rightarrow>
          (case latest of
             Some l \<Rightarrow> if l \<noteq> before then Inl ''channel offers a newer version'' else Inr (AlreadyCurrent before)
           | None \<Rightarrow> Inr (AlreadyCurrent before)))"

section \<open>Properties\<close>

definition show_version :: "version \<Rightarrow> string" where
  "show_version v = show_nat (vmajor v) @ ''.'' @ show_nat (vminor v) @ ''.'' @ show_nat (vpatch v)"

lemma show_version_parts:
  "split_on CHR ''.'' (show_version v) = [show_nat (vmajor v), show_nat (vminor v), show_nat (vpatch v)]"
  by (simp add: show_version_def split_on_append_sep split_on_no_sep show_nat_not_in)

lemma digits_of_show_nat: "list_all is_digit (show_nat n)"
  by (auto simp: list_all_iff is_digit_def dest: show_nat_digits)

lemma version_word_show: "version_word (show_version v)"
  by (simp add: version_word_def Let_def show_version_parts digits_of_show_nat)

lemma show_version_chars: "c \<in> set (show_version v) \<Longrightarrow> c = CHR ''.'' \<or> is_digit c"
  using digits_of_show_nat by (auto simp: show_version_def list_all_iff)

lemma no_ws_word:
  assumes "w \<noteq> []" and "\<forall>c\<in>set w. \<not> is_ws c"
  shows "split_ws_acc acc w = [rev acc @ w]"
    and "is_ws sp \<Longrightarrow> split_ws_acc [] (w @ sp # s) = w # split_ws_acc [] s"
proof -
  show "split_ws_acc acc w = [rev acc @ w]" using assms
  proof (induction w arbitrary: acc)
    case (Cons c w)
    then show ?case by (cases "w = []") auto
  qed simp
  have "split_ws_acc acc (w @ sp # s) = (rev acc @ w) # split_ws_acc [] s" if "is_ws sp" "acc @ w \<noteq> []" for acc
    using assms(2) that
  proof (induction w arbitrary: acc)
    case (Cons c w)
    then show ?case using Cons.IH [of "c # acc"] by auto
  qed auto
  from this [of "[]"] show "is_ws sp \<Longrightarrow> split_ws_acc [] (w @ sp # s) = w # split_ws_acc [] s"
    using assms(1) by simp
qed

lemma show_version_ends: "show_version v \<noteq> []" "is_digit (hd (show_version v))"
  using digits_of_show_nat [of "vmajor v"] by (simp_all add: show_version_def list_all_iff)

lemma digit_not_ws: "is_digit c \<Longrightarrow> \<not> is_ws c"
  by (auto simp: is_digit_def digit_val_def is_ws_def Let_def split: if_splits)

lemma show_version_no_ws: "\<forall>c\<in>set (show_version v). \<not> is_ws c"
  using show_version_chars digit_not_ws by (fastforce simp: is_ws_def)

lemma trim_digit:
  assumes "s \<noteq> []" and "is_digit (hd s)" and "p = [] \<or> \<not> is_digit (hd p)"
  shows "trim_start_matches p s = s" and "trim_start_matches p (p @ s) = s"
proof -
  show nop: "trim_start_matches p s = s"
    using assms by (subst trim_start_matches.simps)
      (cases p; cases s; auto simp: starts_with_def)
  show "trim_start_matches p (p @ s) = s"
    using nop by (cases "p = []") (simp_all add: trim_start_matches.simps [of p "p @ s"])
qed

lemma not_digits: "\<not> is_digit CHR ''v''" "\<not> is_digit CHR ''r''"
  by (simp_all add: is_digit_def digit_val_def)

lemma cleaned_show:
  "trim_start_matches ''v'' (trim_start_matches ''rust-'' (show_version v)) = show_version v"
  "trim_start_matches ''v'' (trim_start_matches ''rust-'' (''rust-'' @ show_version v)) = show_version v"
  "trim_start_matches ''v'' (trim_start_matches ''rust-'' (''v'' @ show_version v)) = show_version v"
proof -
  have v: "trim_start_matches ''v'' (show_version v) = show_version v"
      "trim_start_matches ''v'' (''v'' @ show_version v) = show_version v"
    by (rule trim_digit [OF show_version_ends]; simp add: not_digits)+
  have r: "trim_start_matches ''rust-'' (show_version v) = show_version v"
      "trim_start_matches ''rust-'' (''rust-'' @ show_version v) = show_version v"
    by (rule trim_digit [OF show_version_ends]; simp add: not_digits)+
  have "trim_start_matches ''rust-'' (''v'' @ show_version v) = ''v'' @ show_version v"
    by (subst trim_start_matches.simps) (simp add: starts_with_def)
  then show
    "trim_start_matches ''v'' (trim_start_matches ''rust-'' (show_version v)) = show_version v"
    "trim_start_matches ''v'' (trim_start_matches ''rust-'' (''rust-'' @ show_version v)) = show_version v"
    "trim_start_matches ''v'' (trim_start_matches ''rust-'' (''v'' @ show_version v)) = show_version v"
    by (simp_all only: v r)
qed

lemma parse_word:
  assumes "w \<noteq> []" and "\<forall>c\<in>set w. \<not> is_ws c"
    and "trim_start_matches ''v'' (trim_start_matches ''rust-'' w) = show_version v"
  shows "parse_version_word w = Some (show_version v)"
    and "parse_version_word (w @ CHR 0x0A # s) = Some (show_version v)"
  using assms(3) no_ws_word [OF assms(1,2)]
  by (simp_all add: parse_version_word_def split_whitespace_def version_word_show is_ws_def)

lemma parse_show_word:
  "parse_version_word (show_version v) = Some (show_version v)"
  "parse_version_word (''rust-'' @ show_version v) = Some (show_version v)"
  "parse_version_word (''v'' @ show_version v) = Some (show_version v)"
  using show_version_no_ws [of v] cleaned_show [of v]
  by (intro parse_word(1); auto simp: show_version_ends is_ws_def)+

lemma triplet_parts:
  assumes "vmajor v < u64_bound" and "vminor v < u64_bound" and "vpatch v < u64_bound"
    and "parse_version_word t = Some (show_version v)"
  shows "version_triplet t = Some v"
  using assms by (simp add: version_triplet_def show_version_parts parse_show_nat)

lemma decent_line:
  "parse_version_word (''decent '' @ show_version v @ [CHR 0x0A]) = Some (show_version v)"
proof -
  have w: "''decent'' \<noteq> []" "\<forall>c\<in>set ''decent''. \<not> is_ws c" by (simp_all add: is_ws_def)
  have "split_whitespace (''decent'' @ CHR '' '' # show_version v @ [CHR 0x0A])
      = ''decent'' # split_ws_acc [] (show_version v @ [CHR 0x0A])"
    unfolding split_whitespace_def by (rule no_ws_word(2) [OF w]) (simp add: is_ws_def)
  moreover have "\<not> version_word (trim_start_matches ''v'' (trim_start_matches ''rust-'' ''decent''))"
    by (simp add: trim_start_matches.simps [of "''v''"] trim_start_matches.simps [of "''rust-''"]
        starts_with_def version_word_def)
  ultimately show ?thesis
    using parse_word(2) [OF show_version_ends(1) show_version_no_ws cleaned_show(1), of v "[]"]
    by (simp add: parse_version_word_def split_whitespace_def)
qed

text \<open>
  Versions survive the text they travel in. Every release triplet of 64-bit numbers is read back
  from its plain form, from a tag with \<open>v\<close>, from a supervisor version with \<open>rust-\<close>, and from the line
  \<open>decent --version\<close> prints; so a comparison of two such texts is the comparison of the releases.
\<close>

theorem version_text_round_trip:
  assumes "max (vmajor v) (max (vminor v) (vpatch v)) < u64_bound"
  shows "version_triplet (show_version v) = Some v
     \<and> version_triplet (''v'' @ show_version v) = Some v
     \<and> version_triplet (''rust-'' @ show_version v) = Some v
     \<and> version_triplet (''decent '' @ show_version v @ [CHR 0x0A]) = Some v"
  using assms by (auto intro!: triplet_parts simp: parse_show_word [simplified] decent_line [simplified])

theorem version_text_round_trip_witness:
  "version_triplet (''rust-'' @ show_version (Version 0 0 10)) = Some (Version 0 0 10)
   \<and> Version 0 0 9 < Version 0 0 10"
  using version_text_round_trip [of "Version 0 0 10"] by (simp add: less_version_def u64_bound_def)

end
