(* ===== verification/Upgrade.thy ===== *)
theory Upgrade
  imports Protocol Versions Gate
begin

text \<open>
  The node-local half of an unattended upgrade (\<open>bins/decent/src/auto_upgrade.rs\<close>): the opt-in flag,
  the durable attempt ledger, the suppression it yields and \<open>apply\<close>, which validates a target,
  persists the attempt and only then runs the package manager. The config directory is a map from
  file names to a body and a mode; a body is plain text, a JSON value, or what a failed write left.
  What the file system answers on a write is an environment record. The package manager is injected,
  as in the code.
\<close>

section \<open>The attempt record\<close>

definition RETRY_SUPPRESS_MS :: nat where "RETRY_SUPPRESS_MS = 24 * 60 * 60 * 1000"
definition FLAG_FILE :: string where "FLAG_FILE = ''auto-upgrade''"
definition STATE_FILE :: string where "STATE_FILE = ''auto-upgrade-state.json''"

datatype attempt_outcome = AtStarted | AtFailed | AtRejected | AtUpgraded | AtAlreadyCurrent

fun outcome_label :: "attempt_outcome \<Rightarrow> string" where
  "outcome_label AtStarted = ''started''"
| "outcome_label AtFailed = ''failed''"
| "outcome_label AtRejected = ''rejected''"
| "outcome_label AtUpgraded = ''upgraded''"
| "outcome_label AtAlreadyCurrent = ''already current''"

definition needs_attention :: "attempt_outcome \<Rightarrow> bool" where
  "needs_attention o1 = (o1 \<in> {AtStarted, AtFailed, AtRejected})"

record attempt_record =
  at_target :: string
  at_ms :: u64
  at_outcome :: attempt_outcome
  at_detail :: string

fun outcome_json :: "attempt_outcome \<Rightarrow> json" where
  "outcome_json AtStarted = JStr ''started''"
| "outcome_json AtFailed = JStr ''failed''"
| "outcome_json AtRejected = JStr ''rejected''"
| "outcome_json AtUpgraded = JStr ''upgraded''"
| "outcome_json AtAlreadyCurrent = JStr ''already-current''"

definition outcome_of_json :: "json \<Rightarrow> attempt_outcome de" where
  "outcome_of_json j = rbind (str_of j) (\<lambda>s.
     if s = ''started'' then Inr AtStarted else if s = ''failed'' then Inr AtFailed
     else if s = ''rejected'' then Inr AtRejected else if s = ''upgraded'' then Inr AtUpgraded
     else if s = ''already-current'' then Inr AtAlreadyCurrent else Inl (UnknownVariant s))"

definition attempt_json :: "attempt_record \<Rightarrow> json" where
  "attempt_json r = JObj [(''targetVersion'', JStr (at_target r)),
     (''attemptedAtMs'', json_u64 (at_ms r)), (''outcome'', outcome_json (at_outcome r)),
     (''detail'', JStr (at_detail r))]"

definition attempt_of_json :: "json \<Rightarrow> attempt_record de" where
  "attempt_of_json j = rbind (obj_of j) (\<lambda>kvs.
     rbind (req ''targetVersion'' str_of kvs) (\<lambda>t.
     rbind (req ''attemptedAtMs'' u64_of kvs) (\<lambda>ms.
     rbind (req ''outcome'' outcome_of_json kvs) (\<lambda>o1.
     rbind (req ''detail'' str_of kvs) (\<lambda>d.
       Inr \<lparr>at_target = t, at_ms = ms, at_outcome = o1, at_detail = d\<rparr>)))))"

lemma attempt_round_trip: "attempt_of_json (attempt_json r) = Inr r"
  by (cases r; cases "at_outcome r")
     (simp_all add: attempt_of_json_def attempt_json_def req_def field_def outcome_of_json_def)

section \<open>The config directory\<close>

datatype file_body = PlainText string | JsonText json | Torn

type_synonym config_files = "string \<Rightarrow> (file_body \<times> nat) option"

record write_env =
  we_mkdir :: bool
  we_write :: bool
  we_chmod_tmp :: bool
  we_rename :: bool
  we_chmod :: bool
  we_unlink :: bool
  we_umask :: nat

definition tmp_file :: "nat \<Rightarrow> string \<Rightarrow> string" where
  "tmp_file pid name = ''.'' @ name @ ''.tmp-'' @ show_nat pid"

definition set_mode :: "bool \<Rightarrow> string \<Rightarrow> config_files \<Rightarrow> config_files" where
  "set_mode ok name fs = (if ok then fs(name := map_option (\<lambda>(b, m). (b, 384)) (fs name)) else fs)"

definition mode_of :: "nat \<Rightarrow> (file_body \<times> nat) option \<Rightarrow> nat" where
  "mode_of umask f = (case f of Some (b, m) \<Rightarrow> m | None \<Rightarrow> umask)"

definition atomic_private_write :: "nat \<Rightarrow> write_env \<Rightarrow> string \<Rightarrow> file_body \<Rightarrow> config_files
    \<Rightarrow> (string + unit) \<times> config_files" where
  "atomic_private_write pid we name body fs =
     (if \<not> we_mkdir we then (Inl ''create_dir_all'', fs)
      else
        let tmp = tmp_file pid name;
            unlink = (\<lambda>f. if we_unlink we then f(tmp := None) else f);
            m = mode_of (we_umask we) (fs tmp)
        in if \<not> we_write we then (Inl ''write'', unlink (fs(tmp \<mapsto> (Torn, m))))
           else
             let fs1 = set_mode (we_chmod_tmp we) tmp (fs(tmp \<mapsto> (body, m)))
             in if \<not> we_rename we then (Inl ''rename'', unlink fs1)
                else (Inr (), set_mode (we_chmod we) name (fs1(tmp := None, name := fs1 tmp))))"

definition is_enabled :: "config_files \<Rightarrow> bool" where
  "is_enabled fs = (fs FLAG_FILE \<noteq> None)"

text \<open>\<open>rm\<close>: does removing an existing flag file succeed.\<close>

definition set_enabled :: "nat \<Rightarrow> write_env \<Rightarrow> bool \<Rightarrow> bool \<Rightarrow> config_files \<Rightarrow> (string + unit) \<times> config_files" where
  "set_enabled pid we rm enabled fs =
     (if enabled then atomic_private_write pid we FLAG_FILE (PlainText (''enabled'' @ [CHR 0x0A])) fs
      else if fs FLAG_FILE = None then (Inr (), fs)
      else if rm then (Inr (), fs(FLAG_FILE := None)) else (Inl ''remove_file'', fs))"

definition read_attempt :: "config_files \<Rightarrow> attempt_record option" where
  "read_attempt fs =
     (case fs STATE_FILE of
        Some (JsonText j, m) \<Rightarrow> (case attempt_of_json j of Inr r \<Rightarrow> Some r | Inl e \<Rightarrow> None)
      | _ \<Rightarrow> None)"

definition write_attempt :: "nat \<Rightarrow> write_env \<Rightarrow> attempt_record \<Rightarrow> config_files
    \<Rightarrow> (string + unit) \<times> config_files" where
  "write_attempt pid we r fs = atomic_private_write pid we STATE_FILE (JsonText (attempt_json r)) fs"

definition suppression :: "config_files \<Rightarrow> nat \<Rightarrow> (string \<times> duration) option" where
  "suppression fs now_ms =
     (case read_attempt fs of
        None \<Rightarrow> None
      | Some r \<Rightarrow>
          (let suppresses = at_outcome r \<in> {AtStarted, AtFailed, AtRejected, AtAlreadyCurrent};
               age = now_ms - unat (at_ms r)
           in if suppresses \<and> age < RETRY_SUPPRESS_MS
              then Some (at_target r, millis (RETRY_SUPPRESS_MS - age)) else None))"

section \<open>The ledger as an interface\<close>

text \<open>
  What \<open>apply\<close> needs of the ledger: a write that succeeds is what is read next, and a write that
  fails leaves what was readable before.
\<close>

locale attempt_ledger =
  fixes store :: "'e \<Rightarrow> attempt_record \<Rightarrow> 'f \<Rightarrow> (string + unit) \<times> 'f"
    and recall :: "'f \<Rightarrow> attempt_record option"
  assumes read_written: "store e r f = (Inr u, f') \<Longrightarrow> recall f' = Some r"
    and read_failed: "store e r f = (Inl err, f') \<Longrightarrow> recall f' = recall f"
begin

lemma read_after: "store e r f = (res, f') \<Longrightarrow> recall f' = (if res = Inr () then Some r else recall f)"
  by (cases res) (auto dest: read_written read_failed)

text \<open>The fuse: once the attempt is on record, updating its outcome never loses it.\<close>

lemma fuse_kept:
  assumes "store e1 r1 f = (Inr (), f1)" and "store e2 r2 f1 = (res, f2)"
    and "at_target r1 = t" and "at_target r2 = t" and "at_ms r1 = ms" and "at_ms r2 = ms"
  shows "\<exists>r. recall f2 = Some r \<and> r \<in> {r1, r2} \<and> at_target r = t \<and> at_ms r = ms"
  using assms read_after [OF assms(1)] read_after [OF assms(2)] by auto

end

lemma state_not_tmp: "STATE_FILE \<noteq> tmp_file pid name" "FLAG_FILE \<noteq> tmp_file pid name"
  by (simp_all add: STATE_FILE_def FLAG_FILE_def tmp_file_def)

lemma atomic_write_result:
  assumes "atomic_private_write pid we name body fs = (res, fs')" and "name \<noteq> tmp_file pid name"
  shows "(case res of
       Inr u \<Rightarrow> (\<exists>m. fs' name = Some (body, m) \<and> (if we_chmod we \<or> we_chmod_tmp we then m = 384 else True))
                \<and> fs' (tmp_file pid name) = None
     | Inl e \<Rightarrow> fs' name = fs name)
     \<and> (\<forall>n. n \<noteq> name \<and> n \<noteq> tmp_file pid name \<longrightarrow> fs' n = fs n)"
  using assms
  by (auto simp: atomic_private_write_def set_mode_def Let_def split: if_splits)

interpretation ledger: attempt_ledger "write_attempt pid" read_attempt for pid
proof unfold_locales
  fix e :: write_env and r :: attempt_record and f f' :: config_files and u err
  have ne: "STATE_FILE \<noteq> tmp_file pid STATE_FILE" by (rule state_not_tmp)
  show "read_attempt f' = Some r" if "write_attempt pid e r f = (Inr u, f')"
    using atomic_write_result [OF that [unfolded write_attempt_def] ne]
    by (auto simp: read_attempt_def attempt_round_trip)
  show "read_attempt f' = read_attempt f" if "write_attempt pid e r f = (Inl err, f')"
    using atomic_write_result [OF that [unfolded write_attempt_def] ne]
    by (simp add: read_attempt_def)
qed

section \<open>Applying an upgrade\<close>

datatype disposition =
    Restart string string "string option" | ReconnectAfter attempt_outcome string

definition attempt_of :: "string \<Rightarrow> u64 \<Rightarrow> attempt_outcome \<Rightarrow> string \<Rightarrow> attempt_record" where
  "attempt_of target ms o1 detail =
     \<lparr>at_target = target, at_ms = ms, at_outcome = o1, at_detail = detail\<rparr>"

text \<open>A refusal: record it, and reconnect.\<close>

definition refuse_target :: "nat \<Rightarrow> write_env \<Rightarrow> string \<Rightarrow> u64 \<Rightarrow> attempt_outcome \<Rightarrow> string \<Rightarrow> config_files
    \<Rightarrow> (string + disposition) \<times> config_files" where
  "refuse_target pid we target ms o1 detail fs =
     (case write_attempt pid we (attempt_of target ms o1 detail) fs of
        (Inl e, fs') \<Rightarrow> (Inl e, fs')
      | (Inr u, fs') \<Rightarrow> (Inr (ReconnectAfter o1 detail), fs'))"

text \<open>What the package manager's verdict leads to, once it has run.\<close>

definition settle_upgrade :: "nat \<Rightarrow> write_env \<Rightarrow> string \<Rightarrow> u64 \<Rightarrow> (string + upgrade_outcome) \<Rightarrow> config_files
    \<Rightarrow> (string + disposition) \<times> config_files" where
  "settle_upgrade pid we target ms verdict fs =
     (case verdict of
        Inr (Upgraded from to) \<Rightarrow>
          (let (w, fs') = write_attempt pid we (attempt_of target ms AtUpgraded (from @ '' -> '' @ to)) fs
           in (Inr (Restart from to (case w of Inl e \<Rightarrow> Some e | Inr u \<Rightarrow> None)), fs'))
      | Inr (AlreadyCurrent c) \<Rightarrow>
          refuse_target pid we target ms AtAlreadyCurrent (''channel and installed binary are '' @ c) fs
      | Inl e \<Rightarrow>
          (let (w, fs') = write_attempt pid we (attempt_of target ms AtFailed e) fs
           in (Inr (ReconnectAfter AtFailed e), fs')))"

text \<open>
  The middle component is the config directory at the moment the package manager was started, or
  nothing when it was not.
\<close>

definition apply_upgrade :: "nat \<Rightarrow> write_env \<Rightarrow> write_env \<Rightarrow> string \<Rightarrow> string \<Rightarrow> u64
    \<Rightarrow> (config_files \<Rightarrow> string + upgrade_outcome) \<Rightarrow> config_files
    \<Rightarrow> (string + disposition) \<times> config_files option \<times> config_files" where
  "apply_upgrade pid we1 we2 target current ms upgrade fs =
     (case (version_triplet target, version_triplet current) of
        (Some t, Some c) \<Rightarrow>
          (if c < t
           then (case write_attempt pid we1
                        (attempt_of target ms AtStarted ''idle-safe connection handoff complete'') fs of
                   (Inl e, fs1) \<Rightarrow> (Inl e, None, fs1)
                 | (Inr u, fs1) \<Rightarrow>
                     (case settle_upgrade pid we2 target ms (upgrade fs1) fs1 of
                        (r, fs2) \<Rightarrow> (r, Some fs1, fs2)))
           else (case refuse_target pid we1 target ms AtAlreadyCurrent
                        (''ignored non-newer dispatch target; running '' @ current) fs of
                   (r, fs1) \<Rightarrow> (r, None, fs1)))
      | _ \<Rightarrow> (case refuse_target pid we1 target ms AtRejected
                      ''dispatch target is not an exact semantic version'' fs of
                 (r, fs1) \<Rightarrow> (r, None, fs1)))"

section \<open>The crash-loop fuse\<close>

definition newer_release :: "string \<Rightarrow> string \<Rightarrow> bool" where
  "newer_release target current =
     (case (version_triplet target, version_triplet current) of
        (Some t, Some c) \<Rightarrow> c < t | _ \<Rightarrow> False)"

lemma suppression_of_record:
  assumes "read_attempt fs = Some r" and "at_outcome r \<noteq> AtUpgraded"
    and "now - unat (at_ms r) < RETRY_SUPPRESS_MS"
  shows "suppression fs now = Some (at_target r, millis (RETRY_SUPPRESS_MS - (now - unat (at_ms r))))"
  using assms by (cases "at_outcome r") (simp_all add: suppression_def Let_def)

lemma refuse_record:
  assumes "refuse_target pid we target ms o1 detail fs = (r, fs')"
  shows "(\<exists>e. r = Inl e \<and> read_attempt fs' = read_attempt fs)
     \<or> r = Inr (ReconnectAfter o1 detail) \<and> read_attempt fs' = Some (attempt_of target ms o1 detail)"
  using assms ledger.read_written ledger.read_failed
  by (auto simp: refuse_target_def split: prod.splits sum.splits)

text \<open>What is on record when the package manager has run.\<close>

lemma settle_record:
  assumes "settle_upgrade pid we target ms verdict fs1 = (r, fs2)"
    and "read_attempt fs1 = Some (attempt_of target ms AtStarted d)"
  shows "\<exists>o1 d'. read_attempt fs2 = Some (attempt_of target ms o1 d')
     \<and> (o1 = AtUpgraded \<longrightarrow> (\<exists>f t. r = Inr (Restart f t None)))"
proof -
  have w: "read_attempt f2 = (if x = Inr () then Some q else read_attempt fs1)"
    if "write_attempt pid we q fs1 = (x, f2)" for q x f2
    using ledger.read_after [OF that] .
  show ?thesis
  proof (cases "\<exists>f t. verdict = Inr (Upgraded f t)")
    case True
    then obtain f t where v: "verdict = Inr (Upgraded f t)" by blast
    obtain x where x: "write_attempt pid we (attempt_of target ms AtUpgraded (f @ '' -> '' @ t)) fs1 = (x, fs2)"
      using assms(1) v by (auto simp: settle_upgrade_def split: prod.splits)
    then have "r = Inr (Restart f t (case x of Inl e \<Rightarrow> Some e | Inr u \<Rightarrow> None))"
      using assms(1) v by (simp add: settle_upgrade_def)
    then show ?thesis using w [OF x] assms(2) by (cases x) auto
  next
    case False
    then show ?thesis
      using assms w refuse_record
      by (fastforce simp: settle_upgrade_def split: sum.splits upgrade_outcome.splits prod.splits)
  qed
qed

lemma apply_ran:
  assumes "apply_upgrade pid we1 we2 target current ms upgrade fs = (r, Some fs1, fs2)"
  shows "read_attempt fs1 = Some (attempt_of target ms AtStarted ''idle-safe connection handoff complete'')"
    and "settle_upgrade pid we2 target ms (upgrade fs1) fs1 = (r, fs2)"
    and "newer_release target current"
  using assms ledger.read_written
  by (auto simp: apply_upgrade_def newer_release_def split: option.splits if_splits prod.splits sum.splits)

text \<open>
  C38: The package manager only ever runs behind the fuse. When it starts, the target is a release
  strictly newer than the running one and the attempt is already durable on disk, so a process
  that dies at any moment from then on finds that target suppressed for the rest of the day; and
  however the attempt ends short of a swapped binary, even when recording the end fails, the same
  holds after it.
\<close>

theorem package_manager_behind_fuse:
  assumes "apply_upgrade pid we1 we2 target current ms upgrade fs = (r, Some fs1, fs2)"
    and "now - unat ms < RETRY_SUPPRESS_MS"
  shows "suppression fs1 now = Some (target, millis (RETRY_SUPPRESS_MS - (now - unat ms)))
     \<and> newer_release target current
     \<and> ((\<exists>f t. r = Inr (Restart f t None))
        \<or> suppression fs2 now = Some (target, millis (RETRY_SUPPRESS_MS - (now - unat ms))))"
proof -
  note ran = apply_ran [OF assms(1)]
  from settle_record [OF ran(2,1)] obtain o1 d where
    r2: "read_attempt fs2 = Some (attempt_of target ms o1 d)"
      "o1 = AtUpgraded \<longrightarrow> (\<exists>f t. r = Inr (Restart f t None))" by blast
  have "suppression fs1 now = Some (target, millis (RETRY_SUPPRESS_MS - (now - unat ms)))"
    using suppression_of_record [OF ran(1)] assms(2) by (simp add: attempt_of_def)
  moreover have "o1 \<noteq> AtUpgraded \<Longrightarrow>
      suppression fs2 now = Some (target, millis (RETRY_SUPPRESS_MS - (now - unat ms)))"
    using suppression_of_record [OF r2(1)] assms(2) by (simp add: attempt_of_def)
  ultimately show ?thesis using ran(3) r2(2) by blast
qed

definition good_env :: write_env where
  "good_env = \<lparr>we_mkdir = True, we_write = True, we_chmod_tmp = True, we_rename = True, we_chmod = True,
     we_unlink = True, we_umask = 420\<rparr>"

lemma sample_triplets [simp]:
  "version_triplet ''0.0.12'' = Some (Version 0 0 12)" "version_triplet ''0.0.11'' = Some (Version 0 0 11)"
proof -
  have t: "version_triplet (show_version (Version 0 0 12)) = Some (Version 0 0 12)"
      "version_triplet (show_version (Version 0 0 11)) = Some (Version 0 0 11)"
    by (intro triplet_parts; simp add: u64_bound_def parse_show_word)+
  have s: "show_version (Version 0 0 12) = ''0.0.12''" "show_version (Version 0 0 11) = ''0.0.11''"
    by (simp_all add: show_version_def show_nat.simps digit_char_def, code_simp+)
  show "version_triplet ''0.0.12'' = Some (Version 0 0 12)" "version_triplet ''0.0.11'' = Some (Version 0 0 11)"
    by (rule t [unfolded s])+
qed

theorem package_manager_behind_fuse_witness:
  "(case apply_upgrade 7 good_env good_env ''0.0.12'' ''0.0.11'' 5000 (\<lambda>fs. Inl ''brew failed'') Map.empty of
      (r, started, fs2) \<Rightarrow> started \<noteq> None
        \<and> suppression fs2 6000 = Some (''0.0.12'', millis (RETRY_SUPPRESS_MS - 1000)))"
proof -
  obtain r started fs2 where a: "apply_upgrade 7 good_env good_env ''0.0.12'' ''0.0.11'' 5000
      (\<lambda>fs. Inl ''brew failed'') Map.empty = (r, started, fs2)"
    by (metis prod_cases3)
  then obtain fs1 where s: "started = Some fs1" and r: "r = Inr (ReconnectAfter AtFailed ''brew failed'')"
    by (auto simp: apply_upgrade_def write_attempt_def atomic_private_write_def good_env_def
        settle_upgrade_def Let_def less_version_def split: prod.splits)
  have "suppression fs2 6000 = Some (''0.0.12'', millis (RETRY_SUPPRESS_MS - 1000))"
    using package_manager_behind_fuse [OF a [unfolded s], of 6000] r by (simp add: RETRY_SUPPRESS_MS_def)
  then show ?thesis using a s by simp
qed

text \<open>
  A target that is not a strictly newer release never reaches the package manager, and unless
  its refusal could not be recorded it is suppressed like a failed attempt.
\<close>

theorem bad_target_never_installed:
  assumes "\<not> newer_release target current"
    and "apply_upgrade pid we1 we2 target current ms upgrade fs = (r, started, fs2)"
    and "now - unat ms < RETRY_SUPPRESS_MS"
  shows "started = None
     \<and> ((\<exists>e. r = Inl e \<and> read_attempt fs2 = read_attempt fs)
        \<or> (\<exists>o1 d. r = Inr (ReconnectAfter o1 d) \<and> o1 \<in> {AtRejected, AtAlreadyCurrent}
             \<and> suppression fs2 now = Some (target, millis (RETRY_SUPPRESS_MS - (now - unat ms)))))"
proof -
  obtain o1 d where a: "refuse_target pid we1 target ms o1 d fs = (r, fs2)" "started = None"
      "o1 \<in> {AtRejected, AtAlreadyCurrent}"
    using assms(1,2)
    by (fastforce simp: apply_upgrade_def newer_release_def split: option.splits prod.splits if_splits)
  from refuse_record [OF a(1)] show ?thesis
    using a(2,3) suppression_of_record [of fs2 "attempt_of target ms o1 d" now] assms(3)
    by (auto simp: attempt_of_def)
qed

theorem bad_target_never_installed_witness:
  "(case apply_upgrade 7 good_env good_env ''0.0.11'' ''0.0.12'' 5000 (\<lambda>fs. Inl ''brew failed'') Map.empty of
      (r, started, fs2) \<Rightarrow> started = None
        \<and> suppression fs2 6000 = Some (''0.0.11'', millis (RETRY_SUPPRESS_MS - 1000)))"
proof -
  have n: "\<not> newer_release ''0.0.11'' ''0.0.12''" by (simp add: newer_release_def less_version_def)
  obtain r started fs2 where a: "apply_upgrade 7 good_env good_env ''0.0.11'' ''0.0.12'' 5000
      (\<lambda>fs. Inl ''brew failed'') Map.empty = (r, started, fs2)"
    by (metis prod_cases3)
  then have "\<exists>o1 d. r = Inr (ReconnectAfter o1 d)"
    by (auto simp: apply_upgrade_def refuse_target_def write_attempt_def atomic_private_write_def good_env_def
        Let_def less_version_def split: prod.splits)
  then show ?thesis
    using bad_target_never_installed [OF n a, of 6000] a by (auto simp: RETRY_SUPPRESS_MS_def)
qed

end
