(* ===== verification/Base64.thy ===== *)
theory Base64
  imports Dr_Base
begin

unbundle bit_operations_syntax

text \<open>
  The base64url decoder of the worker token (\<open>crates/supervisor-core/src/worker_token.rs\<close>,
  \<open>base64url_decode\<close>): the 32-bit accumulator and its bit count as the loop has them. The theorems
  relate it to the numbers the two digit strings stand for. A string is the list of its bytes.
\<close>

section \<open>The decoder\<close>

definition B64_ALPHABET :: string where
  "B64_ALPHABET = ''ABCDEFGHIJKLMNOPQRSTUVWXYZabcdefghijklmnopqrstuvwxyz0123456789-_''"

fun b64_loop :: "u32 \<Rightarrow> nat \<Rightarrow> u8 list \<Rightarrow> string \<Rightarrow> u8 list option" where
  "b64_loop buf bits out [] = Some out"
| "b64_loop buf bits out (b # bs) =
     (if b = CHR ''='' then Some out
      else (case find_index (\<lambda>a. a = b) B64_ALPHABET of
              None \<Rightarrow> None
            | Some v \<Rightarrow>
                (let buf = push_bit 6 buf OR of_nat v; bits = bits + 6
                 in if 8 \<le> bits
                    then b64_loop buf (bits - 8) (out @ [ucast (drop_bit (bits - 8) buf)]) bs
                    else b64_loop buf bits out bs)))"

definition base64url_decode :: "string \<Rightarrow> u8 list option" where
  "base64url_decode s = b64_loop 0 0 [] s"

section \<open>Big-endian digits\<close>

fun digits_be :: "nat \<Rightarrow> nat \<Rightarrow> nat \<Rightarrow> nat list" where
  "digits_be b 0 n = []"
| "digits_be b (Suc k) n = digits_be b k (n div b) @ [n mod b]"

definition val_be :: "nat \<Rightarrow> nat list \<Rightarrow> nat" where
  "val_be b ds = foldl (\<lambda>a d. a * b + d) 0 ds"

lemma val_be_snoc [simp]: "val_be b (ds @ [d]) = val_be b ds * b + d" "val_be b [] = 0"
  by (simp_all add: val_be_def)

lemma length_digits_be [simp]: "length (digits_be b k n) = k"
  by (induction k arbitrary: n) simp_all

lemma digits_be_less: "0 < b \<Longrightarrow> d \<in> set (digits_be b k n) \<Longrightarrow> d < b"
  by (induction k arbitrary: n) auto

lemma val_digits_be: "val_be b (digits_be b k n) = n mod b ^ k"
proof (induction k arbitrary: n)
  case (Suc k)
  have "n mod b ^ Suc k = n mod (b * b ^ k)" by (simp add: mult.commute)
  also have "\<dots> = b * (n div b mod b ^ k) + n mod b" by (rule mod_mult2_eq)
  finally show ?case using Suc by (simp add: mult.commute)
qed simp

lemma digits_be_val: "list_all (\<lambda>d. d < b) ds \<Longrightarrow> digits_be b (length ds) (val_be b ds) = ds"
  by (induction ds rule: rev_induct) simp_all

lemma val_be_less: "list_all (\<lambda>d. d < b) ds \<Longrightarrow> val_be b ds < b ^ length ds"
proof (induction ds rule: rev_induct)
  case (snoc d ds)
  then have "val_be b ds * b + d < Suc (val_be b ds) * b" by simp
  also have "\<dots> \<le> b ^ length ds * b"
    using snoc by (intro mult_le_mono1) simp
  finally show ?case by (simp add: mult.commute)
qed simp

section \<open>What the loop computes\<close>

lemma buf_step:
  assumes "v < 64"
  shows "push_bit 6 (word_of_nat V :: u32) OR word_of_nat v = word_of_nat (V * 64 + v)"
proof -
  have "\<not> bit (word_of_nat v :: u32) n" if "6 \<le> n" for n
  proof -
    have "v < 2 ^ n" using assms power_increasing [OF that, of "2 :: nat"] by simp
    then have "\<not> bit v n" by (simp add: bit_iff_odd)
    then show ?thesis by (simp add: bit_simps)
  qed
  then have "\<not> bit (push_bit 6 (word_of_nat V :: u32)) n \<or> \<not> bit (word_of_nat v :: u32) n" for n
    by (cases "6 \<le> n") (simp_all add: bit_simps)
  then have "push_bit 6 (word_of_nat V :: u32) OR word_of_nat v
      = push_bit 6 (word_of_nat V) + word_of_nat v"
    by (intro disjunctive_add [symmetric]) blast
  then show ?thesis by (simp add: push_bit_eq_mult)
qed

lemma byte_out:
  assumes "k \<le> 24"
  shows "(ucast (drop_bit k (word_of_nat W :: u32)) :: u8) = word_of_nat (W div 2 ^ k mod 256)"
proof -
  have "(ucast (drop_bit k (word_of_nat W :: u32)) :: u8) = word_of_nat (W div 2 ^ k)"
    by (rule bit_word_eqI)
       (use assms in \<open>auto simp: bit_simps drop_bit_eq_div [symmetric] bit_drop_bit_eq\<close>)
  moreover have "(word_of_nat (n mod 256) :: u8) = word_of_nat n" for n
    by (simp add: word_of_nat_eq_iff take_bit_eq_mod)
  ultimately show ?thesis by simp
qed

definition b64_digit :: "char \<Rightarrow> nat option" where
  "b64_digit c = find_index (\<lambda>a. a = c) B64_ALPHABET"

lemma b64_digit_less: "b64_digit c = Some v \<Longrightarrow> v < 64 \<and> B64_ALPHABET ! v = c"
  using find_index_Some [of "\<lambda>a. a = c" B64_ALPHABET v]
  by (simp add: b64_digit_def B64_ALPHABET_def)

definition b64_bytes :: "nat \<Rightarrow> nat \<Rightarrow> u8 list" where
  "b64_bytes bits V = map word_of_nat (digits_be 256 (bits div 8) (V div 2 ^ (bits mod 8)))"

lemma six_more_bits:
  fixes x :: nat
  shows "8 \<le> x mod 8 + 6 \<Longrightarrow> (x + 6) mod 8 = x mod 8 - 2 \<and> (x + 6) div 8 = Suc (x div 8)"
    and "\<not> 8 \<le> x mod 8 + 6 \<Longrightarrow> (x + 6) mod 8 = x mod 8 + 6 \<and> (x + 6) div 8 = x div 8"
  by presburger+

text \<open>A whole digit string: after \<open>n\<close> digits of value \<open>V\<close>, the bytes of the first whole octets.\<close>

lemma b64_loop_value:
  assumes "map b64_digit cs = map Some vs"
  shows "b64_loop (word_of_nat V) (6 * n mod 8) (b64_bytes (6 * n) V) cs
    = Some (b64_bytes (6 * (n + length vs)) (foldl (\<lambda>a v. a * 64 + v) V vs))"
  using assms
proof (induction cs arbitrary: V n vs)
  case Nil
  then show ?case by simp
next
  case (Cons c cs)
  then obtain v vs' where vs: "vs = v # vs'" "b64_digit c = Some v" "map b64_digit cs = map Some vs'"
    by (cases vs) auto
  have v: "v < 64" "B64_ALPHABET ! v = c" using b64_digit_less [OF vs(2)] by auto
  have "CHR ''='' \<notin> set B64_ALPHABET" by (simp add: B64_ALPHABET_def)
  moreover have "length B64_ALPHABET = 64" by (simp add: B64_ALPHABET_def)
  ultimately have c: "c \<noteq> CHR ''=''" using v nth_mem [of v B64_ALPHABET] by auto
  let ?V = "V * 64 + v" and ?bits = "6 * n mod 8"
  have low: "?V div 2 ^ (b + 6) = V div 2 ^ b" for b
  proof -
    have "(2::nat) ^ (b + 6) = 64 * 2 ^ b" by (simp add: power_add)
    then have "?V div 2 ^ (b + 6) = ?V div 64 div 2 ^ b" by (simp only: div_mult2_eq)
    then show ?thesis using v(1) by simp
  qed
  have step: "b64_loop (word_of_nat V) ?bits (b64_bytes (6 * n) V) (c # cs)
      = b64_loop (word_of_nat ?V) (6 * Suc n mod 8) (b64_bytes (6 * Suc n) ?V) cs"
  proof (cases "8 \<le> ?bits + 6")
    case True
    define k where "k = ?bits - 2"
    have b: "?bits = k + 2" using True by (simp add: k_def)
    have m: "6 * Suc n mod 8 = k" "6 * Suc n div 8 = Suc (6 * n div 8)"
      using six_more_bits(1) [OF True] by (simp_all add: k_def add.commute)
    have "(2::nat) ^ (?bits + 6) = 2 ^ k * 256" unfolding b by (simp add: power_add)
    then have "?V div 2 ^ k div 256 = ?V div 2 ^ (?bits + 6)" by (simp only: div_mult2_eq)
    then have hi: "?V div 2 ^ k div 256 = V div 2 ^ ?bits" by (simp only: low)
    have "k \<le> 24" using mod_less_divisor [of 8 "6 * n"] b by linarith
    then have "b64_bytes (6 * n) V @ [ucast (drop_bit k (word_of_nat ?V :: u32))]
        = b64_bytes (6 * Suc n) ?V"
      by (simp only: b64_bytes_def m digits_be.simps hi map_append list.map byte_out)
    then show ?thesis
      using True c vs(2) v(1) b m(1) by (simp add: b64_digit_def Let_def buf_step del: of_nat_add)
  next
    case False
    from six_more_bits(2) [OF this]
    have m: "6 * Suc n mod 8 = ?bits + 6" "6 * Suc n div 8 = 6 * n div 8"
      by (simp_all add: add.commute)
    have "b64_bytes (6 * Suc n) ?V = b64_bytes (6 * n) V"
      by (simp only: b64_bytes_def m low)
    then show ?thesis
      using False c vs(2) v(1) m(1) by (simp add: b64_digit_def Let_def buf_step del: of_nat_add)
  qed
  show ?case unfolding step using Cons.IH [OF vs(3), of ?V "Suc n"] vs(1) by simp
qed

lemma decode_value:
  assumes "map b64_digit cs = map Some vs"
  shows "base64url_decode cs = Some (b64_bytes (6 * length vs) (val_be 64 vs))"
  using b64_loop_value [OF assms, of 0 0]
  by (simp add: base64url_decode_def b64_bytes_def val_be_def)

lemma b64_loop_padding:
  assumes "CHR ''='' \<notin> set cs"
  shows "b64_loop buf bits out (cs @ CHR ''='' # t) = b64_loop buf bits out cs"
  using assms by (induction cs arbitrary: buf bits out) (auto simp: Let_def split: option.split)

lemma b64_loop_bad:
  assumes "c \<in> set cs" and "b64_digit c = None" and "CHR ''='' \<notin> set cs"
  shows "b64_loop buf bits out cs = None"
  using assms
  by (induction cs arbitrary: buf bits out) (auto simp: b64_digit_def Let_def split: option.split)

text \<open>The canonical encoding, without padding: the value filled up with zero bits to whole digits.\<close>

definition base64url_encode :: "u8 list \<Rightarrow> string" where
  "base64url_encode bs =
     (let m = (8 * length bs + 5) div 6
      in map ((!) B64_ALPHABET)
           (digits_be 64 m (val_be 256 (map unat bs) * 2 ^ (6 * m - 8 * length bs))))"

lemma b64_digit_nth: "v < 64 \<Longrightarrow> b64_digit (B64_ALPHABET ! v) = Some v"
proof -
  assume v: "v < 64"
  have "distinct B64_ALPHABET" "length B64_ALPHABET = 64" by (simp_all add: B64_ALPHABET_def)
  then obtain i where i: "b64_digit (B64_ALPHABET ! v) = Some i"
    using find_index_None [of "\<lambda>a. a = B64_ALPHABET ! v" B64_ALPHABET] v
    by (cases "b64_digit (B64_ALPHABET ! v)") (auto simp: b64_digit_def)
  then have "i < 64" "B64_ALPHABET ! i = B64_ALPHABET ! v" using b64_digit_less by auto
  then show ?thesis
    using i v \<open>distinct B64_ALPHABET\<close> \<open>length B64_ALPHABET = 64\<close> by (simp add: nth_eq_iff_index_eq)
qed

lemma decode_encode: "base64url_decode (base64url_encode bs) = Some bs"
proof -
  let ?n = "length bs" and ?ds = "map unat bs"
  define m where "m = (8 * ?n + 5) div 6"
  define p where "p = 6 * m - 8 * ?n"
  define N where "N = val_be 256 ?ds * 2 ^ p"
  let ?vs = "digits_be 64 m N"
  have "8 * ?n \<le> 6 * m \<and> 6 * m < 8 * ?n + 6" unfolding m_def by presburger
  then have m: "6 * m = 8 * ?n + p" "p < 6" unfolding p_def by linarith+
  have "unat (w :: u8) < 2 ^ LENGTH(8)" for w by (rule unsigned_less)
  then have ds: "list_all (\<lambda>d. d < 256) ?ds" by (simp add: list_all_iff)
  have "map b64_digit (map ((!) B64_ALPHABET) ?vs) = map Some ?vs"
    using digits_be_less [of 64] by (auto simp: b64_digit_nth)
  from decode_value [OF this]
  have "base64url_decode (base64url_encode bs) = Some (b64_bytes (6 * m) (N mod 64 ^ m))"
    by (simp add: base64url_encode_def m_def N_def p_def Let_def val_digits_be)
  moreover have "N < 64 ^ m"
  proof -
    have "N < 256 ^ ?n * 2 ^ p"
      unfolding N_def using val_be_less [OF ds] by simp
    also have "\<dots> = 2 ^ (6 * m)" by (simp add: m(1) power_add power_mult)
    also have "\<dots> = 64 ^ m" by (simp add: power_mult)
    finally show ?thesis .
  qed
  moreover have "b64_bytes (6 * m) N = map word_of_nat (digits_be 256 (length ?ds) (val_be 256 ?ds))"
    using m(2) by (simp add: b64_bytes_def m(1) N_def)
  moreover have "map word_of_nat ?ds = bs" by (simp add: o_def)
  ultimately show ?thesis unfolding digits_be_val [OF ds] by simp
qed

lemma alphabet_digit: "c \<in> set B64_ALPHABET \<longleftrightarrow> b64_digit c \<noteq> None"
  using find_index_None [of "\<lambda>a. a = c" B64_ALPHABET] by (auto simp: b64_digit_def)

lemma encode_no_padding: "CHR ''='' \<notin> set (base64url_encode bs)"
proof -
  have "CHR ''='' \<notin> set B64_ALPHABET" "length B64_ALPHABET = 64" by (simp_all add: B64_ALPHABET_def)
  then show ?thesis
    using nth_mem [of _ B64_ALPHABET] digits_be_less [of 64]
    by (fastforce simp: base64url_encode_def Let_def)
qed

lemma decode_digits:
  assumes "CHR ''='' \<notin> set cs"
  shows "base64url_decode cs
        = (if list_all (\<lambda>c. c \<in> set B64_ALPHABET) cs
           then Some (map word_of_nat (digits_be 256 (6 * length cs div 8)
                  (val_be 64 (map (\<lambda>c. the (b64_digit c)) cs) div 2 ^ (6 * length cs mod 8))))
           else None)"
proof (cases "list_all (\<lambda>c. c \<in> set B64_ALPHABET) cs")
  case True
  let ?vs = "map (\<lambda>c. the (b64_digit c)) cs"
  have "map b64_digit cs = map Some ?vs"
    using True by (auto simp: list_all_iff alphabet_digit)
  from decode_value [OF this] True show ?thesis by (simp add: b64_bytes_def)
next
  case False
  then obtain c where "c \<in> set cs" "b64_digit c = None"
    by (auto simp: list_all_iff alphabet_digit)
  then have "base64url_decode cs = None"
    unfolding base64url_decode_def using assms by (rule b64_loop_bad)
  then show ?thesis by (simp only: False if_False)
qed

section \<open>Properties\<close>

text \<open>
  What the token decoder computes. A string of base64url digits decodes to the bytes of the
  big-endian number it denotes, dropping the trailing bits that fill no byte; everything from the
  first padding sign on is ignored; and a byte outside the alphabet before it makes the decoding
  fail. So the decoder inverts the canonical encoding of every byte string.
\<close>

theorem base64url_decode_correct:
  "base64url_decode (base64url_encode bs) = Some bs
   \<and> base64url_decode (base64url_encode bs @ CHR ''='' # t) = Some bs
   \<and> (CHR ''='' \<in> set cs
      \<or> base64url_decode cs
        = (if list_all (\<lambda>c. c \<in> set B64_ALPHABET) cs
           then Some (map word_of_nat (digits_be 256 (6 * length cs div 8)
                  (val_be 64 (map (\<lambda>c. the (b64_digit c)) cs) div 2 ^ (6 * length cs mod 8))))
           else None))"
proof (intro conjI)
  show "base64url_decode (base64url_encode bs @ CHR ''='' # t) = Some bs"
    using decode_encode [of bs] b64_loop_padding [OF encode_no_padding]
    by (simp add: base64url_decode_def)
qed (use decode_encode decode_digits in blast)+

end
