(* ===== verification/Credentials.thy ===== *)
theory Credentials
  imports Protocol Base64
begin

text \<open>
  What a front end checks and reads before it dials: the dispatch URL gate
  (\<open>crates/supervisor-core/src/dispatch_url.rs\<close>), the shape of a worker token
  (\<open>crates/supervisor-core/src/worker_token.rs\<close>), the capability probe
  (\<open>crates/supervisor-core/src/capabilities.rs\<close>), and the CLI's token file and register frame
  (\<open>bins/decent/src/main.rs\<close>). \<open>url::Url::parse\<close> and \<open>serde_json::from_slice\<close> are parameters; what
  the file system answers is an environment record.
\<close>

section \<open>The dispatch URL\<close>

record url_parts =
  up_scheme :: string
  up_host :: "string option"
  up_path :: string

datatype url_error = UrlInvalid string | UrlCleartext string string | UrlScheme string

definition is_local_host :: "string option \<Rightarrow> bool" where
  "is_local_host h = (h \<in> {Some ''localhost'', Some ''127.0.0.1'', Some ''[::1]'', None})"

definition validate_dispatch_url :: "(string \<Rightarrow> string + url_parts) \<Rightarrow> string \<Rightarrow> url_error + unit" where
  "validate_dispatch_url parse url =
     (case parse url of
        Inl e \<Rightarrow> Inl (UrlInvalid e)
      | Inr p \<Rightarrow>
          (if up_scheme p = ''wss'' then Inr ()
           else if up_scheme p = ''ws'' \<and> is_local_host (up_host p) then Inr ()
           else if up_scheme p = ''ws''
           then Inl (UrlCleartext (case up_host p of Some h \<Rightarrow> h | None \<Rightarrow> ''<unknown>'') (up_path p))
           else Inl (UrlScheme (up_scheme p))))"

definition DEFAULT_DISPATCH_WS :: string where
  "DEFAULT_DISPATCH_WS = ''wss://decent-render-dispatch.fly.dev/ws''"

text \<open>
  No token leaves in cleartext. The gate lets a URL through exactly when it parses and its
  scheme is \<open>wss\<close>, or \<open>ws\<close> to this machine; every refusal of a remote \<open>ws\<close> URL names its host.
\<close>

theorem dispatch_url_never_cleartext:
  "(validate_dispatch_url parse url = Inr ()) =
     (\<exists>p. parse url = Inr p
        \<and> (up_scheme p = ''wss''
           \<or> up_scheme p = ''ws'' \<and> up_host p \<in> {Some ''localhost'', Some ''127.0.0.1'', Some ''[::1]'', None}))
   \<and> (validate_dispatch_url parse url = Inl (UrlCleartext h path)) =
     (\<exists>p. parse url = Inr p \<and> up_scheme p = ''ws'' \<and> up_host p = Some h \<and> up_path p = path
        \<and> h \<notin> {''localhost'', ''127.0.0.1'', ''[::1]''})"
  by (auto simp: validate_dispatch_url_def is_local_host_def split: sum.splits option.splits)

section \<open>The token's shape\<close>

datatype token_error =
    WrongParts nat | EmptyPart | TooShort nat | BadChars | BadSegment
  | HeaderNotJson | PayloadNotJson | NoWorkerClaims

definition token_char :: "char \<Rightarrow> bool" where
  "token_char b = (is_ascii_alnum b \<or> b \<in> {CHR ''.'', CHR ''-'', CHR ''_'', CHR ''=''})"

text \<open>\<open>serde_json::Value::get\<close> by key: of a repeated key the last counts.\<close>

definition json_get :: "string \<Rightarrow> json \<Rightarrow> json option" where
  "json_get k j = (case j of JObj kvs \<Rightarrow> map_of (rev kvs) k | _ \<Rightarrow> None)"

definition WORKER_CLAIMS :: "string list" where
  "WORKER_CLAIMS = [''service'', ''tenant'', ''workerId'', ''worker_id'', ''platform'', ''deviceId'']"

definition validate_worker_token_shape :: "(u8 list \<Rightarrow> json option) \<Rightarrow> string \<Rightarrow> token_error + unit" where
  "validate_worker_token_shape from_slice token =
     (let parts = split_on CHR ''.'' token
      in if length parts \<noteq> 3 then Inl (WrongParts (length parts))
         else if list_ex (\<lambda>p. p = []) parts then Inl EmptyPart
         else if length token < 40 then Inl (TooShort (length token))
         else if \<not> list_all token_char token then Inl BadChars
         else
           (case base64url_decode (parts ! 0) of
              None \<Rightarrow> Inl BadSegment
            | Some header \<Rightarrow>
                (case base64url_decode (parts ! 1) of
                   None \<Rightarrow> Inl BadSegment
                 | Some payload \<Rightarrow>
                     (if from_slice header = None then Inl HeaderNotJson
                      else (case from_slice payload of
                              None \<Rightarrow> Inl PayloadNotJson
                            | Some p \<Rightarrow>
                                (if list_ex (\<lambda>k. json_get k p \<noteq> None) WORKER_CLAIMS
                                 then Inr () else Inl NoWorkerClaims))))))"

section \<open>The register frame\<close>

datatype platform_fallback = Unreadable | ClaimAbsent | Unrecognized

definition platform_from_token :: "(u8 list \<Rightarrow> json option) \<Rightarrow> string \<Rightarrow> platform_fallback + platform" where
  "platform_from_token from_slice token =
     (case drop 1 (split_on CHR ''.'' token) of
        [] \<Rightarrow> Inl Unreadable
      | b64 # _ \<Rightarrow>
          (case Option.bind (base64url_decode b64) from_slice of
             None \<Rightarrow> Inl Unreadable
           | Some payload \<Rightarrow>
               (case json_get ''platform'' payload of
                  None \<Rightarrow> Inl ClaimAbsent
                | Some (JStr s) \<Rightarrow>
                    (if s = ''company'' then Inr Company
                     else if s = ''community'' then Inr Community else Inl Unrecognized)
                | Some _ \<Rightarrow> Inl Unrecognized)))"

definition platform_for_register :: "(u8 list \<Rightarrow> json option) \<Rightarrow> string \<Rightarrow> platform" where
  "platform_for_register from_slice token =
     (case platform_from_token from_slice token of Inr p \<Rightarrow> p | Inl _ \<Rightarrow> Company)"


definition gpu_override :: "string option \<Rightarrow> bool option" where
  "gpu_override raw =
     (case raw of None \<Rightarrow> None
      | Some s \<Rightarrow>
          (if trim s \<in> {''1'', ''true'', ''yes''} then Some True
           else if trim s \<in> {''0'', ''false'', ''no''} then Some False else None))"

definition max_concurrent_jobs :: u32 where "max_concurrent_jobs = 1"

text \<open>\<open>/dev/dri\<close>: nothing when it cannot be read; a name that is not UTF-8 is nothing.\<close>

definition has_drm_render_node :: "string option list option \<Rightarrow> bool" where
  "has_drm_render_node dri =
     (case dri of None \<Rightarrow> False
      | Some entries \<Rightarrow>
          list_ex (\<lambda>e. case e of Some name \<Rightarrow> starts_with name ''renderD'' | None \<Rightarrow> False) entries)"

definition detect_gpu :: "target_os \<Rightarrow> string option list option \<Rightarrow> bool" where
  "detect_gpu os dri =
     (case os of MacOs \<Rightarrow> True | LinuxOs \<Rightarrow> has_drm_render_node dri | OtherOs \<Rightarrow> False)"

definition detect_capabilities :: "target_os \<Rightarrow> string \<Rightarrow> string \<Rightarrow> string option
    \<Rightarrow> string option list option \<Rightarrow> capabilities" where
  "detect_capabilities os os_name arch decent_gpu dri =
     \<lparr>cap_gpu = (case gpu_override decent_gpu of Some b \<Rightarrow> b | None \<Rightarrow> detect_gpu os dri),
      cap_max_concurrent_jobs = Some max_concurrent_jobs, cap_os = Some os_name,
      cap_arch = Some arch\<rparr>"

definition build_register :: "(u8 list \<Rightarrow> json option) \<Rightarrow> string \<Rightarrow> string \<Rightarrow> u32 \<Rightarrow> capabilities
    \<Rightarrow> string \<Rightarrow> register_message" where
  "build_register from_slice version chip ram caps token =
     \<lparr>reg_tenant = [], reg_protocol_version = PROTOCOL_VERSION, reg_operator = None,
      reg_platform = platform_for_register from_slice token, reg_chip = chip, reg_ram_gb = ram,
      reg_supervisor_version = version, reg_payload_version = ''none'', reg_capabilities = caps\<rparr>"

text \<open>
  What the token check promises: it accepts a token exactly when that has at least forty bytes,
  all of the token alphabet, in three non-empty parts, header and payload decode to JSON, and the
  payload has a worker claim. The register frame of an accepted token then never falls back for an
  unreadable token, only for a missing or an unknown platform claim.
\<close>

theorem token_shape_sound:
  "(validate_worker_token_shape from_slice token = Inr ()) =
     (40 \<le> length token \<and> list_all token_char token
      \<and> (\<exists>h p s hb pb j. split_on CHR ''.'' token = [h, p, s] \<and> [] \<notin> {h, p, s}
           \<and> base64url_decode h = Some hb \<and> base64url_decode p = Some pb
           \<and> from_slice hb \<noteq> None \<and> from_slice pb = Some j
           \<and> (\<exists>k\<in>set WORKER_CLAIMS. json_get k j \<noteq> None)
           \<and> platform_from_token from_slice token \<noteq> Inl Unreadable))" (is "?l = ?r")
proof
  let ?parts = "split_on CHR ''.'' token"
  assume ok: "validate_worker_token_shape from_slice token = Inr ()"
  then have "length ?parts = 3"
    by (simp add: validate_worker_token_shape_def Let_def split: if_splits)
  then obtain h p s where parts: "?parts = [h, p, s]"
    by (auto simp: numeral_3_eq_3 length_Suc_conv)
  obtain hb pb j where d: "base64url_decode h = Some hb" "base64url_decode p = Some pb"
      "from_slice hb \<noteq> None" "from_slice pb = Some j"
      "list_ex (\<lambda>k. json_get k j \<noteq> None) WORKER_CLAIMS"
    using ok
    by (auto simp: validate_worker_token_shape_def Let_def parts split: if_splits option.splits)
  have c: "40 \<le> length token" "list_all token_char token" "[] \<notin> {h, p, s}"
    using ok
    by (auto simp: validate_worker_token_shape_def Let_def parts split: if_splits)
  have "platform_from_token from_slice token \<noteq> Inl Unreadable"
    using d(2,4) by (simp add: platform_from_token_def parts split: option.splits json.splits)
  then show "40 \<le> length token \<and> list_all token_char token
      \<and> (\<exists>h p s hb pb j. ?parts = [h, p, s] \<and> [] \<notin> {h, p, s}
           \<and> base64url_decode h = Some hb \<and> base64url_decode p = Some pb
           \<and> from_slice hb \<noteq> None \<and> from_slice pb = Some j
           \<and> (\<exists>k\<in>set WORKER_CLAIMS. json_get k j \<noteq> None)
           \<and> platform_from_token from_slice token \<noteq> Inl Unreadable)"
    using c d parts by (auto simp: list_ex_iff)
next
  assume ?r
  then obtain h p s hb pb j k where "40 \<le> length token" "list_all token_char token"
      "split_on CHR ''.'' token = [h, p, s]" "[] \<notin> {h, p, s}"
      "base64url_decode h = Some hb" "base64url_decode p = Some pb" "from_slice hb \<noteq> None"
      "from_slice pb = Some j" "k \<in> set WORKER_CLAIMS" "json_get k j \<noteq> None" by blast
  moreover from this have "list_ex (\<lambda>k. json_get k j \<noteq> None) WORKER_CLAIMS"
    unfolding list_ex_iff by blast
  ultimately show ?l by (auto simp: validate_worker_token_shape_def Let_def)
qed

text \<open>
  A node claims no hardware it has not shown and no concurrency its session does not honour: it
  says it has a GPU exactly when the operator said so, or said nothing it understands and it runs
  macOS or is a Linux machine with a DRM render node; and it always declares one job.
\<close>

theorem capability_claims_justified:
  "cap_max_concurrent_jobs (detect_capabilities os os_name arch raw dri) = Some 1
   \<and> cap_gpu (detect_capabilities os os_name arch raw dri) =
     (gpu_override raw = Some True
      \<or> gpu_override raw = None
        \<and> (os = MacOs
           \<or> os = LinuxOs \<and> (\<exists>es name. dri = Some es \<and> Some (''renderD'' @ name) \<in> set es)))"
proof -
  have "has_drm_render_node dri = (\<exists>es name. dri = Some es \<and> Some (''renderD'' @ name) \<in> set es)"
    by (fastforce simp: has_drm_render_node_def starts_with_prefix prefix_def list_ex_iff
        split: option.splits)
  then show ?thesis
    by (cases os) (auto simp: detect_capabilities_def max_concurrent_jobs_def detect_gpu_def
        split: option.splits)
qed

section \<open>The token file\<close>

text \<open>A file is its content and its mode; paths are strings. \<open>te_umask\<close> is the mode of a new file.\<close>

type_synonym files = "string \<Rightarrow> (string \<times> nat) option"

record token_env =
  tk_home :: "string option"
  tk_mkdir :: bool
  tk_copy :: bool
  tk_chmod :: bool
  tk_write :: bool
  tk_umask :: nat

definition new_token_path :: "string \<Rightarrow> string" where
  "new_token_path home = home @ ''/.config/decent/worker-token''"

definition old_token_path :: "string \<Rightarrow> string" where
  "old_token_path home = home @ ''/.config/decent-node/worker-token''"

definition set_owner_only :: "bool \<Rightarrow> nat \<Rightarrow> string \<Rightarrow> files \<Rightarrow> files" where
  "set_owner_only ok mode path fs =
     (if ok then fs(path := map_option (\<lambda>(c, m). (c, mode)) (fs path)) else fs)"

definition token_path :: "token_env \<Rightarrow> files \<Rightarrow> (string + string) \<times> files" where
  "token_path env fs =
     (case tk_home env of
        None \<Rightarrow> (Inl ''HOME is not set; cannot locate token file'', fs)
      | Some home \<Rightarrow>
          (let new = new_token_path home
           in case fs (old_token_path home) of
                Some (content, mode) \<Rightarrow>
                  (if fs new \<noteq> None then (Inr new, fs)
                   else if \<not> tk_mkdir env then (Inr new, fs)
                   else if tk_copy env
                   then (Inr new, set_owner_only (tk_chmod env) 384 new (fs(new \<mapsto> (content, mode))))
                   else (Inr new, fs))
              | None \<Rightarrow> (Inr new, fs)))"

definition load_token :: "token_env \<Rightarrow> files \<Rightarrow> string \<times> files" where
  "load_token env fs =
     (case token_path env fs of
        (Inl e, fs') \<Rightarrow> ([], fs')
      | (Inr path, fs') \<Rightarrow> (trim (case fs' path of Some (c, m) \<Rightarrow> c | None \<Rightarrow> []), fs'))"

definition save_token :: "token_env \<Rightarrow> string \<Rightarrow> files \<Rightarrow> (string + unit) \<times> files" where
  "save_token env token fs =
     (case token_path env fs of
        (Inl e, fs') \<Rightarrow> (Inl e, fs')
      | (Inr path, fs') \<Rightarrow>
          (if \<not> tk_mkdir env then (Inl ''create_dir_all'', fs')
           else if \<not> tk_write env then (Inl ''write'', fs')
           else (Inr (), set_owner_only (tk_chmod env) 384 path
                   (fs'(path \<mapsto> (token @ [CHR 0x0A],
                      (case fs' path of Some (c, m) \<Rightarrow> m | None \<Rightarrow> tk_umask env)))))))"

definition resolve_token :: "string option \<Rightarrow> token_env \<Rightarrow> files \<Rightarrow> (string + string) \<times> files" where
  "resolve_token given env fs =
     (let (token, fs') = (case given of
            Some t \<Rightarrow> if trim t \<noteq> [] then (trim t, fs) else load_token env fs
          | None \<Rightarrow> load_token env fs)
      in if token = [] then (Inl ''No worker token.'', fs') else (Inr token, fs'))"

text \<open>
  A saved token is the token the next start uses. After \<open>save_token\<close> succeeded, a start without
  a token of its own resolves to the saved one, trimmed, whatever older file is still around, and
  the file is owner-only if its mode could be set at all; a token given explicitly wins.
\<close>

theorem saved_token_is_resolved:
  assumes "save_token env token fs = (Inr (), fs')" and "trim token \<noteq> []"
  shows "resolve_token None env fs' = (Inr (trim token), fs')
     \<and> (\<exists>path mode. token_path env fs' = (Inr path, fs') \<and> fs' path = Some (token @ [CHR 0x0A], mode)
          \<and> (if tk_chmod env then mode = 384 else True))
     \<and> (if trim t = [] then True else resolve_token (Some t) env fs' = (Inr (trim t), fs'))"
proof -
  obtain home where h: "tk_home env = Some home"
    using assms(1) by (cases "tk_home env") (auto simp: save_token_def token_path_def)
  let ?p = "new_token_path home"
  have ne: "old_token_path home \<noteq> ?p" by (simp add: old_token_path_def new_token_path_def)
  obtain mode where f: "fs' ?p = Some (token @ [CHR 0x0A], mode)" "tk_chmod env \<Longrightarrow> mode = 384"
    using assms(1) h
    by (cases "token_path env fs")
       (auto simp: save_token_def token_path_def set_owner_only_def Let_def split: if_splits
         option.splits prod.splits)
  then have p: "token_path env fs' = (Inr ?p, fs')"
    using h by (auto simp: token_path_def Let_def split: option.splits)
  then have "load_token env fs' = (trim token, fs')" using f by (simp add: load_token_def trim_line)
  then show ?thesis using p f assms(2) by (simp add: resolve_token_def)
qed

definition sample_token_env :: token_env where
  "sample_token_env = \<lparr>tk_home = Some ''/h'', tk_mkdir = True, tk_copy = True, tk_chmod = True,
     tk_write = True, tk_umask = 420\<rparr>"

definition old_token_files :: files where
  "old_token_files = [''/h/.config/decent-node/worker-token'' \<mapsto> (''old'', 420)]"

theorem saved_token_is_resolved_witness:
  "fst (resolve_token None sample_token_env (snd (save_token sample_token_env ''tok'' old_token_files)))
     = Inr ''tok''"
proof -
  have w: "list_all (\<lambda>c. \<not> is_ws c) ''tok''" by (simp add: is_ws_def)
  then have t: "trim ''tok'' = ''tok''" by (intro trim_no_ws) (simp only: list_all_iff)
  have "save_token sample_token_env ''tok'' old_token_files
      = (Inr (), snd (save_token sample_token_env ''tok'' old_token_files))"
    by (simp add: save_token_def sample_token_env_def token_path_def Let_def old_token_files_def
        new_token_path_def old_token_path_def)
  from saved_token_is_resolved [OF this] show ?thesis by (simp add: t)
qed

end
