(* ===== verification/Service_Unit.thy ===== *)
theory Service_Unit
  imports Dr_Base
begin

text \<open>
  The unit files of the daemon (\<open>bins/decent/src/service.rs\<close>): the quoting of the systemd \<open>ExecStart\<close>
  line and the unit around it, the XML escaping of the launchd property list, and the exact match
  of a label in \<open>launchctl list\<close>. The readers at the end of each part (\<open>read_exec_args\<close>,
  \<open>read_strings\<close>) are references: they spell out the rules the comments of the code state for the
  other side, and model no code.
\<close>

record service_spec =
  sp_exe :: string
  sp_dispatch_url :: string
  sp_log_path :: string

section \<open>The systemd unit\<close>

definition quote_char :: "char \<Rightarrow> string" where
  "quote_char c =
     (if c = CHR 0x5C \<or> c = CHR 0x22 then [CHR 0x5C, c]
      else if c = CHR ''%'' then ''%%'' else [c])"

definition quote_exec_arg :: "string \<Rightarrow> string" where
  "quote_exec_arg arg = CHR 0x22 # concat (map quote_char arg) @ [CHR 0x22]"

definition exec_start_line :: "string \<Rightarrow> string \<Rightarrow> string" where
  "exec_start_line exe dispatch_url =
     ''ExecStart='' @ quote_exec_arg exe @ '' '' @ quote_exec_arg ''start'' @ '' ''
       @ quote_exec_arg ''--dispatch-url'' @ '' '' @ quote_exec_arg dispatch_url @ '' ''
       @ quote_exec_arg ''--allow-real-jobs''"

abbreviation nl :: string where "nl \<equiv> [CHR 0x0A]"

definition unit_lines :: "service_spec \<Rightarrow> string list" where
  "unit_lines spec =
     [''[Unit]'',
      ''Description=Decent render network node supervisor'',
      ''Documentation=https://github.com/decent-render/decent-render'',
      ''After=network-online.target'',
      ''Wants=network-online.target'',
      '''',
      ''[Service]'',
      ''Type=simple'',
      exec_start_line (sp_exe spec) (sp_dispatch_url spec),
      ''Restart=always'',
      ''RestartSec=10'',
      ''TimeoutStopSec=30'',
      ''Environment=RUST_LOG=info'',
      ''StandardOutput=append:'' @ sp_log_path spec,
      ''StandardError=append:'' @ sp_log_path spec,
      '''',
      ''[Install]'',
      ''WantedBy=default.target'']"

definition build_unit :: "service_spec \<Rightarrow> string" where
  "build_unit spec = concat (map (\<lambda>l. l @ nl) (unit_lines spec))"

text \<open>
  The reference reader of such a line, after \<open>systemd.syntax\<close> as the code cites it: words between
  double quotes, separated by one space; a backslash takes the next character as it is, a doubled
  percent sign is one, a single one would be a specifier and is refused.
\<close>

fun read_quoted :: "string \<Rightarrow> string \<Rightarrow> (string \<times> string) option" where
  "read_quoted acc (c # s) =
     (if c = CHR 0x22 then Some (rev acc, s)
      else if c = CHR 0x5C then (case s of d # s' \<Rightarrow> read_quoted (d # acc) s' | [] \<Rightarrow> None)
      else if c = CHR ''%'' then (case s of d # s' \<Rightarrow> if d = CHR ''%'' then read_quoted (d # acc) s' else None
                                        | [] \<Rightarrow> None)
      else read_quoted (c # acc) s)"
| "read_quoted acc [] = None"

fun read_words :: "nat \<Rightarrow> string \<Rightarrow> string list option" where
  "read_words 0 s = None"
| "read_words (Suc fuel) s =
     (case s of
        [] \<Rightarrow> None
      | c # s' \<Rightarrow>
          if c \<noteq> CHR 0x22 then None
          else (case read_quoted [] s' of
                  None \<Rightarrow> None
                | Some (w, []) \<Rightarrow> Some [w]
                | Some (w, d # r) \<Rightarrow>
                    if d = CHR '' '' then map_option (\<lambda>ws. w # ws) (read_words fuel r) else None))"

definition read_exec_args :: "string \<Rightarrow> string list option" where
  "read_exec_args l = read_words (length l) (drop (length ''ExecStart='') l)"

lemma read_quoted_chars:
  "read_quoted acc (concat (map quote_char w) @ CHR 0x22 # s) = Some (rev acc @ w, s)"
  by (induction w arbitrary: acc) (auto simp: quote_char_def)

lemma read_words_quoted:
  "read_words (Suc fuel) (quote_exec_arg w) = Some [w]"
  "read_words (Suc fuel) (quote_exec_arg w @ CHR '' '' # r) = map_option (\<lambda>ws. w # ws) (read_words fuel r)"
  using read_quoted_chars [of "[]" w "[]"] read_quoted_chars [of "[]" w "CHR '' '' # r"]
  by (simp_all add: quote_exec_arg_def)

lemma exec_line_args:
  "read_exec_args (exec_start_line exe url) = Some [exe, ''start'', ''--dispatch-url'', url, ''--allow-real-jobs'']"
proof -
  let ?rest = "quote_exec_arg exe @ CHR '' '' # quote_exec_arg ''start'' @ CHR '' ''
      # quote_exec_arg ''--dispatch-url'' @ CHR '' '' # quote_exec_arg url @ CHR '' ''
      # quote_exec_arg ''--allow-real-jobs''"
  have l: "exec_start_line exe url = ''ExecStart='' @ ?rest" by (simp add: exec_start_line_def)
  have d: "drop (length ''ExecStart='') (''ExecStart='' @ ?rest) = ?rest" by (rule append_eq_conv_conj [THEN iffD1, THEN conjunct2, symmetric]) (rule refl)
  have "\<exists>n. length (exec_start_line exe url) = Suc (Suc (Suc (Suc (Suc n))))"
    by (simp add: l)
  then obtain n where n: "length (exec_start_line exe url) = Suc (Suc (Suc (Suc (Suc n))))" ..
  show ?thesis
    unfolding read_exec_args_def n unfolding l d by (simp add: read_words_quoted del: read_words.simps)
qed

definition one_line :: "string \<Rightarrow> bool" where
  "one_line s = (CHR 0x0A \<notin> set s \<and> CHR 0x0D \<notin> set s)"

lemma one_line_end: "one_line l \<Longrightarrow> CHR 0x0A \<notin> set l \<and> (l = [] \<or> last l \<noteq> CHR 0x0D)"
  unfolding one_line_def by (metis last_in_set)

lemma lines_of_text: "list_all one_line ls \<Longrightarrow> lines_of (concat (map (\<lambda>l. l @ nl) ls)) = ls"
proof (induction ls)
  case (Cons l ls)
  have "lines_of (l @ CHR 0x0A # concat (map (\<lambda>l. l @ nl) ls)) = l # lines_of (concat (map (\<lambda>l. l @ nl) ls))"
    by (rule lines_of_line) (use Cons.prems one_line_end in auto)
  then show ?case using Cons by simp
qed simp

lemma one_line_quote: "one_line w \<Longrightarrow> one_line (quote_exec_arg w)"
  by (auto simp: one_line_def quote_exec_arg_def quote_char_def)

lemma one_line_simps [simp]:
  "one_line []" "one_line (c # s) \<longleftrightarrow> c \<noteq> CHR 0x0A \<and> c \<noteq> CHR 0x0D \<and> one_line s"
  "one_line (u @ v) \<longleftrightarrow> one_line u \<and> one_line v"
  by (auto simp: one_line_def)



text \<open>A line feed is not quoted: what follows it in a dispatch URL is a line of the unit of its own.\<close>

theorem unit_line_injection:
  "''ExecStartPre=/bin/x\" \"--allow-real-jobs\"''
     \<in> set (lines_of (build_unit \<lparr>sp_exe = ''/decent'', sp_dispatch_url = ''wss://h'' @ nl @ ''ExecStartPre=/bin/x'',
         sp_log_path = ''/l''\<rparr>))"
proof -
  let ?spec = "\<lparr>sp_exe = ''/decent'', sp_dispatch_url = ''wss://h'' @ nl @ ''ExecStartPre=/bin/x'', sp_log_path = ''/l''\<rparr>"
  let ?pre = "take 8 (unit_lines ?spec) @ [''ExecStart=\"/decent\" \"start\" \"--dispatch-url\" \"wss://h'',
      ''ExecStartPre=/bin/x\" \"--allow-real-jobs\"''] @ drop 9 (unit_lines ?spec)"
  have "build_unit ?spec = concat (map (\<lambda>l. l @ nl) ?pre)"
    by (simp add: build_unit_def unit_lines_def exec_start_line_def quote_exec_arg_def quote_char_def)
  moreover have "list_all one_line ?pre" by (simp add: unit_lines_def)
  ultimately have "lines_of (build_unit ?spec) = ?pre" by (simp only: lines_of_text)
  then show ?thesis by simp
qed

section \<open>The launchd property list\<close>

definition LABEL :: string where "LABEL = ''com.decent-render.decent''"
definition LEGACY_LABEL :: string where "LEGACY_LABEL = ''com.decent-render.decent-node''"

text \<open>\<open>str::replace\<close> of a one-character pattern.\<close>

definition replace_char :: "char \<Rightarrow> string \<Rightarrow> string \<Rightarrow> string" where
  "replace_char c r s = concat (map (\<lambda>x. if x = c then r else [x]) s)"

definition xml_escape :: "string \<Rightarrow> string" where
  "xml_escape s = replace_char CHR ''>'' ''&gt;'' (replace_char CHR ''<'' ''&lt;''
     (replace_char CHR ''&'' ''&amp;'' s))"

definition string_line :: "string \<Rightarrow> string" where
  "string_line arg = ''        <string>'' @ xml_escape arg @ ''</string>'' @ nl"

definition plist_head :: string where
  "plist_head = concat (map (\<lambda>l. l @ nl)
     [''<?xml version=\"1.0\" encoding=\"UTF-8\"?>'',
      ''<!DOCTYPE plist PUBLIC \"-//Apple//DTD PLIST 1.0//EN\" \"http://www.apple.com/DTDs/PropertyList-1.0.dtd\">'',
      ''<plist version=\"1.0\">'',
      ''<dict>'',
      ''    <key>Label</key>'',
      ''    <string>'' @ LABEL @ ''</string>'',
      ''    <key>ProgramArguments</key>'',
      ''    <array>''])"

definition plist_tail :: "string \<Rightarrow> string" where
  "plist_tail log = concat (map (\<lambda>l. l @ nl)
     [''    </array>'',
      ''    <key>RunAtLoad</key>'',
      ''    <true/>'',
      ''    <key>KeepAlive</key>'',
      ''    <true/>'',
      ''    <key>ExitTimeOut</key>'',
      ''    <integer>30</integer>'',
      ''    <key>StandardOutPath</key>'',
      ''    <string>'' @ log @ ''</string>'',
      ''    <key>StandardErrorPath</key>'',
      ''    <string>'' @ log @ ''</string>'',
      ''    <key>EnvironmentVariables</key>'',
      ''    <dict>'',
      ''        <key>RUST_LOG</key>'',
      ''        <string>info</string>'',
      ''    </dict>'',
      ''</dict>'',
      ''</plist>''])"

definition build_plist :: "service_spec \<Rightarrow> string" where
  "build_plist spec =
     plist_head
       @ concat (map string_line [sp_exe spec, ''start'', ''--dispatch-url'', sp_dispatch_url spec,
           ''--allow-real-jobs''])
       @ plist_tail (xml_escape (sp_log_path spec))"

text \<open>The reference reader of the texts of its \<open>string\<close> elements.\<close>

function xml_unescape :: "string \<Rightarrow> string" where
  "xml_unescape s =
     (case s of
        [] \<Rightarrow> []
      | c # s' \<Rightarrow>
          if starts_with s ''&amp;'' then CHR ''&'' # xml_unescape (drop 5 s)
          else if starts_with s ''&lt;'' then CHR ''<'' # xml_unescape (drop 4 s)
          else if starts_with s ''&gt;'' then CHR ''>'' # xml_unescape (drop 4 s)
          else c # xml_unescape s')"
  by pat_completeness auto
termination by (relation "measure length") auto

declare xml_unescape.simps [simp del]

definition element_text :: "string \<Rightarrow> string option" where
  "element_text p = (if starts_with p ''string>'' then Some (xml_unescape (drop 7 p)) else None)"

definition string_texts :: "string \<Rightarrow> string list" where
  "string_texts s = List.map_filter element_text (tl (split_on CHR ''<'' s))"

lemma escape_chars: "xml_escape s = concat (map (\<lambda>x. if x = CHR ''&'' then ''&amp;''
    else if x = CHR ''<'' then ''&lt;'' else if x = CHR ''>'' then ''&gt;'' else [x]) s)"
  by (induction s) (auto simp: xml_escape_def replace_char_def)

lemma escape_no_lt: "CHR ''<'' \<notin> set (xml_escape s)"
  by (auto simp: escape_chars)

lemma unescape_char:
  "x \<noteq> CHR ''&'' \<Longrightarrow> xml_unescape (x # t) = x # xml_unescape t"
  "xml_unescape (''&amp;'' @ t) = CHR ''&'' # xml_unescape t"
  "xml_unescape (''&lt;'' @ t) = CHR ''<'' # xml_unescape t"
  "xml_unescape (''&gt;'' @ t) = CHR ''>'' # xml_unescape t"
  by (simp_all add: xml_unescape.simps [of "_ # _"] starts_with_def)

lemma unescape_escape [simp]: "xml_unescape (xml_escape s) = s"
proof (induction s)
  case Nil
  then show ?case by (simp add: escape_chars xml_unescape.simps)
next
  case (Cons x s)
  have "xml_escape (x # s) = (if x = CHR ''&'' then ''&amp;'' else if x = CHR ''<'' then ''&lt;''
      else if x = CHR ''>'' then ''&gt;'' else [x]) @ xml_escape s"
    by (simp add: escape_chars)
  then show ?case using Cons by (simp add: unescape_char [simplified])
qed

text \<open>A line whose last tag is no \<open>string\<close> tag, so that what follows it is read on its own.\<close>

definition closed_line :: "string \<Rightarrow> bool" where
  "closed_line l =
     (case rev (split_on CHR ''<'' l) of (x # xs) # p # ps \<Rightarrow> x \<noteq> CHR ''s'' | _ \<Rightarrow> False)"

lemma texts_line:
  assumes "closed_line l"
  shows "string_texts (l @ nl @ t) = string_texts l @ string_texts t"
proof -
  from assms obtain x xs p ps where r: "rev (split_on CHR ''<'' l) = (x # xs) # p # ps" and x: "x \<noteq> CHR ''s''"
    by (auto simp: closed_line_def split: list.splits)
  then have sp: "split_on CHR ''<'' l = rev (p # ps) @ [x # xs]"
    by (metis rev.simps(2) rev_rev_ident)
  then obtain a as where a: "rev (p # ps) = a # as" by (cases "rev (p # ps)") auto
  have sp': "split_on CHR ''<'' l = a # as @ [x # xs]" unfolding sp a by simp
  have no: "element_text (x # w) = None" for w using x by (simp add: element_text_def starts_with_def)
  have "split_on CHR ''<'' (l @ nl @ t)
      = a # as @ ((x # xs) @ hd (split_on CHR ''<'' (nl @ t))) # tl (split_on CHR ''<'' (nl @ t))"
    unfolding split_on_append [of _ l] sp' by simp
  moreover have "tl (split_on CHR ''<'' (nl @ t)) = tl (split_on CHR ''<'' t)"
    by (cases "split_on CHR ''<'' t") auto
  ultimately show ?thesis
    by (simp add: string_texts_def sp' no List.map_filter_def)
qed

lemma string_texts_Nil [simp]: "string_texts [] = []"
  by (simp add: string_texts_def List.map_filter_simps)

lemma texts_lines:
  "list_all closed_line ls \<Longrightarrow> string_texts (concat (map (\<lambda>l. l @ nl) ls)) = concat (map string_texts ls)"
  by (induction ls) (simp_all add: texts_line [simplified])

lemma string_line_texts:
  "closed_line (sp @ ''<string>'' @ xml_escape w @ ''</string>'')"
  "CHR ''<'' \<notin> set sp \<Longrightarrow> string_texts (sp @ ''<string>'' @ xml_escape w @ ''</string>'') = [w]"
proof -
  have s: "split_on CHR ''<'' (sp @ CHR ''<'' # (''string>'' @ xml_escape w) @ CHR ''<'' # ''/string>'')
      = split_on CHR ''<'' sp @ [''string>'' @ xml_escape w, ''/string>'']"
    using escape_no_lt by (simp only: split_on_append_sep) (simp add: split_on_no_sep)
  show "closed_line (sp @ ''<string>'' @ xml_escape w @ ''</string>'')"
    using s by (simp add: closed_line_def)
  show "string_texts (sp @ ''<string>'' @ xml_escape w @ ''</string>'') = [w]" if "CHR ''<'' \<notin> set sp"
    using s that by (simp add: string_texts_def split_on_no_sep List.map_filter_def element_text_def starts_with_def)
qed

definition plist_lines :: "service_spec \<Rightarrow> string list" where
  "plist_lines spec =
     [''<?xml version=\"1.0\" encoding=\"UTF-8\"?>'',
      ''<!DOCTYPE plist PUBLIC \"-//Apple//DTD PLIST 1.0//EN\" \"http://www.apple.com/DTDs/PropertyList-1.0.dtd\">'',
      ''<plist version=\"1.0\">'', ''<dict>'', ''    <key>Label</key>'',
      ''    <string>'' @ xml_escape LABEL @ ''</string>'', ''    <key>ProgramArguments</key>'', ''    <array>'']
     @ map (\<lambda>w. ''        <string>'' @ xml_escape w @ ''</string>'')
         [sp_exe spec, ''start'', ''--dispatch-url'', sp_dispatch_url spec, ''--allow-real-jobs'']
     @ [''    </array>'', ''    <key>RunAtLoad</key>'', ''    <true/>'', ''    <key>KeepAlive</key>'',
      ''    <true/>'', ''    <key>ExitTimeOut</key>'', ''    <integer>30</integer>'',
      ''    <key>StandardOutPath</key>'', ''    <string>'' @ xml_escape (sp_log_path spec) @ ''</string>'',
      ''    <key>StandardErrorPath</key>'', ''    <string>'' @ xml_escape (sp_log_path spec) @ ''</string>'',
      ''    <key>EnvironmentVariables</key>'', ''    <dict>'', ''        <key>RUST_LOG</key>'',
      ''        <string>'' @ xml_escape ''info'' @ ''</string>'', ''    </dict>'', ''</dict>'', ''</plist>'']"

lemma plist_as_lines: "build_plist spec = concat (map (\<lambda>l. l @ nl) (plist_lines spec))"
proof -
  have "xml_escape LABEL = LABEL" "xml_escape ''info'' = ''info''"
    by (simp_all add: LABEL_def escape_chars)
  then show ?thesis
    by (simp add: build_plist_def plist_lines_def plist_head_def plist_tail_def string_line_def)
qed

text \<open>
  C32: The property list starts the node and nothing else. Whatever characters the executable, the
  dispatch URL and the log path hold, ampersands and angle brackets included, the texts of its
  \<open>string\<close> elements read back in order as the label, the five arguments, the log path twice and the
  log level.
\<close>

theorem plist_starts_the_node:
  "string_texts (build_plist spec) =
     [LABEL, sp_exe spec, ''start'', ''--dispatch-url'', sp_dispatch_url spec, ''--allow-real-jobs'',
      sp_log_path spec, sp_log_path spec, ''info'']"
proof -
  note str = string_line_texts [of "''    ''", simplified] string_line_texts [of "''        ''", simplified]
  have c: "list_all closed_line (plist_lines spec)"
    by (simp add: plist_lines_def str) (simp add: closed_line_def)
  show ?thesis
    unfolding plist_as_lines texts_lines [OF c]
    by (simp add: plist_lines_def str)
       (simp add: string_texts_def List.map_filter_def element_text_def starts_with_def)
qed

section \<open>Labels in \<open>launchctl list\<close>\<close>

definition label_is_loaded :: "string \<Rightarrow> string \<Rightarrow> bool" where
  "label_is_loaded out label =
     list_ex (\<lambda>line. trim (last (split_on CHR 0x09 line)) = label) (lines_of out)"

definition is_loaded :: "string \<Rightarrow> bool" where
  "is_loaded out = (label_is_loaded out LABEL \<or> label_is_loaded out LEGACY_LABEL)"

definition legacy_is_loaded :: "string \<Rightarrow> bool" where
  "legacy_is_loaded out = (label_is_loaded out LEGACY_LABEL \<and> \<not> label_is_loaded out LABEL)"

text \<open>A row of the listing: pid, status and label, separated by tabs.\<close>

definition launchctl_row :: "string \<times> string \<times> string \<Rightarrow> string" where
  "launchctl_row r = (case r of (pid, status, label) \<Rightarrow> pid @ CHR 0x09 # status @ CHR 0x09 # label)"

definition row_ok :: "string \<times> string \<times> string \<Rightarrow> bool" where
  "row_ok r = (case r of (pid, status, label) \<Rightarrow> one_line pid \<and> one_line status
     \<and> list_all (\<lambda>c. \<not> is_ws c) label)"

lemma row_label:
  assumes "row_ok r"
  shows "trim (last (split_on CHR 0x09 (launchctl_row r))) = snd (snd r)" and "one_line (launchctl_row r)"
proof -
  obtain pid status label where r: "r = (pid, status, label)" by (cases r)
  have ws: "\<forall>c\<in>set label. \<not> is_ws c" using assms r by (simp add: row_ok_def list_all_iff)
  have "is_ws CHR 0x09" "is_ws CHR 0x0A" "is_ws CHR 0x0D" by (simp_all add: is_ws_def)
  then have no: "CHR 0x09 \<notin> set label" "one_line label" using ws by (auto simp: one_line_def)
  have "last (split_on CHR 0x09 ((pid @ CHR 0x09 # status) @ CHR 0x09 # label)) = label"
    by (simp only: split_on_append_sep split_on_no_sep [OF no(1)]) simp
  then show "trim (last (split_on CHR 0x09 (launchctl_row r))) = snd (snd r)"
    using trim_no_ws [OF ws] by (simp add: launchctl_row_def r)
  show "one_line (launchctl_row r)" using assms no(2) by (simp add: launchctl_row_def r row_ok_def)
qed

text \<open>
  A label is loaded exactly when a row carries it. On a listing of rows whose labels hold no
  white space, \<open>label_is_loaded\<close> is membership of the label among the rows, so an agent whose label
  extends another's, as the legacy one does, is never taken for it; the pre-rename agent is
  reported exactly when it is there and the new one is not.
\<close>

theorem label_loaded_exact:
  assumes "list_all row_ok rows"
  shows "label_is_loaded (concat (map (\<lambda>r. launchctl_row r @ nl) rows)) l = (l \<in> (snd \<circ> snd) ` set rows)
     \<and> legacy_is_loaded (concat (map (\<lambda>r. launchctl_row r @ nl) rows))
         = (LEGACY_LABEL \<in> (snd \<circ> snd) ` set rows \<and> LABEL \<notin> (snd \<circ> snd) ` set rows)"
proof -
  have "lines_of (concat (map (\<lambda>l. l @ nl) (map launchctl_row rows))) = map launchctl_row rows"
    using assms by (intro lines_of_text) (auto simp: list_all_iff row_label(2))
  then have li: "lines_of (concat (map (\<lambda>r. launchctl_row r @ nl) rows)) = map launchctl_row rows"
    by (simp add: comp_def)
  have "label_is_loaded (concat (map (\<lambda>r. launchctl_row r @ nl) rows)) l = (l \<in> (snd \<circ> snd) ` set rows)" for l
    unfolding label_is_loaded_def li
    using assms by (auto simp: list_ex_iff list_all_iff row_label(1) image_iff)
  then show ?thesis by (simp add: legacy_is_loaded_def)
qed

theorem label_loaded_exact_witness:
  "legacy_is_loaded (concat (map (\<lambda>r. launchctl_row r @ nl) [(''71'', ''0'', LEGACY_LABEL)]))"
  using label_loaded_exact [of "[(''71'', ''0'', LEGACY_LABEL)]"]
  by (simp add: row_ok_def LEGACY_LABEL_def LABEL_def is_ws_def)

end
