(* ===== verification/Service_Host.thy ===== *)
theory Service_Host
  imports Service_Unit
begin

text \<open>
  What the two halves of daemon supervision (\<open>bins/decent/src/service.rs\<close>) work on: the files of the
  host and its service manager, and the abstract daemon their operations implement. A command the
  code runs is a call of the argument \<open>exec\<close>, which threads the state of whatever answers it: nothing
  when it cannot be started, else whether it succeeded and what it printed.
\<close>

section \<open>The host\<close>

record 'm host =
  h_files :: "string \<Rightarrow> string option"
  h_mgr :: 'm

type_synonym 'm exec = "string list \<Rightarrow> 'm \<Rightarrow> (bool \<times> string) option \<times> 'm"

record host_env =
  he_home :: "string option"
  he_xdg :: "string option"
  he_mkdir :: bool
  he_write :: bool
  he_left :: "string option"
  he_remove :: bool

datatype daemon_state = NotInstalled | DaemonRunning | Paused

definition run_cmd :: "'m exec \<Rightarrow> string list \<Rightarrow> 'm host \<Rightarrow> (bool \<times> string) option \<times> 'm host" where
  "run_cmd exec args h = (case exec args (h_mgr h) of (r, m) \<Rightarrow> (r, h\<lparr>h_mgr := m\<rparr>))"

definition cmd_ok :: "(bool \<times> string) option \<Rightarrow> bool" where
  "cmd_ok r = (case r of Some (ok, out) \<Rightarrow> ok | None \<Rightarrow> False)"

definition cmd_out :: "(bool \<times> string) option \<Rightarrow> string" where
  "cmd_out r = (case r of Some (ok, out) \<Rightarrow> out | None \<Rightarrow> [])"

lemma run_cmd_files [simp]: "h_files (snd (run_cmd exec args h)) = h_files h"
  by (simp add: run_cmd_def split: prod.splits)

text \<open>\<open>he_left\<close> is what a write that failed left at the path.\<close>

lemma run_cmd_files': "run_cmd exec args h = (r, h') \<Longrightarrow> h_files h' = h_files h"
  using run_cmd_files [of exec args h] by simp

section \<open>The abstract daemon\<close>

datatype service_op = OpInstall service_spec | OpUninstall | OpPause | OpResume | OpRestart

text \<open>
  The abstract daemon: what an operation that succeeds does; without a value it must refuse. The
  two halves of the code differ in one point, \<open>wakes\<close>: whether a restart starts a paused daemon.
\<close>

fun daemon_step :: "bool \<Rightarrow> service_op \<Rightarrow> daemon_state \<Rightarrow> daemon_state option" where
  "daemon_step wakes (OpInstall spec) d = Some DaemonRunning"
| "daemon_step wakes OpUninstall d = Some NotInstalled"
| "daemon_step wakes OpPause d = (if d = NotInstalled then None else Some Paused)"
| "daemon_step wakes OpResume d = (if d = NotInstalled then None else Some DaemonRunning)"
| "daemon_step wakes OpRestart d = Some (if d = Paused \<and> wakes then DaemonRunning else d)"

end
