(* ===== verification/Service_Loop.thy ===== *)
theory Service_Loop
  imports Reconnect Session_Gate Upgrade Credentials Service_Host
begin

text \<open>
  \<open>decent start\<close> (\<open>bins/decent/src/main.rs\<close>): what is checked before the node connects, and the loop
  around \<open>run_until_exit\<close> that applies unattended upgrades. One turn of the loop is one run of the
  connection up to its exit, and the upgrade attempt it may hand over to. A termination signal
  reaches the sessions as their shutdown input; one that arrives while the package manager runs is
  \<open>vi_term\<close>. What other tasks and commands did to the shared switches between the exit and the check
  of the flag is a list of operator operations.
\<close>

section \<open>Before the loop\<close>

definition AUTO_UPGRADE_QUIET_PERIOD :: duration where "AUTO_UPGRADE_QUIET_PERIOD = secs (15 * 60)"

record start_args =
  sa_dispatch_url :: string
  sa_token :: "string option"
  sa_heartbeat_limit :: "u32 option"
  sa_allow_real_jobs :: bool

text \<open>
  The ghost component lists the attempts on record, oldest first, each with its target, its wall
  clock and whether the package manager was started for it.
\<close>

record service_state =
  sv_files :: config_files
  sv_obs :: observability
  sv_attempts :: "(string \<times> u64 \<times> bool) list"

record service_plan =
  sp_url :: string
  sp_token :: string
  sp_heartbeat_limit :: "u32 option"
  sp_allow_real_jobs :: bool
  sp_managed :: bool

definition service_managed :: "start_args \<Rightarrow> daemon_state \<Rightarrow> bool" where
  "service_managed args daemon = (sa_heartbeat_limit args = None \<and> daemon = DaemonRunning)"

datatype start_error = StartUrl url_error | StartToken string | StartDir string

definition start_command :: "(string \<Rightarrow> string + url_parts) \<Rightarrow> token_env \<Rightarrow> (string \<Rightarrow> register_message)
    \<Rightarrow> daemon_state \<Rightarrow> start_args \<Rightarrow> config_files \<Rightarrow> files
    \<Rightarrow> (start_error + service_plan \<times> register_message \<times> service_state) \<times> files" where
  "start_command parse env register_for daemon args conf fs =
     (case validate_dispatch_url parse (sa_dispatch_url args) of
        Inl e \<Rightarrow> (Inl (StartUrl e), fs)
      | Inr u \<Rightarrow>
          (case resolve_token (sa_token args) env fs of
             (Inl e, fs1) \<Rightarrow> (Inl (StartToken e), fs1)
           | (Inr token, fs1) \<Rightarrow>
               (case token_path env fs1 of
                  (Inl e, fs2) \<Rightarrow> (Inl (StartDir e), fs2)
                | (Inr path, fs2) \<Rightarrow>
                    (let managed = service_managed args daemon;
                         obs = set_auto_upgrade_enabled (managed \<and> is_enabled conf)
                                 (set_allow_real_jobs (sa_allow_real_jobs args) (channels default_status))
                     in (Inr (\<lparr>sp_url = sa_dispatch_url args, sp_token = token,
                                sp_heartbeat_limit = sa_heartbeat_limit args,
                                sp_allow_real_jobs = sa_allow_real_jobs args, sp_managed = managed\<rparr>,
                              register_for token,
                              \<lparr>sv_files = conf, sv_obs = obs, sv_attempts = []\<rparr>), fs2)))))"

text \<open>
  \<open>decent tui\<close> runs one connection beside the dashboard: the same gates, no heartbeat limit, and no
  unattended upgrade, since no manager would start the new binary.
\<close>

definition tui_command :: "(string \<Rightarrow> string + url_parts) \<Rightarrow> token_env \<Rightarrow> (string \<Rightarrow> register_message)
    \<Rightarrow> string \<Rightarrow> string option \<Rightarrow> bool \<Rightarrow> files
    \<Rightarrow> (start_error + connection_config \<times> register_message \<times> observability) \<times> files" where
  "tui_command parse env register_for url token allow fs =
     (case validate_dispatch_url parse url of
        Inl e \<Rightarrow> (Inl (StartUrl e), fs)
      | Inr u \<Rightarrow>
          (case resolve_token token env fs of
             (Inl e, fs1) \<Rightarrow> (Inl (StartToken e), fs1)
           | (Inr t, fs1) \<Rightarrow>
               (Inr ((config_new url t)\<lparr>cc_heartbeat_limit := None, cc_allow_real_jobs := allow\<rparr>,
                     register_for t, set_allow_real_jobs allow (channels default_status)), fs1)))"

section \<open>The loop\<close>

record service_input =
  vi_now_ms :: nat
  vi_clock :: "nat option"
  vi_sessions :: "session_input list"
  vi_operator :: "operator_op list"
  vi_apply_ms :: u64
  vi_write1 :: write_env
  vi_write2 :: write_env
  vi_upgrade :: "config_files \<Rightarrow> string + upgrade_outcome"
  vi_term :: bool

datatype service_end = ServiceOk | ServiceError string | ServiceGoing

definition loop_policy :: "service_plan \<Rightarrow> config_files \<Rightarrow> nat \<Rightarrow> auto_upgrade_policy option" where
  "loop_policy plan fs now_ms =
     (let sup = suppression fs now_ms
      in if sp_managed plan
         then Some \<lparr>aup_quiet_period = AUTO_UPGRADE_QUIET_PERIOD,
                    aup_suppressed_version = map_option fst sup,
                    aup_suppressed_for = map_option snd sup\<rparr>
         else None)"

definition loop_config :: "service_plan \<Rightarrow> config_files \<Rightarrow> nat \<Rightarrow> connection_config" where
  "loop_config plan fs now_ms =
     (config_new (sp_url plan) (sp_token plan))
       \<lparr>cc_heartbeat_limit := sp_heartbeat_limit plan, cc_allow_real_jobs := sp_allow_real_jobs plan,
        cc_auto_upgrade := loop_policy plan fs now_ms\<rparr>"

text \<open>
  The hand-over: the flag is looked at again, then the attempt is applied. An attempt is on the
  ghost record when it reached the ledger: the package manager ran, or a refusal was written.
\<close>

definition hand_to_upgrade :: "nat \<Rightarrow> string \<Rightarrow> service_input \<Rightarrow> string \<Rightarrow> service_state
    \<Rightarrow> service_state \<times> service_end option" where
  "hand_to_upgrade pid current inp v s =
     (if \<not> auto_upgrade_enabled (sv_obs s) then (s, None)
      else (case apply_upgrade pid (vi_write1 inp) (vi_write2 inp) v current (vi_apply_ms inp)
                   (vi_upgrade inp) (sv_files s) of
              (res, started, fs') \<Rightarrow>
                (let s' = s\<lparr>sv_files := fs',
                            sv_attempts := sv_attempts s @
                              (if started = None \<and> (\<exists>e. res = Inl e) then []
                               else [(v, vi_apply_ms inp, started \<noteq> None)])\<rparr>
                 in case res of
                      Inr (Restart from to err) \<Rightarrow> (s', Some ServiceOk)
                    | _ \<Rightarrow> (s', if vi_term inp then Some ServiceOk else None))))"

definition service_turn :: "(string \<Rightarrow> bool) \<Rightarrow> (string \<Rightarrow> bool) \<Rightarrow> instant \<Rightarrow> nat \<Rightarrow> string
    \<Rightarrow> service_plan \<Rightarrow> register_message \<Rightarrow> service_input \<Rightarrow> service_state
    \<Rightarrow> service_state \<times> service_end option" where
  "service_turn url_ok header_ok mx pid current plan reg inp s =
     (case run_until_exit url_ok header_ok mx (loop_config plan (sv_files s) (vi_now_ms inp)) reg
             (vi_clock inp) (vi_sessions inp) (sv_obs s) of
        (r, RunGoing) \<Rightarrow> (s\<lparr>sv_obs := rs_obs r\<rparr>, Some ServiceGoing)
      | (r, RunError e) \<Rightarrow> (s\<lparr>sv_obs := rs_obs r\<rparr>, Some (ServiceError e))
      | (r, RunExit (ExAutoUpgrade v)) \<Rightarrow>
          hand_to_upgrade pid current inp v
            (s\<lparr>sv_obs := fold operator_apply (vi_operator inp) (rs_obs r)\<rparr>)
      | (r, RunExit x) \<Rightarrow> (s\<lparr>sv_obs := rs_obs r\<rparr>, Some ServiceOk))"

definition service_loop :: "(string \<Rightarrow> bool) \<Rightarrow> (string \<Rightarrow> bool) \<Rightarrow> instant \<Rightarrow> nat \<Rightarrow> string
    \<Rightarrow> service_plan \<Rightarrow> register_message \<Rightarrow> service_input list \<Rightarrow> service_state
    \<Rightarrow> service_state \<times> service_end option" where
  "service_loop url_ok header_ok mx pid current plan reg =
     run_until (service_turn url_ok header_ok mx pid current plan reg)"

section \<open>Where an upgrade exit comes from\<close>

lemma session_exit_origin:
  assumes "run_session mx cfg reg inp s = (SrDisconnect (DAutoUpgrade v), s')"
  shows "\<exists>keys pend obs e. run_session_loop cfg reg (si_turns inp)
      (session_start mx cfg (si_now inp) keys pend obs) = (e, Some (DAutoUpgrade v))"
  using assms
  by (auto simp: run_session_def Let_def split: prod.splits option.splits connect_end.splits if_splits)

lemma terminal_upgrade: "terminal_exit d = Some (ExAutoUpgrade v) \<longleftrightarrow> d = DAutoUpgrade v"
  by (cases d) auto

lemma turn_exit_origin:
  assumes "reconnect_turn mx cfg reg inp s = (s', Some (RunExit (ExAutoUpgrade v)))"
  shows "\<exists>keys pend obs e. run_session_loop cfg reg (si_turns inp)
      (session_start mx cfg (si_now inp) keys pend obs) = (e, Some (DAutoUpgrade v))"
proof (rule session_exit_origin)
  show "run_session mx cfg reg inp s = (SrDisconnect (DAutoUpgrade v), s')"
    using assms
    by (auto simp: reconnect_turn_def Let_def terminal_upgrade
        split: prod.splits session_result.splits option.splits if_splits)
qed

lemma run_exit_origin:
  assumes "run_until (reconnect_turn mx cfg reg) inps s = (s', Some (RunExit (ExAutoUpgrade v)))"
  shows "\<exists>inp\<in>set inps. \<exists>keys pend obs e. run_session_loop cfg reg (si_turns inp)
      (session_start mx cfg (si_now inp) keys pend obs) = (e, Some (DAutoUpgrade v))"
  using assms
proof (induction inps arbitrary: s)
  case (Cons i inps)
  obtain s1 r where t: "reconnect_turn mx cfg reg i s = (s1, r)" by (cases "reconnect_turn mx cfg reg i s")
  show ?case
  proof (cases r)
    case None
    then show ?thesis using Cons t by auto
  next
    case (Some x)
    then have "reconnect_turn mx cfg reg i s = (s', Some (RunExit (ExAutoUpgrade v)))"
      using Cons.prems t by simp
    then show ?thesis using turn_exit_origin [of mx cfg reg i s s' v] by simp
  qed
qed simp

lemma upgrade_exit_origin:
  assumes "run_until_exit url_ok header_ok mx cfg reg clock inps obs = (r, RunExit (ExAutoUpgrade v))"
  shows "\<exists>inp\<in>set inps. \<exists>keys pend obs e. run_session_loop cfg reg (si_turns inp)
      (session_start mx cfg (si_now inp) keys pend obs) = (e, Some (DAutoUpgrade v))"
  using assms run_exit_origin [of mx cfg reg inps "run_start cfg reg clock obs" r v]
  by (auto simp: run_until_exit_def split: sum.splits prod.splits option.splits)

section \<open>Attempts are a day apart\<close>

lemma settle_written:
  assumes "settle_upgrade pid we v ms verdict fs1 = (res, fs2)"
    and "read_attempt fs1 = Some (attempt_of v ms AtStarted d)"
  shows "\<exists>o1 d'. read_attempt fs2 = Some (attempt_of v ms o1 d')
     \<and> (o1 = AtUpgraded \<longrightarrow> (\<exists>f t e. res = Inr (Restart f t e)))"
  using settle_record [OF assms] by blast

text \<open>Either the ledger is as it was and nothing ran, or it now names this attempt.\<close>

lemma apply_written:
  assumes "apply_upgrade pid we1 we2 v current ms upgrade fs = (res, started, fs')"
  shows "(started = None \<and> (\<exists>e. res = Inl e) \<and> read_attempt fs' = read_attempt fs)
     \<or> (\<not> (started = None \<and> (\<exists>e. res = Inl e))
        \<and> (\<exists>o1 d. read_attempt fs' = Some (attempt_of v ms o1 d)
             \<and> (o1 = AtUpgraded \<longrightarrow> (\<exists>f t e. res = Inr (Restart f t e)))))"
proof (cases started)
  case None
  show ?thesis
  proof (cases "\<exists>e. write_attempt pid we1 (attempt_of v ms AtStarted
      ''idle-safe connection handoff complete'') fs = (Inl e, fs') \<and> res = Inl e")
    case True
    then show ?thesis using None ledger.read_failed by blast
  next
    case False
    then obtain o1 d where "refuse_target pid we1 v ms o1 d fs = (res, fs')"
        "o1 \<in> {AtAlreadyCurrent, AtRejected}"
      using assms None
      by (fastforce simp: apply_upgrade_def split: option.splits if_splits prod.splits sum.splits)
    from refuse_record [OF this(1)] this(2) show ?thesis using None by auto
  qed
next
  case (Some fs1)
  from apply_ran [OF assms [unfolded Some]] settle_written show ?thesis using Some by blast
qed

fun spaced :: "(string \<times> u64 \<times> bool) list \<Rightarrow> bool" where
  "spaced ((v, ms, b) # (w, ns, b') # as) =
     ((if v = w then unat ms + RETRY_SUPPRESS_MS \<le> unat ns else True) \<and> spaced ((w, ns, b') # as))"
| "spaced as = True"

lemma spaced_snoc:
  "spaced as \<Longrightarrow> (as \<noteq> [] \<Longrightarrow> fst (last as) = v \<Longrightarrow> unat (fst (snd (last as))) + RETRY_SUPPRESS_MS \<le> unat ms)
     \<Longrightarrow> spaced (as @ [(v, ms, b)])"
  by (induction as rule: spaced.induct) (auto split: if_splits)

text \<open>
  What the clocks of a turn must satisfy: the wall clock, in milliseconds, and the monotonic one,
  here read as nanoseconds of the same origin, do not run against each other, and the suppression
  does not reach the end of the range of instants.
\<close>

definition turn_clocks :: "instant \<Rightarrow> service_input \<Rightarrow> bool" where
  "turn_clocks mx inp \<longleftrightarrow> vi_now_ms inp \<le> unat (vi_apply_ms inp)
     \<and> (\<forall>i\<in>set (vi_sessions inp). millis (vi_now_ms inp) \<le> si_now i
          \<and> si_now i + millis RETRY_SUPPRESS_MS \<le> mx
          \<and> (\<forall>t\<in>set (si_turns i). tu_now t < millis (Suc (unat (vi_apply_ms inp)))))"

lemma millis_suc_le: "millis a + d \<le> t \<Longrightarrow> millis b \<le> d \<Longrightarrow> t < millis (Suc c) \<Longrightarrow> a + b \<le> c"
proof (rule ccontr)
  assume a: "millis a + d \<le> t" "millis b \<le> d" "t < millis (Suc c)" "\<not> a + b \<le> c"
  then have "millis (Suc c) \<le> millis (a + b)" by (intro mult_le_mono1) simp
  then show False using a(1-3) by simp
qed

definition attempts_ok :: "service_state \<Rightarrow> bool" where
  "attempts_ok s \<longleftrightarrow> spaced (sv_attempts s)
     \<and> (sv_attempts s \<noteq> [] \<longrightarrow>
          (\<exists>r. read_attempt (sv_files s) = Some r \<and> at_outcome r \<noteq> AtUpgraded
             \<and> at_target r = fst (last (sv_attempts s))
             \<and> at_ms r = fst (snd (last (sv_attempts s)))))"

definition since_last :: "service_input \<Rightarrow> service_state \<Rightarrow> bool" where
  "since_last inp s \<longleftrightarrow> (sv_attempts s \<noteq> [] \<longrightarrow> unat (fst (snd (last (sv_attempts s)))) \<le> vi_now_ms inp)"

text \<open>A turn that hands over for the recorded target does so a day after the record.\<close>

lemma handover_waits:
  assumes "run_until_exit url_ok header_ok mx (loop_config plan fs (vi_now_ms inp)) reg (vi_clock inp)
             (vi_sessions inp) obs = (r, RunExit (ExAutoUpgrade v))"
    and "read_attempt fs = Some a" and "at_outcome a \<noteq> AtUpgraded" and "at_target a = v"
    and "unat (at_ms a) \<le> vi_now_ms inp" and "turn_clocks mx inp"
  shows "unat (at_ms a) + RETRY_SUPPRESS_MS \<le> unat (vi_apply_ms inp)"
proof (cases "vi_now_ms inp - unat (at_ms a) < RETRY_SUPPRESS_MS")
  case False
  moreover have "vi_now_ms inp \<le> unat (vi_apply_ms inp)" using assms(6) by (simp add: turn_clocks_def)
  ultimately show ?thesis using assms(5) by linarith
next
  case True
  let ?left = "RETRY_SUPPRESS_MS - (vi_now_ms inp - unat (at_ms a))"
  let ?cfg = "loop_config plan fs (vi_now_ms inp)"
  from upgrade_exit_origin [OF assms(1)] obtain i keys pend obs' e where
    i: "i \<in> set (vi_sessions inp)"
      "run_session_loop ?cfg reg (si_turns i) (session_start mx ?cfg (si_now i) keys pend obs')
         = (e, Some (DAutoUpgrade v))" by blast
  from run_upgrade_policy [OF i(2)] obtain p where p: "cc_auto_upgrade ?cfg = Some p" by blast
  then have pol: "aup_suppressed_version p = Some v" "aup_suppressed_for p = Some (millis ?left)"
    using suppression_of_record [OF assms(2,3) True] assms(4)
    by (auto simp: loop_config_def loop_policy_def Let_def split: if_splits)
  have "si_now i + millis ?left \<le> mx" using assms(6) i(1)
    by (fastforce simp: turn_clocks_def)
  from suppressed_session_waits [OF i(2) p pol this] obtain t where
    "t \<in> set (si_turns i)" "si_now i + millis ?left \<le> tu_now t" by blast
  then have "vi_now_ms inp + ?left \<le> unat (vi_apply_ms inp)"
    using assms(6) i(1) millis_suc_le [of "vi_now_ms inp" "millis ?left" "tu_now t" ?left]
    by (fastforce simp: turn_clocks_def)
  then show ?thesis using True assms(5) by simp
qed

lemma handed_attempts:
  assumes "hand_to_upgrade pid current inp v s = (s', x)"
    and "attempts_ok s"
    and "sv_attempts s \<noteq> [] \<Longrightarrow> fst (last (sv_attempts s)) = v \<Longrightarrow>
           unat (fst (snd (last (sv_attempts s)))) + RETRY_SUPPRESS_MS \<le> unat (vi_apply_ms inp)"
  shows "spaced (sv_attempts s') \<and> (x = None \<longrightarrow> attempts_ok s')
     \<and> (sv_attempts s' = sv_attempts s \<or> (\<exists>b. sv_attempts s' = sv_attempts s @ [(v, vi_apply_ms inp, b)]))"
proof (cases "auto_upgrade_enabled (sv_obs s)")
  case False
  then show ?thesis using assms(1,2) by (simp add: hand_to_upgrade_def attempts_ok_def)
next
  case True
  obtain res started fs' where ap: "apply_upgrade pid (vi_write1 inp) (vi_write2 inp) v current
      (vi_apply_ms inp) (vi_upgrade inp) (sv_files s) = (res, started, fs')" by (rule prod_cases3)
  let ?quiet = "started = None \<and> (\<exists>e. res = Inl e)"
  have s': "sv_files s' = fs'"
      "sv_attempts s' = sv_attempts s @ (if ?quiet then [] else [(v, vi_apply_ms inp, started \<noteq> None)])"
      "x = None \<Longrightarrow> \<not> (\<exists>f t e. res = Inr (Restart f t e))"
    using assms(1) True ap
    by (auto simp: hand_to_upgrade_def Let_def split: sum.splits disposition.splits)
  show ?thesis
  proof (cases ?quiet)
    case True
    then show ?thesis using apply_written [OF ap] s' assms(2) by (auto simp: attempts_ok_def)
  next
    case False
    then have "spaced (sv_attempts s')"
      using s'(2) spaced_snoc assms(2,3) by (simp add: attempts_ok_def)
    moreover from apply_written [OF ap] False obtain o1 d where
      "read_attempt fs' = Some (attempt_of v (vi_apply_ms inp) o1 d)"
      "o1 = AtUpgraded \<longrightarrow> (\<exists>f t e. res = Inr (Restart f t e))" by blast
    ultimately show ?thesis using s' False by (auto simp: attempts_ok_def attempt_of_def)
  qed
qed

lemma turn_attempts:
  assumes "service_turn url_ok header_ok mx pid current plan reg inp s = (s', x)"
    and "attempts_ok s" and "since_last inp s" and "turn_clocks mx inp"
  shows "spaced (sv_attempts s') \<and> (x = None \<longrightarrow> attempts_ok s')
     \<and> (sv_attempts s' = sv_attempts s
        \<or> (\<exists>v b. sv_attempts s' = sv_attempts s @ [(v, vi_apply_ms inp, b)]))"
proof -
  obtain r y where run: "run_until_exit url_ok header_ok mx (loop_config plan (sv_files s) (vi_now_ms inp))
      reg (vi_clock inp) (vi_sessions inp) (sv_obs s) = (r, y)" by (rule prod.exhaust)
  show ?thesis
  proof (cases "\<exists>v. y = RunExit (ExAutoUpgrade v)")
    case True
    then obtain v where v: "y = RunExit (ExAutoUpgrade v)" by blast
    let ?s = "s\<lparr>sv_obs := fold operator_apply (vi_operator inp) (rs_obs r)\<rparr>"
    have hand: "hand_to_upgrade pid current inp v ?s = (s', x)"
      using assms(1) run v by (simp add: service_turn_def)
    have wait: "unat (fst (snd (last (sv_attempts s)))) + RETRY_SUPPRESS_MS \<le> unat (vi_apply_ms inp)"
      if "sv_attempts s \<noteq> []" "fst (last (sv_attempts s)) = v"
      using handover_waits [OF run [unfolded v]] assms(2-4) that
      by (auto simp: attempts_ok_def since_last_def)
    show ?thesis
      using handed_attempts [OF hand] wait assms(2) by (fastforce simp: attempts_ok_def)
  next
    case False
    then have "s' = s\<lparr>sv_obs := rs_obs r\<rparr>" "x \<noteq> None"
      using assms(1) run
      by (auto simp: service_turn_def split: run_result.splits connection_exit.splits)
    then show ?thesis using assms(2) by (simp add: attempts_ok_def)
  qed
qed

interpretation service_attempts: machine_invariant
  "service_turn url_ok header_ok mx pid current plan reg" "\<lambda>inp s. since_last inp s \<and> turn_clocks mx inp"
  attempts_ok "\<lambda>s x. spaced (sv_attempts s)"
  for url_ok header_ok mx pid current plan reg
  using turn_attempts by unfold_locales blast+

fun run_clocks :: "instant \<Rightarrow> nat \<Rightarrow> service_input list \<Rightarrow> bool" where
  "run_clocks mx since [] = True"
| "run_clocks mx since (inp # inps) =
     (since \<le> vi_now_ms inp \<and> turn_clocks mx inp \<and> run_clocks mx (unat (vi_apply_ms inp)) inps)"

lemma run_clocks_ok:
  assumes "run_clocks mx since inps" and "attempts_ok s"
    and "sv_attempts s \<noteq> [] \<Longrightarrow> unat (fst (snd (last (sv_attempts s)))) \<le> since"
  shows "service_attempts.all_ok url_ok header_ok mx pid current plan reg inps s"
  using assms
proof (induction inps arbitrary: since s)
  case (Cons inp inps)
  obtain s' x where t: "service_turn url_ok header_ok mx pid current plan reg inp s = (s', x)"
    by (rule prod.exhaust)
  have sl: "since_last inp s" using Cons.prems by (auto simp: since_last_def)
  have cl: "turn_clocks mx inp" using Cons.prems(1) by simp
  note ta = turn_attempts [OF t Cons.prems(2) sl cl]
  have "service_attempts.all_ok url_ok header_ok mx pid current plan reg inps s'" if "x = None"
  proof (rule Cons.IH)
    show "unat (fst (snd (last (sv_attempts s')))) \<le> unat (vi_apply_ms inp)" if "sv_attempts s' \<noteq> []"
      using ta that sl cl by (auto simp: since_last_def turn_clocks_def)
  qed (use Cons.prems(1) ta \<open>x = None\<close> in auto)
  then show ?case using t sl cl by (cases x) auto
qed simp


definition managed_plan :: service_plan where
  "managed_plan = \<lparr>sp_url = ''wss://dispatch/ws'', sp_token = ''t'', sp_heartbeat_limit = None,
     sp_allow_real_jobs = True, sp_managed = True\<rparr>"

definition failed_yesterday :: service_state where
  "failed_yesterday = \<lparr>sv_files = [STATE_FILE \<mapsto>
        (JsonText (attempt_json (attempt_of ''0.0.12'' 5000 AtFailed ''brew failed'')), 384)],
     sv_obs = set_auto_upgrade_enabled True (channels default_status),
     sv_attempts = [(''0.0.12'', 5000, True)]\<rparr>"

definition retry_input :: service_input where
  "retry_input = \<lparr>vi_now_ms = 6000, vi_clock = None,
     vi_sessions = [(sample_session
        [frame_turn (UpdateAvailable \<lparr>upd_tenant = ''driffs'', upd_supervisor_version = ''0.0.12'',
           upd_payload_version = ''2''\<rparr>),
         quiet_turn\<lparr>tu_tick := True, tu_now := millis 86405000\<rparr>,
         quiet_turn\<lparr>tu_tick := True, tu_now := millis 87305000\<rparr>])\<lparr>si_now := millis 6000\<rparr>],
     vi_operator = [], vi_apply_ms = 87305000, vi_write1 = good_env, vi_write2 = good_env,
     vi_upgrade = (\<lambda>fs. Inl ''brew failed''), vi_term = True\<rparr>"

lemma retry_policy:
  "loop_policy managed_plan (sv_files failed_yesterday) 6000 = Some \<lparr>aup_quiet_period = secs 900,
     aup_suppressed_version = Some ''0.0.12'', aup_suppressed_for = Some (millis 86399000)\<rparr>"
  by (simp add: loop_policy_def managed_plan_def failed_yesterday_def suppression_def read_attempt_def
      attempt_round_trip attempt_of_def RETRY_SUPPRESS_MS_def AUTO_UPGRADE_QUIET_PERIOD_def Let_def)

lemma retry_exit:
  "\<exists>r. run_until_exit (\<lambda>u. True) (\<lambda>h. True) (10 ^ 18)
      (loop_config managed_plan (sv_files failed_yesterday) (vi_now_ms retry_input)) sample_register
      (vi_clock retry_input) (vi_sessions retry_input) (sv_obs failed_yesterday)
    = (r, RunExit (ExAutoUpgrade ''0.0.12'')) \<and> auto_upgrade_enabled (rs_obs r)"
  unfolding loop_config_def
  by (simp add: retry_input_def retry_policy)
     (simp add: reconnect_eval run_eval Let_def config_new_def failed_yesterday_def announce_def update_arm_def
        auto_upgrade_enabled_def set_auto_upgrade_enabled_def session_idle_def gate_observe_def
        target_suppressed_def ready_def gate_new_at_def managed_plan_def del: server_to_json.simps)

lemma retry_run:
  "\<exists>s'. service_loop (\<lambda>u. True) (\<lambda>h. True) (10 ^ 18) 7 ''0.0.11'' managed_plan sample_register
       [retry_input] failed_yesterday = (s', Some ServiceOk)
     \<and> sv_attempts s' = [(''0.0.12'', 5000, True), (''0.0.12'', 87305000, True)]"
proof -
  obtain r where "run_until_exit (\<lambda>u. True) (\<lambda>h. True) (10 ^ 18)
      (loop_config managed_plan (sv_files failed_yesterday) (vi_now_ms retry_input)) sample_register
      (vi_clock retry_input) (vi_sessions retry_input) (sv_obs failed_yesterday)
    = (r, RunExit (ExAutoUpgrade ''0.0.12''))" "auto_upgrade_enabled (rs_obs r)"
    using retry_exit by blast
  then show ?thesis
    by (simp add: service_loop_def service_turn_def)
       (simp add: hand_to_upgrade_def retry_input_def apply_upgrade_def less_version_def
          write_attempt_def atomic_private_write_def good_env_def settle_upgrade_def failed_yesterday_def Let_def)
qed


text \<open>
  The ledger has one slot. Recording an attempt for another target forgets the one before it: when
  dispatch alternates between two targets, nothing on disk suppresses the first one any more.
\<close>

theorem other_target_forgets_suppression:
  assumes "apply_upgrade pid we1 we2 w current ms upgrade fs = (res, started, fs')"
    and "started \<noteq> None" and "v \<noteq> w"
  shows "case suppression fs' now of None \<Rightarrow> True | Some (t, left) \<Rightarrow> t \<noteq> v"
proof -
  from apply_written [OF assms(1)] assms(2) obtain o1 d where
    "read_attempt fs' = Some (attempt_of w ms o1 d)" by blast
  then show ?thesis using assms(3) by (auto simp: suppression_def attempt_of_def Let_def)
qed

end
