(* ===== verification/Keepawake.thy ===== *)
theory Keepawake
  imports Dr_Base
begin

text \<open>
  The idle-sleep assertion of a job (\<open>crates/supervisor-core/src/keepawake.rs\<close>): the guard a job
  holds, the two process-wide counters a status surface reads, and the teardown of the
  \<open>caffeinate\<close> child. Guards of several jobs may be alive at once (a cancelled job still tears down
  while the next one runs), so the operations are composed by a step relation whose order is free.
\<close>

section \<open>What a status surface may say\<close>

datatype keep_awake_state = Held | FailedToAcquire | Unavailable

fun describe :: "keep_awake_state \<Rightarrow> string" where
  "describe Held = ''held''"
| "describe FailedToAcquire = ''failed to acquire''"
| "describe Unavailable = ''not available on this platform''"

fun as_token :: "keep_awake_state \<Rightarrow> string" where
  "as_token Held = ''held''"
| "as_token FailedToAcquire = ''failed''"
| "as_token Unavailable = ''unavailable''"

definition from_token :: "string \<Rightarrow> keep_awake_state option" where
  "from_token token =
     (if token = ''held'' then Some Held
      else if token = ''failed'' then Some FailedToAcquire
      else if token = ''unavailable'' then Some Unavailable
      else None)"

definition idle_sleep_label :: "keep_awake_state option \<Rightarrow> string" where
  "idle_sleep_label st = (case st of Some s \<Rightarrow> describe s | None \<Rightarrow> ''not held'')"

lemma token_round_trip [simp]: "from_token (as_token s) = Some s"
  by (cases s) (simp_all add: from_token_def)

lemma from_token_Nil [simp]: "from_token [] = None"
  by (simp add: from_token_def)

lemma as_token_clean [str_simps]: "CHR 0x0A \<notin> set (as_token s)" "as_token s \<noteq> []"
    "last (as_token s) \<noteq> CHR 0x0D"
  by (cases s; simp)+

section \<open>The guard and the counters\<close>

text \<open>
  A guard is \<open>Caffeinated\<close> with the pid of its child, \<open>Missed\<close> when the spawn failed, or \<open>Noop\<close> off
  macOS. \<open>ka_children\<close> are the \<open>caffeinate\<close> processes that run, \<open>ka_dying\<close> the children of guards whose
  drop has begun and not returned, \<open>ka_lost\<close> those whose drop gave up on a failed \<open>try_wait\<close>.
\<close>

datatype guard = Caffeinated nat | Missed | Noop

record awake =
  ka_active :: int
  ka_failed :: int
  ka_guards :: "guard list"
  ka_dying :: "nat list"
  ka_lost :: "nat list"
  ka_children :: "nat list"

definition awake_start :: awake where
  "awake_start = \<lparr>ka_active = 0, ka_failed = 0, ka_guards = [], ka_dying = [], ka_lost = [],
     ka_children = []\<rparr>"

definition current_state :: "target_os \<Rightarrow> awake \<Rightarrow> keep_awake_state option" where
  "current_state os s =
     (if os = MacOs
      then (if 0 < ka_active s then Some Held
            else if 0 < ka_failed s then Some FailedToAcquire else None)
      else Some Unavailable)"

text \<open>\<open>spawned\<close> is the pid of the child, or nothing when the spawn failed.\<close>

definition acquire :: "target_os \<Rightarrow> nat option \<Rightarrow> awake \<Rightarrow> awake" where
  "acquire os spawned s =
     (if os = MacOs
      then (case spawned of
              Some pid \<Rightarrow> s\<lparr>ka_active := ka_active s + 1, ka_guards := ka_guards s @ [Caffeinated pid],
                             ka_children := ka_children s @ [pid]\<rparr>
            | None \<Rightarrow> s\<lparr>ka_failed := ka_failed s + 1, ka_guards := ka_guards s @ [Missed]\<rparr>)
      else s\<lparr>ka_guards := ka_guards s @ [Noop]\<rparr>)"

fun is_held :: "guard \<Rightarrow> bool" where
  "is_held (Caffeinated pid) = True"
| "is_held Missed = False"
| "is_held Noop = False"

definition guard_state :: "target_os \<Rightarrow> guard \<Rightarrow> keep_awake_state" where
  "guard_state os g =
     (if os = MacOs then (if is_held g then Held else FailedToAcquire) else Unavailable)"

section \<open>Dropping a guard\<close>

datatype wait_answer = Exited | Running | WaitFailed
datatype ka_signal = Term nat | Kill nat
datatype kill_end = Gone | GaveUp

text \<open>
  \<open>kill_poll deadline pid polls\<close>: the loop of \<open>kill_child_tree\<close>; a poll is what \<open>try_wait\<close> answered and
  the instant read after it. Without a value the polls ran out before the loop returned.
\<close>

fun kill_poll :: "instant \<Rightarrow> nat \<Rightarrow> (wait_answer \<times> instant) list \<Rightarrow> (ka_signal list \<times> kill_end) option" where
  "kill_poll deadline pid [] = None"
| "kill_poll deadline pid ((Exited, now) # ps) = Some ([], Gone)"
| "kill_poll deadline pid ((WaitFailed, now) # ps) = Some ([], GaveUp)"
| "kill_poll deadline pid ((Running, now) # ps) =
     (if deadline \<le> now then Some ([Kill pid], Gone) else kill_poll deadline pid ps)"

definition kill_child_tree :: "nat \<Rightarrow> instant \<Rightarrow> (wait_answer \<times> instant) list
    \<Rightarrow> (ka_signal list \<times> kill_end) option" where
  "kill_child_tree pid start polls =
     map_option (\<lambda>(sigs, e). (Term pid # sigs, e)) (kill_poll (start + secs 1) pid polls)"

text \<open>The part of \<open>drop\<close> before the teardown, and what its return leaves.\<close>

definition drop_guard :: "nat \<Rightarrow> awake \<Rightarrow> awake" where
  "drop_guard i s =
     (let s1 = s\<lparr>ka_guards := remove_at i (ka_guards s)\<rparr>
      in case ka_guards s ! i of
           Caffeinated pid \<Rightarrow> s1\<lparr>ka_active := ka_active s - 1, ka_dying := ka_dying s @ [pid]\<rparr>
         | Missed \<Rightarrow> s1\<lparr>ka_failed := max (ka_failed s - 1) 0\<rparr>
         | Noop \<Rightarrow> s1)"

definition end_drop :: "nat \<Rightarrow> kill_end \<Rightarrow> awake \<Rightarrow> awake" where
  "end_drop pid e s =
     (let s1 = s\<lparr>ka_dying := remove1 pid (ka_dying s)\<rparr>
      in case e of
           Gone \<Rightarrow> s1\<lparr>ka_children := removeAll pid (ka_children s)\<rparr>
         | GaveUp \<Rightarrow> s1\<lparr>ka_lost := ka_lost s @ [pid]\<rparr>)"

section \<open>Interleavings\<close>

text \<open>
  What can happen to the process at any moment: a job acquires its guard (the kernel gives a child
  a pid that no process has, living or not yet waited for), a guard begins to drop, a teardown returns, a child dies
  without being asked.
\<close>

definition pids_of :: "guard list \<Rightarrow> nat set" where
  "pids_of gs = {pid. Caffeinated pid \<in> set gs}"

inductive awake_step :: "target_os \<Rightarrow> awake \<Rightarrow> awake \<Rightarrow> bool" for os where
  acquires: "(case spawned of None \<Rightarrow> True
      | Some pid \<Rightarrow> pid \<notin> set (ka_children s) \<union> set (ka_dying s) \<union> pids_of (ka_guards s))
     \<Longrightarrow> awake_step os s (acquire os spawned s)"
| begins_drop: "i < length (ka_guards s) \<Longrightarrow> awake_step os s (drop_guard i s)"
| ends_drop: "pid \<in> set (ka_dying s) \<Longrightarrow> kill_child_tree pid start polls = Some (sigs, e) \<Longrightarrow>
     awake_step os s (end_drop pid e s)"
| child_dies: "awake_step os s (s\<lparr>ka_children := removeAll pid (ka_children s)\<rparr>)"

inductive awake_reachable :: "target_os \<Rightarrow> awake \<Rightarrow> bool" for os where
  awake_init: "awake_reachable os awake_start"
| awake_next: "awake_reachable os s \<Longrightarrow> awake_step os s s' \<Longrightarrow> awake_reachable os s'"

inductive_cases awake_stepE: "awake_step os s s'"

definition missed :: "awake \<Rightarrow> nat" where
  "missed s = length (filter (\<lambda>g. g = Missed) (ka_guards s))"

definition held :: "awake \<Rightarrow> nat" where
  "held s = length (filter is_held (ka_guards s))"

text \<open>
  The counters count: each is the number of guards alive of its kind, off macOS nothing is ever
  held or missed, and every \<open>caffeinate\<close> that runs belongs to a guard, to a drop in progress or to a
  drop that gave up.
\<close>

definition awake_inv :: "target_os \<Rightarrow> awake \<Rightarrow> bool" where
  "awake_inv os s \<longleftrightarrow> ka_active s = int (held s) \<and> ka_failed s = int (missed s)
     \<and> (\<forall>g\<in>set (ka_guards s). g = Noop \<longleftrightarrow> os \<noteq> MacOs)
     \<and> set (ka_children s) \<subseteq> pids_of (ka_guards s) \<union> set (ka_dying s) \<union> set (ka_lost s)"

lemma pids_of_remove: "i < length gs \<Longrightarrow> pids_of gs \<subseteq>
    pids_of (remove_at i gs) \<union> (case gs ! i of Caffeinated pid \<Rightarrow> {pid} | _ \<Rightarrow> {})"
  by (auto simp: pids_of_def set_remove_at split: guard.splits)

lemma filter_remove_at:
  assumes "i < length xs"
  shows "length (filter P xs) = length (filter P (remove_at i xs)) + (if P (xs ! i) then 1 else 0)"
proof -
  have "xs = take i xs @ xs ! i # drop (Suc i) xs" using assms by (rule id_take_nth_drop)
  then have "filter P xs = filter P (take i xs) @ filter P (xs ! i # drop (Suc i) xs)"
    by (metis filter_append)
  then show ?thesis by (simp add: remove_at_def)
qed

lemma inv_start: "awake_inv os awake_start"
  by (simp add: awake_inv_def awake_start_def held_def missed_def pids_of_def)

lemma inv_acquire: "awake_inv os s \<Longrightarrow> awake_inv os (acquire os spawned s)"
  by (cases spawned; cases "os = MacOs")
     (auto simp: awake_inv_def acquire_def held_def missed_def pids_of_def)

lemma inv_drop:
  assumes "awake_inv os s" and "i < length (ka_guards s)"
  shows "awake_inv os (drop_guard i s)"
proof -
  note rm = filter_remove_at [OF assms(2), of is_held] filter_remove_at [OF assms(2), of "\<lambda>g. g = Missed"]
  note sub = subsetD [OF set_remove_at_subset [of i "ka_guards s"]]
  note pids = pids_of_remove [OF assms(2)]
  note inv = assms(1) [unfolded awake_inv_def held_def missed_def]
  show ?thesis
  proof (cases "ka_guards s ! i")
    case (Caffeinated pid)
    then have "drop_guard i s = s\<lparr>ka_guards := remove_at i (ka_guards s),
        ka_active := ka_active s - 1, ka_dying := ka_dying s @ [pid]\<rparr>"
      by (simp add: drop_guard_def Let_def)
    then show ?thesis
      using inv rm pids Caffeinated by (auto simp: awake_inv_def held_def missed_def dest: sub)
  next
    case Missed
    then have "drop_guard i s = s\<lparr>ka_guards := remove_at i (ka_guards s),
        ka_failed := max (ka_failed s - 1) 0\<rparr>"
      by (simp add: drop_guard_def Let_def)
    then show ?thesis
      using inv rm pids Missed by (auto simp: awake_inv_def held_def missed_def dest: sub)
  next
    case Noop
    then have "drop_guard i s = s\<lparr>ka_guards := remove_at i (ka_guards s)\<rparr>"
      by (simp add: drop_guard_def Let_def)
    then show ?thesis
      using inv rm pids Noop by (auto simp: awake_inv_def held_def missed_def dest: sub)
  qed
qed

lemma inv_end: "awake_inv os s \<Longrightarrow> awake_inv os (end_drop pid e s)"
  by (cases e) (auto simp: awake_inv_def end_drop_def held_def missed_def Let_def in_set_remove1)

lemma inv_dies: "awake_inv os s \<Longrightarrow> awake_inv os (s\<lparr>ka_children := removeAll pid (ka_children s)\<rparr>)"
  by (auto simp: awake_inv_def held_def missed_def)

lemma awake_reachable_inv: "awake_reachable os s \<Longrightarrow> awake_inv os s"
proof (induction rule: awake_reachable.induct)
  case (awake_next s s')
  from awake_next.hyps(2) awake_next.IH show ?case
    by (cases rule: awake_stepE) (auto intro: inv_acquire inv_drop inv_end inv_dies)
qed (rule inv_start)

lemma held_pos: "0 < held s \<longleftrightarrow> (\<exists>pid. Caffeinated pid \<in> set (ka_guards s))"
proof -
  have "0 < held s \<longleftrightarrow> (\<exists>g\<in>set (ka_guards s). is_held g)"
    by (auto simp: held_def length_greater_0_conv filter_empty_conv)
  moreover have "is_held g \<longleftrightarrow> (\<exists>pid. g = Caffeinated pid)" for g by (cases g) auto
  ultimately show ?thesis by metis
qed

lemma missed_pos: "0 < missed s \<longleftrightarrow> Missed \<in> set (ka_guards s)"
  by (auto simp: missed_def length_greater_0_conv filter_empty_conv)


text \<open>A cancelled job's guard drops while the next job's is held; then the node is idle.\<close>

definition overlap :: awake where
  "overlap = end_drop 11 Gone (drop_guard 0 (acquire MacOs (Some 12) (acquire MacOs (Some 11) awake_start)))"

lemma overlap_reachable: "awake_reachable MacOs overlap"
  unfolding overlap_def
proof (intro awake_next [OF _ awake_step.ends_drop [of _ _ 0 "[(Exited, 0)]" "[Term 11]"]]
    awake_next [OF _ awake_step.begins_drop] awake_next [OF _ awake_step.acquires] awake_init)
qed (simp_all add: awake_start_def acquire_def drop_guard_def kill_child_tree_def pids_of_def Let_def)


text \<open>
  A guard never looks at its child again: a child that died is still reported as held, against
  \<open>A live caffeinate child holds the assertion right now\<close>.
\<close>

theorem held_outlives_child:
  "\<exists>s. awake_reachable MacOs s \<and> current_state MacOs s = Some Held \<and> ka_children s = []"
proof -
  let ?s = "acquire MacOs (Some 11) awake_start"
  have "awake_reachable MacOs ?s"
    by (rule awake_next [OF awake_init awake_step.acquires]) (simp add: awake_start_def pids_of_def)
  then have "awake_reachable MacOs (?s\<lparr>ka_children := removeAll 11 (ka_children ?s)\<rparr>)"
    by (rule awake_next [OF _ awake_step.child_dies])
  then show ?thesis by (intro exI conjI) (auto simp: current_state_def acquire_def awake_start_def)
qed

section \<open>The teardown ends\<close>

lemma kill_poll_ends:
  "i < length polls \<Longrightarrow> deadline \<le> snd (polls ! i) \<Longrightarrow> kill_poll deadline pid polls \<noteq> None"
proof (induction polls arbitrary: i)
  case (Cons p ps)
  then show ?case by (cases p; cases "fst p"; cases i) auto
qed simp

text \<open>
  Dropping a guard takes a second. \<open>kill_child_tree\<close> sleeps 20 ms between two polls, so when the
  51st is due the deadline has passed: it returns by then whatever \<open>try_wait\<close> answers, having sent a
  \<open>TERM\<close> first and at most one \<open>KILL\<close>.
\<close>

theorem teardown_bounded:
  assumes "51 \<le> length polls" and "start + 50 * millis 20 \<le> snd (polls ! 50)"
  shows "\<exists>sigs e. kill_child_tree pid start polls = Some (Term pid # sigs, e) \<and> sigs \<in> {[], [Kill pid]}"
proof -
  have "kill_poll (start + secs 1) pid polls \<noteq> None"
    by (rule kill_poll_ends [of 50]) (use assms in simp_all)
  moreover have "kill_poll d pid ps = Some (sigs, e) \<Longrightarrow> sigs \<in> {[], [Kill pid]}" for d ps sigs e
    by (induction d pid ps rule: kill_poll.induct) (auto split: if_splits)
  ultimately show ?thesis by (auto simp: kill_child_tree_def)
qed

theorem teardown_bounded_witness:
  "\<exists>sigs e. kill_child_tree 11 0 (map (\<lambda>i. (Running, i * millis 20)) [0..<51]) = Some (Term 11 # sigs, e)"
  using teardown_bounded [of "map (\<lambda>i. (Running, i * millis 20)) [0..<51]" 0 11] by auto

end
