(* ===== verification/Snapshot.thy ===== *)
theory Snapshot
  imports Status Keepawake
begin

text \<open>
  The status file (\<open>daemon-status\<close>) one process writes and another reads: the lines the daemon's
  persist task builds (\<open>bins/decent/src/main.rs\<close>, \<open>Command::Start\<close>), its write-then-rename, and
  \<open>read_daemon_snapshot_from\<close>. How an \<open>f64\<close> is shown and parsed are arguments.
\<close>

section \<open>The writer\<close>

definition kv_line :: "string \<times> string \<Rightarrow> string" where
  "kv_line kv = fst kv @ CHR ''='' # snd kv @ [CHR 0x0A]"

fun show_connection :: "connection_state \<Rightarrow> string" where
  "show_connection Disconnected = ''Disconnected''"
| "show_connection Connecting = ''Connecting''"
| "show_connection Reconnecting = ''Reconnecting''"
| "show_connection Connected = ''Connected''"
| "show_connection Registered = ''Registered''"

fun show_phase :: "job_phase \<Rightarrow> string" where
  "show_phase Downloading = ''Downloading''"
| "show_phase Rendering = ''Rendering''"
| "show_phase Uploading = ''Uploading''"
| "show_phase Done = ''Done''"
| "show_phase Failed = ''Failed''"
| "show_phase Canceled = ''Canceled''"

definition show_bool :: "bool \<Rightarrow> string" where
  "show_bool b = (if b then ''true'' else ''false'')"

definition unwrap_str :: "string option \<Rightarrow> string" where
  "unwrap_str s = (case s of Some v \<Rightarrow> v | None \<Rightarrow> [])"

definition snapshot_fields :: "(f64 \<Rightarrow> string) \<Rightarrow> keep_awake_state option \<Rightarrow> string \<Rightarrow> supervisor_status
    \<Rightarrow> (string \<times> string) list" where
  "snapshot_fields show_f64 ka version s =
     [(''connection'', show_connection (ss_connection s)),
      (''dispatch_url'', unwrap_str (ss_dispatch_url s)),
      (''current_job_id'', unwrap_str (map_option js_id (ss_current_job s))),
      (''current_job_phase'', unwrap_str (map_option (\<lambda>j. show_phase (js_phase j)) (ss_current_job s))),
      (''current_job_progress'', unwrap_str (map_option (\<lambda>j. show_f64 (js_progress j)) (ss_current_job s))),
      (''keep_awake'', unwrap_str (map_option as_token ka)),
      (''jobs_completed'', show_nat (unat (ss_jobs_completed s))),
      (''jobs_failed'', show_nat (unat (ss_jobs_failed s))),
      (''jobs_canceled'', show_nat (unat (ss_jobs_canceled s))),
      (''allow_real_jobs'', show_bool (ss_allow_real_jobs s)),
      (''auto_upgrade_enabled'', show_bool (ss_auto_upgrade_enabled s)),
      (''update_available'', unwrap_str (ss_update_available s)),
      (''supervisor_version'', version)]"

definition snapshot_text :: "(f64 \<Rightarrow> string) \<Rightarrow> keep_awake_state option \<Rightarrow> string \<Rightarrow> nat \<Rightarrow> supervisor_status
    \<Rightarrow> string" where
  "snapshot_text show_f64 ka version now_ms s =
     concat (map kv_line (snapshot_fields show_f64 ka version s @ [(''updated_at_ms'', show_nat now_ms)]))"

text \<open>The write: a temporary sibling, then a rename over the target.\<close>

definition persist_snapshot :: "bool \<Rightarrow> string \<Rightarrow> bool \<Rightarrow> string \<Rightarrow> (string \<Rightarrow> string option)
    \<Rightarrow> (string \<Rightarrow> string option)" where
  "persist_snapshot write_ok left rename_ok snap fs =
     (if \<not> write_ok then fs(''daemon-status.tmp'' \<mapsto> left)
      else let fs1 = fs(''daemon-status.tmp'' \<mapsto> snap)
           in if rename_ok then fs1(''daemon-status.tmp'' := None, ''daemon-status'' \<mapsto> snap) else fs1)"

section \<open>The reader\<close>

definition split_kv :: "string \<Rightarrow> (string \<times> string) option" where
  "split_kv l =
     (case split_on CHR ''='' l of
        k # v # vs \<Rightarrow> Some (k, join_with CHR ''='' (v # vs))
      | _ \<Rightarrow> None)"

definition kv_map :: "string \<Rightarrow> string \<Rightarrow> string option" where
  "kv_map content = fold (\<lambda>(k, v) m. m(k \<mapsto> v)) (List.map_filter split_kv (lines_of content)) Map.empty"

definition parse_bool :: "string \<Rightarrow> bool option" where
  "parse_bool s = (if s = ''true'' then Some True else if s = ''false'' then Some False else None)"

definition unwrap_nat :: "nat option \<Rightarrow> nat" where
  "unwrap_nat n = (case n of Some v \<Rightarrow> v | None \<Rightarrow> 0)"

record daemon_snapshot =
  ds_connection :: string
  ds_current_job :: "(string \<times> string \<times> f64) option"
  ds_keep_awake :: "keep_awake_state option"
  ds_jobs_completed :: nat
  ds_jobs_failed :: nat
  ds_jobs_canceled :: nat
  ds_auto_upgrade_enabled :: bool
  ds_update_available :: "string option"
  ds_supervisor_version :: "string option"
  ds_updated_at_ms :: nat

definition nonempty :: "string \<Rightarrow> string option" where
  "nonempty s = (if s = [] then None else Some s)"

text \<open>\<open>content\<close> is nothing when the file cannot be read.\<close>

definition read_snapshot :: "(string \<Rightarrow> f64 option) \<Rightarrow> string option \<Rightarrow> daemon_snapshot option" where
  "read_snapshot parse_f64 content =
     (case content of
        None \<Rightarrow> None
      | Some text \<Rightarrow>
          (let val = (\<lambda>k. unwrap_str (kv_map text k));
               num = (\<lambda>k. unwrap_nat (parse_uint u64_bound (val k)))
           in case parse_uint u64_bound (val ''updated_at_ms'') of
                None \<Rightarrow> None
              | Some t \<Rightarrow> Some
                  \<lparr>ds_connection = val ''connection'',
                   ds_current_job =
                     (if val ''current_job_id'' = [] then None
                      else Some (val ''current_job_id'', val ''current_job_phase'',
                             (case parse_f64 (val ''current_job_progress'') of Some p \<Rightarrow> p | None \<Rightarrow> 0))),
                   ds_keep_awake = from_token (val ''keep_awake''),
                   ds_jobs_completed = num ''jobs_completed'',
                   ds_jobs_failed = num ''jobs_failed'',
                   ds_jobs_canceled = num ''jobs_canceled'',
                   ds_auto_upgrade_enabled = (parse_bool (val ''auto_upgrade_enabled'') = Some True),
                   ds_update_available = nonempty (val ''update_available''),
                   ds_supervisor_version = nonempty (val ''supervisor_version''),
                   ds_updated_at_ms = t\<rparr>))"

definition FRESH_WINDOW_MS :: nat where "FRESH_WINDOW_MS = 15000"

definition is_fresh_at :: "nat \<Rightarrow> daemon_snapshot \<Rightarrow> bool" where
  "is_fresh_at now s = (now - ds_updated_at_ms s \<le> FRESH_WINDOW_MS)"

section \<open>Reading back what was written\<close>

lemma kv_line_pair [simp]: "kv_line (k, v) = k @ CHR ''='' # v @ [CHR 0x0A]"
  by (simp add: kv_line_def)

text \<open>A value that stays on its line, and a key that splits off.\<close>

definition clean_value :: "string \<Rightarrow> bool" where
  "clean_value v = (CHR 0x0A \<notin> set v \<and> (v = [] \<or> last v \<noteq> CHR 0x0D))"

definition clean_key :: "string \<Rightarrow> bool" where
  "clean_key k = (CHR ''='' \<notin> set k \<and> CHR 0x0A \<notin> set k)"

lemma split_kv_line: "CHR ''='' \<notin> set k \<Longrightarrow> split_kv (k @ CHR ''='' # v) = Some (k, v)"
proof -
  assume k: "CHR ''='' \<notin> set k"
  obtain p ps where ps: "split_on CHR ''='' v = p # ps" by (cases "split_on CHR ''='' v") auto
  have "split_on CHR ''='' (k @ CHR ''='' # v) = k # p # ps"
    using k by (simp add: split_on_append_sep split_on_no_sep ps)
  moreover have "join_with CHR ''='' (p # ps) = v" by (metis join_split_on ps)
  ultimately show ?thesis by (simp add: split_kv_def)
qed

lemma lines_of_fields:
  assumes "list_all (\<lambda>(k, v). clean_key k \<and> clean_value v) kvs"
  shows "lines_of (concat (map kv_line kvs) @ t) = map (\<lambda>(k, v). k @ CHR ''='' # v) kvs @ lines_of t"
  using assms
proof (induction kvs)
  case (Cons kv kvs)
  obtain k v where kv: "kv = (k, v)" by (cases kv)
  have "lines_of ((k @ CHR ''='' # v) @ CHR 0x0A # (concat (map kv_line kvs) @ t))
      = (k @ CHR ''='' # v) # lines_of (concat (map kv_line kvs) @ t)"
    by (rule lines_of_line) (use Cons.prems kv in \<open>auto simp: clean_key_def clean_value_def\<close>)
  then show ?case using Cons by (simp add: kv)
qed simp

lemma kv_map_fields:
  assumes "list_all (\<lambda>(k, v). clean_key k \<and> clean_value v) kvs"
  shows "kv_map (concat (map kv_line kvs) @ t)
    = fold (\<lambda>(k, v) m. m(k \<mapsto> v)) (kvs @ List.map_filter split_kv (lines_of t)) Map.empty"
proof -
  have "List.map_filter split_kv (map (\<lambda>(k, v). k @ CHR ''='' # v) kvs @ ls)
      = kvs @ List.map_filter split_kv ls" for ls
    using assms
    by (induction kvs) (auto simp: List.map_filter_simps split_kv_line clean_key_def)
  then show ?thesis unfolding kv_map_def by (simp add: lines_of_fields [OF assms])
qed

lemma fold_upd_notin: "k \<notin> fst ` set kvs \<Longrightarrow> fold (\<lambda>(k, v) m. m(k \<mapsto> v)) kvs m k = m k"
  by (induction kvs arbitrary: m) auto

lemma fold_upd_distinct:
  "distinct (map fst kvs) \<Longrightarrow> fold (\<lambda>(k, v) m. m(k \<mapsto> v)) kvs Map.empty = map_of kvs"
proof (induction kvs rule: rev_induct)
  case (snoc kv kvs)
  then show ?case by (cases kv) (auto simp: fun_eq_iff map_add_def map_of_eq_None_iff intro: rev_image_eqI split: option.splits)
qed simp

definition status_clean :: "(f64 \<Rightarrow> string) \<Rightarrow> string \<Rightarrow> supervisor_status \<Rightarrow> bool" where
  "status_clean show_f64 version s \<longleftrightarrow> clean_value version
     \<and> clean_value (unwrap_str (ss_dispatch_url s)) \<and> clean_value (unwrap_str (ss_update_available s))
     \<and> (case ss_current_job s of None \<Rightarrow> True
        | Some j \<Rightarrow> clean_value (js_id j) \<and> clean_value (show_f64 (js_progress j)))"

lemma clean_shown [simp]:
  "clean_value []" "clean_value (show_bool b)" "clean_value (as_token ka)"
  by (simp_all add: clean_value_def show_bool_def as_token_clean)

lemma clean_debug [simp]: "clean_value (show_connection c)" "clean_value (show_phase p)"
  by (cases c; simp add: clean_value_def) (cases p; simp add: clean_value_def)

lemma clean_show_nat [simp]: "clean_value (show_nat n)"
proof -
  have l: "last (show_nat n) \<in> set (show_nat n)" by simp
  have "CHR 0x0D \<notin> set (show_nat n)" "CHR 0x0A \<notin> set (show_nat n)" by (simp_all add: show_nat_not_in)
  then show ?thesis using l unfolding clean_value_def by metis
qed

lemma fields_clean:
  assumes "status_clean show_f64 version s"
  shows "list_all (\<lambda>(k, v). clean_key k \<and> clean_value v) (snapshot_fields show_f64 ka version s)"
  using assms
  by (cases "ss_current_job s"; cases ka)
     (simp_all add: snapshot_fields_def status_clean_def clean_key_def unwrap_str_def)

lemma snapshot_text_split:
  "snapshot_text show_f64 ka version t s
     = concat (map kv_line (snapshot_fields show_f64 ka version s))
       @ ''updated_at_ms='' @ show_nat t @ [CHR 0x0A]"
  by (simp add: snapshot_text_def)

lemma fields_keys:
  "map fst (snapshot_fields show_f64 ka version s) = [''connection'', ''dispatch_url'', ''current_job_id'',
     ''current_job_phase'', ''current_job_progress'', ''keep_awake'', ''jobs_completed'', ''jobs_failed'',
     ''jobs_canceled'', ''allow_real_jobs'', ''auto_upgrade_enabled'', ''update_available'',
     ''supervisor_version'']"
  by (simp add: snapshot_fields_def)

lemma kv_map_snapshot:
  assumes "status_clean show_f64 version s"
  shows "kv_map (snapshot_text show_f64 ka version t s)
    = map_of (snapshot_fields show_f64 ka version s @ [(''updated_at_ms'', show_nat t)])"
proof -
  let ?kvs = "snapshot_fields show_f64 ka version s @ [(''updated_at_ms'', show_nat t)]"
  have c: "list_all (\<lambda>(k, v). clean_key k \<and> clean_value v) ?kvs"
    using fields_clean [OF assms, of ka] by (simp add: clean_key_def)
  have "distinct (map fst ?kvs)" by (simp add: fields_keys)
  then show ?thesis
    using kv_map_fields [OF c, of "[]"] fold_upd_distinct [of ?kvs]
    by (simp add: snapshot_text_def List.map_filter_simps)
qed

text \<open>
  C31: What the daemon writes is what \<open>decent status\<close> shows. For a status whose texts stay on one line
  and whose progress survives the float's own text, reading the file back yields the connection,
  the job with its phase and progress, the assertion, the counters, the flag, the offered update,
  the version and the time that were written; only an empty job id or version text reads as none.
\<close>

theorem snapshot_round_trip:
  assumes "status_clean show_f64 version s" and "t < u64_bound"
    and "case ss_current_job s of None \<Rightarrow> True
         | Some j \<Rightarrow> parse_f64 (show_f64 (js_progress j)) = Some (js_progress j)"
  shows "read_snapshot parse_f64 (Some (snapshot_text show_f64 ka version t s)) = Some
     \<lparr>ds_connection = show_connection (ss_connection s),
      ds_current_job = (case ss_current_job s of None \<Rightarrow> None
        | Some j \<Rightarrow> if js_id j = [] then None else Some (js_id j, show_phase (js_phase j), js_progress j)),
      ds_keep_awake = ka,
      ds_jobs_completed = unat (ss_jobs_completed s), ds_jobs_failed = unat (ss_jobs_failed s),
      ds_jobs_canceled = unat (ss_jobs_canceled s),
      ds_auto_upgrade_enabled = ss_auto_upgrade_enabled s,
      ds_update_available = nonempty (unwrap_str (ss_update_available s)),
      ds_supervisor_version = nonempty version, ds_updated_at_ms = t\<rparr>"
proof -
  have b: "(parse_bool (show_bool b) = Some True) = b" for b
    by (simp add: parse_bool_def show_bool_def)
  have k: "from_token (unwrap_str (map_option as_token ka)) = ka"
    by (cases ka) (simp_all add: unwrap_str_def)
  show ?thesis
    using assms(2,3)
    by (cases "ss_current_job s")
       (simp_all add: read_snapshot_def kv_map_snapshot [OF assms(1)] snapshot_fields_def Let_def
         parse_show_nat b k unwrap_str_def [where s = "Some _"] unwrap_nat_def unwrap_str_def [where s = None])
qed

section \<open>Torn files\<close>

text \<open>A line of a cut text is the beginning of a line of the whole.\<close>

lemma lines_of_piece:
  assumes "l \<in> set (lines_of s)"
  shows "\<exists>p\<in>set (split_on CHR 0x0A s). prefix l p"
proof -
  let ?ps = "split_on CHR 0x0A s"
  from assms have "(\<exists>p\<in>set (butlast ?ps). l = strip_cr p) \<or> l = last ?ps"
    by (auto simp: lines_of_def Let_def split: if_splits)
  then show ?thesis
  proof (elim disjE bexE)
    fix p assume "p \<in> set (butlast ?ps)" "l = strip_cr p"
    moreover have "prefix (strip_cr p) p" by (simp add: strip_cr_def prefixeq_butlast)
    ultimately show ?thesis by (blast dest: in_set_butlastD)
  next
    assume "l = last ?ps"
    moreover have "last ?ps \<in> set ?ps" by (rule last_in_set) simp
    ultimately show ?thesis by blast
  qed
qed

lemma split_on_cut:
  assumes "p \<in> set (split_on c (take n s))"
  shows "\<exists>q\<in>set (split_on c s). prefix p q"
proof -
  let ?ps = "split_on c (take n s)"
  have "p \<in> set (butlast ?ps @ [last ?ps])"
    using assms by (simp only: append_butlast_last_id [OF split_on_neq_Nil])
  then have "p \<in> set (butlast ?ps) \<or> p = last ?ps" by (auto simp del: append_butlast_last_id)
  moreover have "split_on c s = butlast ?ps @ (last ?ps @ hd (split_on c (drop n s))) # tl (split_on c (drop n s))"
    using split_on_append [of c "take n s" "drop n s"] by simp
  ultimately show ?thesis by (metis in_set_conv_decomp Un_iff prefixI prefix_order.order_refl set_append)
qed

lemma lines_of_cut: "l \<in> set (lines_of (take n s)) \<Longrightarrow> \<exists>q\<in>set (split_on CHR 0x0A s). prefix l q"
  by (meson lines_of_piece split_on_cut prefix_order.trans)

lemma split_on_fields:
  assumes "list_all (\<lambda>(k, v). clean_key k \<and> clean_value v) kvs"
  shows "split_on CHR 0x0A (concat (map kv_line kvs)) = map (\<lambda>(k, v). k @ CHR ''='' # v) kvs @ [[]]"
  using assms
proof (induction kvs)
  case (Cons kv kvs)
  obtain k v where kv: "kv = (k, v)" by (cases kv)
  have "CHR 0x0A \<notin> set (k @ CHR ''='' # v)"
    using Cons.prems kv by (auto simp: clean_key_def clean_value_def)
  then have "split_on CHR 0x0A ((k @ CHR ''='' # v) @ CHR 0x0A # concat (map kv_line kvs))
      = (k @ CHR ''='' # v) # split_on CHR 0x0A (concat (map kv_line kvs))"
    by (metis append_Cons append_Nil split_on_append_sep split_on_no_sep)
  then show ?case using Cons by (simp add: kv)
qed simp

lemma split_kv_cut:
  assumes "prefix l (k @ CHR ''='' # v)" and "clean_key k" and "split_kv l = Some (k', v')"
  shows "k' = k"
proof -
  from assms(1) obtain r where r: "k @ CHR ''='' # v = l @ r" by (auto simp: prefix_def)
  show ?thesis
  proof (cases "length l \<le> length k")
    case True
    then have "set l \<subseteq> set k" using r by (metis append_eq_append_conv_if set_take_subset)
    then have "split_on CHR ''='' l = [l]"
      using assms(2) by (intro split_on_no_sep) (auto simp: clean_key_def)
    then show ?thesis using assms(3) by (simp add: split_kv_def)
  next
    case False
    then obtain w where "l = k @ CHR ''='' # w"
      using r by (auto simp: append_eq_append_conv2 Cons_eq_append_conv)
    then show ?thesis using assms(2,3) split_kv_line [of k w] by (simp add: clean_key_def)
  qed
qed

text \<open>A cut before the last line leaves no time to read.\<close>

lemma cut_fields_no_time:
  assumes "list_all (\<lambda>(k, v). clean_key k \<and> clean_value v) kvs" and "key \<notin> fst ` set kvs"
  shows "kv_map (take n (concat (map kv_line kvs))) key = None"
proof -
  let ?t = "take n (concat (map kv_line kvs))"
  have "key \<notin> fst ` set (List.map_filter split_kv (lines_of ?t))"
  proof
    assume "key \<in> fst ` set (List.map_filter split_kv (lines_of ?t))"
    then obtain v l where l: "l \<in> set (lines_of ?t)" "split_kv l = Some (key, v)"
      by (auto simp: List.map_filter_def)
    from lines_of_cut [OF l(1)] obtain q where "q \<in> set (split_on CHR 0x0A (concat (map kv_line kvs)))"
        "prefix l q" by blast
    then obtain k w where "(k, w) \<in> set kvs \<and> prefix l (k @ CHR ''='' # w) \<or> l = []"
      unfolding split_on_fields [OF assms(1)] by auto
    moreover have "l \<noteq> []" using l(2) by (auto simp: split_kv_def)
    ultimately have kw: "(k, w) \<in> set kvs" "prefix l (k @ CHR ''='' # w)" by simp_all
    then have "clean_key k" using assms(1) by (auto simp: list_all_iff)
    from split_kv_cut [OF kw(2) this l(2)] have "key = k" .
    then show False using kw(1) assms(2) by (auto intro: rev_image_eqI)
  qed
  then show ?thesis unfolding kv_map_def by (simp add: fold_upd_notin)
qed

lemma cut_digits:
  "0 < k \<Longrightarrow> k < length (show_nat n) \<Longrightarrow> \<exists>m. take k (show_nat n) = show_nat m \<and> m \<le> n div 10"
proof (induction n rule: show_nat.induct)
  case (1 n)
  show ?case
  proof (cases "n < 10")
    case False
    then have sn: "show_nat n = show_nat (n div 10) @ [digit_char (n mod 10)]"
      by (simp add: show_nat.simps [of n])
    show ?thesis
    proof (cases "k = length (show_nat (n div 10))")
      case True
      then show ?thesis using sn by auto
    next
      case k: False
      with "1.prems" sn obtain m where "take k (show_nat (n div 10)) = show_nat m" "m \<le> n div 10 div 10"
        using "1.IH" [OF False] by auto
      then show ?thesis using "1.prems" sn k by (auto intro!: exI [of _ m])
    qed
  qed (use "1.prems" in \<open>simp add: show_nat.simps [of n]\<close>)
qed

lemma time_of_tail:
  assumes "list_all (\<lambda>(k, v). clean_key k \<and> clean_value v) kvs" and "key \<notin> fst ` set kvs"
    and "CHR ''='' \<notin> set key" and "CHR 0x0A \<notin> set key \<union> set d" and "key \<noteq> []"
  shows "kv_map (concat (map kv_line kvs) @ take m (key @ [CHR ''=''])) key = (if length key < m then Some [] else None)"
    and "kv_map (concat (map kv_line kvs) @ key @ CHR ''='' # d) key = Some d"
proof -
  have one: "lines_of w = (if w = [] then [] else [w])" if "CHR 0x0A \<notin> set w" for w
    using that by (simp add: lines_of_def split_on_no_sep)
  have "CHR 0x0A \<notin> set (take m (key @ [CHR ''='']))" "CHR 0x0A \<notin> set (key @ CHR ''='' # d)"
    using assms(4) by (auto dest: in_set_takeD)
  note l = this [THEN one]
  show "kv_map (concat (map kv_line kvs) @ key @ CHR ''='' # d) key = Some d"
    using assms(3) by (simp add: kv_map_fields [OF assms(1)] l List.map_filter_simps split_kv_line)
  show "kv_map (concat (map kv_line kvs) @ take m (key @ [CHR ''=''])) key = (if length key < m then Some [] else None)"
  proof (cases "length key < m")
    case True
    then have "take m (key @ [CHR ''='']) = key @ [CHR ''='']" by simp
    then show ?thesis
      using True l(1) assms(3) split_kv_line [of key "[]"]
      by (simp add: kv_map_fields [OF assms(1)] List.map_filter_simps)
  next
    case False
    then have t: "take m (key @ [CHR ''='']) = take m key" by simp
    have "CHR ''='' \<notin> set (take m key)" using assms(3) by (auto dest: in_set_takeD)
    then have "split_kv (take m key) = None" by (simp add: split_kv_def split_on_no_sep)
    then show ?thesis
      using False l(1) assms(2) t
      by (auto simp: kv_map_fields [OF assms(1)] List.map_filter_simps fold_upd_notin split: if_splits)
  qed
qed

lemma snapshot_cut:
  assumes "i \<le> length (show_nat t)"
  shows "take (length (concat (map kv_line (snapshot_fields show_f64 ka version s))) + (14 + i))
      (snapshot_text show_f64 ka version t s)
    = concat (map kv_line (snapshot_fields show_f64 ka version s)) @ ''updated_at_ms'' @ CHR ''='' # take i (show_nat t)"
proof -
  have len: "length ''updated_at_ms='' = 14" by simp
  have drop: "take (length w + l) (w @ r) = w @ take l r" for w r :: string and l by simp
  have "take (14 + i) (''updated_at_ms='' @ show_nat t @ [CHR 0x0A])
      = ''updated_at_ms='' @ take i (show_nat t @ [CHR 0x0A])"
    unfolding len [symmetric] by (rule drop)
  moreover have "take i (show_nat t @ [CHR 0x0A]) = take i (show_nat t)" using assms by simp
  ultimately have "take (14 + i) (''updated_at_ms='' @ show_nat t @ [CHR 0x0A])
      = ''updated_at_ms'' @ CHR ''='' # take i (show_nat t)" by simp
  then show ?thesis unfolding snapshot_text_split by (simp only: drop)
qed

text \<open>A torn file names no time, an empty one, or one with a digit less.\<close>

lemma torn_time:
  assumes "status_clean show_f64 version s" and "n + 1 < length (snapshot_text show_f64 ka version t s)"
    and "torn = take n (snapshot_text show_f64 ka version t s)"
  shows "kv_map torn ''updated_at_ms'' = None \<or> kv_map torn ''updated_at_ms'' = Some []
      \<or> (\<exists>m. kv_map torn ''updated_at_ms'' = Some (show_nat m) \<and> m \<le> t div 10)"
proof -
  let ?key = "''updated_at_ms''"
  let ?kvs = "snapshot_fields show_f64 ka version s"
  let ?pre = "concat (map kv_line ?kvs)"
  let ?text = "take n (snapshot_text show_f64 ka version t s)"
  note clean = fields_clean [OF assms(1), of ka]
  have new: "?key \<notin> fst ` set ?kvs"
    by (simp add: fields_keys [of show_f64 ka version s] flip: set_map)
  have k: "CHR ''='' \<notin> set ?key" "CHR 0x0A \<notin> set ?key \<union> set d \<longleftrightarrow> CHR 0x0A \<notin> set d" "?key \<noteq> []" for d
    by simp_all
  note tail = time_of_tail [OF clean new k(1) _ k(3)]
  show ?thesis
  proof (cases "n \<le> length ?pre")
    case True
    then show ?thesis using cut_fields_no_time [OF clean new, of n] by (simp add: assms(3) snapshot_text_split)
  next
    case False
    then obtain j where j: "n = length ?pre + j" by (metis le_iff_add nat_le_linear)
    have jl: "j < 14 + length (show_nat t)" using assms(2) j by (simp add: snapshot_text_split)
    show ?thesis
    proof (cases "j \<le> 14")
      case True
      have "take j ((?key @ [CHR ''='']) @ r) = take j (?key @ [CHR ''=''])" for r
        by (subst take_append) (use True in simp)
      then have "?text = ?pre @ take j (?key @ [CHR ''=''])" by (simp add: snapshot_text_split j)
      then show ?thesis using tail(1) [of "[]" j] by (simp add: assms(3))
    next
      case False
      define i where "i = j - 14"
      have i: "0 < i" "i < length (show_nat t)" "j = 14 + i" using False jl by (auto simp: i_def)
      obtain m where m: "take i (show_nat t) = show_nat m" "m \<le> t div 10" using cut_digits [OF i(1,2)] by blast
      have "?text = ?pre @ ?key @ CHR ''='' # show_nat m"
        using snapshot_cut [of i t show_f64 ka version s] i m(1) by (simp add: j)
      moreover have "CHR 0x0A \<notin> set (show_nat m)" by (simp add: show_nat_not_in)
      ultimately show ?thesis using tail(2) [of "show_nat m"] m(2) by (auto simp: assms(3))
    qed
  qed
qed

text \<open>
  A torn status file is never shown as live. Cut anywhere before the last digit of its time, a
  file written at \<open>t\<close> either yields no snapshot at all or one that was already stale when it was
  written: the digits that are left are a time at least nine tenths of \<open>t\<close> earlier.
\<close>

theorem torn_snapshot_never_fresh:
  assumes "status_clean show_f64 version s" and "16667 \<le> t" and "t < u64_bound" and "t \<le> now"
    and "n + 1 < length (snapshot_text show_f64 ka version t s)"
  shows "case read_snapshot parse_f64 (Some (take n (snapshot_text show_f64 ka version t s))) of
       None \<Rightarrow> True | Some d \<Rightarrow> \<not> is_fresh_at now d"
proof -
  let ?torn = "take n (snapshot_text show_f64 ka version t s)"
  from torn_time [OF assms(1,5) refl] show ?thesis
  proof (elim disjE exE conjE)
    fix m assume m: "kv_map ?torn ''updated_at_ms'' = Some (show_nat m)" "m \<le> t div 10"
    have "parse_uint u64_bound (show_nat m) = Some m" by (rule parse_show_nat) (use m(2) assms(3) in simp)
    moreover have "FRESH_WINDOW_MS < now - m"
      using m(2) assms(2,4) by (simp add: FRESH_WINDOW_MS_def)
    ultimately show ?thesis
      using m(1) by (simp add: read_snapshot_def Let_def unwrap_str_def is_fresh_at_def)
  qed (simp_all add: read_snapshot_def Let_def unwrap_str_def parse_uint_def)
qed

definition busy_status :: supervisor_status where
  "busy_status = default_status\<lparr>ss_connection := Registered, ss_current_job := Some
     \<lparr>js_id = ''job-7'', js_tier = ''standard'', js_progress = 1 / 2, js_phase = Rendering\<rparr>,
     ss_update_available := Some ''0.0.14''\<rparr>"

lemma busy_clean: "status_clean (\<lambda>p. ''0.5'') ''0.0.13'' busy_status"
  by (simp add: busy_status_def status_clean_def clean_value_def unwrap_str_def default_status_def)

theorem snapshot_round_trip_witness:
  "map_option ds_current_job (read_snapshot (\<lambda>t. if t = ''0.5'' then Some (1 / 2) else None)
     (Some (snapshot_text (\<lambda>p. ''0.5'') (Some Held) ''0.0.13'' 20000 busy_status)))
   = Some (Some (''job-7'', ''Rendering'', 1 / 2))"
  using snapshot_round_trip [OF busy_clean, of 20000 "\<lambda>t. if t = ''0.5'' then Some (1 / 2) else None" "Some Held"]
  by (simp add: busy_status_def default_status_def u64_bound_def)

theorem torn_snapshot_never_fresh_witness:
  "(case read_snapshot (\<lambda>t. None) (Some (take 5 (snapshot_text (\<lambda>p. ''0.5'') None ''0.0.13'' 20000 busy_status))) of
      None \<Rightarrow> True | Some d \<Rightarrow> \<not> is_fresh_at 20000 d)"
  by (rule torn_snapshot_never_fresh [OF busy_clean]) (simp_all add: u64_bound_def snapshot_text_split)

text \<open>
  The time itself is no torn signal, against the comment of the reader: with its last digit cut off
  the file still yields a snapshot, of another time.
\<close>

theorem torn_time_still_parses:
  assumes "status_clean show_f64 version s" and "10 \<le> t" and "t < u64_bound"
  shows "\<exists>n. n + 1 < length (snapshot_text show_f64 ka version t s)
     \<and> read_snapshot parse_f64 (Some (take n (snapshot_text show_f64 ka version t s))) \<noteq> None"
proof -
  let ?pre = "concat (map kv_line (snapshot_fields show_f64 ka version s))"
  have sn: "show_nat t = show_nat (t div 10) @ [digit_char (t mod 10)]"
    using assms(2) by (simp add: show_nat.simps [of t])
  let ?i = "length (show_nat (t div 10))"
  let ?n = "length ?pre + (14 + ?i)"
  have "take ?n (snapshot_text show_f64 ka version t s) = ?pre @ ''updated_at_ms'' @ CHR ''='' # show_nat (t div 10)"
    using snapshot_cut [of ?i t show_f64 ka version s] sn by simp
  moreover have "kv_map (?pre @ ''updated_at_ms'' @ CHR ''='' # show_nat (t div 10)) ''updated_at_ms''
      = Some (show_nat (t div 10))"
    by (rule time_of_tail(2) [OF fields_clean [OF assms(1)]])
       (auto simp: show_nat_not_in fields_keys [of show_f64 ka version s] simp flip: set_map)
  moreover have "parse_uint u64_bound (show_nat (t div 10)) = Some (t div 10)"
    by (rule parse_show_nat) (use assms(3) in simp)
  ultimately have "read_snapshot parse_f64 (Some (take ?n (snapshot_text show_f64 ka version t s))) \<noteq> None"
    by (simp add: read_snapshot_def Let_def unwrap_str_def)
  moreover have "?n + 1 < length (snapshot_text show_f64 ka version t s)"
    by (simp add: snapshot_text_split sn)
  ultimately show ?thesis by blast
qed

text \<open>The reader sees what the last successful rename left, whatever became of the temporary file.\<close>

lemma persist_all_or_nothing:
  "persist_snapshot w left r snap fs ''daemon-status'' \<in> {fs ''daemon-status'', Some snap}"
  "persist_snapshot True left True snap fs ''daemon-status'' = Some snap"
  by (auto simp: persist_snapshot_def Let_def)

end
