(* ===== verification/Doctor.thy ===== *)
theory Doctor
  imports Snapshot Credentials Versions Service_Host
begin

text \<open>
  \<open>decent doctor\<close> and the update line of \<open>decent status\<close> (\<open>bins/decent/src/main.rs\<close>): whether the
  running daemon is the installed binary, the verdict of each check, the exit code. A line of text
  the code formats is a constructor with the values it interpolates. What the file system, the
  service manager, the network and the clock answer are arguments.
\<close>

section \<open>Is the daemon the installed binary?\<close>

datatype daemon_binary = BinaryCurrent | BinaryStale "string option" | BinaryUnknown

definition reports_version :: "string \<Rightarrow> bool" where
  "reports_version installed =
     (case map (parse_uint u32_bound) (split_on CHR ''.'' (trim_start_matches ''v'' installed)) of
        Some a # Some b # Some c # _ \<Rightarrow> Version 0 0 11 \<le> Version a b c
      | _ \<Rightarrow> False)"

definition daemon_binary_state :: "string \<Rightarrow> string option \<Rightarrow> string option \<Rightarrow> daemon_binary" where
  "daemon_binary_state installed snapshot_version update_available =
     (case snapshot_version of
        Some v \<Rightarrow> if v = installed then BinaryCurrent else BinaryStale (Some v)
      | None \<Rightarrow>
          if update_available = Some installed then BinaryStale None
          else if reports_version installed then BinaryStale None
          else BinaryUnknown)"

datatype update_text =
    UpAvailable string | UpToDate | UpNotRegistered
  | StaleDaemon string "string option"

definition update_line :: "string option \<Rightarrow> string \<Rightarrow> update_text" where
  "update_line update_available connection =
     (case update_available of
        Some v \<Rightarrow> UpAvailable v
      | None \<Rightarrow> if connection = ''Registered'' then UpToDate else UpNotRegistered)"

definition status_update_line :: "string option \<Rightarrow> string \<Rightarrow> string \<Rightarrow> string option \<Rightarrow> update_text" where
  "status_update_line update_available connection installed snapshot_version =
     (case daemon_binary_state installed snapshot_version update_available of
        BinaryStale running \<Rightarrow> StaleDaemon installed running
      | _ \<Rightarrow> update_line update_available connection)"

section \<open>Checks\<close>

datatype level = LevelOk | LevelWarn | LevelFail

datatype check_detail =
    FileMode nat | DirMode nat | ExpMissing | ExpiredDaysAgo nat | ExpiresSoon nat | ExpiresIn nat
  | TokenPathError string | NoWorkerToken | TokenMalformed token_error
  | InstalledAndRunning | InstalledPaused | DaemonMissing
  | Reports string | StaleFor nat | NoStatusFile
  | NoLog | LogMode nat | LogKib nat
  | Reachable string | Answered string nat | Unreachable string
  | DiskFull nat | DiskTight nat | DiskFree nat | DiskUnknown
  | StaleBinary string "string option" | NewerAvailable string string | VersionUpToDate string
  | WithPlatform check_detail platform

record check =
  ck_name :: string
  ck_level :: level
  ck_detail :: check_detail

definition mk :: "string \<Rightarrow> level \<Rightarrow> check_detail \<Rightarrow> check" where
  "mk name l d = \<lparr>ck_name = name, ck_level = l, ck_detail = d\<rparr>"

lemma mk_sel [simp]: "ck_name (mk n l d) = n" "ck_level (mk n l d) = l" "ck_detail (mk n l d) = d"
  by (simp_all add: mk_def)

fun level_prefix :: "level \<Rightarrow> string" where
  "level_prefix LevelOk = ''OK  ''"
| "level_prefix LevelWarn = ''WARN ''"
| "level_prefix LevelFail = ''FAIL ''"

definition render_check :: "(check_detail \<Rightarrow> string) \<Rightarrow> check \<Rightarrow> string" where
  "render_check show_detail c =
     level_prefix (ck_level c) @ ck_name c @ '': '' @ show_detail (ck_detail c)"

definition exit_code :: "check list \<Rightarrow> nat" where
  "exit_code checks =
     fold max (map (\<lambda>c. case ck_level c of LevelOk \<Rightarrow> 0 | LevelWarn \<Rightarrow> 0 | LevelFail \<Rightarrow> 1) checks) 0"

definition GIB :: nat where "GIB = 1024 * 1024 * 1024"
definition SECS_PER_DAY :: nat where "SECS_PER_DAY = 86400"
definition TOKEN_WARN_DAYS :: nat where "TOKEN_WARN_DAYS = 7"

definition token_check_from :: "nat \<Rightarrow> nat \<Rightarrow> nat option \<Rightarrow> nat \<Rightarrow> check" where
  "token_check_from mode_file mode_dir exp_secs now =
     (if mode_file \<noteq> 384 then mk ''token'' LevelFail (FileMode mode_file)
      else if mode_dir \<noteq> 448 then mk ''token'' LevelFail (DirMode mode_dir)
      else (case exp_secs of
              None \<Rightarrow> mk ''token'' LevelFail ExpMissing
            | Some e \<Rightarrow>
                if e \<le> now then mk ''token'' LevelFail (ExpiredDaysAgo ((now - e) div SECS_PER_DAY))
                else (let days = (e - now) div SECS_PER_DAY
                      in if days < TOKEN_WARN_DAYS then mk ''token'' LevelWarn (ExpiresSoon days)
                         else mk ''token'' LevelOk (ExpiresIn days))))"

definition disk_check_from :: "nat \<Rightarrow> check" where
  "disk_check_from free =
     (if free < 5 * GIB then mk ''disk'' LevelFail (DiskFull free)
      else if free < 20 * GIB then mk ''disk'' LevelWarn (DiskTight free)
      else mk ''disk'' LevelOk (DiskFree free))"

definition version_check_from :: "string \<Rightarrow> string option \<Rightarrow> string option \<Rightarrow> check" where
  "version_check_from current update_available daemon_version =
     (case daemon_binary_state current daemon_version update_available of
        BinaryStale running \<Rightarrow> mk ''version'' LevelWarn (StaleBinary current running)
      | _ \<Rightarrow> (case update_available of
                Some newer \<Rightarrow> mk ''version'' LevelWarn (NewerAvailable current newer)
              | None \<Rightarrow> mk ''version'' LevelOk (VersionUpToDate current)))"

definition token_exp_secs :: "(u8 list \<Rightarrow> json option) \<Rightarrow> string \<Rightarrow> nat option" where
  "token_exp_secs from_slice token =
     (case drop 1 (split_on CHR ''.'' token) of
        [] \<Rightarrow> None
      | b64 # _ \<Rightarrow>
          (case Option.bind (base64url_decode b64) from_slice of
             None \<Rightarrow> None
           | Some payload \<Rightarrow>
               (case json_get ''exp'' payload of
                  Some (JInt i) \<Rightarrow> if 0 \<le> i \<and> nat i < u64_bound then Some (nat i) else None
                | _ \<Rightarrow> None)))"

text \<open>\<open>dirs\<close> are the permission bits of the directories; of a path that is not there they are 0.\<close>

definition file_and_dir_modes :: "nat option \<Rightarrow> files \<Rightarrow> string \<Rightarrow> nat \<times> nat" where
  "file_and_dir_modes dir_mode fs path =
     ((case fs path of Some (c, m) \<Rightarrow> m mod 512 | None \<Rightarrow> 0),
      (case dir_mode of Some m \<Rightarrow> m mod 512 | None \<Rightarrow> 0))"

text \<open>\<open>token_path\<close> may migrate an older file, so a check returns the files it left.\<close>

definition token_check :: "(u8 list \<Rightarrow> json option) \<Rightarrow> token_env \<Rightarrow> nat option \<Rightarrow> nat \<Rightarrow> files
    \<Rightarrow> check \<times> files" where
  "token_check from_slice env dir_mode now fs =
     (case token_path env fs of
        (Inl e, fs1) \<Rightarrow> (mk ''token'' LevelFail (TokenPathError e), fs1)
      | (Inr path, fs1) \<Rightarrow>
          if fs1 path = None then (mk ''token'' LevelFail NoWorkerToken, fs1)
          else
            (let (mode_file, mode_dir) = file_and_dir_modes dir_mode fs1 path;
                 (token, fs2) = load_token env fs1;
                 shape = validate_worker_token_shape from_slice token;
                 exp_secs = (case shape of Inr u \<Rightarrow> token_exp_secs from_slice token | Inl e \<Rightarrow> None);
                 c = token_check_from mode_file mode_dir exp_secs now;
                 c1 = (case platform_from_token from_slice token of
                         Inr p \<Rightarrow> c\<lparr>ck_detail := WithPlatform (ck_detail c) p\<rparr> | Inl e \<Rightarrow> c)
             in (case shape of
                   Inl e \<Rightarrow> c1\<lparr>ck_level := LevelFail, ck_detail := TokenMalformed e\<rparr>
                 | Inr u \<Rightarrow> c1, fs2)))"

definition daemon_check :: "daemon_state \<Rightarrow> check" where
  "daemon_check d =
     (case d of
        DaemonRunning \<Rightarrow> mk ''daemon'' LevelOk InstalledAndRunning
      | Paused \<Rightarrow> mk ''daemon'' LevelWarn InstalledPaused
      | NotInstalled \<Rightarrow> mk ''daemon'' LevelWarn DaemonMissing)"

definition status_file_check :: "daemon_snapshot option \<Rightarrow> nat \<Rightarrow> check" where
  "status_file_check snap now_ms =
     (case snap of
        Some s \<Rightarrow>
          if is_fresh_at now_ms s then mk ''status'' LevelOk (Reports (ds_connection s))
          else mk ''status'' LevelWarn (StaleFor ((now_ms - ds_updated_at_ms s) div 1000))
      | None \<Rightarrow> mk ''status'' LevelWarn NoStatusFile)"

definition log_check_from :: "bool \<Rightarrow> nat \<Rightarrow> nat \<Rightarrow> check" where
  "log_check_from there mode bytes =
     (if \<not> there then mk ''log'' LevelWarn NoLog
      else if mode \<noteq> 384 then mk ''log'' LevelWarn (LogMode mode)
      else mk ''log'' LevelOk (LogKib (bytes div 1024)))"

definition parent_dir :: "string \<Rightarrow> string" where
  "parent_dir p = rev (dropWhile (\<lambda>c. c \<noteq> CHR ''/'') (rev p))"

definition default_log_path :: "string \<Rightarrow> string" where
  "default_log_path token_file = parent_dir token_file @ ''decent.log''"

definition log_check :: "token_env \<Rightarrow> files \<Rightarrow> check" where
  "log_check env fs =
     (case fst (token_path env fs) of
        Inl e \<Rightarrow> log_check_from False 0 0
      | Inr t \<Rightarrow>
          (case fs (default_log_path t) of
             Some (content, mode) \<Rightarrow> log_check_from True (mode mod 512) (length content)
           | None \<Rightarrow> log_check_from False 0 0))"

definition dispatch_health_url :: "url_parts \<Rightarrow> string" where
  "dispatch_health_url u =
     (if up_scheme u = ''wss'' then ''https'' else if up_scheme u = ''ws'' then ''http'' else up_scheme u)
       @ ''://'' @ (case up_host u of Some h \<Rightarrow> h | None \<Rightarrow> ''<unknown>'') @ ''/health''"

text \<open>\<open>answer\<close>: the status of the response, nothing when there was none.\<close>

definition dispatch_check :: "url_parts \<Rightarrow> nat option \<Rightarrow> check" where
  "dispatch_check u answer =
     (case answer of
        Some st \<Rightarrow> if 200 \<le> st \<and> st < 300 then mk ''dispatch'' LevelOk (Reachable (dispatch_health_url u))
                   else mk ''dispatch'' LevelFail (Answered (dispatch_health_url u) st)
      | None \<Rightarrow> mk ''dispatch'' LevelFail (Unreachable (dispatch_health_url u)))"

text \<open>
  The walk up to the nearest path \<open>statvfs\<close> answers for; a path is the list of its components below
  the root. The product of the two 64-bit fields is taken at that width.
\<close>

function nearest_stat :: "(string list \<Rightarrow> (u64 \<times> u64) option) \<Rightarrow> string list \<Rightarrow> (u64 \<times> u64) option" where
  "nearest_stat statvfs p =
     (case statvfs p of
        Some st \<Rightarrow> Some st
      | None \<Rightarrow> if p = [] then None else nearest_stat statvfs (butlast p))"
  by pat_completeness auto
termination by (relation "measure (\<lambda>(f, p). length p)") auto

declare nearest_stat.simps [simp del]

definition worker_root_free_bytes :: "(string list \<Rightarrow> (u64 \<times> u64) option) \<Rightarrow> string list option \<Rightarrow> u64 option" where
  "worker_root_free_bytes statvfs wroot =
     (case wroot of
        None \<Rightarrow> None
      | Some r \<Rightarrow> map_option (\<lambda>(bavail, frsize). bavail * frsize) (nearest_stat statvfs r))"

definition disk_check :: "(string list \<Rightarrow> (u64 \<times> u64) option) \<Rightarrow> string list option \<Rightarrow> check" where
  "disk_check statvfs wroot =
     (case worker_root_free_bytes statvfs wroot of
        Some free \<Rightarrow> disk_check_from (unat free)
      | None \<Rightarrow> mk ''disk'' LevelWarn DiskUnknown)"

definition read_daemon_snapshot :: "(string \<Rightarrow> f64 option) \<Rightarrow> token_env \<Rightarrow> files
    \<Rightarrow> daemon_snapshot option" where
  "read_daemon_snapshot parse_f64 env fs =
     (case fst (token_path env fs) of
        Inl e \<Rightarrow> None
      | Inr t \<Rightarrow> read_snapshot parse_f64 (map_option fst (fs (parent_dir t @ ''daemon-status''))))"

definition version_check :: "string \<Rightarrow> daemon_snapshot option \<Rightarrow> check" where
  "version_check current snap =
     version_check_from current (Option.bind snap ds_update_available) (Option.bind snap ds_supervisor_version)"

section \<open>The whole report\<close>

text \<open>What a run of the doctor finds outside the config directory.\<close>

record doctor_env =
  dr_dir_mode :: "nat option"
  dr_service :: daemon_state
  dr_now_ms :: nat
  dr_dispatch :: url_parts
  dr_answer :: "nat option"
  dr_statvfs :: "string list \<Rightarrow> (u64 \<times> u64) option"
  dr_wroot :: "string list option"
  dr_version :: string

definition doctor_checks :: "(u8 list \<Rightarrow> json option) \<Rightarrow> (string \<Rightarrow> f64 option) \<Rightarrow> token_env \<Rightarrow> doctor_env
    \<Rightarrow> files \<Rightarrow> check list \<times> files" where
  "doctor_checks from_slice parse_f64 env d fs =
     (let (token, fs1) = token_check from_slice env (dr_dir_mode d) (dr_now_ms d div 1000) fs;
          snap = read_daemon_snapshot parse_f64 env fs1
      in ([token, daemon_check (dr_service d), status_file_check snap (dr_now_ms d), log_check env fs1,
           dispatch_check (dr_dispatch d) (dr_answer d), disk_check (dr_statvfs d) (dr_wroot d),
           version_check (dr_version d) snap], fs1))"

text \<open>The printed lines, the numbers of the closing line, and the exit code.\<close>

definition run_doctor :: "(check_detail \<Rightarrow> string) \<Rightarrow> (u8 list \<Rightarrow> json option) \<Rightarrow> (string \<Rightarrow> f64 option)
    \<Rightarrow> token_env \<Rightarrow> doctor_env \<Rightarrow> files \<Rightarrow> string list \<times> (nat \<times> nat \<times> nat) \<times> nat" where
  "run_doctor show_detail from_slice parse_f64 env d fs =
     (let checks = fst (doctor_checks from_slice parse_f64 env d fs)
      in (map (render_check show_detail) checks,
          (length checks, length (filter (\<lambda>c. ck_level c = LevelFail) checks),
           length (filter (\<lambda>c. ck_level c = LevelWarn) checks)),
          exit_code checks))"

section \<open>What the report means\<close>

lemma exit_code_any: "exit_code cs = (if \<exists>c\<in>set cs. ck_level c = LevelFail then 1 else 0)"
proof -
  have "fold max (map (\<lambda>c. case ck_level c of LevelOk \<Rightarrow> 0 | LevelWarn \<Rightarrow> 0 | LevelFail \<Rightarrow> 1) cs) n
      = max n (if \<exists>c\<in>set cs. ck_level c = LevelFail then 1 else (0 :: nat))" for n
  proof (induction cs arbitrary: n)
    case (Cons c cs) then show ?case by (cases "ck_level c") auto
  qed simp
  then show ?thesis by (simp add: exit_code_def)
qed

lemma version_check_ok:
  "ck_level (version_check v snap) = LevelOk \<longleftrightarrow>
     Option.bind snap ds_update_available = None
     \<and> (case Option.bind snap ds_supervisor_version of Some r \<Rightarrow> r = v | None \<Rightarrow> \<not> reports_version v)"
  by (auto simp: version_check_def version_check_from_def daemon_binary_state_def split: option.splits)

lemma token_check_from_ok:
  "ck_level (token_check_from mf md ex now) = LevelOk \<longleftrightarrow>
     mf = 384 \<and> md = 448 \<and> (\<exists>e. ex = Some e \<and> now + 7 * 86400 \<le> e)"
proof -
  have "ck_level (token_check_from mf md (Some e) now) = LevelOk \<longleftrightarrow>
     mf = 384 \<and> md = 448 \<and> now + 7 * 86400 \<le> e" for e
    by (auto simp: token_check_from_def TOKEN_WARN_DAYS_def SECS_PER_DAY_def Let_def)
  then show ?thesis
    by (cases ex) (auto simp: token_check_from_def)
qed

lemma token_path_idem: "token_path env fs = (r, fs1) \<Longrightarrow> token_path env fs1 = (r, fs1)"
  by (auto simp: token_path_def set_owner_only_def Let_def new_token_path_def old_token_path_def
      split: option.splits if_splits)

lemma token_check_ok:
  "ck_level (fst (token_check from_slice env dm now fs)) = LevelOk \<longleftrightarrow>
     (\<exists>path fs1 c m e. token_path env fs = (Inr path, fs1) \<and> fs1 path = Some (c, m)
        \<and> m mod 512 = 384 \<and> map_option (\<lambda>m. m mod 512) dm = Some 448
        \<and> validate_worker_token_shape from_slice (trim c) = Inr ()
        \<and> token_exp_secs from_slice (trim c) = Some e \<and> now + 7 * 86400 \<le> e)" (is "?l = ?r")
proof (cases "token_path env fs")
  case (Pair r fs1)
  show ?thesis
  proof (cases r)
    case (Inr path)
    show ?thesis
    proof (cases "fs1 path")
      case (Some cm)
      obtain c m where cm: "fs1 path = Some (c, m)" using Some by (cases cm) auto
      have l: "load_token env fs1 = (trim c, fs1)"
        using token_path_idem [OF Pair] Inr cm by (simp add: load_token_def)
      have d: "(case dm of None \<Rightarrow> 0 | Some m \<Rightarrow> m mod 512) = 448
          \<longleftrightarrow> map_option (\<lambda>m. m mod 512) dm = Some 448"
        by (cases dm) auto
      show ?thesis
        using Pair Inr cm l d
        by (cases "validate_worker_token_shape from_slice (trim c)";
            cases "platform_from_token from_slice (trim c)")
           (auto simp: token_check_def file_and_dir_modes_def token_check_from_ok Let_def)
    qed (use Pair Inr in \<open>simp add: token_check_def\<close>)
  qed (use Pair in \<open>simp add: token_check_def\<close>)
qed

lemma token_check_files: "snd (token_check from_slice env dm now fs) = snd (token_path env fs)"
proof (cases "token_path env fs")
  case (Pair r fs1)
  from token_path_idem [OF Pair] Pair show ?thesis
    by (auto simp: token_check_def load_token_def Let_def split: sum.splits prod.splits)
qed

lemma other_checks_ok:
  "ck_level (daemon_check st) = LevelOk \<longleftrightarrow> st = DaemonRunning"
  "ck_level (status_file_check snap now) = LevelOk \<longleftrightarrow>
     (\<exists>s. snap = Some s \<and> now - ds_updated_at_ms s \<le> 15000)"
  "ck_level (log_check env fs) = LevelOk \<longleftrightarrow>
     (\<exists>t c m. fst (token_path env fs) = Inr t \<and> fs (default_log_path t) = Some (c, m) \<and> m mod 512 = 384)"
  "ck_level (dispatch_check u answer) = LevelOk \<longleftrightarrow> (\<exists>st. answer = Some st \<and> 200 \<le> st \<and> st < 300)"
  "ck_level (disk_check statvfs wroot) = LevelOk \<longleftrightarrow>
     (\<exists>free. worker_root_free_bytes statvfs wroot = Some free \<and> 20 * 2 ^ 30 \<le> unat free)"
      apply (simp add: daemon_check_def split: daemon_state.split)
     apply (simp add: status_file_check_def is_fresh_at_def FRESH_WINDOW_MS_def split: option.split)
    apply (auto simp: log_check_def log_check_from_def split: sum.splits option.splits) [1]
   apply (simp add: dispatch_check_def split: option.split)
  apply (auto simp: disk_check_def disk_check_from_def GIB_def split: option.split)
  done

lemma check_names:
  "ck_name (fst (token_check from_slice env dm now fs)) = ''token''"
  "ck_name (daemon_check st) = ''daemon''" "ck_name (status_file_check snap now) = ''status''"
  "ck_name (log_check env fs) = ''log''" "ck_name (dispatch_check u answer) = ''dispatch''"
  "ck_name (disk_check statvfs wroot) = ''disk''" "ck_name (version_check v snap) = ''version''"
        apply (simp add: token_check_def token_check_from_def Let_def split: sum.split prod.split option.split)
       apply (simp add: daemon_check_def split: daemon_state.split)
      apply (simp add: status_file_check_def split: option.split)
     apply (simp add: log_check_def log_check_from_def split: sum.split option.split)
    apply (simp add: dispatch_check_def split: option.split)
   apply (simp add: disk_check_def disk_check_from_def split: option.split)
  apply (simp add: version_check_def version_check_from_def split: option.split daemon_binary.split)
  done

text \<open>
  A doctor with nothing to say has looked: every check is OK exactly when the token file is
  owner-only in an owner-only directory and holds a well-formed token good for another week, the
  service is running, the daemon's snapshot is at most fifteen seconds old, was written by a daemon of
  the installed version and knows of no newer one, the log is owner-only, dispatch answered its
  health probe with success, and the volume of the worker root has 20 GiB free. The order and the
  names of the checks are fixed.
\<close>

theorem doctor_all_ok:
  "(list_all (\<lambda>c. ck_level c = LevelOk) (fst (doctor_checks from_slice parse_f64 env d fs)) \<longleftrightarrow>
     (\<exists>path fs1 c m e snap lc lm st free.
        token_path env fs = (Inr path, fs1) \<and> fs1 path = Some (c, m) \<and> m mod 512 = 384
        \<and> map_option (\<lambda>m. m mod 512) (dr_dir_mode d) = Some 448
        \<and> validate_worker_token_shape from_slice (trim c) = Inr ()
        \<and> token_exp_secs from_slice (trim c) = Some e \<and> dr_now_ms d div 1000 + 7 * 86400 \<le> e
        \<and> dr_service d = DaemonRunning
        \<and> read_daemon_snapshot parse_f64 env fs1 = Some snap \<and> dr_now_ms d - ds_updated_at_ms snap \<le> 15000
        \<and> fs1 (default_log_path path) = Some (lc, lm) \<and> lm mod 512 = 384
        \<and> dr_answer d = Some st \<and> 200 \<le> st \<and> st < 300
        \<and> worker_root_free_bytes (dr_statvfs d) (dr_wroot d) = Some free \<and> 20 * 2 ^ 30 \<le> unat free
        \<and> ds_update_available snap = None
        \<and> (case ds_supervisor_version snap of Some r \<Rightarrow> r = dr_version d
           | None \<Rightarrow> reports_version (dr_version d) = False)))
   \<and> map ck_name (fst (doctor_checks from_slice parse_f64 env d fs))
     = [''token'', ''daemon'', ''status'', ''log'', ''dispatch'', ''disk'', ''version'']"
proof -
  obtain tk fs1 where t: "token_check from_slice env (dr_dir_mode d) (dr_now_ms d div 1000) fs = (tk, fs1)"
    by (cases "token_check from_slice env (dr_dir_mode d) (dr_now_ms d div 1000) fs")
  then have tk: "tk = fst (token_check from_slice env (dr_dir_mode d) (dr_now_ms d div 1000) fs)"
    by simp
  have fs1: "fs1 = snd (token_path env fs)" using t token_check_files by (metis snd_conv)
  have p: "fst (token_path env fs1) = fst (token_path env fs)"
    using token_path_idem [of env fs] fs1 by (metis prod.collapse)
  obtain r0 where P: "token_path env fs = (r0, fs1)" using fs1 by (cases "token_path env fs") auto
  let ?snap = "read_daemon_snapshot parse_f64 env fs1"
  have r: "fst (doctor_checks from_slice parse_f64 env d fs)
      = [tk, daemon_check (dr_service d), status_file_check ?snap (dr_now_ms d), log_check env fs1,
         dispatch_check (dr_dispatch d) (dr_answer d), disk_check (dr_statvfs d) (dr_wroot d),
         version_check (dr_version d) ?snap]"
    by (simp add: doctor_checks_def t Let_def)
  have v: "ck_level (version_check (dr_version d) (Some s)) = LevelOk \<longleftrightarrow>
      ds_update_available s = None
      \<and> (case ds_supervisor_version s of Some r \<Rightarrow> r = dr_version d
         | None \<Rightarrow> reports_version (dr_version d) = False)" for s
    by (simp add: version_check_ok split: option.split)
  show ?thesis
    unfolding r list.pred_inject list.map check_names tk token_check_ok other_checks_ok p
    using P v by (cases ?snap; cases r0) auto
qed

lemma levels_bound:
  "length (filter (\<lambda>c. ck_level c = LevelFail) cs) + length (filter (\<lambda>c. ck_level c = LevelWarn) cs)
     \<le> length cs"
  by (induction cs) auto

text \<open>
  The exit code of the doctor is 1 exactly when one of its seven checks failed, and 0 otherwise,
  whatever it warns of; the closing line counts the checks, the failures and the warnings, and there
  is one printed line for every check.
\<close>

theorem doctor_exit_code:
  "let checks = fst (doctor_checks from_slice parse_f64 env d fs);
       (ls, (n, failed, warned), code) = run_doctor show_detail from_slice parse_f64 env d fs
   in n = 7 \<and> length ls = n \<and> failed + warned \<le> n
      \<and> code = (if failed = 0 then 0 else 1)
      \<and> (code = 1) = (\<exists>c\<in>set checks. ck_level c = LevelFail)"
proof -
  let ?cs = "fst (doctor_checks from_slice parse_f64 env d fs)"
  have "length ?cs = 7" by (simp add: doctor_checks_def Let_def split: prod.split)
  moreover have "length (filter (\<lambda>c. ck_level c = LevelFail) ?cs)
      + length (filter (\<lambda>c. ck_level c = LevelWarn) ?cs) \<le> length ?cs" by (rule levels_bound)
  moreover have "(filter (\<lambda>c. ck_level c = LevelFail) ?cs = [])
      = (\<not> (\<exists>c\<in>set ?cs. ck_level c = LevelFail))"
    by (auto simp: filter_empty_conv)
  ultimately show ?thesis by (simp add: run_doctor_def Let_def exit_code_any)
qed

text \<open>
  The walk up from the worker root asks about the nearest existing directory: the answer is the
  one for the longest of the path's ancestors, itself first, that \<open>statvfs\<close> answers for, and there is
  none only when it answers for none of them.
\<close>

theorem nearest_stat_longest_ancestor:
  "nearest_stat statvfs p =
     (case find (\<lambda>k. statvfs (take k p) \<noteq> None) (rev [0 ..< Suc (length p)]) of
        Some k \<Rightarrow> statvfs (take k p) | None \<Rightarrow> None)"
proof (induction p rule: rev_induct)
  case Nil
  show ?case by (simp add: nearest_stat.simps [of _ "[]"] split: option.split)
next
  case (snoc x xs)
  have "find (\<lambda>k. statvfs (take k (xs @ [x])) \<noteq> None) (rev [0 ..< Suc (length xs)])
      = find (\<lambda>k. statvfs (take k xs) \<noteq> None) (rev [0 ..< Suc (length xs)])"
    by (rule find_cong) auto
  moreover have "k \<le> length xs" if "find Q (rev [0 ..< Suc (length xs)]) = Some k" for k Q
    using that by (auto simp: find_Some_iff rev_nth simp del: upt_Suc)
  moreover have "rev [0 ..< Suc (length (xs @ [x]))] = Suc (length xs) # rev [0 ..< Suc (length xs)]"
    by simp
  ultimately show ?case
    using snoc.IH
    by (cases "statvfs (xs @ [x])")
       (auto simp: nearest_stat.simps [of _ "xs @ [x]"] simp del: upt_Suc not_None_eq split: option.split)
qed

text \<open>
  What the version check says with nothing to go by: when there is no snapshot, because no daemon
  ever ran, it warns of a stale running daemon for every installed version that reports its version,
  and says ``up to date'' for the others.
\<close>

theorem doctor_invents_stale_daemon:
  "version_check v None =
     (if reports_version v then mk ''version'' LevelWarn (StaleBinary v None)
      else mk ''version'' LevelOk (VersionUpToDate v))"
  by (simp add: version_check_def version_check_from_def daemon_binary_state_def)

end
