(* ===== verification/Service_Linux.thy ===== *)
theory Service_Linux
  imports Service_Host
begin

text \<open>
  Daemon supervision on Linux (\<open>bins/decent/src/service.rs\<close>, the systemd half): install, uninstall,
  state, pause, resume, restart. What systemd documents about the answers of the commands the code
  runs is the hypothesis \<open>systemd_laws\<close> of the lemmas that need it.
\<close>

section \<open>systemd\<close>

definition UNIT :: string where "UNIT = ''decent.service''"

definition unit_path :: "host_env \<Rightarrow> string + string" where
  "unit_path env =
     (let base = (case he_xdg env of
                    Some dir \<Rightarrow> if dir \<noteq> [] then Inr dir
                                else (case he_home env of Some h \<Rightarrow> Inr (h @ ''/.config'') | None \<Rightarrow> Inl ''HOME is not set'')
                  | None \<Rightarrow> (case he_home env of Some h \<Rightarrow> Inr (h @ ''/.config'') | None \<Rightarrow> Inl ''HOME is not set''))
      in case base of
           Inl e \<Rightarrow> Inl e
         | Inr b \<Rightarrow> if he_mkdir env then Inr (b @ ''/systemd/user/'' @ UNIT) else Inl ''create_dir_all'')"

definition systemctl :: "'m exec \<Rightarrow> string list \<Rightarrow> 'm host \<Rightarrow> (bool \<times> string) \<times> 'm host" where
  "systemctl exec args h =
     (case run_cmd exec (''systemctl'' # ''--user'' # args) h of
        (r, h') \<Rightarrow> ((cmd_ok r, trim (cmd_out r)), h'))"

definition require_systemd :: "'m exec \<Rightarrow> 'm host \<Rightarrow> (string + unit) \<times> 'm host" where
  "require_systemd exec h =
     (case run_cmd exec [''systemctl'', ''--version''] h of
        (None, h1) \<Rightarrow> (Inl ''systemctl not found'', h1)
      | (Some r, h1) \<Rightarrow>
          (case systemctl exec [''is-system-running''] h1 of
             ((ok, out1), h2) \<Rightarrow>
               (case systemctl exec [''show'', ''--property=Version''] h2 of
                  ((ping, out2), h3) \<Rightarrow>
                    (if \<not> ok \<and> \<not> ping then (Inl ''no systemd user instance'', h3) else (Inr (), h3)))))"

datatype linger_note = LingerEnabled | LingerUnconfirmed | LingerNotEnabled

definition contains :: "string \<Rightarrow> string \<Rightarrow> bool" where
  "contains s p = list_ex (\<lambda>i. starts_with (drop i s) p) [0..<Suc (length s)]"

definition enable_linger :: "'m exec \<Rightarrow> 'm host \<Rightarrow> linger_note \<times> 'm host" where
  "enable_linger exec h =
     (case run_cmd exec [''loginctl'', ''enable-linger''] h of
        (r1, h1) \<Rightarrow>
          (case run_cmd exec [''id'', ''-un''] h1 of
             (r2, h2) \<Rightarrow>
               (case run_cmd exec [''loginctl'', ''show-user'', trim (cmd_out r2), ''--property=Linger''] h2 of
                  (r3, h3) \<Rightarrow>
                    (if contains (cmd_out r3) ''Linger=yes'' then LingerEnabled
                     else if cmd_ok r1 then LingerUnconfirmed else LingerNotEnabled, h3))))"

record install_report =
  ir_unit_path :: string
  ir_linger :: linger_note

definition linux_install :: "'m exec \<Rightarrow> host_env \<Rightarrow> service_spec \<Rightarrow> 'm host
    \<Rightarrow> (string + install_report) \<times> 'm host" where
  "linux_install exec env spec h =
     (case require_systemd exec h of
        (Inl e, h1) \<Rightarrow> (Inl e, h1)
      | (Inr u, h1) \<Rightarrow>
          (case unit_path env of
             Inl e \<Rightarrow> (Inl e, h1)
           | Inr path \<Rightarrow>
               if \<not> he_write env then (Inl ''write'', h1\<lparr>h_files := (h_files h1)(path := he_left env)\<rparr>)
               else
                 (case systemctl exec [''daemon-reload''] (h1\<lparr>h_files := (h_files h1)(path \<mapsto> build_unit spec)\<rparr>) of
                    ((reloaded, out2), h2) \<Rightarrow>
                      if \<not> reloaded then (Inl ''daemon-reload failed'', h2)
                      else
                        (case systemctl exec [''enable'', ''--now'', UNIT] h2 of
                           ((enabled, err), h3) \<Rightarrow>
                             if \<not> enabled then (Inl (''enable failed '' @ err), h3)
                             else (case enable_linger exec h3 of
                                     (note, h4) \<Rightarrow> (Inr \<lparr>ir_unit_path = path, ir_linger = note\<rparr>, h4))))))"

definition linux_uninstall :: "'m exec \<Rightarrow> host_env \<Rightarrow> 'm host \<Rightarrow> (string + string) \<times> 'm host" where
  "linux_uninstall exec env h =
     (case unit_path env of
        Inl e \<Rightarrow> (Inl e, h)
      | Inr path \<Rightarrow>
          (let h1 = snd (systemctl exec [''disable'', ''--now'', UNIT] h)
           in if h_files h1 path \<noteq> None \<and> \<not> he_remove env then (Inl ''remove_file'', h1)
              else (Inr path,
                    snd (systemctl exec [''daemon-reload''] (h1\<lparr>h_files := (h_files h1)(path := None)\<rparr>)))))"

definition linux_state :: "'m exec \<Rightarrow> host_env \<Rightarrow> 'm host \<Rightarrow> daemon_state \<times> 'm host" where
  "linux_state exec env h =
     (let present = (case unit_path env of Inr p \<Rightarrow> h_files h p \<noteq> None | Inl e \<Rightarrow> False)
      in if \<not> present then (NotInstalled, h)
         else (case systemctl exec [''is-active'', UNIT] h of
                 ((ok, status), h') \<Rightarrow>
                   (if status = ''active'' \<or> status = ''activating'' then DaemonRunning else Paused, h')))"

definition linux_pause :: "'m exec \<Rightarrow> host_env \<Rightarrow> 'm host \<Rightarrow> (string + bool) \<times> 'm host" where
  "linux_pause exec env h =
     (case unit_path env of
        Inl e \<Rightarrow> (Inl e, h)
      | Inr path \<Rightarrow>
          if h_files h path = None then (Inl ''No systemd unit installed'', h)
          else (case linux_state exec env h of
                  (st, h1) \<Rightarrow>
                    (case systemctl exec [''stop'', UNIT] h1 of
                       ((ok, out), h2) \<Rightarrow>
                         if \<not> ok \<and> st = DaemonRunning then (Inl ''stop failed'', h2)
                         else (Inr (st = DaemonRunning), h2))))"

definition linux_resume :: "'m exec \<Rightarrow> host_env \<Rightarrow> 'm host \<Rightarrow> (string + unit) \<times> 'm host" where
  "linux_resume exec env h =
     (case unit_path env of
        Inl e \<Rightarrow> (Inl e, h)
      | Inr path \<Rightarrow>
          if h_files h path = None then (Inl ''No systemd unit installed'', h)
          else (case systemctl exec [''start'', UNIT] h of
                  ((ok, err), h1) \<Rightarrow> if ok then (Inr (), h1) else (Inl (''Could not resume the daemon '' @ err), h1)))"

definition linux_restart :: "'m exec \<Rightarrow> host_env \<Rightarrow> 'm host \<Rightarrow> (string + bool) \<times> 'm host" where
  "linux_restart exec env h =
     (case linux_state exec env h of
        (NotInstalled, h1) \<Rightarrow> (Inr False, h1)
      | (_, h1) \<Rightarrow>
          (case systemctl exec [''restart'', UNIT] h1 of
             ((ok, out), h2) \<Rightarrow> if ok then (Inr True, h2) else (Inl ''restart failed'', h2)))"

section \<open>The contract\<close>

definition linux_op :: "'m exec \<Rightarrow> host_env \<Rightarrow> service_op \<Rightarrow> 'm host \<Rightarrow> (string + unit) \<times> 'm host" where
  "linux_op exec env op h =
     (case op of
        OpInstall spec \<Rightarrow> map_prod (map_sum id (\<lambda>_. ())) id (linux_install exec env spec h)
      | OpUninstall \<Rightarrow> map_prod (map_sum id (\<lambda>_. ())) id (linux_uninstall exec env h)
      | OpPause \<Rightarrow> map_prod (map_sum id (\<lambda>_. ())) id (linux_pause exec env h)
      | OpResume \<Rightarrow> linux_resume exec env h
      | OpRestart \<Rightarrow> map_prod (map_sum id (\<lambda>_. ())) id (linux_restart exec env h))"

text \<open>
  What systemd documents of the commands the code runs: \<open>is-active\<close> prints the state of the unit and
  changes nothing, a \<open>stop\<close> that succeeds leaves it inactive and none activates it, a \<open>start\<close>, \<open>restart\<close> or \<open>enable --now\<close>
  that succeeds leaves it active, and asking logind about the user does not touch it.
\<close>

definition user_cmd :: "string list \<Rightarrow> string list" where
  "user_cmd args = ''systemctl'' # ''--user'' # args"

definition systemd_laws :: "'m exec \<Rightarrow> ('m \<Rightarrow> bool) \<Rightarrow> bool" where
  "systemd_laws exec active \<longleftrightarrow>
     (\<forall>m. \<exists>ok. exec (user_cmd [''is-active'', UNIT]) m
            = (Some (ok, (if active m then ''active'' else ''inactive'') @ [CHR 0x0A]), m))
   \<and> (\<forall>m m' out. exec (user_cmd [''stop'', UNIT]) m = (Some (True, out), m') \<longrightarrow> \<not> active m')
   \<and> (\<forall>m. \<not> active m \<longrightarrow> \<not> active (snd (exec (user_cmd [''stop'', UNIT]) m)))
   \<and> (\<forall>args m m' out. args \<in> {[''start'', UNIT], [''restart'', UNIT], [''enable'', ''--now'', UNIT]}
         \<longrightarrow> exec (user_cmd args) m = (Some (True, out), m') \<longrightarrow> active m')
   \<and> (\<forall>c args m. c \<in> {''loginctl'', ''id''} \<longrightarrow> active (snd (exec (c # args) m)) = active m)"

lemma laws_query:
  assumes "systemd_laws exec active"
  shows "\<exists>ok. systemctl exec [''is-active'', UNIT] h
           = ((ok, if active (h_mgr h) then ''active'' else ''inactive''), h)"
proof -
  from conjunct1 [OF assms [unfolded systemd_laws_def]] obtain ok where e: "exec (user_cmd [''is-active'', UNIT]) (h_mgr h)
      = (Some (ok, (if active (h_mgr h) then ''active'' else ''inactive'') @ [CHR 0x0A]), h_mgr h)"
    by blast
  have t: "trim (''active'' @ [CHR 0x0A]) = ''active''" "trim (''inactive'' @ [CHR 0x0A]) = ''inactive''"
    unfolding trim_line by (simp_all add: trim_no_ws is_ws_def)
  show ?thesis
  proof (cases "active (h_mgr h)")
    case True
    then have "exec (''systemctl'' # ''--user'' # [''is-active'', UNIT]) (h_mgr h)
        = (Some (ok, ''active'' @ [CHR 0x0A]), h_mgr h)" using e by (simp add: user_cmd_def)
    then show ?thesis unfolding systemctl_def run_cmd_def cmd_ok_def cmd_out_def using True t(1) by simp
  next
    case False
    then have "exec (''systemctl'' # ''--user'' # [''is-active'', UNIT]) (h_mgr h)
        = (Some (ok, ''inactive'' @ [CHR 0x0A]), h_mgr h)" using e by (simp add: user_cmd_def)
    then show ?thesis unfolding systemctl_def run_cmd_def cmd_ok_def cmd_out_def using False t(2) by simp
  qed
qed

lemma laws_done:
  assumes "systemd_laws exec active" and "systemctl exec args h = ((True, out), h')"
  shows "args = [''stop'', UNIT] \<Longrightarrow> \<not> active (h_mgr h')"
    and "args \<in> {[''start'', UNIT], [''restart'', UNIT], [''enable'', ''--now'', UNIT]} \<Longrightarrow> active (h_mgr h')"
    and "h_files h' = h_files h"
proof -
  obtain r m where e: "exec (user_cmd args) (h_mgr h) = (r, m)" by (cases "exec (user_cmd args) (h_mgr h)")
  then have p: "h' = h\<lparr>h_mgr := m\<rparr>" "cmd_ok r"
    using assms(2) by (auto simp: systemctl_def run_cmd_def user_cmd_def)
  then obtain o1 where e': "exec (user_cmd args) (h_mgr h) = (Some (True, o1), m)"
    using e by (auto simp: cmd_ok_def split: option.splits)
  show "args = [''stop'', UNIT] \<Longrightarrow> \<not> active (h_mgr h')"
    using e' p assms(1) unfolding systemd_laws_def by auto
  show "args \<in> {[''start'', UNIT], [''restart'', UNIT], [''enable'', ''--now'', UNIT]} \<Longrightarrow> active (h_mgr h')"
    using e' p assms(1) unfolding systemd_laws_def by auto
  show "h_files h' = h_files h" using p by simp
qed

lemma systemctl_files: "systemctl exec args h = (r, h') \<Longrightarrow> h_files h' = h_files h"
  by (auto simp: systemctl_def dest: run_cmd_files' split: prod.splits)

lemma laws_state:
  assumes "systemd_laws exec active" and "unit_path env = Inr path"
  shows "linux_state exec env h = ((if h_files h path = None then NotInstalled
     else if active (h_mgr h) then DaemonRunning else Paused), h)"
proof -
  obtain ok where "systemctl exec [''is-active'', UNIT] h
      = ((ok, if active (h_mgr h) then ''active'' else ''inactive''), h)"
    using laws_query [OF assms(1), of h] ..
  then show ?thesis using assms(2)
    by (cases "active (h_mgr h)"; cases "h_files h path") (simp_all add: linux_state_def Let_def)
qed

lemma laws_linger:
  assumes "systemd_laws exec active" and "enable_linger exec h = (note, h')"
  shows "active (h_mgr h') = active (h_mgr h)" and "h_files h' = h_files h"
proof -
  have k: "active (h_mgr h2) = active (h_mgr h1) \<and> h_files h2 = h_files h1"
    if "run_cmd exec (c # args) h1 = (r, h2)" "c \<in> {''loginctl'', ''id''}" for c args r h1 h2
    using that assms(1) unfolding run_cmd_def systemd_laws_def
    by (auto split: prod.splits) (metis snd_conv)+
  show "active (h_mgr h') = active (h_mgr h)" "h_files h' = h_files h"
    using assms(2) by (auto simp: enable_linger_def dest!: k split: prod.splits)
qed

lemma laws_pause:
  assumes "systemd_laws exec active" and "unit_path env = Inr path"
    and "linux_pause exec env h = (Inr b, h')"
  shows "h_files h' = h_files h \<and> h_files h path \<noteq> None \<and> \<not> active (h_mgr h')"
proof -
  note st = laws_state [OF assms(1,2), of h]
  have p: "h_files h path \<noteq> None" using assms(2,3) by (cases "h_files h path") (simp_all add: linux_pause_def)
  obtain ok out h2 where sys: "systemctl exec [''stop'', UNIT] h = ((ok, out), h2)"
    by (cases "systemctl exec [''stop'', UNIT] h") auto
  have r: "h' = h2" "ok \<or> \<not> active (h_mgr h)"
    using assms(2,3) p sys st by (auto simp: linux_pause_def split: if_splits)
  have "\<not> active (h_mgr h2)"
  proof (cases ok)
    case True
    then show ?thesis using laws_done(1) [OF assms(1), of "[''stop'', UNIT]" h out h2] sys by simp
  next
    case False
    then have "\<not> active (h_mgr h)" using r(2) by simp
    then have "\<not> active (snd (exec (user_cmd [''stop'', UNIT]) (h_mgr h)))"
      using assms(1) by (simp add: systemd_laws_def)
    then show ?thesis using sys by (auto simp: systemctl_def run_cmd_def user_cmd_def split: prod.splits)
  qed
  then show ?thesis using r(1) p systemctl_files [OF sys] by simp
qed

lemma laws_started:
  assumes "systemd_laws exec active" and "systemctl exec args h = ((True, out), h')"
    and "args \<in> {[''start'', UNIT], [''restart'', UNIT], [''enable'', ''--now'', UNIT]}"
  shows "active (h_mgr h')" and "h_files h' = h_files h"
  using laws_done(2) [OF assms(1,2)] systemctl_files [OF assms(2)] assms(3) by blast+

lemma laws_resume:
  assumes "systemd_laws exec active" and "unit_path env = Inr path"
    and "linux_resume exec env h = (Inr u, h')"
  shows "h_files h' = h_files h \<and> h_files h path \<noteq> None \<and> active (h_mgr h')"
proof -
  obtain out where "systemctl exec [''start'', UNIT] h = ((True, out), h')" "h_files h path \<noteq> None"
    using assms(2,3) by (auto simp: linux_resume_def split: prod.splits if_splits)
  then show ?thesis using laws_started [OF assms(1)] by blast
qed

lemma laws_restart:
  assumes "systemd_laws exec active" and "unit_path env = Inr path"
    and "linux_restart exec env h = (Inr b, h')"
  shows "h_files h' = h_files h \<and> (h_files h path \<noteq> None \<longrightarrow> active (h_mgr h'))"
proof (cases "h_files h path")
  case None
  then show ?thesis using assms(3) laws_state [OF assms(1,2), of h] by (simp add: linux_restart_def)
next
  case (Some c)
  then obtain st where "linux_state exec env h = (st, h)" "st \<noteq> NotInstalled"
    using laws_state [OF assms(1,2), of h] by auto
  then obtain out where "systemctl exec [''restart'', UNIT] h = ((True, out), h')"
    using assms(3) by (cases st) (auto simp: linux_restart_def split: prod.splits if_splits)
  then show ?thesis using laws_started [OF assms(1)] by blast
qed

lemma laws_install:
  assumes "systemd_laws exec active" and "unit_path env = Inr path"
    and "linux_install exec env spec h = (Inr rep, h')"
  shows "h_files h' path = Some (build_unit spec) \<and> active (h_mgr h')"
proof -
  obtain h1 h2 h3 o2 o3 ln where steps: "require_systemd exec h = (Inr (), h1)"
      "systemctl exec [''daemon-reload''] (h1\<lparr>h_files := (h_files h1)(path \<mapsto> build_unit spec)\<rparr>) = ((True, o2), h2)"
      "systemctl exec [''enable'', ''--now'', UNIT] h2 = ((True, o3), h3)" "enable_linger exec h3 = (ln, h')"
    using assms(2,3) by (auto simp: linux_install_def split: sum.splits prod.splits if_splits)
  have "h_files h2 path = Some (build_unit spec)" using systemctl_files [OF steps(2)] by simp
  moreover have "active (h_mgr h3)" "h_files h3 = h_files h2"
    using laws_started [OF assms(1) steps(3)] by simp_all
  ultimately show ?thesis using laws_linger [OF assms(1) steps(4)] by simp
qed

lemma uninstall_removes:
  assumes "unit_path env = Inr path" and "linux_uninstall exec env h = (Inr p, h')"
  shows "p = path \<and> h_files h' path = None"
  using assms by (auto simp: linux_uninstall_def Let_def systemctl_def split: if_splits prod.splits
      dest!: run_cmd_files')


text \<open>A systemd that does what it is told, its state whether the unit is active.\<close>

definition obedient :: "bool exec" where
  "obedient args m =
     (if args = user_cmd [''is-active'', UNIT]
      then (Some (m, (if m then ''active'' else ''inactive'') @ [CHR 0x0A]), m)
      else if args \<in> {user_cmd [''stop'', UNIT], user_cmd [''disable'', ''--now'', UNIT]} then (Some (True, []), False)
      else if args \<in> {user_cmd [''start'', UNIT], user_cmd [''restart'', UNIT], user_cmd [''enable'', ''--now'', UNIT]}
      then (Some (True, []), True)
      else (Some (True, []), m))"

lemma obedient_laws: "systemd_laws obedient (\<lambda>m. m)"
  unfolding systemd_laws_def obedient_def by (simp add: user_cmd_def UNIT_def)

definition home_env :: host_env where
  "home_env = \<lparr>he_home = Some ''/h'', he_xdg = None, he_mkdir = True, he_write = True, he_left = None,
     he_remove = True\<rparr>"

definition paused_host :: "bool host" where
  "paused_host = \<lparr>h_files = [''/h/.config/systemd/user/decent.service'' \<mapsto> ''u''], h_mgr = False\<rparr>"


text \<open>
  \<open>uninstall\<close> ignores what \<open>systemctl disable --now\<close> answers: the command reports success and \<open>decent
  status\<close> says \<open>not installed\<close> while the daemon runs on.
\<close>

theorem uninstall_may_leave_it_running:
  "\<exists>exec active (h :: bool host) p h'. systemd_laws exec active \<and> linux_uninstall exec home_env h = (Inr p, h')
     \<and> fst (linux_state exec home_env h') = NotInstalled \<and> active (h_mgr h')"
proof -
  define exec :: "bool exec" where
    "exec args m = (if args = user_cmd [''disable'', ''--now'', UNIT] then (Some (False, []), m) else obedient args m)" for args m
  have laws: "systemd_laws exec (\<lambda>m. m)"
    unfolding systemd_laws_def exec_def obedient_def by (simp add: user_cmd_def UNIT_def)
  have p: "unit_path home_env = Inr ''/h/.config/systemd/user/decent.service''"
    by (simp add: unit_path_def home_env_def UNIT_def)
  let ?h = "paused_host\<lparr>h_mgr := True\<rparr>"
  obtain h' where u: "linux_uninstall exec home_env ?h = (Inr ''/h/.config/systemd/user/decent.service'', h')"
      "h_mgr h'"
    using p by (simp add: linux_uninstall_def Let_def systemctl_def run_cmd_def exec_def user_cmd_def home_env_def
        obedient_def UNIT_def)
  have "fst (linux_state exec home_env h') = NotInstalled"
    using uninstall_removes [OF p u(1)] laws_state [OF laws p] by simp
  then show ?thesis using laws u by blast
qed

end
