(* ===== verification/Service_Mac.thy ===== *)
theory Service_Mac
  imports Service_Host
begin

text \<open>
  Daemon supervision on macOS (\<open>bins/decent/src/service.rs\<close>, the launchd half). What launchd documents
  about the answers of \<open>launchctl\<close> is the hypothesis \<open>launchd_laws\<close>.
\<close>

section \<open>Paths and probes\<close>

definition launch_agents_dir :: "host_env \<Rightarrow> string + string" where
  "launch_agents_dir env =
     (case he_home env of
        None \<Rightarrow> Inl ''HOME is not set''
      | Some home \<Rightarrow> if he_mkdir env then Inr (home @ ''/Library/LaunchAgents'') else Inl ''create_dir_all'')"

definition plist_path :: "host_env \<Rightarrow> string + string" where
  "plist_path env =
     (case launch_agents_dir env of
        Inl e \<Rightarrow> Inl e | Inr d \<Rightarrow> Inr (d @ ''/'' @ LABEL @ ''.plist''))"

definition legacy_plist_path :: "host_env \<Rightarrow> 'm host \<Rightarrow> string option" where
  "legacy_plist_path env h =
     (case he_home env of
        None \<Rightarrow> None
      | Some home \<Rightarrow>
          (let p = home @ ''/Library/LaunchAgents/'' @ LEGACY_LABEL @ ''.plist''
           in if h_files h p \<noteq> None then Some p else None))"

definition current_uid :: "'m exec \<Rightarrow> 'm host \<Rightarrow> string option \<times> 'm host" where
  "current_uid exec h =
     (case run_cmd exec [''id'', ''-u''] h of
        (r, h') \<Rightarrow> (case r of None \<Rightarrow> None
                     | Some (ok, out) \<Rightarrow> if trim out = [] then None else Some (trim out), h'))"

definition launchctl_list :: "'m exec \<Rightarrow> 'm host \<Rightarrow> string \<times> 'm host" where
  "launchctl_list exec h =
     (case run_cmd exec [''launchctl'', ''list''] h of (r, h') \<Rightarrow> (cmd_out r, h'))"

definition mac_is_loaded :: "'m exec \<Rightarrow> 'm host \<Rightarrow> bool \<times> 'm host" where
  "mac_is_loaded exec h = (case launchctl_list exec h of (out, h') \<Rightarrow> (is_loaded out, h'))"

definition unload_legacy_agent :: "'m exec \<Rightarrow> 'm host \<Rightarrow> 'm host" where
  "unload_legacy_agent exec h =
     (case current_uid exec h of
        (uid, h1) \<Rightarrow>
          snd (run_cmd exec [''launchctl'', ''bootout'',
                 ''gui/'' @ (case uid of Some u \<Rightarrow> u | None \<Rightarrow> []), LEGACY_LABEL] h1))"

section \<open>The operations\<close>

record mac_report =
  mr_unit_path :: string
  mr_removed_legacy :: bool

definition mac_bootstrap :: "'m exec \<Rightarrow> string \<Rightarrow> string \<Rightarrow> 'm host \<Rightarrow> (bool \<times> string) option \<times> 'm host" where
  "mac_bootstrap exec uid plist h = run_cmd exec [''launchctl'', ''bootstrap'', ''gui/'' @ uid, plist] h"

text \<open>Bootstrap; when that fails, bootout and bootstrap again.\<close>

definition mac_load :: "'m exec \<Rightarrow> string \<Rightarrow> string \<Rightarrow> 'm host \<Rightarrow> (string + unit) \<times> 'm host" where
  "mac_load exec uid plist h =
     (case mac_bootstrap exec uid plist h of
        (None, h1) \<Rightarrow> (Inl ''launchctl'', h1)
      | (Some (ok, out), h1) \<Rightarrow>
          if ok then (Inr (), h1)
          else (case run_cmd exec [''launchctl'', ''bootout'', ''gui/'' @ uid, LABEL] h1 of
                  (b, h2) \<Rightarrow>
                    (case mac_bootstrap exec uid plist h2 of
                       (None, h3) \<Rightarrow> (Inl ''launchctl'', h3)
                     | (Some (ok2, out2), h3) \<Rightarrow>
                         (if ok2 then Inr () else Inl ''launchctl bootstrap failed'', h3))))"

definition remove_legacy :: "host_env \<Rightarrow> 'm host \<Rightarrow> bool \<times> 'm host" where
  "remove_legacy env h =
     (case legacy_plist_path env h of
        None \<Rightarrow> (False, h)
      | Some p \<Rightarrow> (True, if he_remove env then h\<lparr>h_files := (h_files h)(p := None)\<rparr> else h))"

definition mac_prepare :: "'m exec \<Rightarrow> string \<Rightarrow> 'm host \<Rightarrow> 'm host" where
  "mac_prepare exec plist h =
     (if h_files h plist \<noteq> None then snd (run_cmd exec [''launchctl'', ''unload'', plist] h) else h)"

definition mac_install :: "'m exec \<Rightarrow> host_env \<Rightarrow> service_spec \<Rightarrow> 'm host
    \<Rightarrow> (string + mac_report) \<times> 'm host" where
  "mac_install exec env spec h0 =
     (let h = unload_legacy_agent exec h0
      in case plist_path env of
           Inl e \<Rightarrow> (Inl e, h)
         | Inr plist \<Rightarrow>
             (let h1 = mac_prepare exec plist h
              in if \<not> he_write env then (Inl ''write'', h1\<lparr>h_files := (h_files h1)(plist := he_left env)\<rparr>)
                 else
                   (case current_uid exec (h1\<lparr>h_files := (h_files h1)(plist \<mapsto> build_plist spec)\<rparr>) of
                      (u, h2) \<Rightarrow>
                        (case mac_load exec (case u of Some v \<Rightarrow> v | None \<Rightarrow> []) plist h2 of
                           (Inl e, h3) \<Rightarrow> (Inl e, h3)
                         | (Inr x, h3) \<Rightarrow>
                             (case remove_legacy env h3 of
                                (b, h4) \<Rightarrow> (Inr \<lparr>mr_unit_path = plist, mr_removed_legacy = b\<rparr>, h4))))))"

definition mac_uninstall :: "'m exec \<Rightarrow> host_env \<Rightarrow> 'm host \<Rightarrow> (string + string) \<times> 'm host" where
  "mac_uninstall exec env h =
     (case plist_path env of
        Inl e \<Rightarrow> (Inl e, h)
      | Inr plist \<Rightarrow>
          (let h1 = snd (run_cmd exec [''launchctl'', ''unload'', plist] h)
           in if h_files h1 plist \<noteq> None \<and> \<not> he_remove env then (Inl ''remove_file'', h1)
              else (Inr plist, h1\<lparr>h_files := (h_files h1)(plist := None)\<rparr>)))"

definition mac_state :: "'m exec \<Rightarrow> host_env \<Rightarrow> 'm host \<Rightarrow> daemon_state \<times> 'm host" where
  "mac_state exec env h =
     (let present = (case plist_path env of Inr p \<Rightarrow> h_files h p \<noteq> None | Inl e \<Rightarrow> False)
      in if \<not> present then (NotInstalled, h)
         else (case mac_is_loaded exec h of
                 (loaded, h') \<Rightarrow> (if loaded then DaemonRunning else Paused, h')))"

definition mac_pause :: "'m exec \<Rightarrow> host_env \<Rightarrow> 'm host \<Rightarrow> (string + bool) \<times> 'm host" where
  "mac_pause exec env h =
     (case plist_path env of
        Inl e \<Rightarrow> (Inl e, h)
      | Inr plist \<Rightarrow>
          if h_files h plist = None then (Inl ''No launchd agent installed'', h)
          else (case current_uid exec h of
                  (None, h1) \<Rightarrow> (Inl ''Could not determine UID.'', h1)
                | (Some uid, h1) \<Rightarrow>
                    (case run_cmd exec [''launchctl'', ''bootout'', ''gui/'' @ uid @ ''/'' @ LABEL] h1 of
                       (r, h2) \<Rightarrow> (Inr (cmd_ok r), h2))))"

definition mac_resume :: "'m exec \<Rightarrow> host_env \<Rightarrow> 'm host \<Rightarrow> (string + unit) \<times> 'm host" where
  "mac_resume exec env h =
     (case plist_path env of
        Inl e \<Rightarrow> (Inl e, h)
      | Inr plist \<Rightarrow>
          if h_files h plist = None then (Inl ''No launchd agent installed'', h)
          else (case current_uid exec h of
                  (None, h1) \<Rightarrow> (Inl ''Could not determine UID.'', h1)
                | (Some uid, h1) \<Rightarrow>
                    (case mac_bootstrap exec uid plist h1 of
                       (r, h2) \<Rightarrow>
                         if cmd_ok r then (Inr (), h2)
                         else (case run_cmd exec [''launchctl'', ''kickstart'', ''gui/'' @ uid @ ''/'' @ LABEL] h2 of
                                 (k, h3) \<Rightarrow> (if cmd_ok k then Inr () else Inl ''Could not resume the daemon.'', h3)))))"

definition mac_restart :: "'m exec \<Rightarrow> 'm host \<Rightarrow> (string + bool) \<times> 'm host" where
  "mac_restart exec h =
     (case mac_is_loaded exec h of
        (loaded, h1) \<Rightarrow>
          if \<not> loaded then (Inr False, h1)
          else (case current_uid exec h1 of
                  (None, h2) \<Rightarrow> (Inl ''Could not determine UID.'', h2)
                | (Some uid, h2) \<Rightarrow>
                    (case run_cmd exec [''launchctl'', ''kickstart'', ''-k'', ''gui/'' @ uid @ ''/'' @ LABEL] h2 of
                       (r, h3) \<Rightarrow> if cmd_ok r then (Inr True, h3) else (Inl ''launchctl kickstart failed'', h3))))"

section \<open>The contract\<close>

definition mac_op :: "'m exec \<Rightarrow> host_env \<Rightarrow> service_op \<Rightarrow> 'm host \<Rightarrow> (string + unit) \<times> 'm host" where
  "mac_op exec env op h =
     (case op of
        OpInstall spec \<Rightarrow> map_prod (map_sum id (\<lambda>_. ())) id (mac_install exec env spec h)
      | OpUninstall \<Rightarrow> map_prod (map_sum id (\<lambda>_. ())) id (mac_uninstall exec env h)
      | OpPause \<Rightarrow> map_prod (map_sum id (\<lambda>_. ())) id (mac_pause exec env h)
      | OpResume \<Rightarrow> mac_resume exec env h
      | OpRestart \<Rightarrow> map_prod (map_sum id (\<lambda>_. ())) id (mac_restart exec h))"

text \<open>
  What the code relies on of \<open>launchctl\<close>: the listing shows whether our agent is loaded (and no
  legacy one is), a bootout leaves it unloaded (it fails only when there is nothing to unload, as
  the comment of \<open>pause\<close> says), a bootstrap or kickstart that succeeds leaves it loaded.
\<close>

definition launchd_laws :: "'m exec \<Rightarrow> ('m \<Rightarrow> bool) \<Rightarrow> bool" where
  "launchd_laws exec loaded \<longleftrightarrow>
     (\<forall>m. \<exists>ok out. exec [''launchctl'', ''list''] m = (Some (ok, out), m)
        \<and> label_is_loaded out LABEL = loaded m \<and> \<not> label_is_loaded out LEGACY_LABEL)
   \<and> (\<forall>uid m. \<not> loaded (snd (exec [''launchctl'', ''bootout'', ''gui/'' @ uid @ ''/'' @ LABEL] m)))
   \<and> (\<forall>uid p m m' out. exec [''launchctl'', ''bootstrap'', ''gui/'' @ uid, p] m = (Some (True, out), m') \<longrightarrow> loaded m')
   \<and> (\<forall>uid m m' out. exec [''launchctl'', ''kickstart'', ''gui/'' @ uid @ ''/'' @ LABEL] m = (Some (True, out), m') \<longrightarrow> loaded m')
   \<and> (\<forall>uid m m' out. exec [''launchctl'', ''kickstart'', ''-k'', ''gui/'' @ uid @ ''/'' @ LABEL] m = (Some (True, out), m') \<longrightarrow> loaded m')
   \<and> (\<forall>m. loaded (snd (exec [''id'', ''-u''] m)) = loaded m)"

lemma run_ok:
  assumes "run_cmd exec args h = (r, h')" and "cmd_ok r"
  shows "\<exists>out. exec args (h_mgr h) = (Some (True, out), h_mgr h')"
  using assms by (cases "exec args (h_mgr h)") (auto simp: run_cmd_def cmd_ok_def split: option.splits)

lemma laws_loaded:
  assumes "launchd_laws exec loaded"
  shows "mac_is_loaded exec h = (loaded (h_mgr h), h)"
proof -
  from conjunct1 [OF assms [unfolded launchd_laws_def]] obtain ok out where
    "exec [''launchctl'', ''list''] (h_mgr h) = (Some (ok, out), h_mgr h)"
    "label_is_loaded out LABEL = loaded (h_mgr h)" "\<not> label_is_loaded out LEGACY_LABEL" by blast
  then show ?thesis
    by (simp add: mac_is_loaded_def launchctl_list_def run_cmd_def cmd_out_def is_loaded_def)
qed

lemma laws_mac_state:
  assumes "launchd_laws exec loaded" and "plist_path env = Inr plist"
  shows "mac_state exec env h = ((if h_files h plist = None then NotInstalled
     else if loaded (h_mgr h) then DaemonRunning else Paused), h)"
  using assms(2) by (cases "h_files h plist") (simp_all add: mac_state_def laws_loaded [OF assms(1)])

lemma laws_uid:
  assumes "launchd_laws exec loaded" and "current_uid exec h = (u, h')"
  shows "loaded (h_mgr h') = loaded (h_mgr h)" and "h_files h' = h_files h"
proof -
  have "loaded (snd (exec [''id'', ''-u''] (h_mgr h))) = loaded (h_mgr h)"
    using assms(1) unfolding launchd_laws_def by blast
  then show "loaded (h_mgr h') = loaded (h_mgr h)" "h_files h' = h_files h"
    using assms(2) by (auto simp: current_uid_def run_cmd_def split: prod.splits)
qed

lemma laws_run:
  assumes "launchd_laws exec loaded" and "run_cmd exec args h = (r, h')"
  shows "args = [''launchctl'', ''bootout'', ''gui/'' @ uid @ ''/'' @ LABEL] \<Longrightarrow> \<not> loaded (h_mgr h')"
    and "cmd_ok r \<Longrightarrow> args = [''launchctl'', ''kickstart'', ''gui/'' @ uid @ ''/'' @ LABEL] \<Longrightarrow> loaded (h_mgr h')"
    and "cmd_ok r \<Longrightarrow> args = [''launchctl'', ''kickstart'', ''-k'', ''gui/'' @ uid @ ''/'' @ LABEL] \<Longrightarrow> loaded (h_mgr h')"
proof -
  show "\<not> loaded (h_mgr h')" if "args = [''launchctl'', ''bootout'', ''gui/'' @ uid @ ''/'' @ LABEL]"
  proof -
    have "\<not> loaded (snd (exec args (h_mgr h)))" using assms(1) that unfolding launchd_laws_def by blast
    then show ?thesis using assms(2) by (auto simp: run_cmd_def split: prod.splits)
  qed
  show "loaded (h_mgr h')" if "cmd_ok r" "args = [''launchctl'', ''kickstart'', ''gui/'' @ uid @ ''/'' @ LABEL]"
    using run_ok [OF assms(2) that(1)] assms(1) that(2) unfolding launchd_laws_def by blast
  show "loaded (h_mgr h')" if "cmd_ok r" "args = [''launchctl'', ''kickstart'', ''-k'', ''gui/'' @ uid @ ''/'' @ LABEL]"
    using run_ok [OF assms(2) that(1)] assms(1) that(2) unfolding launchd_laws_def by blast
qed

lemma laws_bootstrap:
  assumes "launchd_laws exec loaded" and "mac_bootstrap exec uid p h = (r, h')" and "cmd_ok r"
  shows "loaded (h_mgr h')" and "h_files h' = h_files h"
proof -
  note r = assms(2) [unfolded mac_bootstrap_def]
  show "loaded (h_mgr h')"
    using run_ok [OF r assms(3)] assms(1) unfolding launchd_laws_def by blast
  show "h_files h' = h_files h" by (rule run_cmd_files' [OF r])
qed

lemma laws_mac_pause:
  assumes "launchd_laws exec loaded" and "plist_path env = Inr plist" and "mac_pause exec env h = (Inr b, h')"
  shows "h_files h' = h_files h \<and> h_files h plist \<noteq> None \<and> \<not> loaded (h_mgr h')"
proof -
  have p: "h_files h plist \<noteq> None" using assms(2,3) by (cases "h_files h plist") (simp_all add: mac_pause_def)
  then obtain uid h1 r where "current_uid exec h = (Some uid, h1)"
      "run_cmd exec [''launchctl'', ''bootout'', ''gui/'' @ uid @ ''/'' @ LABEL] h1 = (r, h')"
    using assms(2,3) by (auto simp: mac_pause_def split: prod.splits option.splits)
  then show ?thesis
    using laws_run(1) [OF assms(1)] laws_uid(2) [OF assms(1)] run_cmd_files' p by (metis (no_types))
qed

lemma laws_mac_resume:
  assumes "launchd_laws exec loaded" and "plist_path env = Inr plist" and "mac_resume exec env h = (Inr u, h')"
  shows "h_files h' = h_files h \<and> h_files h plist \<noteq> None \<and> loaded (h_mgr h')"
proof -
  have p: "h_files h plist \<noteq> None" using assms(2,3) by (cases "h_files h plist") (simp_all add: mac_resume_def)
  then obtain uid h1 r h2 where s: "current_uid exec h = (Some uid, h1)" "mac_bootstrap exec uid plist h1 = (r, h2)"
    using assms(2,3) by (auto simp: mac_resume_def split: prod.splits option.splits)
  have f1: "h_files h1 = h_files h" by (rule laws_uid(2) [OF assms(1) s(1)])
  show ?thesis
  proof (cases "cmd_ok r")
    case True
    then have "h' = h2" using assms(2,3) p s by (auto simp: mac_resume_def)
    then show ?thesis using laws_bootstrap [OF assms(1) s(2) True] f1 p by simp
  next
    case False
    have f2: "h_files h2 = h_files h1" by (rule run_cmd_files' [OF s(2) [unfolded mac_bootstrap_def]])
    from False obtain k where k: "run_cmd exec [''launchctl'', ''kickstart'', ''gui/'' @ uid @ ''/'' @ LABEL] h2 = (k, h')"
        "cmd_ok k"
      using assms(2,3) p s by (auto simp: mac_resume_def split: prod.splits if_splits)
    then show ?thesis
      using laws_run(2) [OF assms(1) k(1) k(2)] run_cmd_files' [OF k(1)] f1 f2 p by simp
  qed
qed

lemma laws_mac_restart:
  assumes "launchd_laws exec loaded" and "mac_restart exec h = (Inr b, h')"
  shows "h_files h' = h_files h \<and> loaded (h_mgr h') = loaded (h_mgr h)"
proof (cases "loaded (h_mgr h)")
  case True
  then obtain uid h1 r where s: "current_uid exec h = (Some uid, h1)"
      "run_cmd exec [''launchctl'', ''kickstart'', ''-k'', ''gui/'' @ uid @ ''/'' @ LABEL] h1 = (r, h')" "cmd_ok r"
    using assms(2) by (auto simp: mac_restart_def laws_loaded [OF assms(1)] split: prod.splits option.splits if_splits)
  then show ?thesis
    using laws_run(3) [OF assms(1) s(2) s(3)] laws_uid(2) [OF assms(1) s(1)] run_cmd_files' [OF s(2)] True by simp
next
  case False
  then show ?thesis using assms(2) by (simp add: mac_restart_def laws_loaded [OF assms(1)])
qed

lemma mac_uninstall_removes:
  "plist_path env = Inr plist \<Longrightarrow> mac_uninstall exec env h = (Inr p, h') \<Longrightarrow> p = plist \<and> h_files h' plist = None"
  by (auto simp: mac_uninstall_def Let_def split: if_splits)

lemma legacy_not_plist:
  assumes "plist_path env = Inr plist" and "legacy_plist_path env h = Some p"
  shows "p \<noteq> plist"
proof -
  obtain home where "he_home env = Some home" using assms(2) by (auto simp: legacy_plist_path_def split: option.splits)
  then show ?thesis
    using assms by (auto simp: plist_path_def launch_agents_dir_def legacy_plist_path_def Let_def
        LABEL_def LEGACY_LABEL_def split: if_splits)
qed

lemma laws_load:
  assumes "launchd_laws exec loaded" and "mac_load exec uid plist h = (Inr u, h')"
  shows "loaded (h_mgr h') \<and> h_files h' = h_files h"
proof -
  obtain r1 h1 where b1: "mac_bootstrap exec uid plist h = (r1, h1)" by (cases "mac_bootstrap exec uid plist h")
  show ?thesis
  proof (cases "cmd_ok r1")
    case True
    then have "h' = h1" using assms(2) b1 by (auto simp: mac_load_def cmd_ok_def split: option.splits)
    then show ?thesis using laws_bootstrap [OF assms(1) b1 True] by simp
  next
    case False
    obtain b h2 where b2: "run_cmd exec [''launchctl'', ''bootout'', ''gui/'' @ uid, LABEL] h1 = (b, h2)"
      by (cases "run_cmd exec [''launchctl'', ''bootout'', ''gui/'' @ uid, LABEL] h1")
    obtain r3 h3 where b3: "mac_bootstrap exec uid plist h2 = (r3, h3)" by (cases "mac_bootstrap exec uid plist h2")
    have "h' = h3" "cmd_ok r3"
      using assms(2) False b1 b2 b3
      by (auto simp: mac_load_def cmd_ok_def split: option.splits if_splits)
    then show ?thesis
      using laws_bootstrap [OF assms(1) b3] run_cmd_files' [OF b2]
        run_cmd_files' [OF b1 [unfolded mac_bootstrap_def]] by simp
  qed
qed

text \<open>The end of an install that succeeded: the agent is bootstrapped, the legacy file gone.\<close>

lemma laws_mac_install:
  assumes "launchd_laws exec loaded" and "plist_path env = Inr plist"
    and "mac_install exec env spec h = (Inr rep, h')"
  shows "h_files h' plist = Some (build_plist spec) \<and> loaded (h_mgr h')"
proof -
  obtain h1 u h2 x h3 b where s: "current_uid exec (h1\<lparr>h_files := (h_files h1)(plist \<mapsto> build_plist spec)\<rparr>) = (u, h2)"
      "mac_load exec (case u of Some v \<Rightarrow> v | None \<Rightarrow> []) plist h2 = (Inr x, h3)" "remove_legacy env h3 = (b, h')"
    using assms(2,3) by (auto simp: mac_install_def Let_def split: prod.splits sum.splits if_splits)
  have "h_files h3 plist = Some (build_plist spec)" "loaded (h_mgr h3)"
    using laws_load [OF assms(1) s(2)] laws_uid(2) [OF assms(1) s(1)] by simp_all
  then show ?thesis
    using s(3) legacy_not_plist [OF assms(2), of h3] by (auto simp: remove_legacy_def split: option.splits)
qed


text \<open>A launchd that does what it is told, its state whether our agent is loaded.\<close>

definition listing :: "bool \<Rightarrow> string" where
  "listing loaded = (if loaded then launchctl_row (''71'', ''0'', LABEL) @ nl else [])"

lemma listing_loaded:
  "label_is_loaded (listing b) LABEL = b" "\<not> label_is_loaded (listing b) LEGACY_LABEL"
proof -
  have t: "trim ''com.decent-render.decent'' = ''com.decent-render.decent''"
    by (rule trim_no_ws) (simp add: is_ws_def)
  have l: "lines_of (listing True) = [launchctl_row (''71'', ''0'', LABEL)]"
    using lines_of_text [of "[launchctl_row (''71'', ''0'', LABEL)]"]
    by (simp add: listing_def launchctl_row_def LABEL_def)
  have "label_is_loaded (listing True) x = (''com.decent-render.decent'' = x)" for x
    unfolding label_is_loaded_def l by (simp add: launchctl_row_def LABEL_def t)
  moreover have "\<not> label_is_loaded (listing False) x" for x by (simp add: label_is_loaded_def listing_def)
  ultimately show "label_is_loaded (listing b) LABEL = b" "\<not> label_is_loaded (listing b) LEGACY_LABEL"
    by (cases b; simp add: LABEL_def LEGACY_LABEL_def)+
qed

definition obedient_launchd :: "bool exec" where
  "obedient_launchd args m =
     (if args = [''launchctl'', ''list''] then (Some (True, listing m), m)
      else if take 2 args = [''launchctl'', ''bootout''] then (Some (m, []), False)
      else if take 2 args \<in> {[''launchctl'', ''bootstrap''], [''launchctl'', ''kickstart'']} then (Some (True, []), True)
      else (Some (True, ''501''), m))"

lemma obedient_launchd_laws: "launchd_laws obedient_launchd (\<lambda>m. m)"
  unfolding launchd_laws_def obedient_launchd_def by (auto simp: listing_loaded)

definition mac_env :: host_env where
  "mac_env = \<lparr>he_home = Some ''/u'', he_xdg = None, he_mkdir = True, he_write = True, he_left = None,
     he_remove = True\<rparr>"

definition mac_plist :: string where
  "mac_plist = ''/u/Library/LaunchAgents/com.decent-render.decent.plist''"

lemma mac_env_plist: "plist_path mac_env = Inr mac_plist"
  by (simp add: plist_path_def launch_agents_dir_def mac_env_def mac_plist_def LABEL_def)

definition mac_host :: "bool \<Rightarrow> bool host" where
  "mac_host b = \<lparr>h_files = [mac_plist \<mapsto> ''p''], h_mgr = b\<rparr>"


text \<open>
  \<open>pause\<close> takes every bootout that fails for \<open>already stopped\<close>: one that fails on a loaded agent is
  reported as a daemon that was not running, and the daemon runs on.
\<close>

theorem mac_pause_hides_failure:
  "\<exists>(exec :: bool exec) h'. mac_pause exec mac_env (mac_host True) = (Inr False, h')
     \<and> fst (mac_state exec mac_env h') = DaemonRunning"
proof -
  define exec :: "bool exec" where
    "exec args m = (if take 2 args = [''launchctl'', ''bootout''] then (Some (False, []), m)
       else obedient_launchd args m)" for args m
  have uid: "current_uid exec h = (Some ''501'', h)" for h
    using trim_no_ws [of "''501''"]
    by (simp add: current_uid_def run_cmd_def exec_def obedient_launchd_def is_ws_def)
  have "mac_pause exec mac_env (mac_host True) = (Inr False, mac_host True)"
    by (simp add: mac_pause_def mac_env_plist uid mac_host_def) (simp add: run_cmd_def exec_def cmd_ok_def)
  moreover have "fst (mac_state exec mac_env (mac_host True)) = DaemonRunning"
    by (simp add: mac_state_def mac_env_plist mac_host_def mac_is_loaded_def launchctl_list_def run_cmd_def
        exec_def obedient_launchd_def cmd_out_def is_loaded_def listing_loaded)
  ultimately show ?thesis by blast
qed

end
