(* ===== verification/Packager.thy ===== *)
theory Packager
  imports Versions
begin

text \<open>
  \<open>decent upgrade\<close> up to the package manager's return (\<open>bins/decent/src/main.rs\<close>): a subprocess under
  a wall-clock bound, the refresh of the Homebrew tap, the version of the binary the next
  invocation runs, and the verdict. What the subprocesses answer is a record.
\<close>

section \<open>A bounded subprocess\<close>

text \<open>An exit status: its code, or nothing when a signal ended the process.\<close>

type_synonym exit_status = "nat option"

definition status_ok :: "exit_status \<Rightarrow> bool" where
  "status_ok st = (st = Some 0)"

datatype try_wait = WaitExited exit_status | WaitRunning | WaitError string
datatype group_event = GroupTerm | GroupKill | Reaped

datatype bounded_end = Finished exit_status | TimedOut | OsError string

text \<open>
  The grace loop: a poll is the instant it starts at and what \<open>try_wait\<close> answers when that is asked.
  Without a value the polls ran out first. After the kill the child is awaited without a bound.
\<close>

fun grace_loop :: "instant \<Rightarrow> (instant \<times> try_wait) list \<Rightarrow> (group_event list \<times> bounded_end) option" where
  "grace_loop grace [] = None"
| "grace_loop grace ((now, w) # polls) =
     (if now < grace
      then (case w of WaitExited st \<Rightarrow> Some ([], TimedOut)
            | WaitError e \<Rightarrow> Some ([], OsError e)
            | WaitRunning \<Rightarrow> grace_loop grace polls)
      else Some ([GroupKill, Reaped], TimedOut))"

text \<open>The main loop asks \<open>try_wait\<close> first and reads the clock after it; \<open>signaled\<close> is the clock after the \<open>TERM\<close>.\<close>

fun bounded_loop :: "instant \<Rightarrow> (try_wait \<times> instant) list \<Rightarrow> instant
    \<Rightarrow> (instant \<times> try_wait) list \<Rightarrow> (group_event list \<times> bounded_end) option" where
  "bounded_loop deadline [] signaled grace_polls = None"
| "bounded_loop deadline ((w, now) # polls) signaled grace_polls =
     (case w of WaitExited st \<Rightarrow> Some ([], Finished st)
      | WaitError e \<Rightarrow> Some ([], OsError e)
      | WaitRunning \<Rightarrow>
          if deadline \<le> now
          then map_option (\<lambda>(evs, r). (GroupTerm # evs, r)) (grace_loop (signaled + secs 5) grace_polls)
          else bounded_loop deadline polls signaled grace_polls)"

definition run_bounded :: "string option \<Rightarrow> instant \<Rightarrow> duration \<Rightarrow> (try_wait \<times> instant) list \<Rightarrow> instant
    \<Rightarrow> (instant \<times> try_wait) list \<Rightarrow> (group_event list \<times> bounded_end) option" where
  "run_bounded spawn_error start timeout polls signaled grace_polls =
     (case spawn_error of Some e \<Rightarrow> Some ([], OsError e)
      | None \<Rightarrow> bounded_loop (start + timeout) polls signaled grace_polls)"

lemma grace_loop_ends:
  "i < length polls \<Longrightarrow> grace \<le> fst (polls ! i) \<Longrightarrow> grace_loop grace polls \<noteq> None"
proof (induction polls arbitrary: i)
  case (Cons p ps)
  then show ?case by (cases p; cases i) (auto split: try_wait.splits)
qed simp

lemma grace_loop_result:
  "grace_loop grace polls = Some (evs, r) \<Longrightarrow>
     evs \<in> {[], [GroupKill, Reaped]} \<and> (evs \<noteq> [] \<longrightarrow> r = TimedOut) \<and> (\<forall>st. r \<noteq> Finished st)"
  by (induction grace polls rule: grace_loop.induct) (auto split: if_splits try_wait.splits)

lemma bounded_loop_ends:
  assumes "i < length polls" and "deadline \<le> snd (polls ! i)"
    and "j < length grace_polls" and "signaled + secs 5 \<le> fst (grace_polls ! j)"
  shows "bounded_loop deadline polls signaled grace_polls \<noteq> None"
  using assms(1,2)
proof (induction polls arbitrary: i)
  case (Cons p ps)
  obtain w now where p: "p = (w, now)" by (cases p)
  have g: "grace_loop (signaled + secs 5) grace_polls \<noteq> None" by (rule grace_loop_ends [OF assms(3,4)])
  have "bounded_loop deadline ps signaled grace_polls \<noteq> None" if "\<not> deadline \<le> now"
    using Cons.IH Cons.prems p that by (cases i) auto
  then show ?case using p g by (cases w) auto
qed simp

lemma bounded_loop_result:
  "bounded_loop deadline polls signaled grace_polls = Some (evs, r) \<Longrightarrow>
     (case r of Finished st \<Rightarrow> evs = [] \<and> (\<exists>now. (WaitExited st, now) \<in> set polls)
      | TimedOut \<Rightarrow> evs \<in> {[GroupTerm], [GroupTerm, GroupKill, Reaped]}
      | OsError e \<Rightarrow> evs \<in> {[], [GroupTerm]})"
proof (induction deadline polls signaled grace_polls rule: bounded_loop.induct)
  case (2 deadline w now polls signaled grace_polls)
  show ?case
  proof (cases "w = WaitRunning \<and> deadline \<le> now")
    case True
    then obtain evs' where e: "grace_loop (signaled + secs 5) grace_polls = Some (evs', r)"
        "evs = GroupTerm # evs'"
      using 2(2) by auto
    from grace_loop_result [OF e(1)] show ?thesis using e(2) by (cases r) auto
  next
    case False
    then show ?thesis using 2 by (cases w; cases r) (auto split: bounded_end.splits)
  qed
qed simp



section \<open>The package manager\<close>

text \<open>
  What the commands answer: \<open>tl_repo\<close> the success and output of \<open>brew --repository\<close>, the results of
  the bounded runs, the formula file read after them, the output of \<open>brew --prefix\<close> and what an
  executable prints for \<open>--version\<close> once the package manager is done. A run is an exit status or
  the text of its error.
\<close>

record tool_answers =
  tl_repo :: "(bool \<times> string) option"
  tl_pull :: "string + exit_status"
  tl_update :: "string + exit_status"
  tl_formula :: "string \<Rightarrow> string option"
  tl_brew :: "string + exit_status"
  tl_installer :: "string + exit_status"
  tl_prefix :: "string option"
  tl_exe :: "string option"
  tl_version :: "string \<Rightarrow> string option"

datatype tool_call = BrewRepository | GitPull string | BrewUpdate | ReadFormula string | BrewUpgrade | Installer

definition run_ok :: "string + exit_status \<Rightarrow> bool" where
  "run_ok r = (case r of Inr st \<Rightarrow> status_ok st | Inl e \<Rightarrow> False)"

definition refresh_homebrew_tap :: "tool_answers \<Rightarrow> string option \<times> tool_call list" where
  "refresh_homebrew_tap t =
     (case tl_repo t of
        Some (True, out) \<Rightarrow>
          (let repo = trim out;
               formula = repo @ ''/Formula/decent.rb''
           in (Option.bind (tl_formula t formula) parse_formula_version,
               [BrewRepository, GitPull repo] @ (if run_ok (tl_pull t) then [] else [BrewUpdate])
                 @ [ReadFormula formula]))
      | _ \<Rightarrow> (None, [BrewRepository]))"

definition join_path :: "string \<Rightarrow> string \<Rightarrow> string" where
  "join_path p q = (if p \<noteq> [] \<and> last p \<noteq> CHR ''/'' then p @ ''/'' @ q else p @ q)"

definition installed_version :: "target_os \<Rightarrow> tool_answers \<Rightarrow> string option" where
  "installed_version os t =
     (let exe = (if os = MacOs then map_option (\<lambda>out. join_path (trim out) ''bin/decent'') (tl_prefix t)
                 else tl_exe t)
      in Option.bind (Option.bind exe (tl_version t)) parse_version_word)"

definition upgrade_binary :: "target_os \<Rightarrow> string \<Rightarrow> tool_answers
    \<Rightarrow> (string + upgrade_outcome) \<times> tool_call list" where
  "upgrade_binary os before t =
     (case os of
        MacOs \<Rightarrow>
          (let (latest, calls) = refresh_homebrew_tap t
           in if latest = Some before then (Inr (AlreadyCurrent before), calls)
              else (case tl_brew t of
                      Inl e \<Rightarrow> (Inl (''Could not complete `brew upgrade decent` ('' @ e @ '')''), calls @ [BrewUpgrade])
                    | Inr st \<Rightarrow>
                        (if status_ok st
                         then upgrade_outcome_of before (installed_version os t) latest
                         else Inl ''`brew upgrade decent` failed'', calls @ [BrewUpgrade])))
      | LinuxOs \<Rightarrow>
          ((case tl_installer t of
              Inl e \<Rightarrow> Inl (''Could not complete the installer ('' @ e @ '')'')
            | Inr st \<Rightarrow>
                (if status_ok st
                 then (let after = installed_version os t in upgrade_outcome_of before after after)
                 else Inl ''The release installer failed'')), [Installer])
      | OtherOs \<Rightarrow> (Inl ''`decent upgrade` is supported on macOS and Linux only.'', []))"


text \<open>
  The Linux installer is a pipeline, \<open>curl ... | sh\<close>, and a shell's status for a pipeline is that of
  its last command. When \<open>curl\<close> fails, or is not there, \<open>sh\<close> reads nothing and succeeds: the
  failure branch is not taken, the binary has not changed, and the failed download is reported as
  an installation that is current.
\<close>

definition pipeline_status :: "exit_status list \<Rightarrow> exit_status" where
  "pipeline_status sts = last sts"

theorem failed_download_reported_current:
  assumes "tl_installer t = Inr (pipeline_status [curl_status, Some 0])"
    and "installed_version LinuxOs t = Some before"
  shows "upgrade_binary LinuxOs before t = (Inr (AlreadyCurrent before), [Installer])"
  using assms by (simp add: upgrade_binary_def pipeline_status_def status_ok_def upgrade_outcome_of_def Let_def)

end
