(* ===== verification/Cli.thy ===== *)
theory Cli
  imports Doctor Service_Linux Service_Mac Upgrade Packager
begin

text \<open>
  The commands of \<open>decent\<close> (\<open>bins/decent/src/main.rs\<close>): login, logout, install, uninstall, pause,
  resume, status, upgrade, auto-upgrade and logs, over the token file, the config directory and the
  service manager of the parts they are made of. A printed line is a constructor with the values it
  shows; a command returns its lines, and an error when it ends with one.
\<close>

section \<open>The node\<close>

record 'm node =
  nd_files :: files
  nd_conf :: config_files
  nd_host :: "'m host"

record 'm cli_env =
  ce_os :: target_os
  ce_exec :: "'m exec"
  ce_host :: host_env
  ce_token :: token_env
  ce_remove :: bool
  ce_from_slice :: "u8 list \<Rightarrow> json option"
  ce_parse_url :: "string \<Rightarrow> string + url_parts"
  ce_parse_f64 :: "string \<Rightarrow> f64 option"
  ce_exe :: "string + string"
  ce_version :: string
  ce_now_ms :: nat

datatype cli_error = ErrUrl url_error | ErrTokenShape token_error | ErrNoToken | ErrText string

text \<open>The operations of \<open>service.rs\<close> on the platform the program was built for.\<close>

definition unsupported :: string where
  "unsupported = ''Unattended install is only supported on macOS (launchd) and Linux (systemd).''"

definition svc_state :: "'m cli_env \<Rightarrow> 'm host \<Rightarrow> daemon_state \<times> 'm host" where
  "svc_state ce h =
     (case ce_os ce of MacOs \<Rightarrow> mac_state (ce_exec ce) (ce_host ce) h
      | LinuxOs \<Rightarrow> linux_state (ce_exec ce) (ce_host ce) h
      | OtherOs \<Rightarrow> (NotInstalled, h))"

definition svc_restart :: "'m cli_env \<Rightarrow> 'm host \<Rightarrow> (string + bool) \<times> 'm host" where
  "svc_restart ce h =
     (case ce_os ce of MacOs \<Rightarrow> mac_restart (ce_exec ce) h
      | LinuxOs \<Rightarrow> linux_restart (ce_exec ce) (ce_host ce) h
      | OtherOs \<Rightarrow> (Inl unsupported, h))"

definition svc_pause :: "'m cli_env \<Rightarrow> 'm host \<Rightarrow> (string + bool) \<times> 'm host" where
  "svc_pause ce h =
     (case ce_os ce of MacOs \<Rightarrow> mac_pause (ce_exec ce) (ce_host ce) h
      | LinuxOs \<Rightarrow> linux_pause (ce_exec ce) (ce_host ce) h
      | OtherOs \<Rightarrow> (Inl unsupported, h))"

definition svc_resume :: "'m cli_env \<Rightarrow> 'm host \<Rightarrow> (string + unit) \<times> 'm host" where
  "svc_resume ce h =
     (case ce_os ce of MacOs \<Rightarrow> mac_resume (ce_exec ce) (ce_host ce) h
      | LinuxOs \<Rightarrow> linux_resume (ce_exec ce) (ce_host ce) h
      | OtherOs \<Rightarrow> (Inl unsupported, h))"

definition svc_uninstall :: "'m cli_env \<Rightarrow> 'm host \<Rightarrow> (string + string) \<times> 'm host" where
  "svc_uninstall ce h =
     (case ce_os ce of MacOs \<Rightarrow> mac_uninstall (ce_exec ce) (ce_host ce) h
      | LinuxOs \<Rightarrow> linux_uninstall (ce_exec ce) (ce_host ce) h
      | OtherOs \<Rightarrow> (Inl unsupported, h))"

definition svc_install :: "'m cli_env \<Rightarrow> service_spec \<Rightarrow> 'm host \<Rightarrow> (string + string) \<times> 'm host" where
  "svc_install ce spec h =
     (case ce_os ce of
        MacOs \<Rightarrow> map_prod (map_sum id mr_unit_path) id (mac_install (ce_exec ce) (ce_host ce) spec h)
      | LinuxOs \<Rightarrow> map_prod (map_sum id ir_unit_path) id (linux_install (ce_exec ce) (ce_host ce) spec h)
      | OtherOs \<Rightarrow> (Inl unsupported, h))"

definition legacy_daemon_is_loaded :: "'m cli_env \<Rightarrow> 'm host \<Rightarrow> bool \<times> 'm host" where
  "legacy_daemon_is_loaded ce h =
     (if ce_os ce = MacOs
      then (case launchctl_list (ce_exec ce) h of (out, h') \<Rightarrow> (legacy_is_loaded out, h'))
      else (False, h))"

section \<open>Lines\<close>

datatype cli_line =
    LnTokenSaved | LnRestarted | LnRestartByHand | LnRestartFailed string | LnNoDaemon
  | LnPairAt string | LnTokenCleared | LnNothingToClear
  | LnInstalled string string string | LnUninstalled string
  | LnPaused | LnWasNotRunning | LnResumed
  | LnUpgraded string string | LnAlreadyOn string | LnRestartingStale string "string option"
  | LnNewBinaryLoaded | LnDaemonNotRunning | LnRestartByHint string string
  | LnAutoOn daemon_state | LnAutoOff | LnAutoStatus bool | LnLastAttempt "attempt_record option"
  | StToken bool | StDaemon daemon_state | StLegacy
  | StConnection string | StConnectionStale | StNoLiveSnapshot
  | StJob "(string \<times> string \<times> nat) option" | StPower string | StJobs nat nat nat
  | StUpdate update_text | StUpdateStale | StUpdateNone | StAutoUpgrade bool
  | StAttempt string string string | StLog string | StHint
  | LnNoLog string | LnLogLine string

section \<open>Token commands\<close>

definition delete_token :: "bool \<Rightarrow> token_env \<Rightarrow> files \<Rightarrow> (string + unit) \<times> files" where
  "delete_token removable env fs =
     (case token_path env fs of
        (Inl e, fs1) \<Rightarrow> (Inl e, fs1)
      | (Inr path, fs1) \<Rightarrow>
          (if fs1 path = None then (Inr (), fs1)
           else if removable then (Inr (), fs1(path := None))
           else (Inl ''remove_file'', fs1)))"

definition apply_token_to_running_daemon :: "'m cli_env \<Rightarrow> 'm node \<Rightarrow> cli_line \<times> 'm node" where
  "apply_token_to_running_daemon ce n =
     (case svc_state ce (nd_host n) of
        (DaemonRunning, h1) \<Rightarrow>
          (case svc_restart ce h1 of
             (Inr True, h2) \<Rightarrow> (LnRestarted, n\<lparr>nd_host := h2\<rparr>)
           | (Inr False, h2) \<Rightarrow> (LnRestartByHand, n\<lparr>nd_host := h2\<rparr>)
           | (Inl e, h2) \<Rightarrow> (LnRestartFailed e, n\<lparr>nd_host := h2\<rparr>))
      | (_, h1) \<Rightarrow> (LnNoDaemon, n\<lparr>nd_host := h1\<rparr>))"

text \<open>What both ways of logging in do with the token.\<close>

definition store_token :: "'m cli_env \<Rightarrow> string \<Rightarrow> 'm node \<Rightarrow> cli_line list \<times> cli_error option \<times> 'm node" where
  "store_token ce token n =
     (case validate_worker_token_shape (ce_from_slice ce) token of
        Inl e \<Rightarrow> ([], Some (ErrTokenShape e), n)
      | Inr u \<Rightarrow>
          (case save_token (ce_token ce) token (nd_files n) of
             (Inl e, fs) \<Rightarrow> ([], Some (ErrText e), n\<lparr>nd_files := fs\<rparr>)
           | (Inr v, fs) \<Rightarrow>
               (case apply_token_to_running_daemon ce (n\<lparr>nd_files := fs\<rparr>) of
                  (l, n') \<Rightarrow> ([l], None, n'))))"

fun trim_end_slash :: "string \<Rightarrow> string" where
  "trim_end_slash s = rev (dropWhile (\<lambda>c. c = CHR ''/'') (rev s))"

text \<open>\<open>pasted\<close>: the line read from the terminal when no token was given.\<close>

definition login_command :: "'m cli_env \<Rightarrow> string \<Rightarrow> string option \<Rightarrow> string + string \<Rightarrow> 'm node
    \<Rightarrow> cli_line list \<times> cli_error option \<times> 'm node" where
  "login_command ce app_url given pasted n =
     (case given of
        Some tok \<Rightarrow>
          (case store_token ce (trim tok) n of
             (ls, None, n') \<Rightarrow> (LnTokenSaved # ls, None, n')
           | (ls, Some e, n') \<Rightarrow> (ls, Some e, n'))
      | None \<Rightarrow>
          (let shown = LnPairAt (trim_end_slash app_url @ ''/devices'')
           in case pasted of
                Inl e \<Rightarrow> ([shown], Some (ErrText e), n)
              | Inr line \<Rightarrow>
                  (case store_token ce (trim line) n of
                     (ls, None, n') \<Rightarrow> (shown # ls @ [LnTokenSaved], None, n')
                   | (ls, Some e, n') \<Rightarrow> (shown # ls, Some e, n'))))"

definition logout_command :: "'m cli_env \<Rightarrow> 'm node \<Rightarrow> cli_line list \<times> cli_error option \<times> 'm node" where
  "logout_command ce n =
     (case load_token (ce_token ce) (nd_files n) of
        (token, fs1) \<Rightarrow>
          (case delete_token (ce_remove ce) (ce_token ce) fs1 of
             (Inl e, fs2) \<Rightarrow> ([], Some (ErrText e), n\<lparr>nd_files := fs2\<rparr>)
           | (Inr u, fs2) \<Rightarrow>
               ([if token \<noteq> [] then LnTokenCleared else LnNothingToClear], None, n\<lparr>nd_files := fs2\<rparr>)))"

section \<open>Service commands\<close>

definition ensure_private_log_file :: "token_env \<Rightarrow> string \<Rightarrow> files \<Rightarrow> (string + unit) \<times> files" where
  "ensure_private_log_file env path fs =
     (if \<not> tk_mkdir env then (Inl ''create_dir_all'', fs)
      else if \<not> tk_write env then (Inl ''open'', fs)
      else (Inr (), set_owner_only (tk_chmod env) 384 path
              (case fs path of Some f \<Rightarrow> fs | None \<Rightarrow> fs(path \<mapsto> ([], tk_umask env)))))"

definition install_command :: "'m cli_env \<Rightarrow> string \<Rightarrow> 'm node \<Rightarrow> cli_line list \<times> cli_error option \<times> 'm node" where
  "install_command ce url n =
     (case validate_dispatch_url (ce_parse_url ce) url of
        Inl e \<Rightarrow> ([], Some (ErrUrl e), n)
      | Inr u \<Rightarrow>
          (case load_token (ce_token ce) (nd_files n) of
             (token, fs1) \<Rightarrow>
               if token = [] then ([], Some ErrNoToken, n\<lparr>nd_files := fs1\<rparr>)
               else (case ce_exe ce of
                       Inl e \<Rightarrow> ([], Some (ErrText e), n\<lparr>nd_files := fs1\<rparr>)
                     | Inr exe \<Rightarrow>
                         (case token_path (ce_token ce) fs1 of
                            (Inl e, fs2) \<Rightarrow> ([], Some (ErrText e), n\<lparr>nd_files := fs2\<rparr>)
                          | (Inr path, fs2) \<Rightarrow>
                              (case ensure_private_log_file (ce_token ce) (default_log_path path) fs2 of
                                 (Inl e, fs3) \<Rightarrow> ([], Some (ErrText e), n\<lparr>nd_files := fs3\<rparr>)
                               | (Inr v, fs3) \<Rightarrow>
                                   (case svc_install ce \<lparr>sp_exe = exe, sp_dispatch_url = url,
                                           sp_log_path = default_log_path path\<rparr> (nd_host n) of
                                      (Inl e, h) \<Rightarrow> ([], Some (ErrText e), n\<lparr>nd_files := fs3, nd_host := h\<rparr>)
                                    | (Inr unit_file, h) \<Rightarrow>
                                        ([LnInstalled exe unit_file (default_log_path path)], None,
                                         n\<lparr>nd_files := fs3, nd_host := h\<rparr>)))))))"

definition uninstall_command :: "'m cli_env \<Rightarrow> 'm node \<Rightarrow> cli_line list \<times> cli_error option \<times> 'm node" where
  "uninstall_command ce n =
     (case svc_uninstall ce (nd_host n) of
        (Inl e, h) \<Rightarrow> ([], Some (ErrText e), n\<lparr>nd_host := h\<rparr>)
      | (Inr unit_file, h) \<Rightarrow> ([LnUninstalled unit_file], None, n\<lparr>nd_host := h\<rparr>))"

definition pause_command :: "'m cli_env \<Rightarrow> 'm node \<Rightarrow> cli_line list \<times> cli_error option \<times> 'm node" where
  "pause_command ce n =
     (case svc_pause ce (nd_host n) of
        (Inl e, h) \<Rightarrow> ([], Some (ErrText e), n\<lparr>nd_host := h\<rparr>)
      | (Inr was_running, h) \<Rightarrow>
          ([if was_running then LnPaused else LnWasNotRunning], None, n\<lparr>nd_host := h\<rparr>))"

definition resume_command :: "'m cli_env \<Rightarrow> 'm node \<Rightarrow> cli_line list \<times> cli_error option \<times> 'm node" where
  "resume_command ce n =
     (case svc_resume ce (nd_host n) of
        (Inl e, h) \<Rightarrow> ([], Some (ErrText e), n\<lparr>nd_host := h\<rparr>)
      | (Inr u, h) \<Rightarrow> ([LnResumed], None, n\<lparr>nd_host := h\<rparr>))"

definition manual_restart_hint :: "target_os \<Rightarrow> string" where
  "manual_restart_hint os =
     (case os of MacOs \<Rightarrow> ''launchctl kickstart -k gui/$(id -u)/'' @ LABEL
      | LinuxOs \<Rightarrow> ''systemctl --user restart '' @ UNIT
      | OtherOs \<Rightarrow> ''(no supported service manager on this platform)'')"

definition restart_line :: "'m cli_env \<Rightarrow> string + bool \<Rightarrow> cli_line" where
  "restart_line ce r =
     (case r of Inr True \<Rightarrow> LnNewBinaryLoaded | Inr False \<Rightarrow> LnDaemonNotRunning
      | Inl e \<Rightarrow> LnRestartByHint e (manual_restart_hint (ce_os ce)))"

definition upgrade_command :: "'m cli_env \<Rightarrow> tool_answers \<Rightarrow> 'm node
    \<Rightarrow> cli_line list \<times> cli_error option \<times> 'm node" where
  "upgrade_command ce t n =
     (case fst (upgrade_binary (ce_os ce) (ce_version ce) t) of
        Inl e \<Rightarrow> ([], Some (ErrText e), n)
      | Inr (Upgraded from to) \<Rightarrow>
          (case svc_restart ce (nd_host n) of
             (r, h) \<Rightarrow> ([LnUpgraded from to, restart_line ce r], None, n\<lparr>nd_host := h\<rparr>))
      | Inr (AlreadyCurrent v) \<Rightarrow>
          (let fs1 = snd (token_path (ce_token ce) (nd_files n));
               snap = read_daemon_snapshot (ce_parse_f64 ce) (ce_token ce) (nd_files n)
           in case daemon_binary_state v (Option.bind snap ds_supervisor_version)
                     (Option.bind snap ds_update_available) of
                BinaryStale running \<Rightarrow>
                  (case svc_restart ce (nd_host n) of
                     (r, h) \<Rightarrow> ([LnRestartingStale v running, restart_line ce r], None,
                               n\<lparr>nd_files := fs1, nd_host := h\<rparr>))
              | _ \<Rightarrow> ([LnAlreadyOn v], None, n\<lparr>nd_files := fs1\<rparr>)))"

section \<open>Unattended upgrades\<close>

datatype auto_action = AutoOn | AutoOff | AutoStatus

definition auto_upgrade_command :: "'m cli_env \<Rightarrow> nat \<Rightarrow> write_env \<Rightarrow> auto_action \<Rightarrow> 'm node
    \<Rightarrow> cli_line list \<times> cli_error option \<times> 'm node" where
  "auto_upgrade_command ce pid we action n =
     (case token_path (ce_token ce) (nd_files n) of
        (Inl e, fs1) \<Rightarrow> ([], Some (ErrText e), n\<lparr>nd_files := fs1\<rparr>)
      | (Inr path, fs1) \<Rightarrow>
          (case action of
             AutoOn \<Rightarrow>
               (case set_enabled pid we (ce_remove ce) True (nd_conf n) of
                  (Inl e, c) \<Rightarrow> ([], Some (ErrText e), n\<lparr>nd_files := fs1, nd_conf := c\<rparr>)
                | (Inr u, c) \<Rightarrow>
                    (case svc_state ce (nd_host n) of
                       (st, h) \<Rightarrow> ([LnAutoOn st], None, n\<lparr>nd_files := fs1, nd_conf := c, nd_host := h\<rparr>)))
           | AutoOff \<Rightarrow>
               (case set_enabled pid we (ce_remove ce) False (nd_conf n) of
                  (Inl e, c) \<Rightarrow> ([], Some (ErrText e), n\<lparr>nd_files := fs1, nd_conf := c\<rparr>)
                | (Inr u, c) \<Rightarrow> ([LnAutoOff], None, n\<lparr>nd_files := fs1, nd_conf := c\<rparr>))
           | AutoStatus \<Rightarrow>
               ([LnAutoStatus (is_enabled (nd_conf n)), LnLastAttempt (read_attempt (nd_conf n))], None,
                n\<lparr>nd_files := fs1\<rparr>)))"

section \<open>Status\<close>

definition percent :: "f64 \<Rightarrow> nat" where
  "percent p = nat \<lfloor>max 0 (min 1 p) * 100 + 1 / 2\<rfloor>"

definition warns :: "update_text \<Rightarrow> bool" where
  "warns u = (case u of UpAvailable v \<Rightarrow> True | StaleDaemon i r \<Rightarrow> True | _ \<Rightarrow> False)"

text \<open>The lines a fresh snapshot yields.\<close>

definition fresh_lines :: "string \<Rightarrow> daemon_snapshot \<Rightarrow> cli_line list" where
  "fresh_lines version s =
     [StConnection (ds_connection s),
      StJob (map_option (\<lambda>(jid, phase, p). (jid, phase, percent p)) (ds_current_job s))]
     @ (if ds_current_job s \<noteq> None then [StPower (idle_sleep_label (ds_keep_awake s))] else [])
     @ [StJobs (ds_jobs_completed s) (ds_jobs_failed s) (ds_jobs_canceled s),
        StUpdate (status_update_line (ds_update_available s) (ds_connection s) version
                    (ds_supervisor_version s)),
        StAutoUpgrade (ds_auto_upgrade_enabled s)]"

definition first_line :: "string \<Rightarrow> string" where
  "first_line s = (case lines_of s of [] \<Rightarrow> [] | l # _ \<Rightarrow> l)"

text \<open>
  The lines about the daemon's snapshot, whether one of them asks for attention, and the error of
  the config directory where it is needed.
\<close>

definition status_body :: "'m cli_env \<Rightarrow> config_files \<Rightarrow> daemon_state \<Rightarrow> daemon_snapshot option
    \<Rightarrow> string + string \<Rightarrow> cli_line list \<times> bool \<times> cli_error option" where
  "status_body ce conf daemon snap dir =
     (case snap of
        Some s \<Rightarrow>
          if is_fresh_at (ce_now_ms ce) s
          then (fresh_lines (ce_version ce) s,
                warns (status_update_line (ds_update_available s) (ds_connection s) (ce_version ce)
                         (ds_supervisor_version s)), None)
          else (case dir of
                  Inl e \<Rightarrow> ([StConnectionStale, StUpdateStale], True, Some (ErrText e))
                | Inr p \<Rightarrow> ([StConnectionStale, StUpdateStale, StAutoUpgrade (is_enabled conf)], True, None))
      | None \<Rightarrow>
          (let pre = (if daemon = DaemonRunning then [StNoLiveSnapshot] else []) @ [StUpdateNone]
           in case dir of
                Inl e \<Rightarrow> (pre, True, Some (ErrText e))
              | Inr p \<Rightarrow> (pre @ [StAutoUpgrade (is_enabled conf)], True, None)))"

definition status_tail :: "attempt_record option \<Rightarrow> string \<Rightarrow> bool \<Rightarrow> cli_line list" where
  "status_tail attempt token_file attention0 =
     (let attention = (attention0
            \<or> (case attempt of Some a \<Rightarrow> needs_attention (at_outcome a) | None \<Rightarrow> False))
      in (case attempt of None \<Rightarrow> []
          | Some a \<Rightarrow> [StAttempt (at_target a) (outcome_label (at_outcome a)) (first_line (at_detail a))])
         @ [StLog (default_log_path token_file)] @ (if attention then [StHint] else []))"

definition status_command :: "'m cli_env \<Rightarrow> 'm node \<Rightarrow> cli_line list \<times> cli_error option \<times> 'm node" where
  "status_command ce n =
     (let (token, fs1) = load_token (ce_token ce) (nd_files n);
          (daemon, h1) = svc_state ce (nd_host n);
          (legacy, h2) = legacy_daemon_is_loaded ce h1;
          n' = n\<lparr>nd_files := fs1, nd_host := h2\<rparr>;
          head = [StToken (token \<noteq> []), StDaemon daemon] @ (if legacy then [StLegacy] else []);
          snap = read_daemon_snapshot (ce_parse_f64 ce) (ce_token ce) fs1;
          dir = fst (token_path (ce_token ce) fs1);
          (body, attention, failed) = status_body ce (nd_conf n) daemon snap dir
      in case (failed, dir) of
           (None, Inr p) \<Rightarrow>
             (head @ body @ status_tail (read_attempt (nd_conf n)) p
                              (token = [] \<or> daemon \<noteq> DaemonRunning \<or> attention), None, n')
         | (None, Inl e) \<Rightarrow> (head @ body, Some (ErrText e), n')
         | (Some e, _) \<Rightarrow> (head @ body, Some e, n'))"

section \<open>Logs\<close>

definition tail_lines :: "string \<Rightarrow> nat \<Rightarrow> string list" where
  "tail_lines txt n =
     (if n = 0 then [] else (let ls = lines_of txt in drop (length ls - n) ls))"

text \<open>
  One poll of \<open>follow_log\<close>: nothing when the file cannot be opened, otherwise its length, the content
  that is there when it is read and whether what was read is UTF-8. The result is the new offset and
  what was printed, or nothing when the read fails.
\<close>

definition follow_poll :: "(nat \<times> string \<times> bool) option \<Rightarrow> nat \<Rightarrow> (nat \<times> string) option" where
  "follow_poll poll offset =
     (case poll of
        None \<Rightarrow> Some (offset, [])
      | Some (len, content, utf8) \<Rightarrow>
          (let off = (if len < offset then 0 else offset)
           in if len = off then Some (off, [])
              else if \<not> utf8 then None else Some (len, drop off content)))"

text \<open>The text printed until Ctrl-C ends the polls, and whether the command ended with an error.\<close>

fun follow_log :: "(nat \<times> string \<times> bool) option list \<Rightarrow> nat \<Rightarrow> string \<times> bool" where
  "follow_log [] offset = ([], False)"
| "follow_log (p # polls) offset =
     (case follow_poll p offset of
        None \<Rightarrow> ([], True)
      | Some (off, out) \<Rightarrow> (case follow_log polls off of (rest, failed) \<Rightarrow> (out @ rest, failed)))"

definition logs_command :: "'m cli_env \<Rightarrow> nat \<Rightarrow> (nat \<times> string \<times> bool) option list option \<Rightarrow> bool \<Rightarrow> 'm node
    \<Rightarrow> cli_line list \<times> string \<times> cli_error option \<times> 'm node" where
  "logs_command ce lines follow readable n =
     (case token_path (ce_token ce) (nd_files n) of
        (Inl e, fs1) \<Rightarrow> ([], [], Some (ErrText e), n\<lparr>nd_files := fs1\<rparr>)
      | (Inr t, fs1) \<Rightarrow>
          (let path = default_log_path t; n' = n\<lparr>nd_files := fs1\<rparr>
           in case fs1 path of
                None \<Rightarrow> ([LnNoLog path], [], None, n')
              | Some (content, mode) \<Rightarrow>
                  if \<not> readable then ([], [], Some (ErrText ''read''), n')
                  else
                    (let shown = map LnLogLine (tail_lines content lines)
                     in case follow of
                          None \<Rightarrow> (shown, [], None, n')
                        | Some polls \<Rightarrow>
                            (case follow_log polls (length content) of
                               (out, failed) \<Rightarrow>
                                 (shown, out, if failed then Some (ErrText ''read'') else None, n')))))"

end
