(* ===== verification/Cli_Facts.thy ===== *)
theory Cli_Facts
  imports Cli
begin

text \<open>
  What holds of the commands of \<open>decent\<close>: what a logout leaves, what the status report may claim,
  what a login and an installation require and do, what following the log prints.
\<close>

section \<open>What the token commands leave\<close>

lemma token_path_new:
  "tk_home env = Some home \<Longrightarrow> \<exists>fs1. token_path env fs = (Inr (new_token_path home), fs1)
     \<and> fs1 (old_token_path home) = fs (old_token_path home)"
  by (auto simp: token_path_def set_owner_only_def Let_def new_token_path_def old_token_path_def
      split: option.splits)

lemma load_token_files: "snd (load_token env fs) = snd (token_path env fs)"
  by (simp add: load_token_def split: prod.split sum.split)

lemma load_without_new:
  assumes "tk_home env = Some home" and "fs (new_token_path home) = None"
  shows "fst (load_token env fs) =
     (case fs (old_token_path home) of
        Some (c, m) \<Rightarrow> if tk_mkdir env \<and> tk_copy env then trim c else []
      | None \<Rightarrow> [])"
  using assms
  by (auto simp: load_token_def token_path_def set_owner_only_def Let_def trim_def trim_start_def
      split: option.splits)

lemma logout_succeeds:
  assumes "tk_home (ce_token ce) = Some home" and "ce_remove ce"
  shows "\<exists>ls n'. logout_command ce n = (ls, None, n')"
proof -
  obtain fs1 where f1: "token_path (ce_token ce) (nd_files n) = (Inr (new_token_path home), fs1)"
    using token_path_new [OF assms(1)] by blast
  then have "snd (load_token (ce_token ce) (nd_files n)) = fs1" by (simp add: load_token_files)
  then show ?thesis
    using token_path_idem [OF f1] assms(2)
    by (auto simp: logout_command_def delete_token_def split: prod.split if_splits)
qed

text \<open>
  C34: What a logout leaves. After \<open>decent logout\<close> the next command finds no token, with one
  exception: as long as a token of the older program is still at \<open>~/.config/decent-node\<close>, looking
  for the token migrates it again, and the next start connects with it.
\<close>

theorem logout_leaves_only_legacy_token:
  assumes "logout_command ce n = (ls, None, n')" and "tk_home (ce_token ce) = Some home"
  shows "fst (load_token (ce_token ce) (nd_files n')) =
     (case nd_files n (old_token_path home) of
        Some (c, m) \<Rightarrow> if tk_mkdir (ce_token ce) \<and> tk_copy (ce_token ce) then trim c else []
      | None \<Rightarrow> [])"
proof -
  let ?env = "ce_token ce"
  obtain fs1 where f1: "token_path ?env (nd_files n) = (Inr (new_token_path home), fs1)"
      "fs1 (old_token_path home) = nd_files n (old_token_path home)"
    using token_path_new [OF assms(2)] by blast
  then have "snd (load_token ?env (nd_files n)) = fs1" by (simp add: load_token_files)
  then have "nd_files n' (new_token_path home) = None
      \<and> nd_files n' (old_token_path home) = fs1 (old_token_path home)"
    using assms(1) token_path_idem [OF f1(1)]
    by (auto simp: logout_command_def delete_token_def new_token_path_def old_token_path_def
        split: prod.splits if_splits)
  with load_without_new [OF assms(2)] f1(2) show ?thesis by simp
qed

definition sample_cli :: "bool cli_env" where
  "sample_cli = \<lparr>ce_os = LinuxOs, ce_exec = obedient, ce_host = home_env, ce_token = sample_token_env,
     ce_remove = True, ce_from_slice = (\<lambda>b. None), ce_parse_url = (\<lambda>u. Inl ''url''),
     ce_parse_f64 = (\<lambda>t. None), ce_exe = Inr ''/usr/bin/decent'', ce_version = ''0.0.13'', ce_now_ms = 20000\<rparr>"

definition sample_node :: "files \<Rightarrow> bool node" where
  "sample_node fs = \<lparr>nd_files = fs, nd_conf = Map.empty, nd_host = paused_host\<rparr>"

theorem logout_leaves_only_legacy_token_witness:
  "case logout_command sample_cli (sample_node old_token_files) of
     (ls, e, n') \<Rightarrow> e = None \<and> fst (load_token sample_token_env (nd_files n')) = ''old''"
proof -
  obtain ls n' where l: "logout_command sample_cli (sample_node old_token_files) = (ls, None, n')"
    using logout_succeeds [of sample_cli "''/h''" "sample_node old_token_files"]
    by (auto simp: sample_cli_def sample_token_env_def)
  have "trim ''old'' = ''old''" by (intro trim_no_ws) (simp add: is_ws_def)
  then have "fst (load_token sample_token_env (nd_files n')) = ''old''"
    using logout_leaves_only_legacy_token [OF l, of "''/h''"]
    by (simp add: sample_cli_def sample_token_env_def sample_node_def old_token_files_def old_token_path_def)
  then show ?thesis using l by simp
qed

section \<open>What the status report claims\<close>

lemma status_tail_lines:
  "StHint \<in> set (status_tail attempt p w) \<longleftrightarrow>
     w \<or> (\<exists>a. attempt = Some a \<and> needs_attention (at_outcome a))"
  "StUpdate u \<notin> set (status_tail attempt p w)" "StToken b \<notin> set (status_tail attempt p w)"
  "StDaemon d \<notin> set (status_tail attempt p w)" "StConnectionStale \<notin> set (status_tail attempt p w)"
  "StUpdateNone \<notin> set (status_tail attempt p w)"
  by (simp_all add: status_tail_def Let_def split: option.split)

lemma fresh_lines_lines:
  "StUpdate u \<in> set (fresh_lines v s) \<longleftrightarrow>
     u = status_update_line (ds_update_available s) (ds_connection s) v (ds_supervisor_version s)"
  "StHint \<notin> set (fresh_lines v s)" "StToken b \<notin> set (fresh_lines v s)"
  "StDaemon d \<notin> set (fresh_lines v s)" "StConnectionStale \<notin> set (fresh_lines v s)"
  "StUpdateNone \<notin> set (fresh_lines v s)"
  by (auto simp: fresh_lines_def)

lemma up_to_date_iff:
  "status_update_line upd conn installed reported = UpToDate \<longleftrightarrow>
     upd = None \<and> conn = ''Registered''
     \<and> (case reported of Some r \<Rightarrow> r = installed | None \<Rightarrow> reports_version installed = False)"
  by (auto simp: status_update_line_def daemon_binary_state_def update_line_def split: option.split)

lemma status_body_lines:
  assumes "status_body ce conf daemon snap (Inr p) = (body, attention, failed)"
  shows "failed = None"
    and "StHint \<notin> set body" and "StToken b \<notin> set body" and "StDaemon d \<notin> set body"
    and "StUpdate u \<in> set body \<longleftrightarrow>
      (\<exists>s. snap = Some s \<and> is_fresh_at (ce_now_ms ce) s
        \<and> status_update_line (ds_update_available s) (ds_connection s) (ce_version ce)
                (ds_supervisor_version s) = u)"
    and "attention \<longleftrightarrow>
      StConnectionStale \<in> set body \<or> StUpdateNone \<in> set body \<or> (\<exists>u. StUpdate u \<in> set body \<and> warns u)"
  using assms
  by (auto simp: status_body_def Let_def fresh_lines_lines split: option.splits if_splits)


text \<open>A node that is set up, whose daemon has just written its snapshot.\<close>

definition healthy_snapshot :: string where
  "healthy_snapshot = concat (map kv_line
     [(''connection'', ''Registered''), (''supervisor_version'', ''0.0.13''), (''updated_at_ms'', show_nat 20000)])"

definition healthy_node :: "bool node" where
  "healthy_node = \<lparr>nd_files = [''/h/.config/decent/worker-token'' \<mapsto> (''tok'', 384),
       ''/h/.config/decent/daemon-status'' \<mapsto> (healthy_snapshot, 420)],
     nd_conf = Map.empty, nd_host = paused_host\<lparr>h_mgr := True\<rparr>\<rparr>"

lemma healthy_read:
  "read_snapshot (\<lambda>t. None) (Some healthy_snapshot) = Some
     \<lparr>ds_connection = ''Registered'', ds_current_job = None, ds_keep_awake = None, ds_jobs_completed = 0,
      ds_jobs_failed = 0, ds_jobs_canceled = 0, ds_auto_upgrade_enabled = False,
      ds_update_available = None, ds_supervisor_version = Some ''0.0.13'', ds_updated_at_ms = 20000\<rparr>"
proof -
  let ?kvs = "[(''connection'', ''Registered''), (''supervisor_version'', ''0.0.13''),
      (''updated_at_ms'', show_nat 20000)]"
  have "clean_value (show_nat 20000)" by (rule clean_show_nat)
  then have c: "list_all (\<lambda>(k, v). clean_key k \<and> clean_value v) ?kvs"
    by (simp add: clean_key_def clean_value_def)
  have "kv_map healthy_snapshot = map_of ?kvs"
    using kv_map_fields [OF c, of "[]"] fold_upd_distinct [of ?kvs]
    by (simp add: healthy_snapshot_def List.map_filter_simps del: kv_line_pair)
  moreover have "parse_uint u64_bound (show_nat 20000) = Some 20000"
    by (rule parse_show_nat) (simp add: u64_bound_def)
  moreover have "parse_uint u64_bound [] = None" by (simp add: parse_uint_def)
  ultimately show ?thesis
    by (simp add: read_snapshot_def Let_def unwrap_str_def unwrap_nat_def nonempty_def parse_bool_def
        del: show_nat.simps)
qed

lemma healthy_parts:
  "load_token sample_token_env (nd_files healthy_node) = (''tok'', nd_files healthy_node)"
  "token_path sample_token_env (nd_files healthy_node)
     = (Inr ''/h/.config/decent/worker-token'', nd_files healthy_node)"
  "parent_dir ''/h/.config/decent/worker-token'' = ''/h/.config/decent/''"
  "svc_state sample_cli (nd_host healthy_node) = (DaemonRunning, nd_host healthy_node)"
proof -
  have "trim ''tok'' = ''tok''" by (intro trim_no_ws) (simp add: is_ws_def)
  then show "load_token sample_token_env (nd_files healthy_node) = (''tok'', nd_files healthy_node)"
    and "token_path sample_token_env (nd_files healthy_node)
      = (Inr ''/h/.config/decent/worker-token'', nd_files healthy_node)"
    by (simp_all add: load_token_def token_path_def sample_token_env_def healthy_node_def
        new_token_path_def old_token_path_def Let_def)
  show "parent_dir ''/h/.config/decent/worker-token'' = ''/h/.config/decent/''"
    by (simp add: parent_dir_def)
  have "unit_path home_env = Inr ''/h/.config/systemd/user/decent.service''"
    by (simp add: unit_path_def home_env_def UNIT_def)
  from laws_state [OF obedient_laws this] show "svc_state sample_cli (nd_host healthy_node)
      = (DaemonRunning, nd_host healthy_node)"
    by (simp add: svc_state_def sample_cli_def healthy_node_def paused_host_def)
qed


section \<open>What login and install require\<close>

lemma shaped_token:
  assumes "validate_worker_token_shape from_slice token = Inr ()"
  shows "token \<noteq> [] \<and> trim token = token"
proof -
  from assms have t: "list_all token_char token" "40 \<le> length token"
    by (auto simp: validate_worker_token_shape_def Let_def split: if_splits)
  have "\<not> is_ws c" if "token_char c" for c
    using that by (auto simp: token_char_def is_ws_def is_ascii_alnum_def Let_def)
  with t show ?thesis by (auto simp: list_all_iff intro!: trim_no_ws)
qed

lemma store_token_done:
  assumes "store_token ce token n = (ls, None, n')"
  shows "validate_worker_token_shape (ce_from_slice ce) token = Inr ()
     \<and> fst (resolve_token None (ce_token ce) (nd_files n')) = Inr token
     \<and> (\<exists>d h. svc_state ce (nd_host n) = (d, h)
          \<and> ls = [if d = DaemonRunning
                  then (case fst (svc_restart ce h) of Inr True \<Rightarrow> LnRestarted | Inr False \<Rightarrow> LnRestartByHand
                        | Inl e \<Rightarrow> LnRestartFailed e)
                  else LnNoDaemon])"
proof -
  obtain fs where s: "validate_worker_token_shape (ce_from_slice ce) token = Inr ()"
      "save_token (ce_token ce) token (nd_files n) = (Inr (), fs)"
      "apply_token_to_running_daemon ce (n\<lparr>nd_files := fs\<rparr>) = (hd ls, n')" "ls = [hd ls]"
    using assms by (auto simp: store_token_def split: sum.splits prod.splits)
  then have "nd_files n' = fs"
    by (auto simp: apply_token_to_running_daemon_def split: prod.splits sum.splits daemon_state.splits bool.splits)
  moreover note shaped_token [OF s(1)] saved_token_is_resolved [OF s(2)]
  moreover obtain d h where d: "svc_state ce (nd_host n) = (d, h)" by (rule prod.exhaust)
  moreover have "hd ls = (if d = DaemonRunning
      then (case fst (svc_restart ce h) of Inr True \<Rightarrow> LnRestarted | Inr False \<Rightarrow> LnRestartByHand
            | Inl e \<Rightarrow> LnRestartFailed e) else LnNoDaemon)"
    using s(3) d
    by (auto simp: apply_token_to_running_daemon_def split: prod.splits sum.splits daemon_state.splits bool.splits)
  ultimately show ?thesis using s(1,4) by auto
qed

lemma store_token_refused:
  "store_token ce token n = (ls, Some e, n') \<Longrightarrow>
     validate_worker_token_shape (ce_from_slice ce) token = Inr () \<or> n' = n"
  by (auto simp: store_token_def split: sum.splits prod.splits)

text \<open>
  C33: A login that succeeds puts the pasted or given token to use: it has the shape of a worker token,
  a start without a token of its own now resolves to it, trimmed, and when a daemon was running it
  was restarted, or the printed line says that it was not. A token of another shape changes nothing.
\<close>

theorem login_puts_token_to_use:
  assumes "login_command ce app_url given pasted n = (ls, err, n')"
    and "token = trim (case given of Some t \<Rightarrow> t | None \<Rightarrow> (case pasted of Inr l \<Rightarrow> l | Inl e \<Rightarrow> []))"
  shows "(if err = None
      then validate_worker_token_shape (ce_from_slice ce) token = Inr ()
        \<and> fst (resolve_token None (ce_token ce) (nd_files n')) = Inr token
        \<and> (\<exists>d h. svc_state ce (nd_host n) = (d, h)
             \<and> (if d = DaemonRunning
                then (\<exists>r. r = fst (svc_restart ce h)
                  \<and> (case r of Inr True \<Rightarrow> LnRestarted | Inr False \<Rightarrow> LnRestartByHand
                     | Inl e \<Rightarrow> LnRestartFailed e) \<in> set ls)
                else LnNoDaemon \<in> set ls))
      else True)
   \<and> (validate_worker_token_shape (ce_from_slice ce) token = Inr () \<or> n' = n)"
proof (cases "\<exists>e. given = None \<and> pasted = Inl e")
  case True
  then show ?thesis using assms by (auto simp: login_command_def)
next
  case False
  have "\<exists>ls1 n1. store_token ce token n = (ls1, err, n1) \<and> set ls1 \<subseteq> set ls \<and> n' = n1"
    using assms False
    by (cases given; cases pasted) (auto simp: login_command_def Let_def split: option.splits prod.splits)
  then obtain ls1 n1 where st: "store_token ce token n = (ls1, err, n1)" "set ls1 \<subseteq> set ls" "n' = n1"
    by blast
  show ?thesis
  proof (cases err)
    case None
    then show ?thesis using store_token_done st by fastforce
  next
    case (Some e)
    then show ?thesis using store_token_refused [of ce token n ls1 e n1] st by auto
  qed
qed

definition sample_token :: string where
  "sample_token = ''AAAA.AAAA.AAAAAAAAAAAAAAAAAAAAAAAAAAAAAAAA''"

definition login_cli :: "bool cli_env" where
  "login_cli = sample_cli\<lparr>ce_from_slice := (\<lambda>b. Some (JObj [(''tenant'', JNull)]))\<rparr>"

lemma sample_token_shape:
  "validate_worker_token_shape (\<lambda>b. Some (JObj [(''tenant'', JNull)])) sample_token = Inr ()"
  by code_simp

theorem login_puts_token_to_use_witness:
  "case login_command login_cli ''https://farm/'' (Some (sample_token @ '' '')) (Inl ''closed'') healthy_node of
     (ls, err, n') \<Rightarrow> fst (resolve_token None sample_token_env (nd_files n')) = Inr sample_token"
proof -
  have tr: "trim (sample_token @ '' '') = sample_token"
    by (simp add: sample_token_def trim_def is_ws_def)
  obtain ls err n' where lg: "login_command login_cli ''https://farm/'' (Some (sample_token @ '' ''))
      (Inl ''closed'') healthy_node = (ls, err, n')" by (rule prod_cases3)
  have "ce_token login_cli = sample_token_env" "ce_from_slice login_cli = (\<lambda>b. Some (JObj [(''tenant'', JNull)]))"
    by (simp_all add: login_cli_def sample_cli_def)
  note env = this
  have "\<exists>fs. save_token sample_token_env sample_token (nd_files healthy_node) = (Inr (), fs)"
    by (simp add: save_token_def healthy_parts) (simp add: sample_token_env_def)
  then have "err = None"
    using lg by (auto simp: login_command_def store_token_def tr env sample_token_shape split: prod.splits)
  then show ?thesis
    using login_puts_token_to_use [OF lg, of sample_token] lg by (simp add: tr env)
qed

text \<open>
  What an installation requires. When \<open>decent install\<close> succeeds, the dispatch URL passed the
  cleartext gate, a token is stored, the service manager was given this binary, that URL and the
  log path, and the log file is there, owner-only if its mode could be set, with whatever it held
  before. Without a stored token or with a refused URL the service manager is not touched.
\<close>

theorem install_requires_token_and_tls:
  assumes "install_command ce url n = (ls, err, n')"
  shows "(if err = None
      then \<exists>exe path fs2 c m spec.
        validate_dispatch_url (ce_parse_url ce) url = Inr ()
        \<and> fst (load_token (ce_token ce) (nd_files n)) \<noteq> []
        \<and> token_path (ce_token ce) (nd_files n) = (Inr path, fs2) \<and> ce_exe ce = Inr exe
        \<and> spec = \<lparr>sp_exe = exe, sp_dispatch_url = url, sp_log_path = default_log_path path\<rparr>
        \<and> nd_host n' = snd (svc_install ce spec (nd_host n))
        \<and> nd_files n' (default_log_path path) = Some (c, m) \<and> (if tk_chmod (ce_token ce) then m = 384 else True)
        \<and> c = (case fs2 (default_log_path path) of Some (c', m') \<Rightarrow> c' | None \<Rightarrow> [])
      else True)
   \<and> (validate_dispatch_url (ce_parse_url ce) url = Inr ()
        \<and> fst (load_token (ce_token ce) (nd_files n)) \<noteq> []
      \<or> nd_host n' = nd_host n)"
proof -
  obtain token fs1 where l: "load_token (ce_token ce) (nd_files n) = (token, fs1)" by (rule prod.exhaust)
  obtain r fs2 where t: "token_path (ce_token ce) (nd_files n) = (r, fs2)" by (rule prod.exhaust)
  have fs1: "fs1 = fs2" using load_token_files [of "ce_token ce" "nd_files n"] l t by simp
  show ?thesis
    using assms t token_path_idem [OF t]
    by (auto simp: install_command_def l fs1 ensure_private_log_file_def set_owner_only_def
        split: sum.splits prod.splits if_splits option.splits)
qed

definition install_cli :: "bool cli_env" where
  "install_cli = sample_cli\<lparr>ce_parse_url := (\<lambda>u. Inr \<lparr>up_scheme = ''wss'', up_host = Some ''d'', up_path = ''/ws''\<rparr>)\<rparr>"

theorem install_requires_token_and_tls_witness:
  "case install_command install_cli ''wss://d/ws'' healthy_node of
     (ls, err, n') \<Rightarrow> err = None \<and> nd_files n' ''/h/.config/decent/decent.log'' = Some ([], 384)"
proof -
  obtain ls err n' where ins: "install_command install_cli ''wss://d/ws'' healthy_node = (ls, err, n')"
    by (rule prod_cases3)
  have "ce_token install_cli = sample_token_env" "ce_exe install_cli = Inr ''/usr/bin/decent''"
      "validate_dispatch_url (ce_parse_url install_cli) ''wss://d/ws'' = Inr ()"
    by (simp_all add: install_cli_def sample_cli_def validate_dispatch_url_def)
  note env = this
  have svc: "\<exists>x h. svc_install install_cli spec (nd_host healthy_node) = (Inr x, h)" for spec
    by (simp add: svc_install_def install_cli_def sample_cli_def linux_install_def require_systemd_def
        systemctl_def run_cmd_def obedient_def user_cmd_def UNIT_def home_env_def unit_path_def cmd_ok_def
        cmd_out_def enable_linger_def split: prod.split)
  have log: "default_log_path ''/h/.config/decent/worker-token'' = ''/h/.config/decent/decent.log''"
    by (simp add: default_log_path_def healthy_parts)
  have mk: "tk_mkdir sample_token_env" "tk_write sample_token_env" "tk_chmod sample_token_env"
    by (simp_all add: sample_token_env_def)
  have none: "nd_files healthy_node ''/h/.config/decent/decent.log'' = None"
    by (simp add: healthy_node_def)
  have "err = None"
    using ins svc mk
    by (auto simp: install_command_def env healthy_parts ensure_private_log_file_def split: prod.splits sum.splits)
      (metis Inl_Inr_False fst_conv)
  then show ?thesis
    using install_requires_token_and_tls [OF ins] ins mk none by (simp add: env healthy_parts log)
qed

section \<open>Following the log\<close>

text \<open>A log that is only appended to, and whose length is what is read: its last content.\<close>

fun appended :: "string \<Rightarrow> (nat \<times> string \<times> bool) option list \<Rightarrow> string option" where
  "appended c [] = Some c"
| "appended c (None # polls) = appended c polls"
| "appended c (Some (len, content, utf8) # polls) =
     (if utf8 \<and> len = length content \<and> take (length c) content = c then appended content polls else None)"

text \<open>
  Following a log that is only appended to prints what was appended, all of it, once and in
  order, whatever polls find no file, provided that no byte arrives between asking for the length
  and reading.
\<close>

theorem follow_prints_appended:
  assumes "appended c polls = Some final"
  shows "follow_log polls (length c) = (drop (length c) final, False) \<and> take (length c) final = c"
  using assms
proof (induction c polls rule: appended.induct)
  case (3 c len content utf8 polls)
  then have p: "utf8" "len = length content" "take (length c) content = c" "appended content polls = Some final"
    by (auto split: if_splits)
  from "3.IH" p have ih: "follow_log polls (length content) = (drop (length content) final, False)"
      "take (length content) final = content" by auto
  have le: "length c \<le> length content" using arg_cong [OF p(3), of length] by simp
  have "take (length c) final = take (length c) (take (length content) final)"
    using le by (simp add: min_def)
  then have t: "take (length c) final = c" using ih(2) p(3) by simp
  have "drop (length c) content @ drop (length content) final
      = drop (length c) (content @ drop (length content) final)" using le by simp
  also have "content @ drop (length content) final = final" using ih(2) append_take_drop_id by metis
  finally have d: "drop (length c) content @ drop (length content) final = drop (length c) final" .
  show ?case
  proof (cases "length content = length c")
    case True
    then have "content = c" using p(3) by simp
    then show ?thesis using p ih t by (simp add: follow_poll_def)
  next
    case False
    then show ?thesis using p ih(1) le d t by (simp add: follow_poll_def Let_def)
  qed
qed (simp_all add: follow_poll_def)

theorem follow_prints_appended_witness:
  "follow_log [Some (3, ''abc'', True), None, Some (4, ''abcd'', True)] (length ''ab'') = (''cd'', False)"
  using follow_prints_appended [of "''ab''" "[Some (3, ''abc'', True), None, Some (4, ''abcd'', True)]" "''abcd''"]
  by simp

text \<open>
  The offset is the length that was asked for, not what was read: bytes that arrive in between are
  printed, and printed again by the next poll.
\<close>

theorem follow_repeats_racing_bytes:
  "follow_log [Some (3, ''abcd'', True), Some (4, ''abcd'', True)] (length ''ab'') = (''cdd'', False)"
  by (simp add: follow_poll_def)

end
