(* ===== verification/Tui.thy ===== *)
theory Tui
  imports Doctor
begin

text \<open>
  The terminal dashboard (\<open>bins/decent/src/tui.rs\<close>) and the log lines it shows
  (\<open>crates/supervisor-core/src/status.rs\<close>): the ring of lines, the texts of its panels and the event
  loop. Layout and drawing are the library's; a panel here is its lines of text with their colours.
\<close>

section \<open>Log lines\<close>

datatype log_level = LogDebug | LogInfo | LogWarn | LogError

record log_line =
  ll_timestamp_ms :: nat
  ll_level :: log_level
  ll_message :: string

text \<open>\<open>now\<close> is the clock in milliseconds since the epoch; a clock before the epoch reads 0.\<close>

definition log_line_new :: "nat \<Rightarrow> log_level \<Rightarrow> string \<Rightarrow> log_line" where
  "log_line_new now level msg = \<lparr>ll_timestamp_ms = now, ll_level = level, ll_message = msg\<rparr>"

definition LOG_RING :: nat where "LOG_RING = 500"

definition push_log :: "log_line list \<Rightarrow> log_line \<Rightarrow> log_line list" where
  "push_log logs l = (if LOG_RING \<le> length logs then tl logs else logs) @ [l]"

definition tail_start :: "nat \<Rightarrow> nat \<Rightarrow> nat" where
  "tail_start len height = len - height"

section \<open>Texts and colours\<close>

datatype colour = Green | Cyan | Yellow | Red | DarkGray | Reset

fun connection_color :: "connection_state \<Rightarrow> colour" where
  "connection_color Registered = Green"
| "connection_color Connected = Cyan"
| "connection_color Connecting = Yellow"
| "connection_color Reconnecting = Yellow"
| "connection_color Disconnected = Red"

fun phase_text :: "job_phase \<Rightarrow> string" where
  "phase_text Downloading = ''downloading''"
| "phase_text Rendering = ''rendering''"
| "phase_text Uploading = ''uploading''"
| "phase_text Done = ''done''"
| "phase_text Failed = ''failed''"
| "phase_text Canceled = ''canceled''"

definition phase_color :: "job_phase \<Rightarrow> colour" where
  "phase_color p = (if p \<in> {Rendering, Downloading, Uploading} then Cyan else if p = Done then Green else Red)"

fun level_tag :: "log_level \<Rightarrow> string \<times> colour" where
  "level_tag LogError = (''ERROR'', Red)"
| "level_tag LogWarn = (''WARN '', Yellow)"
| "level_tag LogInfo = (''INFO '', Cyan)"
| "level_tag LogDebug = (''DEBUG'', DarkGray)"

definition pad2 :: "nat \<Rightarrow> string" where
  "pad2 n = (if n < 10 then ''0'' @ show_nat n else show_nat n)"

definition fmt_time :: "nat \<Rightarrow> string" where
  "fmt_time ms =
     (let secs = ms div 1000
      in pad2 (secs div 3600 mod 24) @ '':'' @ pad2 (secs div 60 mod 60) @ '':'' @ pad2 (secs mod 60))"

definition idle_sleep_line :: "keep_awake_state option \<Rightarrow> (string \<times> colour) list" where
  "idle_sleep_line st =
     [(''power '', DarkGray),
      (''idle-sleep: '' @ idle_sleep_label st,
       (case st of Some Held \<Rightarrow> Green | Some FailedToAcquire \<Rightarrow> Red | Some Unavailable \<Rightarrow> Yellow
        | None \<Rightarrow> DarkGray))]"

text \<open>The rows of the status panel: label, value and colour, and the line of the last error.\<close>

definition status_panel :: "string \<Rightarrow> supervisor_status \<Rightarrow> (string \<times> string \<times> colour) list \<times> string option" where
  "status_panel dash s =
     (let ni = ss_node_identity s
      in ([(''connection'', show_connection (ss_connection s), connection_color (ss_connection s)),
           (''real jobs'', if ss_allow_real_jobs s then ''enabled'' else ''disabled (smoke)'',
              if ss_allow_real_jobs s then Green else DarkGray),
           (''chip'', case ni of Some i \<Rightarrow> ni_chip i | None \<Rightarrow> dash, Reset),
           (''platform'', case ni of Some i \<Rightarrow> ni_platform i | None \<Rightarrow> dash, Reset),
           (''protocol'', case ni of Some i \<Rightarrow> ''v'' @ show_nat (unat (ni_protocol_version i)) | None \<Rightarrow> dash, Reset),
           (''completed / failed / canceled'',
              show_nat (unat (ss_jobs_completed s)) @ '' / '' @ show_nat (unat (ss_jobs_failed s)) @ '' / ''
                @ show_nat (unat (ss_jobs_canceled s)), Reset)],
          ss_last_error s))"

text \<open>
  The title bar: the version, the connection and its colour, the dispatch URL, and whether the
  marker of an update is shown.
\<close>

definition draw_title_bar :: "supervisor_status \<Rightarrow> string \<times> (string \<times> colour) \<times> string \<times> bool" where
  "draw_title_bar s =
     ((case ss_node_identity s of Some i \<Rightarrow> ni_supervisor_version i | None \<Rightarrow> ''decent''),
      (show_connection (ss_connection s), connection_color (ss_connection s)),
      (case ss_dispatch_url s of Some u \<Rightarrow> u | None \<Rightarrow> ''no dispatch url''),
      ss_update_available s \<noteq> None)"

definition gauge_style :: "job_phase \<Rightarrow> colour" where
  "gauge_style p = (if p \<in> {Rendering, Downloading, Uploading} then Cyan else if p = Done then Green else Red)"

record job_panel =
  jp_id :: string
  jp_tier :: string
  jp_phase :: "string \<times> colour"
  jp_power :: "(string \<times> colour) list"
  jp_gauge :: colour
  jp_percent :: nat

text \<open>The cast to \<open>u16\<close> drops the fraction. Without a job the panel says that it waits for one.\<close>

definition draw_job_panel :: "keep_awake_state option \<Rightarrow> supervisor_status \<Rightarrow> job_panel option" where
  "draw_job_panel ka s =
     map_option (\<lambda>j. \<lparr>jp_id = js_id j, jp_tier = js_tier j,
         jp_phase = (phase_text (js_phase j), phase_color (js_phase j)),
         jp_power = idle_sleep_line ka, jp_gauge = gauge_style (js_phase j),
         jp_percent = nat \<lfloor>max 0 (min 1 (js_progress j)) * 100\<rfloor>\<rparr>) (ss_current_job s)"

definition draw_logs :: "nat \<Rightarrow> log_line list \<Rightarrow> (string \<times> (string \<times> colour) \<times> string) list" where
  "draw_logs height logs =
     map (\<lambda>l. (fmt_time (ll_timestamp_ms l), level_tag (ll_level l), ll_message l))
       (drop (tail_start (length logs) height) logs)"

text \<open>The footer: whether the note of the smoke mode is shown, and the update line with its colour.\<close>

definition draw_footer :: "supervisor_status \<Rightarrow> bool \<times> update_text \<times> colour" where
  "draw_footer s =
     (\<not> ss_allow_real_jobs s,
      update_line (ss_update_available s) (show_connection (ss_connection s)),
      if ss_update_available s \<noteq> None then Yellow else DarkGray)"

section \<open>The event loop\<close>

datatype key_code = KeyChar char | KeyEsc | KeyOther

record key_event =
  ke_press :: bool
  ke_code :: key_code
  ke_ctrl :: bool

datatype tui_event = EvKey key_event | EvOther

text \<open>
  One turn: the lines \<open>try_recv\<close> yields until it has none, whether drawing succeeds, what \<open>poll\<close>
  answers (an error, no event, an event) and whether reading the event succeeds.
\<close>

record tui_tick =
  tt_lines :: "log_line list"
  tt_draw :: "string option"
  tt_poll :: "string + bool"
  tt_read :: "string + tui_event"

record tui_state =
  ts_logs :: "log_line list"
  ts_shutdown :: bool
  ts_sent :: nat

datatype tui_end = TuiQuit | TuiError string

definition quits :: "key_event \<Rightarrow> bool" where
  "quits k = (ke_press k \<and> (ke_code k = KeyChar CHR ''q'' \<or> ke_code k = KeyEsc
     \<or> ke_code k = KeyChar CHR ''c'' \<and> ke_ctrl k))"

text \<open>\<open>ts_shutdown\<close>: the sender is still there; \<open>ts_sent\<close> counts what was sent on it.\<close>

definition tui_turn :: "tui_tick \<Rightarrow> tui_state \<Rightarrow> tui_state \<times> tui_end option" where
  "tui_turn t s =
     (let s1 = s\<lparr>ts_logs := foldl push_log (ts_logs s) (tt_lines t)\<rparr>
      in case tt_draw t of
           Some e \<Rightarrow> (s1, Some (TuiError e))
         | None \<Rightarrow>
             (case tt_poll t of
                Inl e \<Rightarrow> (s1, Some (TuiError e))
              | Inr False \<Rightarrow> (s1, None)
              | Inr True \<Rightarrow>
                  (case tt_read t of
                     Inl e \<Rightarrow> (s1, Some (TuiError e))
                   | Inr (EvKey k) \<Rightarrow>
                       if quits k
                       then (if ts_shutdown s1
                             then s1\<lparr>ts_shutdown := False, ts_sent := Suc (ts_sent s1)\<rparr> else s1, Some TuiQuit)
                       else (s1, None)
                   | Inr EvOther \<Rightarrow> (s1, None))))"

definition tui_start :: tui_state where
  "tui_start = \<lparr>ts_logs = [], ts_shutdown = True, ts_sent = 0\<rparr>"

text \<open>
  \<open>run\<close>: the terminal is restored whatever the loop returned, and the error of the loop is reported
  before one of restoring it.
\<close>

definition tui_run :: "string option \<Rightarrow> string option \<Rightarrow> tui_tick list
    \<Rightarrow> tui_state \<times> bool \<times> (string + unit) option" where
  "tui_run setup_error restore_error ts =
     (case setup_error of
        Some e \<Rightarrow> (tui_start, False, Some (Inl e))
      | None \<Rightarrow>
          (case run_until tui_turn ts tui_start of
             (s, None) \<Rightarrow> (s, False, None)
           | (s, Some (TuiError e)) \<Rightarrow> (s, True, Some (Inl e))
           | (s, Some TuiQuit) \<Rightarrow>
               (s, True, Some (case restore_error of Some e \<Rightarrow> Inl e | None \<Rightarrow> Inr ()))))"

section \<open>The ring\<close>

definition newest :: "nat \<Rightarrow> 'a list \<Rightarrow> 'a list" where
  "newest n xs = drop (length xs - n) xs"

lemma push_newest: "push_log (newest LOG_RING xs) l = newest LOG_RING (xs @ [l])"
proof (cases "LOG_RING \<le> length xs")
  case True
  then have "tl (drop (length xs - LOG_RING) xs) = drop (Suc (length xs) - LOG_RING) xs"
    by (simp add: tl_drop drop_Suc [symmetric] Suc_diff_le)
  then show ?thesis using True by (simp add: push_log_def newest_def LOG_RING_def)
qed (simp add: push_log_def newest_def LOG_RING_def)

lemma push_all: "foldl push_log (newest LOG_RING xs) ls = newest LOG_RING (xs @ ls)"
proof (induction ls arbitrary: xs)
  case (Cons l ls)
  then show ?case using Cons.IH [of "xs @ [l]"] by (simp add: push_newest)
qed simp

lemma turn_logs: "tui_turn t s = (s', x) \<Longrightarrow> ts_logs s' = foldl push_log (ts_logs s) (tt_lines t)"
  by (auto simp: tui_turn_def Let_def split: option.splits sum.splits bool.splits tui_event.splits if_splits)

lemma run_logs:
  "run_until tui_turn ts s = (s', None) \<Longrightarrow>
     ts_logs s' = foldl push_log (ts_logs s) (concat (map tt_lines ts))"
proof (induction ts arbitrary: s)
  case (Cons t ts)
  then show ?case
    using turn_logs [of t s] by (auto split: prod.splits option.splits)
qed simp

lemma newest_newest: "newest m (newest n xs) = newest (min m n) xs"
  by (auto simp: newest_def min_def intro!: arg_cong [where f = "\<lambda>k. drop k xs"])

lemma newest_map: "map f (newest n xs) = newest n (map f xs)"
  by (simp add: newest_def drop_map)

text \<open>
  C35: The log panel shows the newest lines. However the lines arrived over the turns, the ring holds
  the last 500 of all that were received, in their order, and a panel of some height shows the last
  of them that fit, each with its time, tag and message.
\<close>

theorem log_panel_newest:
  assumes "run_until tui_turn ts tui_start = (s, None)"
  shows "ts_logs s = newest 500 (concat (map tt_lines ts))
     \<and> draw_logs height (ts_logs s)
       = map (\<lambda>l. (fmt_time (ll_timestamp_ms l), level_tag (ll_level l), ll_message l))
           (newest (min height 500) (concat (map tt_lines ts)))"
proof -
  have "ts_logs s = newest 500 (concat (map tt_lines ts))"
    using run_logs [OF assms] push_all [of "[]" "concat (map tt_lines ts)"]
    by (simp add: tui_start_def newest_def LOG_RING_def)
  moreover have "drop (tail_start (length xs) h) xs = newest h xs" for h and xs :: "log_line list"
    by (simp add: tail_start_def newest_def)
  ultimately show ?thesis by (simp add: draw_logs_def newest_newest)
qed

definition idle_tick :: "nat \<Rightarrow> tui_tick" where
  "idle_tick n = \<lparr>tt_lines = map (\<lambda>i. log_line_new i LogInfo (show_nat i)) [0..<n], tt_draw = None,
     tt_poll = Inr False, tt_read = Inl ''none''\<rparr>"

theorem log_panel_newest_witness:
  "map ll_timestamp_ms (ts_logs (fst (run_until tui_turn [idle_tick 400, idle_tick 300] tui_start)))
     = [200..<400] @ [0..<300]"
proof -
  obtain s where s: "run_until tui_turn [idle_tick 400, idle_tick 300] tui_start = (s, None)"
    by (simp add: tui_turn_def idle_tick_def Let_def del: upt_rec_numeral)
  have "map ll_timestamp_ms (ts_logs s)
      = newest 500 (map ll_timestamp_ms (concat (map tt_lines [idle_tick 400, idle_tick 300])))"
    using log_panel_newest [OF s] newest_map by metis
  also have "map ll_timestamp_ms (concat (map tt_lines [idle_tick 400, idle_tick 300])) = [0..<400] @ [0..<300]"
    by (simp add: idle_tick_def log_line_new_def comp_def del: upt_rec_numeral)
  also have "newest 500 ([0..<400] @ [0..<300]) = [200..<400] @ [0..<300]"
    by (simp add: newest_def drop_upt del: upt_rec_numeral)
  finally show ?thesis using s by (simp del: upt_rec_numeral)
qed

section \<open>Quitting\<close>

interpretation tui_quit: machine_invariant tui_turn "\<lambda>t s. True"
  "\<lambda>s. ts_shutdown s \<and> ts_sent s = 0"
  "\<lambda>s x. if x = TuiQuit then \<not> ts_shutdown s \<and> ts_sent s = 1 else ts_shutdown s \<and> ts_sent s = 0"
  by unfold_locales
     (auto simp: tui_turn_def Let_def split: option.splits sum.splits bool.splits tui_event.splits if_splits)

text \<open>
  Leaving the dashboard ends the connection once: a quit key sends the shutdown signal exactly one
  time, an error of the terminal leaves it unsent for the sender's drop to signal, and in both cases
  the terminal is restored; it is not left in between.
\<close>

theorem quit_signals_once:
  "case tui_run None restore_error ts of
     (s, restored, None) \<Rightarrow> \<not> restored \<and> ts_shutdown s \<and> ts_sent s = 0
   | (s, restored, Some r) \<Rightarrow> restored
       \<and> (ts_sent s = 1 \<and> \<not> ts_shutdown s \<and> r = (case restore_error of Some e \<Rightarrow> Inl e | None \<Rightarrow> Inr ())
          \<or> ts_sent s = 0 \<and> ts_shutdown s \<and> (\<exists>e. r = Inl e))"
proof -
  have "case run_until tui_turn ts tui_start of
      (s, None) \<Rightarrow> ts_shutdown s \<and> ts_sent s = 0
    | (s, Some x) \<Rightarrow> if x = TuiQuit then \<not> ts_shutdown s \<and> ts_sent s = 1 else ts_shutdown s \<and> ts_sent s = 0"
    by (rule tui_quit.run_invariant) (auto simp: tui_start_def intro: tui_quit.all_ok_trivial)
  then show ?thesis
    by (auto simp: tui_run_def split: prod.splits option.splits tui_end.splits)
qed

section \<open>The clock text\<close>

lemma pad2_length: "n < 100 \<Longrightarrow> length (pad2 n) = 2"
  by (cases "n < 10") (simp_all add: pad2_def show_nat.simps)

lemma pad2_digits: "n < 100 \<Longrightarrow> digits_val 0 (pad2 n) = Some n"
  using digits_val_show_nat [of n] by (auto simp: pad2_def digit_val_def)

text \<open>
  A time of day is eight characters, and reading its three fields back gives the second of the
  UTC day the timestamp lies in.
\<close>

theorem fmt_time_reads_back:
  "length (fmt_time ms) = 8
   \<and> (case map (digits_val 0) (split_on CHR '':'' (fmt_time ms)) of
        [Some h, Some m, Some s] \<Rightarrow> h * 3600 + m * 60 + s = ms div 1000 mod 86400
      | _ \<Rightarrow> False)"
proof -
  let ?s = "ms div 1000"
  have b: "?s div 3600 mod 24 < 100" "?s div 60 mod 60 < 100" "?s mod 60 < 100"
    using mod_less_divisor [of 24 "?s div 3600"] mod_less_divisor [of 60 "?s div 60"]
      mod_less_divisor [of 60 ?s] by linarith+
  have c: "CHR '':'' \<notin> set (pad2 n)" for n
    by (auto simp: pad2_def str_simps)
  have "split_on CHR '':'' (fmt_time ms)
      = [pad2 (?s div 3600 mod 24), pad2 (?s div 60 mod 60), pad2 (?s mod 60)]"
    using c by (simp add: fmt_time_def Let_def split_on_append_sep split_on_no_sep)
  moreover have "?s div 3600 mod 24 * 3600 + ?s div 60 mod 60 * 60 + ?s mod 60 = ?s mod 86400"
    using mod_mult2_eq [of ?s 3600 24] mod_mult2_eq [of ?s 60 60] by (simp add: mult.commute)
  ultimately show ?thesis using b by (simp add: pad2_digits fmt_time_def Let_def pad2_length)
qed

end
