(* ===== verification/Probe.thy ===== *)
theory Probe
  imports Versions
begin

text \<open>
  The hardware a node reports of itself (\<open>bins/decent/src/main.rs\<close>): its processor and its memory,
  from \<open>sysctl\<close> on macOS and from \<open>/proc\<close> on Linux; and the exit code of the shim under the old
  name of the program (\<open>bins/decent-node-shim\<close>).
\<close>

definition ascii_lower :: "char \<Rightarrow> char" where
  "ascii_lower c = (let n = of_char c :: nat in if 65 \<le> n \<and> n \<le> 90 then char_of (n + 32) else c)"

definition eq_ignore_ascii_case :: "string \<Rightarrow> string \<Rightarrow> bool" where
  "eq_ignore_ascii_case a b = (map ascii_lower a = map ascii_lower b)"

text \<open>\<open>str::split_once\<close>: at the first separator.\<close>

definition split_once :: "char \<Rightarrow> string \<Rightarrow> (string \<times> string) option" where
  "split_once c s =
     (if c \<in> set s then Some (takeWhile (\<lambda>x. x \<noteq> c) s, tl (dropWhile (\<lambda>x. x \<noteq> c) s)) else None)"

definition cpu_field :: "string \<Rightarrow> string \<Rightarrow> string option" where
  "cpu_field key l =
     (case split_once CHR '':'' l of
        Some (name, val) \<Rightarrow> if eq_ignore_ascii_case (trim name) key then Some (trim val) else None
      | None \<Rightarrow> None)"

definition CPU_KEYS :: "string list" where
  "CPU_KEYS = [''model name'', ''Model'', ''Hardware'', ''cpu model'']"

text \<open>For a key only the first line that has it counts; when its value is empty the next key is tried.\<close>

definition linux_cpu_model :: "string option \<Rightarrow> string option" where
  "linux_cpu_model cpuinfo =
     (case cpuinfo of None \<Rightarrow> None
      | Some txt \<Rightarrow>
          find_map (\<lambda>key. case find_map (cpu_field key) (lines_of txt) of
              Some v \<Rightarrow> if v \<noteq> [] then Some v else None | None \<Rightarrow> None) CPU_KEYS)"

definition detect_chip :: "target_os \<Rightarrow> string \<Rightarrow> string \<Rightarrow> string option \<Rightarrow> string option \<Rightarrow> string" where
  "detect_chip os os_name arch brand cpuinfo =
     (let name = (case os of
            MacOs \<Rightarrow> (case brand of Some out \<Rightarrow> if trim out \<noteq> [] then Some (trim out) else None | None \<Rightarrow> None)
          | LinuxOs \<Rightarrow> linux_cpu_model cpuinfo
          | OtherOs \<Rightarrow> None)
      in (case name of Some n \<Rightarrow> n | None \<Rightarrow> arch) @ '' ('' @ os_name @ '')'')"

definition mem_total :: "string \<Rightarrow> nat option" where
  "mem_total l =
     (if starts_with l ''MemTotal:''
      then (case split_whitespace (drop 9 l) of w # _ \<Rightarrow> parse_uint u64_bound w | [] \<Rightarrow> None)
      else None)"

text \<open>
  The cast of the quotient on macOS keeps its low 32 bits; the cast of the rounded float on Linux
  saturates. A float holds the quotient by a power of two of a count below \<open>2 ^ 53\<close> exactly.
\<close>

definition detect_ram_gb :: "target_os \<Rightarrow> string option \<Rightarrow> string option \<Rightarrow> nat" where
  "detect_ram_gb os memsize meminfo =
     (case os of
        MacOs \<Rightarrow>
          (case Option.bind memsize (\<lambda>out. parse_uint u64_bound (trim out)) of
             Some bytes \<Rightarrow> bytes div 2 ^ 30 mod u32_bound | None \<Rightarrow> 0)
      | LinuxOs \<Rightarrow>
          (case Option.bind meminfo (\<lambda>txt. find_map mem_total (lines_of txt)) of
             Some kb \<Rightarrow> min ((kb + 2 ^ 19) div 2 ^ 20) (u32_bound - 1) | None \<Rightarrow> 0)
      | OtherOs \<Rightarrow> 0)"

text \<open>\<open>status\<close>: the child's code, nothing inside when a signal ended it, nothing when it did not start.\<close>

definition shim_exit_code :: "nat option option \<Rightarrow> nat" where
  "shim_exit_code status =
     (case status of Some (Some code) \<Rightarrow> code | Some None \<Rightarrow> 1 | None \<Rightarrow> 1)"

lemma find_map_first:
  "find_map f xs = Some y \<Longrightarrow> \<exists>us x vs. xs = us @ x # vs \<and> f x = Some y \<and> (\<forall>u\<in>set us. f u = None)"
proof (induction xs)
  case (Cons x xs)
  show ?case
  proof (cases "f x")
    case None
    then obtain us z vs where "xs = us @ z # vs" "f z = Some y" "\<forall>u\<in>set us. f u = None"
      using Cons by auto
    then show ?thesis using None by (intro exI [of _ "x # us"]) auto
  next
    case (Some z)
    then show ?thesis using Cons.prems by (intro exI [of _ "[]"]) auto
  qed
qed simp

text \<open>
  The memory a Linux node reports is its size to the nearest gibibyte: from the first line of
  \<open>/proc/meminfo\<close> that gives a total, and never more than half a gibibyte off.
\<close>

theorem reported_ram_is_nearest:
  assumes "detect_ram_gb LinuxOs memsize (Some txt) = gb" and "gb \<noteq> 0" and "gb < u32_bound - 1"
  shows "\<exists>us l vs kb. lines_of txt = us @ l # vs \<and> mem_total l = Some kb \<and> (\<forall>u\<in>set us. mem_total u = None)
     \<and> gb * 2 ^ 20 \<le> kb + 2 ^ 19 \<and> kb < gb * 2 ^ 20 + 2 ^ 19"
proof -
  obtain kb where kb: "find_map mem_total (lines_of txt) = Some kb" "gb = (kb + 2 ^ 19) div 2 ^ 20"
    using assms by (auto simp: detect_ram_gb_def min_def split: option.splits if_splits)
  have "gb * 2 ^ 20 \<le> kb + 2 ^ 19" unfolding kb(2) by simp
  moreover have "kb + 2 ^ 19 < Suc gb * 2 ^ 20"
    unfolding kb(2) using dividend_less_div_times [of "2 ^ 20" "kb + 2 ^ 19"] by simp
  then have "kb < gb * 2 ^ 20 + 2 ^ 19" by simp
  ultimately show ?thesis using find_map_first [OF kb(1)] by blast
qed

theorem reported_ram_is_nearest_witness:
  "\<exists>us l vs kb. lines_of ''MemTotal:        7800000 kB'' = us @ l # vs \<and> mem_total l = Some kb
     \<and> (7::nat) * 2 ^ 20 \<le> kb + 2 ^ 19 \<and> kb < 7 * 2 ^ 20 + 2 ^ 19"
proof -
  have "mem_total ''MemTotal:        7800000 kB'' = Some 7800000"
    by (simp add: mem_total_def starts_with_def split_whitespace_def parse_uint_def digit_val_def u64_bound_def is_ws_def)
  then have "detect_ram_gb LinuxOs None (Some ''MemTotal:        7800000 kB'') = 7"
    by (simp add: detect_ram_gb_def lines_of_def u32_bound_def)
  from reported_ram_is_nearest [OF this] show ?thesis by (auto simp: u32_bound_def)
qed

end
