(* ===== verification/App.thy ===== *)
theory App
  imports Credentials Status Probe
begin

text \<open>
  The desktop shell (\<open>apps/decent-app/src-tauri/src/main.rs\<close>): its configuration file, the token in
  the keychain, and the commands that start and stop the connection task, as steps on the state the
  commands share. The mutex of the connection handle makes start and stop atomic to each other; a
  connection task may end by itself at any time.
\<close>

section \<open>Configuration\<close>

record app_config =
  ac_dispatch_url :: string
  ac_workdir_root :: "string option"
  ac_allow_real_jobs_default :: bool

definition default_config :: app_config where
  "default_config = \<lparr>ac_dispatch_url = DEFAULT_DISPATCH_WS, ac_workdir_root = None,
     ac_allow_real_jobs_default = False\<rparr>"

definition config_json :: "app_config \<Rightarrow> json" where
  "config_json c = JObj [(''dispatchUrl'', JStr (ac_dispatch_url c)),
     (''workdirRoot'', case ac_workdir_root c of Some w \<Rightarrow> JStr w | None \<Rightarrow> JNull),
     (''allowRealJobsDefault'', JBool (ac_allow_real_jobs_default c))]"

definition config_of_json :: "json \<Rightarrow> app_config de" where
  "config_of_json j = rbind (obj_of j) (\<lambda>kvs.
     rbind (req ''dispatchUrl'' str_of kvs) (\<lambda>u.
     rbind (opt ''workdirRoot'' str_of kvs) (\<lambda>w.
     rbind (req ''allowRealJobsDefault'' bool_of kvs) (\<lambda>a.
       Inr \<lparr>ac_dispatch_url = u, ac_workdir_root = w, ac_allow_real_jobs_default = a\<rparr>))))"

text \<open>
  \<open>text\<close> is the content of \<open>config.json\<close> as a JSON value, nothing when it cannot be read, and an
  error when it is not JSON.
\<close>

definition load_config :: "(string + json) option \<Rightarrow> app_config" where
  "load_config content =
     (case content of
        Some (Inr j) \<Rightarrow> (case config_of_json j of Inr c \<Rightarrow> c | Inl e \<Rightarrow> default_config)
      | _ \<Rightarrow> default_config)"

definition save_config :: "bool \<Rightarrow> app_config \<Rightarrow> (string + json) option \<Rightarrow> (string + json) option" where
  "save_config writable c content = (if writable then Some (Inr (config_json c)) else content)"

text \<open>A configuration that could be written is the one the next start reads.\<close>

theorem config_round_trip: "load_config (save_config True c content) = c"
  by (cases c; cases "ac_workdir_root c")
     (simp_all add: load_config_def save_config_def config_of_json_def config_json_def req_def opt_def field_def)

section \<open>The register frame\<close>

text \<open>The shell has its own probes, and both know macOS only.\<close>

definition app_detect_chip :: "target_os \<Rightarrow> string \<Rightarrow> string \<Rightarrow> string option \<Rightarrow> string" where
  "app_detect_chip os os_name arch brand =
     (case (os, brand) of
        (MacOs, Some out) \<Rightarrow> if trim out \<noteq> [] then trim out @ '' ('' @ os_name @ '')''
                            else arch @ '' ('' @ os_name @ '')''
      | _ \<Rightarrow> arch @ '' ('' @ os_name @ '')'')"

definition app_detect_ram_gb :: "target_os \<Rightarrow> string option \<Rightarrow> nat" where
  "app_detect_ram_gb os memsize =
     (case (os, memsize) of
        (MacOs, Some out) \<Rightarrow>
          (case parse_uint u64_bound (trim out) of Some bytes \<Rightarrow> bytes div 2 ^ 30 mod u32_bound | None \<Rightarrow> 0)
      | _ \<Rightarrow> 0)"

definition make_register :: "target_os \<Rightarrow> string \<Rightarrow> string \<Rightarrow> string option \<Rightarrow> string option
    \<Rightarrow> capabilities \<Rightarrow> register_message" where
  "make_register os os_name arch brand memsize caps =
     \<lparr>reg_tenant = ''driffs'', reg_protocol_version = PROTOCOL_VERSION, reg_operator = None,
      reg_platform = Company, reg_chip = app_detect_chip os os_name arch brand,
      reg_ram_gb = of_nat (app_detect_ram_gb os memsize), reg_supervisor_version = ''rust-0.0.1-app'',
      reg_payload_version = ''none'', reg_capabilities = caps\<rparr>"

text \<open>
  On macOS the shell and the command line report the same hardware; on Linux the shell reports no
  memory and no processor name where the command line does.
\<close>

theorem shell_probes_agree_on_macos:
  "app_detect_chip MacOs os_name arch brand = detect_chip MacOs os_name arch brand cpuinfo
   \<and> app_detect_ram_gb MacOs memsize = detect_ram_gb MacOs memsize meminfo
   \<and> app_detect_chip LinuxOs os_name arch brand = arch @ '' ('' @ os_name @ '')''
   \<and> app_detect_ram_gb LinuxOs memsize = 0"
  by (simp add: app_detect_chip_def detect_chip_def app_detect_ram_gb_def detect_ram_gb_def Let_def
      split: option.splits)

section \<open>The state\<close>

text \<open>
  A connection task that is running, with the URL and token it was started with. \<open>ap_running\<close> is what
  the runtime executes; \<open>ap_conn\<close> is the handle the commands keep.
\<close>

record conn_task =
  ct_handle :: nat
  ct_url :: string
  ct_token :: string

record app =
  ap_obs :: observability
  ap_conn :: "nat option"
  ap_keychain :: "string option"
  ap_running :: "conn_task list"
  ap_next :: nat

definition app_start :: "app_config \<Rightarrow> string option \<Rightarrow> app" where
  "app_start c keychain =
     \<lparr>ap_obs = set_allow_real_jobs (ac_allow_real_jobs_default c) (channels default_status),
      ap_conn = None, ap_keychain = keychain, ap_running = [], ap_next = 0\<rparr>"

definition load_keychain :: "app \<Rightarrow> string" where
  "load_keychain s = (case ap_keychain s of Some t \<Rightarrow> t | None \<Rightarrow> [])"

definition save_keychain :: "bool \<Rightarrow> string \<Rightarrow> app \<Rightarrow> app" where
  "save_keychain works token s =
     (if \<not> works then s
      else if token = [] then s\<lparr>ap_keychain := None\<rparr> else s\<lparr>ap_keychain := Some token\<rparr>)"

section \<open>Commands\<close>

datatype app_error = AppUrl url_error | AppToken token_error | AlreadyRunning

definition save_token_cmd :: "(u8 list \<Rightarrow> json option) \<Rightarrow> bool \<Rightarrow> string \<Rightarrow> app
    \<Rightarrow> (app_error + unit) \<times> app" where
  "save_token_cmd from_slice works token s =
     (case validate_worker_token_shape from_slice (trim token) of
        Inl e \<Rightarrow> (Inl (AppToken e), s)
      | Inr u \<Rightarrow> (Inr (), save_keychain works (trim token) s))"

definition start_connection :: "(string \<Rightarrow> string + url_parts) \<Rightarrow> (u8 list \<Rightarrow> json option) \<Rightarrow> bool
    \<Rightarrow> string \<Rightarrow> string \<Rightarrow> app \<Rightarrow> (app_error + unit) \<times> app" where
  "start_connection parse from_slice works url token s =
     (case validate_dispatch_url parse url of
        Inl e \<Rightarrow> (Inl (AppUrl e), s)
      | Inr u \<Rightarrow>
          (case validate_worker_token_shape from_slice (trim token) of
             Inl e \<Rightarrow> (Inl (AppToken e), s)
           | Inr v \<Rightarrow>
               if ap_conn s \<noteq> None then (Inl AlreadyRunning, s)
               else
                 (let s1 = s\<lparr>ap_obs := update_status (\<lambda>st. st\<lparr>ss_connection := Disconnected,
                             ss_current_job := None, ss_last_error := None\<rparr>) (ap_obs s)\<rparr>;
                      s2 = save_keychain works token s1
                  in (Inr (), s2\<lparr>ap_conn := Some (ap_next s),
                        ap_running := \<lparr>ct_handle = ap_next s, ct_url = url, ct_token = token\<rparr> # ap_running s2,
                        ap_next := Suc (ap_next s)\<rparr>))))"

text \<open>The task is signalled, given 50 ms, and aborted: it does not run after the command.\<close>

definition stop_connection :: "app \<Rightarrow> app" where
  "stop_connection s =
     (case ap_conn s of
        None \<Rightarrow> s
      | Some h \<Rightarrow>
          s\<lparr>ap_conn := None, ap_running := filter (\<lambda>t. ct_handle t \<noteq> h) (ap_running s),
            ap_obs := update_status (\<lambda>st. st\<lparr>ss_connection := Disconnected, ss_current_job := None\<rparr>)
                        (ap_obs s)\<rparr>)"

inductive app_step :: "(string \<Rightarrow> string + url_parts) \<Rightarrow> (u8 list \<Rightarrow> json option) \<Rightarrow> app \<Rightarrow> app \<Rightarrow> bool"
  for parse from_slice where
  step_save: "app_step parse from_slice s (snd (save_token_cmd from_slice works token s))"
| step_start: "app_step parse from_slice s (snd (start_connection parse from_slice works url token s))"
| step_stop: "app_step parse from_slice s (stop_connection s)"
| step_allow: "app_step parse from_slice s (s\<lparr>ap_obs := set_allow_real_jobs v (ap_obs s)\<rparr>)"
| step_task_status: "app_step parse from_slice s (s\<lparr>ap_obs := update_status f (ap_obs s)\<rparr>)"
| step_task_ends: "app_step parse from_slice s
    (s\<lparr>ap_running := filter (\<lambda>t. ct_handle t \<noteq> h) (ap_running s)\<rparr>)"

inductive app_reachable :: "(string \<Rightarrow> string + url_parts) \<Rightarrow> (u8 list \<Rightarrow> json option) \<Rightarrow> string option
    \<Rightarrow> app \<Rightarrow> bool" for parse from_slice keychain where
  app_init: "app_reachable parse from_slice keychain (app_start c keychain)"
| app_next: "app_reachable parse from_slice keychain s \<Longrightarrow> app_step parse from_slice s s'
    \<Longrightarrow> app_reachable parse from_slice keychain s'"

section \<open>One connection, and only through the gates\<close>

definition vetted :: "(string \<Rightarrow> string + url_parts) \<Rightarrow> (u8 list \<Rightarrow> json option) \<Rightarrow> conn_task \<Rightarrow> bool" where
  "vetted parse from_slice t \<longleftrightarrow> validate_dispatch_url parse (ct_url t) = Inr ()
     \<and> validate_worker_token_shape from_slice (trim (ct_token t)) = Inr ()"

definition app_inv :: "(string \<Rightarrow> string + url_parts) \<Rightarrow> (u8 list \<Rightarrow> json option) \<Rightarrow> string option
    \<Rightarrow> app \<Rightarrow> bool" where
  "app_inv parse from_slice keychain s \<longleftrightarrow>
     length (ap_running s) \<le> 1
     \<and> (\<forall>t\<in>set (ap_running s). ap_conn s = Some (ct_handle t) \<and> vetted parse from_slice t)
     \<and> (case ap_keychain s of None \<Rightarrow> True
        | Some k \<Rightarrow> keychain = Some k \<or> validate_worker_token_shape from_slice (trim k) = Inr ())"

lemma dropWhile_fixed: "(xs \<noteq> [] \<Longrightarrow> \<not> P (hd xs)) \<Longrightarrow> dropWhile P xs = xs"
  by (cases xs) auto

lemma trim_idem: "trim (trim s) = trim s"
proof -
  let ?u = "dropWhile is_ws s"
  let ?v = "dropWhile is_ws (rev ?u)"
  have "\<not> is_ws (hd (rev ?v))" if v: "rev ?v \<noteq> []"
  proof -
    have "last (takeWhile is_ws (rev ?u) @ ?v) = last ?v" by (rule last_appendR) (use v in simp)
    then have "last ?v = last (rev ?u)" by (simp only: takeWhile_dropWhile_id)
    moreover have "?u \<noteq> []"
    proof
      assume u: "?u = []"
      from v show False unfolding u by simp
    qed
    then have "\<not> is_ws (hd ?u)" by (rule hd_dropWhile)
    ultimately show ?thesis by (simp only: hd_rev last_rev) simp
  qed
  then have "dropWhile is_ws (rev ?v) = rev ?v" by (rule dropWhile_fixed)
  moreover have "dropWhile is_ws ?v = ?v"
    using hd_dropWhile [of is_ws "rev ?u"] by (intro dropWhile_fixed) auto
  ultimately show ?thesis by (simp add: trim_def)
qed

lemma inv_save_keychain:
  "app_inv parse from_slice keychain s \<Longrightarrow> validate_worker_token_shape from_slice (trim token) = Inr ()
     \<Longrightarrow> app_inv parse from_slice keychain (save_keychain works token s)"
  by (auto simp: app_inv_def save_keychain_def)

lemma inv_obs:
  "app_inv parse from_slice keychain (s\<lparr>ap_obs := obs\<rparr>) = app_inv parse from_slice keychain s"
  by (simp add: app_inv_def)

lemma filter_one: "length xs \<le> Suc 0 \<Longrightarrow> length (filter P xs) \<le> Suc 0"
  by (rule le_trans [OF length_filter_le])

lemma inv_app_start:
  assumes "app_inv parse from_slice keychain s"
  shows "app_inv parse from_slice keychain (snd (start_connection parse from_slice works url token s))"
proof (cases "validate_dispatch_url parse url = Inr () \<and> validate_worker_token_shape from_slice (trim token) = Inr ()
    \<and> ap_conn s = None")
  case False
  then show ?thesis using assms
    by (auto simp: start_connection_def Let_def split: sum.split)
next
  case True
  then have "ap_running s = []" using assms by (cases "ap_running s") (auto simp: app_inv_def)
  moreover have "app_inv parse from_slice keychain (save_keychain works token (s\<lparr>ap_obs := obs\<rparr>))" for obs
    using inv_save_keychain [of parse from_slice keychain "s\<lparr>ap_obs := obs\<rparr>"] assms True by (simp add: inv_obs)
  ultimately show ?thesis using True
    by (simp add: start_connection_def Let_def app_inv_def vetted_def save_keychain_def)
qed

lemma inv_stop: "app_inv parse from_slice keychain s \<Longrightarrow> app_inv parse from_slice keychain (stop_connection s)"
  by (auto simp: stop_connection_def app_inv_def filter_one split: option.split)

lemma app_step_inv:
  assumes "app_step parse from_slice s s'" and "app_inv parse from_slice keychain s"
  shows "app_inv parse from_slice keychain s'"
  using assms(1)
proof (cases rule: app_step.cases)
  case (step_save works token)
  then show ?thesis using assms(2)
    by (auto simp: save_token_cmd_def trim_idem intro: inv_save_keychain split: sum.split)
next
  case (step_task_ends h)
  then show ?thesis using assms(2) by (auto simp: app_inv_def filter_one)
qed (use assms(2) in \<open>simp_all add: inv_obs inv_app_start inv_stop\<close>)

lemma reachable_inv: "app_reachable parse from_slice keychain s \<Longrightarrow> app_inv parse from_slice keychain s"
proof (induction rule: app_reachable.induct)
  case (app_init c)
  show ?case by (simp add: app_inv_def app_start_def split: option.split)
next
  case (app_next s s')
  from app_step_inv [OF app_next.hyps(2) app_next.IH] show ?case .
qed


lemma started:
  assumes "start_connection parse from_slice works url token s = (Inr (), s1)"
  shows "ap_conn s1 = Some (ap_next s)"
    and "ap_running s1 = \<lparr>ct_handle = ap_next s, ct_url = url, ct_token = token\<rparr> # ap_running s"
    and "ap_keychain s1 = (if \<not> works then ap_keychain s else if token = [] then None else Some token)"
  using assms
  by (auto simp: start_connection_def save_keychain_def Let_def split: sum.splits if_splits)

definition any_claims :: "u8 list \<Rightarrow> json option" where
  "any_claims b = Some (JObj [(''tenant'', JNull)])"

definition a_token :: string where
  "a_token = ''AAAA.AAAA.AAAAAAAAAAAAAAAAAAAAAAAAAAAAAAAA''"

definition secure_url :: "string \<Rightarrow> string + url_parts" where
  "secure_url u = Inr \<lparr>up_scheme = ''wss'', up_host = Some u, up_path = ''/ws''\<rparr>"

lemma a_token_shape: "validate_worker_token_shape any_claims (trim a_token) = Inr ()"
  by code_simp

definition started_app :: app where
  "started_app = snd (start_connection secure_url any_claims True ''d'' a_token (app_start default_config None))"

lemma started_reachable: "app_reachable secure_url any_claims None started_app"
  unfolding started_app_def by (rule app_next [OF app_init step_start])


text \<open>
  A connection that ended by itself, for a rejected token for instance, is still held: the next
  start is refused as already running, with nothing running, until the operator presses stop.
\<close>

theorem ended_connection_blocks_start:
  assumes "app_reachable parse from_slice keychain s" and "ap_conn s = None"
    and "start_connection parse from_slice works url token s = (Inr (), s1)"
  shows "\<exists>s2. app_reachable parse from_slice keychain s2 \<and> ap_running s2 = []
     \<and> start_connection parse from_slice works url token s2 = (Inl AlreadyRunning, s2)"
proof -
  let ?s2 = "s1\<lparr>ap_running := filter (\<lambda>t. ct_handle t \<noteq> ap_next s) (ap_running s1)\<rparr>"
  have "app_reachable parse from_slice keychain s1"
    using app_next [OF assms(1) step_start [of parse from_slice s works url token]] assms(3) by simp
  then have "app_reachable parse from_slice keychain ?s2" by (rule app_next [OF _ step_task_ends])
  moreover have "ap_running s = []"
    using reachable_inv [OF assms(1)] assms(2) by (cases "ap_running s") (auto simp: app_inv_def)
  then have "ap_running ?s2 = []" "ap_conn s1 = Some (ap_next s)"
    using started [OF assms(3)] by simp_all
  moreover have "validate_dispatch_url parse url = Inr ()"
      "validate_worker_token_shape from_slice (trim token) = Inr ()"
    using assms(3) by (auto simp: start_connection_def split: sum.splits)
  ultimately show ?thesis
    by (intro exI [of _ ?s2]) (simp add: start_connection_def)
qed

text \<open>
  The token is checked trimmed, but saved and used as it was typed: with a line feed at its end it
  passes, is what the next launch finds, and is no valid header value.
\<close>

theorem untrimmed_token_is_used:
  assumes "start_connection parse from_slice True url (token @ [CHR 0x0A]) s = (Inr (), s1)"
  shows "ap_keychain s1 = Some (token @ [CHR 0x0A]) \<and> ct_token (hd (ap_running s1)) = token @ [CHR 0x0A]"
  using started [OF assms] by simp

end
