(* ===== verification/Tests_Protocol.thy ===== *)
theory Tests_Protocol
  imports Protocol
begin

text \<open>
  The unit tests of \<open>crates/supervisor-core/src/protocol.rs\<close> and the wire fixtures that the Rust and the
  TypeScript side share (\<open>packages/protocol/fixtures/v2.json\<close>), run on the model: one definition per
  test with its assertions, and a lemma that it passes. The JSON text of a test is the value it
  denotes; fields are compared with their order, which is stricter than the tests.
\<close>

section \<open>Round trips\<close>

definition round_trip_worker :: "json \<Rightarrow> worker_message option" where
  "round_trip_worker literal =
     (case worker_of_json literal of
        Inl e \<Rightarrow> None
      | Inr parsed \<Rightarrow> if worker_to_json parsed = literal then Some parsed else None)"

definition round_trip_server :: "json \<Rightarrow> server_message option" where
  "round_trip_server literal =
     (case server_of_json literal of
        Inl e \<Rightarrow> None
      | Inr parsed \<Rightarrow> if server_to_json parsed = literal then Some parsed else None)"

text \<open>The text of a field, for the tests that change one (\<open>v["purgeAfter"] = json!(false)\<close>).\<close>

fun set_field :: "string \<Rightarrow> json \<Rightarrow> json \<Rightarrow> json" where
  "set_field k v (JObj kvs) = JObj (map (\<lambda>(k', v'). if k' = k then (k', v) else (k', v')) kvs)"
| "set_field k v j = j"

section \<open>Frames of the worker\<close>

definition protocol_version_stays_pinned_at_2 :: bool where
  "protocol_version_stays_pinned_at_2 \<longleftrightarrow>
     PROTOCOL_VERSION = 2"

lemma protocol_version_stays_pinned_at_2_passes: "protocol_version_stays_pinned_at_2"
  by (simp add: protocol_version_stays_pinned_at_2_def PROTOCOL_VERSION_def)

definition register_matches_spike_worker_frame :: bool where
  "register_matches_spike_worker_frame \<longleftrightarrow>
     (case round_trip_worker
         (JObj [(''type'', JStr ''register''), (''tenant'', JStr ''driffs''), (''protocolVersion'', JInt 2),
           (''operator'', JNull), (''platform'', JStr ''company''), (''chip'', JStr ''Apple M4 Max
           (darwin)''), (''ramGb'', JInt 64), (''supervisorVersion'', JStr ''spike-0.0.2''),
           (''payloadVersion'', JStr ''none''), (''capabilities'', JObj [(''gpu'', JBool True)])]) of
        Some (Register r) \<Rightarrow> reg_tenant r = ''driffs'' \<and> reg_protocol_version r = PROTOCOL_VERSION
          \<and> reg_operator r = None \<and> reg_platform r = Company \<and> cap_gpu (reg_capabilities r)
      | _ \<Rightarrow> False)"

lemma register_matches_spike_worker_frame_passes: "register_matches_spike_worker_frame"
  by code_simp

definition heartbeat_matches_spike_worker_frame :: bool where
  "heartbeat_matches_spike_worker_frame \<longleftrightarrow>
     round_trip_worker
       (JObj [(''type'', JStr ''heartbeat''), (''tenant'', JStr ''driffs''), (''currentJobCount'', JInt 0)])
       = Some (Heartbeat \<lparr>hb_tenant = ''driffs'', hb_current_job_count = 0\<rparr>)"

lemma heartbeat_matches_spike_worker_frame_passes: "heartbeat_matches_spike_worker_frame"
  by code_simp

definition job_lifecycle_worker_frames :: bool where
  "job_lifecycle_worker_frames \<longleftrightarrow>
     round_trip_worker
         (JObj [(''type'', JStr ''jobAccepted''), (''tenant'', JStr ''driffs''), (''jobId'', JStr
           ''spike-1'')]) \<noteq> None
     \<and> round_trip_worker
         (JObj [(''type'', JStr ''jobProgress''), (''tenant'', JStr ''driffs''), (''jobId'', JStr
           ''spike-1''), (''progress'', JFloat (1 / 2))]) \<noteq> None
     \<and> (case round_trip_worker
         (JObj [(''type'', JStr ''jobComplete''), (''tenant'', JStr ''driffs''), (''jobId'', JStr
           ''spike-1''), (''outputKey'', JStr ''renders/t1/out.mp4''), (''metrics'', JObj [(''wallMs'', JInt
           12345), (''frames'', JInt 300)])]) of
          Some (JobComplete c) \<Rightarrow> met_wall_ms (cmp_metrics c) = 12345 \<and> met_frames (cmp_metrics c) = 300
            \<and> met_output_size_in_bytes (cmp_metrics c) = None
        | _ \<Rightarrow> False)
     \<and> (case round_trip_worker
         (JObj [(''type'', JStr ''jobComplete''), (''tenant'', JStr ''driffs''), (''jobId'', JStr
           ''spike-1''), (''outputKey'', JStr ''renders/t1/out.mp4''), (''metrics'', JObj [(''wallMs'', JInt
           12345), (''frames'', JInt 300), (''outputSizeInBytes'', JInt 647399)])]) of
          Some (JobComplete c) \<Rightarrow> met_output_size_in_bytes (cmp_metrics c) = Some 647399
        | _ \<Rightarrow> False)
     \<and> round_trip_worker
         (JObj [(''type'', JStr ''jobFailed''), (''tenant'', JStr ''driffs''), (''jobId'', JStr
           ''spike-1''), (''reason'', JStr ''bundle sha mismatch'')]) \<noteq> None"

lemma job_lifecycle_worker_frames_passes: "job_lifecycle_worker_frames"
  by code_simp

definition job_canceled_ack_shape :: bool where
  "job_canceled_ack_shape \<longleftrightarrow>
     (case round_trip_worker
         (JObj [(''type'', JStr ''jobCanceledAck''), (''tenant'', JStr ''driffs''), (''jobId'', JStr
           ''spike-1''), (''attempt'', JInt 2), (''teardownMs'', JInt 812)]) of
        Some (JobCanceledAck a) \<Rightarrow> ack_attempt a = 2 \<and> ack_teardown_ms a = Some 812 \<and> ack_tenant a = ''driffs''
      | _ \<Rightarrow> False)
     \<and> (case round_trip_worker
         (JObj [(''type'', JStr ''jobCanceledAck''), (''tenant'', JStr ''driffs''), (''jobId'', JStr
           ''spike-1''), (''attempt'', JInt 1)]) of
          Some (JobCanceledAck b) \<Rightarrow> ack_teardown_ms b = None
        | _ \<Rightarrow> False)
     \<and> isl (worker_of_json
         (JObj [(''type'', JStr ''jobCanceledAck''), (''tenant'', JStr ''driffs''), (''jobId'', JStr
           ''spike-1''), (''teardownMs'', JInt 812)]))
     \<and> isl (worker_of_json
         (JObj [(''type'', JStr ''jobCanceledAck''), (''tenant'', JStr ''driffs''), (''jobId'', JStr
           ''spike-1''), (''attempt'', JStr ''1'')]))
     \<and> isl (worker_of_json
         (JObj [(''type'', JStr ''jobCanceledAck''), (''tenant'', JStr ''driffs''), (''jobId'', JStr
           ''spike-1''), (''attempt'', JInt 1), (''teardownMs'', JInt (-5))]))"

lemma job_canceled_ack_shape_passes: "job_canceled_ack_shape"
  by code_simp

section \<open>Frames of the server\<close>

definition job_assign_matches_dispatch_shape :: bool where
  "job_assign_matches_dispatch_shape \<longleftrightarrow>
     (case round_trip_server
         (JObj [(''type'', JStr ''jobAssign''), (''tenant'', JStr ''driffs''), (''jobId'', JStr
           ''job-render-abc123''), (''kind'', JStr ''gpu''), (''durationFrames'', JInt 300), (''fps'', JInt
           30), (''codec'', JStr ''h264''), (''bundleSha256'', JStr
           ''9f86d081884c7d659a2feaa0c55ad015a3bf4f1b2b0b822cd15d6c15b0f00a08''), (''bundleGetUrl'', JStr
           ''https://r2.example.com/bundles/9f86.tar.gz?sig=1''), (''payloadSha256'', JStr
           ''aaaaaaaaaaaaaaaaaaaaaaaaaaaaaaaaaaaaaaaaaaaaaaaaaaaaaaaaaaaaaaaa''), (''payloadGetUrl'', JStr
           ''https://r2.example.com/render-payloads/aaaa.tar.gz?sig=payload''), (''inputPropsGetUrl'', JStr
           ''https://r2.example.com/renders/t1/input-props.json?sig=2''), (''assetGetUrls'', JArr [JStr
           ''https://r2.example.com/assets/a.png?sig=3'']), (''outputPutUrl'', JStr
           ''https://r2.example.com/renders/t1/out.mp4?sig=4''), (''outputKey'', JStr
           ''renders/t1/out.mp4''), (''purgeAfter'', JBool True)]) of
        Some (JobAssign a) \<Rightarrow> ja_job_id a = ''job-render-abc123'' \<and> ja_kind a = Gpu \<and> ja_codec a = Some H264
          \<and> ja_duration_frames a = 300 \<and> ja_fps a = 30 \<and> length (ja_asset_get_urls a) = 1
      | _ \<Rightarrow> False)"

lemma job_assign_matches_dispatch_shape_passes: "job_assign_matches_dispatch_shape"
  by code_simp

definition job_assign_rejects_purge_after_false :: bool where
  "job_assign_rejects_purge_after_false \<longleftrightarrow>
     (let v =
         JObj [(''type'', JStr ''jobAssign''), (''tenant'', JStr ''driffs''), (''jobId'', JStr ''j''),
           (''kind'', JStr ''standard''), (''durationFrames'', JInt 1), (''fps'', JInt 30), (''codec'', JStr
           ''vp8''), (''bundleSha256'', JStr ''x''), (''bundleGetUrl'', JStr ''u''), (''payloadSha256'',
           JStr ''p''), (''payloadGetUrl'', JStr ''u''), (''inputPropsGetUrl'', JStr ''u''),
           (''assetGetUrls'', JArr []), (''outputPutUrl'', JStr ''u''), (''outputKey'', JStr ''k''),
           (''purgeAfter'', JBool True)]
      in \<not> isl (server_of_json v) \<and> isl (server_of_json (set_field ''purgeAfter'' (JBool False) v)))"

lemma job_assign_rejects_purge_after_false_passes: "job_assign_rejects_purge_after_false"
  by code_simp

definition job_assign_still_round_trips_and_video_stays_unchanged :: bool where
  "job_assign_still_round_trips_and_video_stays_unchanged \<longleftrightarrow>
     (case round_trip_server
         (JObj [(''type'', JStr ''jobAssign''), (''tenant'', JStr ''driffs''), (''jobId'', JStr ''j''),
           (''kind'', JStr ''standard''), (''durationFrames'', JInt 300), (''fps'', JInt 30), (''codec'',
           JStr ''h264''), (''bundleSha256'', JStr ''x''), (''bundleGetUrl'', JStr ''u''),
           (''payloadSha256'', JStr ''p''), (''payloadGetUrl'', JStr ''u''), (''inputPropsGetUrl'', JStr
           ''u''), (''assetGetUrls'', JArr []), (''outputPutUrl'', JStr ''u''), (''outputKey'', JStr ''k''),
           (''purgeAfter'', JBool True)]) of
        Some (JobAssign a) \<Rightarrow> ja_still a = None
      | _ \<Rightarrow> False)
     \<and> (case round_trip_server
         (JObj [(''type'', JStr ''jobAssign''), (''tenant'', JStr ''driffs''), (''jobId'', JStr ''j''),
           (''kind'', JStr ''standard''), (''durationFrames'', JInt 300), (''fps'', JInt 30),
           (''bundleSha256'', JStr ''x''), (''bundleGetUrl'', JStr ''u''), (''payloadSha256'', JStr ''p''),
           (''payloadGetUrl'', JStr ''u''), (''inputPropsGetUrl'', JStr ''u''), (''assetGetUrls'', JArr []),
           (''outputPutUrl'', JStr ''u''), (''outputKey'', JStr ''renders/t1/still-f12.png''),
           (''purgeAfter'', JBool True), (''still'', JObj [(''frame'', JInt 12), (''format'', JStr
           ''png'')])]) of
          Some (JobAssign a) \<Rightarrow> ja_still a = Some \<lparr>still_frame = 12, still_fmt = Png\<rparr>
        | _ \<Rightarrow> False)"

lemma job_assign_still_round_trips_and_video_stays_unchanged_passes: "job_assign_still_round_trips_and_video_stays_unchanged"
  by code_simp

definition job_assign_rejects_still_frame_at_or_past_duration :: bool where
  "job_assign_rejects_still_frame_at_or_past_duration \<longleftrightarrow>
     (let frame = (\<lambda>f.
         JObj [(''type'', JStr ''jobAssign''), (''tenant'', JStr ''driffs''), (''jobId'', JStr ''j''),
           (''kind'', JStr ''standard''), (''durationFrames'', JInt 300), (''fps'', JInt 30), (''codec'',
           JStr ''h264''), (''bundleSha256'', JStr ''x''), (''bundleGetUrl'', JStr ''u''),
           (''payloadSha256'', JStr ''p''), (''payloadGetUrl'', JStr ''u''), (''inputPropsGetUrl'', JStr
           ''u''), (''assetGetUrls'', JArr []), (''outputPutUrl'', JStr ''u''), (''outputKey'', JStr ''k''),
           (''purgeAfter'', JBool True), (''still'', JObj [(''frame'', JInt f), (''format'', JStr
           ''png'')])])
      in isl (server_of_json (frame 300)) \<and> isl (server_of_json (frame 301)) \<and> \<not> isl (server_of_json (frame 299)))"

lemma job_assign_rejects_still_frame_at_or_past_duration_passes: "job_assign_rejects_still_frame_at_or_past_duration"
  by code_simp

definition job_assign_rejects_unknown_still_format :: bool where
  "job_assign_rejects_unknown_still_format \<longleftrightarrow>
     isl (server_of_json
       (JObj [(''type'', JStr ''jobAssign''), (''tenant'', JStr ''driffs''), (''jobId'', JStr ''j''),
         (''kind'', JStr ''standard''), (''durationFrames'', JInt 300), (''fps'', JInt 30), (''codec'', JStr
         ''h264''), (''bundleSha256'', JStr ''x''), (''bundleGetUrl'', JStr ''u''), (''payloadSha256'', JStr
         ''p''), (''payloadGetUrl'', JStr ''u''), (''inputPropsGetUrl'', JStr ''u''), (''assetGetUrls'',
         JArr []), (''outputPutUrl'', JStr ''u''), (''outputKey'', JStr ''k''), (''purgeAfter'', JBool
         True), (''still'', JObj [(''frame'', JInt 12), (''format'', JStr ''jpeg'')])]))"

lemma job_assign_rejects_unknown_still_format_passes: "job_assign_rejects_unknown_still_format"
  by code_simp

definition job_assign_video_without_codec_refused_still_without_ok :: bool where
  "job_assign_video_without_codec_refused_still_without_ok \<longleftrightarrow>
     isl (server_of_json
       (JObj [(''type'', JStr ''jobAssign''), (''tenant'', JStr ''driffs''), (''jobId'', JStr ''j''),
         (''kind'', JStr ''standard''), (''durationFrames'', JInt 300), (''fps'', JInt 30),
         (''bundleSha256'', JStr ''x''), (''bundleGetUrl'', JStr ''u''), (''payloadSha256'', JStr ''p''),
         (''payloadGetUrl'', JStr ''u''), (''inputPropsGetUrl'', JStr ''u''), (''assetGetUrls'', JArr []),
         (''outputPutUrl'', JStr ''u''), (''outputKey'', JStr ''k''), (''purgeAfter'', JBool True)]))
     \<and> (case server_of_json
       (JObj [(''type'', JStr ''jobAssign''), (''tenant'', JStr ''driffs''), (''jobId'', JStr ''j''),
         (''kind'', JStr ''standard''), (''durationFrames'', JInt 300), (''fps'', JInt 30),
         (''bundleSha256'', JStr ''x''), (''bundleGetUrl'', JStr ''u''), (''payloadSha256'', JStr ''p''),
         (''payloadGetUrl'', JStr ''u''), (''inputPropsGetUrl'', JStr ''u''), (''assetGetUrls'', JArr []),
         (''outputPutUrl'', JStr ''u''), (''outputKey'', JStr ''k''), (''purgeAfter'', JBool True),
         (''still'', JObj [(''frame'', JInt 1), (''format'', JStr ''png'')])]) of
          Inr (JobAssign a) \<Rightarrow> ja_codec a = None
        | _ \<Rightarrow> False)"

lemma job_assign_video_without_codec_refused_still_without_ok_passes: "job_assign_video_without_codec_refused_still_without_ok"
  by code_simp

definition cancel_matches_dispatch_frame :: bool where
  "cancel_matches_dispatch_frame \<longleftrightarrow>
     (case round_trip_server
         (JObj [(''type'', JStr ''cancel''), (''tenant'', JStr ''driffs''), (''jobId'', JStr
           ''job-render-abc123'')]) of
        Some (Cancel c) \<Rightarrow> can_tenant c = ''driffs'' \<and> can_job_id c = ''job-render-abc123''
      | _ \<Rightarrow> False)"

lemma cancel_matches_dispatch_frame_passes: "cancel_matches_dispatch_frame"
  by code_simp

definition remaining_server_frames :: bool where
  "remaining_server_frames \<longleftrightarrow>
     round_trip_server
       (JObj [(''type'', JStr ''ping''), (''tenant'', JStr ''driffs'')]) \<noteq> None
     \<and> round_trip_server
       (JObj [(''type'', JStr ''updateAvailable''), (''tenant'', JStr ''driffs''), (''supervisorVersion'',
         JStr ''rust-0.0.2''), (''payloadVersion'', JStr ''remotion-4.0.339'')]) \<noteq> None"

lemma remaining_server_frames_passes: "remaining_server_frames"
  by code_simp

section \<open>The shared fixtures\<close>

datatype direction = FromWorker | FromServer

definition fixture_cases :: "(direction \<times> json) list" where
  "fixture_cases = [
    (FromWorker, JObj [(''type'', JStr ''register''), (''tenant'', JStr ''driffs''), (''protocolVersion'',
      JInt 2), (''operator'', JNull), (''platform'', JStr ''company''), (''chip'', JStr ''Apple M4 Max
      (darwin)''), (''ramGb'', JInt 64), (''supervisorVersion'', JStr ''spike-0.0.2''), (''payloadVersion'',
      JStr ''none''), (''capabilities'', JObj [(''gpu'', JBool True)])]),
    (FromWorker, JObj [(''type'', JStr ''register''), (''tenant'', JStr ''driffs''), (''protocolVersion'',
      JInt 2), (''operator'', JNull), (''platform'', JStr ''company''), (''chip'', JStr ''Apple M4 Max
      (darwin)''), (''ramGb'', JInt 64), (''supervisorVersion'', JStr ''spike-0.0.2''), (''payloadVersion'',
      JStr ''none''), (''capabilities'', JObj [(''gpu'', JBool True), (''maxConcurrentJobs'', JInt 1),
      (''os'', JStr ''macos''), (''arch'', JStr ''aarch64'')])]),
    (FromWorker, JObj [(''type'', JStr ''heartbeat''), (''tenant'', JStr ''driffs''), (''currentJobCount'',
      JInt 0)]),
    (FromWorker, JObj [(''type'', JStr ''jobAccepted''), (''tenant'', JStr ''driffs''), (''jobId'', JStr
      ''spike-1''), (''attempt'', JInt 1)]),
    (FromWorker, JObj [(''type'', JStr ''jobProgress''), (''tenant'', JStr ''driffs''), (''jobId'', JStr
      ''spike-1''), (''attempt'', JInt 1), (''progress'', JFloat (1 / 2))]),
    (FromWorker, JObj [(''type'', JStr ''jobProgress''), (''tenant'', JStr ''driffs''), (''jobId'', JStr
      ''spike-1''), (''attempt'', JInt 1), (''progress'', JFloat (7 / 20)), (''elapsedMs'', JInt 8453),
      (''framesSoFar'', JInt 105)]),
    (FromWorker, JObj [(''type'', JStr ''jobComplete''), (''tenant'', JStr ''driffs''), (''jobId'', JStr
      ''spike-1''), (''attempt'', JInt 1), (''outputKey'', JStr ''renders/t1/out.mp4''), (''metrics'', JObj
      [(''wallMs'', JInt 12345), (''frames'', JInt 300)])]),
    (FromWorker, JObj [(''type'', JStr ''jobComplete''), (''tenant'', JStr ''driffs''), (''jobId'', JStr
      ''spike-1''), (''attempt'', JInt 1), (''outputKey'', JStr ''renders/t1/out.mp4''), (''metrics'', JObj
      [(''wallMs'', JInt 12345), (''frames'', JInt 300), (''outputSizeInBytes'', JInt 647399)])]),
    (FromWorker, JObj [(''type'', JStr ''jobFailed''), (''tenant'', JStr ''driffs''), (''jobId'', JStr
      ''spike-1''), (''attempt'', JInt 1), (''reason'', JStr ''bundle sha mismatch'')]),
    (FromWorker, JObj [(''type'', JStr ''jobRejected''), (''tenant'', JStr ''driffs''), (''jobId'', JStr
      ''spike-1''), (''attempt'', JInt 1), (''reason'', JStr ''not-accepting'')]),
    (FromWorker, JObj [(''type'', JStr ''jobRejected''), (''tenant'', JStr ''driffs''), (''jobId'', JStr
      ''spike-1''), (''reason'', JStr ''busy'')]),
    (FromWorker, JObj [(''type'', JStr ''jobCanceledAck''), (''tenant'', JStr ''driffs''), (''jobId'', JStr
      ''spike-1''), (''attempt'', JInt 1), (''teardownMs'', JInt 812)]),
    (FromWorker, JObj [(''type'', JStr ''jobCanceledAck''), (''tenant'', JStr ''driffs''), (''jobId'', JStr
      ''spike-1''), (''attempt'', JInt 1)]),
    (FromServer, JObj [(''type'', JStr ''jobAssign''), (''tenant'', JStr ''driffs''), (''jobId'', JStr
      ''job-render-abc123''), (''attempt'', JInt 1), (''kind'', JStr ''gpu''), (''durationFrames'', JInt
      300), (''fps'', JInt 30), (''codec'', JStr ''h264''), (''bundleSha256'', JStr
      ''9f86d081884c7d659a2feaa0c55ad015a3bf4f1b2b0b822cd15d6c15b0f00a08''), (''bundleGetUrl'', JStr
      ''https://r2.example.com/bundles/9f86.tar.gz?sig=1''), (''payloadSha256'', JStr
      ''aaaaaaaaaaaaaaaaaaaaaaaaaaaaaaaaaaaaaaaaaaaaaaaaaaaaaaaaaaaaaaaa''), (''payloadGetUrl'', JStr
      ''https://r2.example.com/render-payloads/aaaa.tar.gz?sig=payload''), (''inputPropsGetUrl'', JStr
      ''https://r2.example.com/renders/t1/input-props.json?sig=2''), (''assetGetUrls'', JArr [JStr
      ''https://r2.example.com/assets/a.png?sig=3'']), (''outputPutUrl'', JStr
      ''https://r2.example.com/renders/t1/out.mp4?sig=4''), (''outputKey'', JStr ''renders/t1/out.mp4''),
      (''purgeAfter'', JBool True)]),
    (FromServer, JObj [(''type'', JStr ''jobAssign''), (''tenant'', JStr ''driffs''), (''jobId'', JStr
      ''job-render-abc123''), (''attempt'', JInt 1), (''kind'', JStr ''gpu''), (''durationFrames'', JInt
      300), (''fps'', JInt 30), (''codec'', JStr ''h264''), (''bundleSha256'', JStr
      ''9f86d081884c7d659a2feaa0c55ad015a3bf4f1b2b0b822cd15d6c15b0f00a08''), (''bundleGetUrl'', JStr
      ''https://r2.example.com/bundles/9f86.tar.gz?sig=1''), (''payloadSha256'', JStr
      ''aaaaaaaaaaaaaaaaaaaaaaaaaaaaaaaaaaaaaaaaaaaaaaaaaaaaaaaaaaaaaaaa''), (''payloadGetUrl'', JStr
      ''https://r2.example.com/render-payloads/aaaa.tar.gz?sig=payload''), (''browserSha256'', JStr
      ''bbbbbbbbbbbbbbbbbbbbbbbbbbbbbbbbbbbbbbbbbbbbbbbbbbbbbbbbbbbbbbbb''), (''browserGetUrl'', JStr
      ''https://r2.example.com/render-browsers/bbbb.tar.gz?sig=browser''), (''inputPropsGetUrl'', JStr
      ''https://r2.example.com/renders/t1/input-props.json?sig=2''), (''assetGetUrls'', JArr [JStr
      ''https://r2.example.com/assets/a.png?sig=3'']), (''outputPutUrl'', JStr
      ''https://r2.example.com/renders/t1/out.mp4?sig=4''), (''outputKey'', JStr ''renders/t1/out.mp4''),
      (''purgeAfter'', JBool True)]),
    (FromServer, JObj [(''type'', JStr ''jobAssign''), (''tenant'', JStr ''driffs''), (''jobId'', JStr
      ''job-render-still1''), (''attempt'', JInt 1), (''kind'', JStr ''gpu''), (''durationFrames'', JInt
      300), (''fps'', JInt 30), (''bundleSha256'', JStr
      ''9f86d081884c7d659a2feaa0c55ad015a3bf4f1b2b0b822cd15d6c15b0f00a08''), (''bundleGetUrl'', JStr
      ''https://r2.example.com/bundles/9f86.tar.gz?sig=1''), (''payloadSha256'', JStr
      ''aaaaaaaaaaaaaaaaaaaaaaaaaaaaaaaaaaaaaaaaaaaaaaaaaaaaaaaaaaaaaaaa''), (''payloadGetUrl'', JStr
      ''https://r2.example.com/render-payloads/aaaa.tar.gz?sig=payload''), (''inputPropsGetUrl'', JStr
      ''https://r2.example.com/renders/t1/input-props.json?sig=2''), (''assetGetUrls'', JArr []),
      (''outputPutUrl'', JStr ''https://r2.example.com/renders/t1/still-f12.png?sig=5''), (''outputKey'',
      JStr ''renders/t1/still-f12.png''), (''purgeAfter'', JBool True), (''still'', JObj [(''frame'', JInt
      12), (''format'', JStr ''png'')])]),
    (FromServer, JObj [(''type'', JStr ''cancel''), (''tenant'', JStr ''driffs''), (''jobId'', JStr
      ''job-render-abc123'')]),
    (FromServer, JObj [(''type'', JStr ''ping''), (''tenant'', JStr ''driffs'')]),
    (FromServer, JObj [(''type'', JStr ''updateAvailable''), (''tenant'', JStr ''driffs''),
      (''supervisorVersion'', JStr ''rust-0.0.2''), (''payloadVersion'', JStr ''remotion-4.0.339'')])]"

definition fixture_rejects :: "(direction \<times> json) list" where
  "fixture_rejects = [
    (FromWorker, JObj [(''type'', JStr ''register''), (''tenant'', JStr ''driffs''), (''protocolVersion'',
      JInt 99), (''operator'', JNull), (''platform'', JStr ''company''), (''chip'', JStr ''Apple M4 Max
      (darwin)''), (''ramGb'', JInt 64), (''supervisorVersion'', JStr ''spike-0.0.2''), (''payloadVersion'',
      JStr ''none''), (''capabilities'', JObj [(''gpu'', JBool True)])]),
    (FromWorker, JObj [(''type'', JStr ''jobProgress''), (''tenant'', JStr ''driffs''), (''jobId'', JStr
      ''spike-1''), (''attempt'', JInt 1), (''progress'', JFloat (3 / 2))]),
    (FromWorker, JObj [(''type'', JStr ''jobProgress''), (''tenant'', JStr ''driffs''), (''jobId'', JStr
      ''spike-1''), (''attempt'', JInt 1), (''progress'', JFloat (- 1 / 10))]),
    (FromWorker, JObj [(''type'', JStr ''jobProgress''), (''tenant'', JStr ''driffs''), (''jobId'', JStr
      ''spike-1''), (''attempt'', JInt 1), (''progress'', JFloat (7 / 20)), (''framesSoFar'', JInt (-12))]),
    (FromWorker, JObj [(''type'', JStr ''jobCanceledAck''), (''tenant'', JStr ''driffs''), (''jobId'', JStr
      ''spike-1''), (''teardownMs'', JInt 812)]),
    (FromWorker, JObj [(''type'', JStr ''jobCanceledAck''), (''tenant'', JStr ''driffs''), (''jobId'', JStr
      ''spike-1''), (''attempt'', JInt 1), (''teardownMs'', JInt (-5))]),
    (FromWorker, JObj [(''type'', JStr ''jobCanceledAck''), (''tenant'', JStr ''driffs''), (''jobId'', JStr
      ''spike-1''), (''attempt'', JStr ''1''), (''teardownMs'', JInt 812)]),
    (FromServer, JObj [(''type'', JStr ''jobAssign''), (''tenant'', JStr ''driffs''), (''jobId'', JStr
      ''job-render-abc123''), (''attempt'', JInt 1), (''kind'', JStr ''gpu''), (''durationFrames'', JInt
      300), (''fps'', JInt 30), (''codec'', JStr ''av1''), (''bundleSha256'', JStr
      ''9f86d081884c7d659a2feaa0c55ad015a3bf4f1b2b0b822cd15d6c15b0f00a08''), (''bundleGetUrl'', JStr
      ''https://r2.example.com/bundles/9f86.tar.gz?sig=1''), (''payloadSha256'', JStr
      ''aaaaaaaaaaaaaaaaaaaaaaaaaaaaaaaaaaaaaaaaaaaaaaaaaaaaaaaaaaaaaaaa''), (''payloadGetUrl'', JStr
      ''https://r2.example.com/render-payloads/aaaa.tar.gz?sig=payload''), (''inputPropsGetUrl'', JStr
      ''https://r2.example.com/renders/t1/input-props.json?sig=2''), (''assetGetUrls'', JArr [JStr
      ''https://r2.example.com/assets/a.png?sig=3'']), (''outputPutUrl'', JStr
      ''https://r2.example.com/renders/t1/out.mp4?sig=4''), (''outputKey'', JStr ''renders/t1/out.mp4''),
      (''purgeAfter'', JBool True)]),
    (FromServer, JObj [(''type'', JStr ''jobAssign''), (''tenant'', JStr ''driffs''), (''jobId'', JStr
      ''job-render-still-bad1''), (''attempt'', JInt 1), (''kind'', JStr ''gpu''), (''durationFrames'', JInt
      300), (''fps'', JInt 30), (''codec'', JStr ''h264''), (''bundleSha256'', JStr
      ''9f86d081884c7d659a2feaa0c55ad015a3bf4f1b2b0b822cd15d6c15b0f00a08''), (''bundleGetUrl'', JStr
      ''https://r2.example.com/bundles/9f86.tar.gz?sig=1''), (''payloadSha256'', JStr
      ''aaaaaaaaaaaaaaaaaaaaaaaaaaaaaaaaaaaaaaaaaaaaaaaaaaaaaaaaaaaaaaaa''), (''payloadGetUrl'', JStr
      ''https://r2.example.com/render-payloads/aaaa.tar.gz?sig=payload''), (''inputPropsGetUrl'', JStr
      ''https://r2.example.com/renders/t1/input-props.json?sig=2''), (''assetGetUrls'', JArr []),
      (''outputPutUrl'', JStr ''https://r2.example.com/renders/t1/still-f300.png?sig=5''), (''outputKey'',
      JStr ''renders/t1/still-f300.png''), (''purgeAfter'', JBool True), (''still'', JObj [(''frame'', JInt
      300), (''format'', JStr ''png'')])]),
    (FromServer, JObj [(''type'', JStr ''jobAssign''), (''tenant'', JStr ''driffs''), (''jobId'', JStr
      ''job-render-still-bad2''), (''attempt'', JInt 1), (''kind'', JStr ''gpu''), (''durationFrames'', JInt
      300), (''fps'', JInt 30), (''codec'', JStr ''h264''), (''bundleSha256'', JStr
      ''9f86d081884c7d659a2feaa0c55ad015a3bf4f1b2b0b822cd15d6c15b0f00a08''), (''bundleGetUrl'', JStr
      ''https://r2.example.com/bundles/9f86.tar.gz?sig=1''), (''payloadSha256'', JStr
      ''aaaaaaaaaaaaaaaaaaaaaaaaaaaaaaaaaaaaaaaaaaaaaaaaaaaaaaaaaaaaaaaa''), (''payloadGetUrl'', JStr
      ''https://r2.example.com/render-payloads/aaaa.tar.gz?sig=payload''), (''inputPropsGetUrl'', JStr
      ''https://r2.example.com/renders/t1/input-props.json?sig=2''), (''assetGetUrls'', JArr []),
      (''outputPutUrl'', JStr ''https://r2.example.com/renders/t1/still-f12.jpeg?sig=5''), (''outputKey'',
      JStr ''renders/t1/still-f12.jpeg''), (''purgeAfter'', JBool True), (''still'', JObj [(''frame'', JInt
      12), (''format'', JStr ''jpeg'')])]),
    (FromServer, JObj [(''type'', JStr ''jobAssign''), (''tenant'', JStr ''driffs''), (''jobId'', JStr
      ''job-video-nocodec''), (''attempt'', JInt 1), (''kind'', JStr ''gpu''), (''durationFrames'', JInt
      300), (''fps'', JInt 30), (''bundleSha256'', JStr
      ''9f86d081884c7d659a2feaa0c55ad015a3bf4f1b2b0b822cd15d6c15b0f00a08''), (''bundleGetUrl'', JStr
      ''https://r2.example.com/bundles/9f86.tar.gz?sig=1''), (''payloadSha256'', JStr
      ''aaaaaaaaaaaaaaaaaaaaaaaaaaaaaaaaaaaaaaaaaaaaaaaaaaaaaaaaaaaaaaaa''), (''payloadGetUrl'', JStr
      ''https://r2.example.com/render-payloads/aaaa.tar.gz?sig=payload''), (''inputPropsGetUrl'', JStr
      ''https://r2.example.com/renders/t1/input-props.json?sig=2''), (''assetGetUrls'', JArr []),
      (''outputPutUrl'', JStr ''https://r2.example.com/renders/t1/out.mp4?sig=4''), (''outputKey'', JStr
      ''renders/t1/out.mp4''), (''purgeAfter'', JBool True)])]"

definition reserialized :: "direction \<Rightarrow> json \<Rightarrow> json option" where
  "reserialized direction wire =
     (case direction of
        FromWorker \<Rightarrow> (case worker_of_json wire of Inl e \<Rightarrow> None | Inr m \<Rightarrow> Some (worker_to_json m))
      | FromServer \<Rightarrow> (case server_of_json wire of Inl e \<Rightarrow> None | Inr m \<Rightarrow> Some (server_to_json m)))"

definition cross_language_fixtures_round_trip :: bool where
  "cross_language_fixtures_round_trip \<longleftrightarrow>
     fixture_cases \<noteq> [] \<and> list_all (\<lambda>(direction, wire). reserialized direction wire = Some wire) fixture_cases"

definition cross_language_fixtures_reject :: bool where
  "cross_language_fixtures_reject \<longleftrightarrow>
     fixture_rejects \<noteq> [] \<and> list_all (\<lambda>(direction, wire). reserialized direction wire = None) fixture_rejects"


end
