(* ===== verification/Tests_Disk.thy ===== *)
theory Tests_Disk
  imports Node_Workdirs Cache
begin

text \<open>
  The unit tests of \<open>crates/supervisor-core/src/sweep.rs\<close>, \<open>cache.rs\<close> and \<open>purge.rs\<close> run on the model: one
  definition per test with its assertions, and a lemma that it passes. What a test builds in a scratch
  directory is the listing or the map of paths the model takes.
\<close>

lemmas parse_eval = parse_uint_def digit_val_def Let_def u32_bound_def u64_bound_def starts_with_def

section \<open>Names of working directories\<close>

definition classifies_supervisor_workdirs :: bool where
  "classifies_supervisor_workdirs \<longleftrightarrow>
     classify_dir_name ''job-abc-123-2000000000000000000-0'' = Supervisor 123
     \<and> classify_dir_name ''job-x-1-2-999-2000000000000000000-7'' = Supervisor 999"

definition rejects_supervisor_names_with_implausible_nanos :: bool where
  "rejects_supervisor_names_with_implausible_nanos \<longleftrightarrow> classify_dir_name ''job-abc-123-0-0'' = Foreign"

definition classifies_runner_mkdtemp_dirs :: bool where
  "classifies_runner_mkdtemp_dirs \<longleftrightarrow>
     classify_dir_name ''job-t-abc123'' = Runner \<and> classify_dir_name ''job-a-b-c-Ab_9zZ'' = Runner
     \<and> classify_dir_name ''job-t-abc'' = Foreign \<and> classify_dir_name ''job-t-abcdefg'' = Foreign"

definition foreign_names_are_ignored :: bool where
  "foreign_names_are_ignored \<longleftrightarrow>
     classify_dir_name ''notjob-abc123'' = Foreign \<and> classify_dir_name ''bundle-dl-abc123'' = Foreign
     \<and> classify_dir_name ''job-'' = Foreign"

lemmas classify_eval = classify_dir_name_def supervisor_fields_def parse_eval runner_suffix_def
  is_ascii_alnum_def MIN_EPOCH_NANOS_def

lemma classify_tests_pass:
  "classifies_supervisor_workdirs" "rejects_supervisor_names_with_implausible_nanos"
  "classifies_runner_mkdtemp_dirs" "foreign_names_are_ignored"
  by (simp_all add: classifies_supervisor_workdirs_def rejects_supervisor_names_with_implausible_nanos_def
      classifies_runner_mkdtemp_dirs_def foreign_names_are_ignored_def classify_eval)

section \<open>The sweep of a scratch directory\<close>

text \<open>A directory made at \<open>t\<close>; \<open>swept\<close>: the names a sweep at \<open>now\<close> removes, all removals succeeding.\<close>

definition made_dir :: "nat \<Rightarrow> fsnode" where
  "made_dir t = DirNode \<lparr>fm_len = 0, fm_blocks = 0, fm_modified = Some t\<rparr> (Some [])"

definition swept :: "nat \<Rightarrow> (nat \<Rightarrow> kill_answer) \<Rightarrow> nat \<Rightarrow> duration \<Rightarrow> string \<Rightarrow> nat \<Rightarrow> string list" where
  "swept me kill0 now stale name t = sweep_dir me kill0 now stale (\<lambda>x. True) (Some [(Some name, made_dir t)])"

text \<open>\<open>Duration::MAX\<close> is any threshold beyond the clock.\<close>

definition runner_dirs_are_age_gated :: bool where
  "runner_dirs_are_age_gated \<longleftrightarrow>
     swept 42 (\<lambda>p. KillOk) 2000 2001 ''job-age-live-abc123'' 1000 = []
     \<and> swept 42 (\<lambda>p. KillOk) 2000 0 ''job-age-live-abc123'' 1000 = [''job-age-live-abc123'']"

definition foreign_dirs_survive_a_zero_threshold_sweep :: bool where
  "foreign_dirs_survive_a_zero_threshold_sweep \<longleftrightarrow>
     swept 42 (\<lambda>p. KillEsrch) 2000 0 ''job-foreign-short-abc'' 1000 = []"

definition supervisor_dirs_follow_owner_liveness :: bool where
  "supervisor_dirs_follow_owner_liveness \<longleftrightarrow>
     swept 42 (\<lambda>p. KillOk) 2000 2001 ''job-liveness-77-2000000000000000000-0'' 1000 = []
     \<and> swept 42 (\<lambda>p. if p = 77 then KillEsrch else KillOk) 2000 2001 ''job-liveness-77-2000000000000000000-0'' 1000
         = [''job-liveness-77-2000000000000000000-0'']"

definition own_workdirs_are_never_swept :: bool where
  "own_workdirs_are_never_swept \<longleftrightarrow>
     swept 42 (\<lambda>p. KillEsrch) 2000 0 ''job-own-42-2000000000000000000-0'' 1000 = []"

lemma newest_made: "newest_mtime (made_dir t) = t"
  by (simp add: newest_mtime_max nodes_below.simps made_dir_def modified_at_def mtime_or_0_def)

lemma sweep_tests_pass:
  "runner_dirs_are_age_gated" "foreign_dirs_survive_a_zero_threshold_sweep"
  "supervisor_dirs_follow_owner_liveness" "own_workdirs_are_never_swept"
  by (simp_all add: runner_dirs_are_age_gated_def foreign_dirs_survive_a_zero_threshold_sweep_def
      supervisor_dirs_follow_owner_liveness_def own_workdirs_are_never_swept_def swept_def sweep_dir_def
      should_remove_def pid_is_dead_def newest_made classify_eval)

text \<open>The chain of directories with a file at the bottom, as deep as one likes.\<close>

fun deep_chain :: "nat \<Rightarrow> nat \<Rightarrow> fsnode" where
  "deep_chain t 0 = DirNode \<lparr>fm_len = 0, fm_blocks = 0, fm_modified = Some 0\<rparr>
     (Some [(''leaf.txt'', FileNode \<lparr>fm_len = 4, fm_blocks = 8, fm_modified = Some t\<rparr>)])"
| "deep_chain t (Suc depth) = DirNode \<lparr>fm_len = 0, fm_blocks = 0, fm_modified = Some 0\<rparr>
     (Some [(''d'', deep_chain t depth)])"

definition newest_mtime_walks_deep_chains_without_recursing :: "nat \<Rightarrow> nat \<Rightarrow> bool" where
  "newest_mtime_walks_deep_chains_without_recursing depth leaf_mtime \<longleftrightarrow>
     leaf_mtime \<le> newest_mtime (deep_chain leaf_mtime depth)"

lemma deep_chain_leaf:
  "FileNode \<lparr>fm_len = 4, fm_blocks = 8, fm_modified = Some t\<rparr> \<in> set (nodes_below (deep_chain t depth))"
  by (induction depth) (simp_all add: nodes_below.simps [of "DirNode m kids" for m kids]
      nodes_below.simps [of "FileNode m" for m])

lemma newest_mtime_walks_deep_chains_without_recursing_passes:
  "newest_mtime_walks_deep_chains_without_recursing depth leaf_mtime"
  unfolding newest_mtime_walks_deep_chains_without_recursing_def
  using newest_mtime_bound [OF deep_chain_leaf [of leaf_mtime depth]]
  by (simp add: modified_at_def mtime_or_0_def)

section \<open>The cache sweep\<close>

text \<open>
  \<open>seed\<close>: a complete entry with \<open>bytes\<close> in its marker and perhaps a last-use marker; a directory and a
  small file take one block of 4096 bytes each. \<open>now\<close> is when it was made.
\<close>

definition file_of :: "nat \<Rightarrow> fsnode" where
  "file_of bytes = FileNode \<lparr>fm_len = bytes, fm_blocks = 8 * ((bytes + 4095) div 4096), fm_modified = Some 0\<rparr>"

definition dir_of :: "nat \<Rightarrow> (string \<times> fsnode) list \<Rightarrow> fsnode" where
  "dir_of now kids = DirNode \<lparr>fm_len = 0, fm_blocks = 8, fm_modified = Some now\<rparr> (Some kids)"

definition now_ns :: nat where "now_ns = secs 1800000000"

definition seed :: "string \<Rightarrow> string \<Rightarrow> nat \<Rightarrow> nat option \<Rightarrow> listed" where
  "seed kind sha bytes last_use = \<lparr>li_name = Some sha,
     li_node = dir_of now_ns ((completion_marker kind, file_of bytes)
       # (case last_use of None \<Rightarrow> [] | Some s \<Rightarrow> [(''.last-use'', file_of 10)])),
     li_has_marker = (\<lambda>m. m = completion_marker kind), li_last_use_text = map_option show_nat last_use\<rparr>"

definition T0 :: nat where "T0 = 1700000000"

definition max_time :: nat where "max_time = secs (2 ^ 62)"

definition size_of :: "listed \<Rightarrow> nat" where "size_of l = dir_size (li_node l)"

text \<open>The payload, browser and bundle roots; what a sweep counts, and the entries it takes.\<close>

definition roots_of :: "listed list \<Rightarrow> listed list \<Rightarrow> listed list \<Rightarrow> string \<Rightarrow> listed list option" where
  "roots_of ps bs us k = (if k = ''payloads'' then Some ps else if k = ''browsers'' then Some bs
                          else if k = ''bundles'' then Some us else None)"

definition sweep_of :: "nat \<Rightarrow> string list \<Rightarrow> bool \<Rightarrow> listed list \<Rightarrow> listed list \<Rightarrow> listed list
    \<Rightarrow> nat \<times> nat \<times> (string \<times> string) list" where
  "sweep_of cap in_flight removable ps bs us =
     (case sweep_caches max_time cap in_flight (\<lambda>e. removable) (roots_of ps bs us) of
        (out, gone) \<Rightarrow> (so_entries out, so_evicted out, map (\<lambda>e. (ce_kind e, ce_sha e)) gone))"

definition dir_size_accounts_real_bytes_not_a_collapsed_proxy :: bool where
  "dir_size_accounts_real_bytes_not_a_collapsed_proxy \<longleftrightarrow>
     (let measured = size_of (seed ''payloads'' ''acct-entry'' 4096 None) in 4096 \<le> measured \<and> measured \<le> 2 * 4096)"

definition over_cap_cache_evicts_when_accounting_is_real :: bool where
  "over_cap_cache_evicts_when_accounting_is_real \<longleftrightarrow>
     (let d = seed ''payloads'' ''acct-entry'' 4096 (Some T0)
      in sweep_of (size_of d - 1) [] True [d] [] [] = (1, 1, [(''payloads'', ''acct-entry'')]))"

definition eviction_loop_terminates_on_unremovable_entries :: bool where
  "eviction_loop_terminates_on_unremovable_entries \<longleftrightarrow>
     sweep_of 1024 [] False [seed ''payloads'' ''u1'' 4096 (Some T0), seed ''payloads'' ''u2'' 4096 (Some (T0 + 1)),
       seed ''payloads'' ''u3'' 4096 (Some (T0 + 2))] [] [] = (3, 0, [])"

definition over_cap_eviction_is_ordered_and_terminates :: bool where
  "over_cap_eviction_is_ordered_and_terminates \<longleftrightarrow>
     (let old = seed ''payloads'' ''old'' 4096 (Some T0); mid = seed ''payloads'' ''mid'' 4096 (Some (T0 + 1));
          new = seed ''payloads'' ''new'' 4096 (Some (T0 + 2))
      in sweep_of (size_of old + size_of mid - 1) [] True [old, mid, new] [] []
           = (3, 2, [(''payloads'', ''old''), (''payloads'', ''mid'')]))"

definition touched_entry_survives_a_sweep_that_evicts_an_untouched_older_one :: bool where
  "touched_entry_survives_a_sweep_that_evicts_an_untouched_older_one \<longleftrightarrow>
     (let x = (seed ''payloads'' ''touched'' 4096 (Some 1000000000))\<lparr>li_last_use_text := touch_last_use (Some 1800000000)\<rparr>;
          older = seed ''payloads'' ''older'' 4096 (Some T0)
      in sweep_of (size_of x) [] True [x, older] [] [] = (2, 1, [(''payloads'', ''older'')]))"

definition complete_entries_are_counted_and_evicted_torn_ones_are_ignored :: bool where
  "complete_entries_are_counted_and_evicted_torn_ones_are_ignored \<longleftrightarrow>
     (let complete = \<lparr>li_name = Some ''complete'',
            li_node = dir_of now_ns [(''decent-render-runner'', file_of 4096), (''.last-use'', file_of 10)],
            li_has_marker = (\<lambda>m. m = ''decent-render-runner''), li_last_use_text = Some (show_nat T0)\<rparr>;
          torn = \<lparr>li_name = Some ''torn'', li_node = dir_of now_ns [(''payload-blob'', file_of 4096)],
            li_has_marker = (\<lambda>m. m = ''payload-blob''), li_last_use_text = None\<rparr>
      in sweep_of 1024 [] True [complete, torn] [] [] = (1, 1, [(''payloads'', ''complete'')]))"

definition under_cap_nothing_evicted :: bool where
  "under_cap_nothing_evicted \<longleftrightarrow>
     sweep_of (1024 * 1024) [] True [seed ''payloads'' ''aaa'' 4096 (Some T0)]
       [seed ''browsers'' ''bbb'' 8192 (Some (T0 + 10))] [] = (2, 0, [])"

definition over_cap_evicts_lru_order_oldest_marker_first :: bool where
  "over_cap_evicts_lru_order_oldest_marker_first \<longleftrightarrow>
     (let mid = seed ''payloads'' ''mid'' 4096 (Some (T0 + 100)); new = seed ''bundles'' ''new'' 4096 (Some (T0 + 200))
      in sweep_of (size_of mid + size_of new) [] True [seed ''payloads'' ''old'' 4096 (Some T0), mid] [] [new]
           = (3, 1, [(''payloads'', ''old'')]))"

definition in_flight_sha_survives_even_when_lru :: bool where
  "in_flight_sha_survives_even_when_lru \<longleftrightarrow>
     (let young = seed ''payloads'' ''young'' 4096 (Some (T0 + 100))
      in sweep_of (size_of young) [''payloads:oldest-but-in-use''] True
           [seed ''payloads'' ''oldest-but-in-use'' 4096 (Some T0), young] [] [] = (2, 1, [(''payloads'', ''young'')]))"

definition marker_less_legacy_entry_evictable_by_mtime :: bool where
  "marker_less_legacy_entry_evictable_by_mtime \<longleftrightarrow>
     (let legacy = seed ''browsers'' ''legacy'' 4096 None; marked_old = seed ''browsers'' ''marked-old'' 4096 (Some T0)
      in sweep_of (size_of legacy) [] True [] [legacy, marked_old] [] = (2, 1, [(''browsers'', ''marked-old'')])
         \<and> sweep_of 0 [] True [] [legacy] [] = (1, 1, [(''browsers'', ''legacy'')]))"

definition partial_download_never_evicted_nor_counted :: bool where
  "partial_download_never_evicted_nor_counted \<longleftrightarrow>
     (let torn = \<lparr>li_name = Some ''.abc-download'', li_node = dir_of now_ns [(''artifact.tar.gz'', file_of 4096)],
            li_has_marker = (\<lambda>m. m = ''artifact.tar.gz''), li_last_use_text = None\<rparr>;
          torn_bundle = \<lparr>li_name = Some ''no-html'', li_node = dir_of now_ns [(''partial.js'', file_of 1)],
            li_has_marker = (\<lambda>m. m = ''partial.js''), li_last_use_text = None\<rparr>
      in sweep_of 0 [] True [torn, seed ''payloads'' ''good'' 4096 (Some T0)] [] [torn_bundle]
           = (1, 1, [(''payloads'', ''good'')]))"

text \<open>What the scan makes of a seeded entry.\<close>

lemma size_tree: "dir_size n = tree_sum block_bytes n"
  by (simp add: dir_size_def block_visit_add walk_add)

lemma size_dir_of: "dir_size (dir_of now kids) = 4096 + sum_list (map (\<lambda>(k, n). dir_size n) kids)"
  by (simp add: size_tree tree_sum.simps [of block_bytes "DirNode m (Some kids)" for m] dir_of_def block_bytes_def
      comp_def case_prod_unfold)

lemma size_file_of: "dir_size (file_of bytes) = 4096 * ((bytes + 4095) div 4096)"
  by (simp add: size_tree tree_sum_leaf file_of_def block_bytes_def)

lemma size_seed:
  "size_of (seed kind sha bytes use) = 4096 + 4096 * ((bytes + 4095) div 4096) + (if use = None then 0 else 4096)"
  by (simp add: size_of_def seed_def size_dir_of size_file_of split: option.split)

lemma entry_time:
  assumes "s \<le> 2 ^ 62"
  shows "entry_last_use max_time (Some (show_nat s)) n = secs s"
  using assms trim_no_ws [of "show_nat s"] parse_show_nat [of s u64_bound]
  by (simp add: entry_last_use_def show_nat_no_ws max_time_def u64_bound_def)

lemma scan_seed:
  assumes "\<not> starts_with sha ''.''"
  shows "scan_entry max_time kind (seed kind sha bytes use) = Some \<lparr>ce_kind = kind, ce_sha = sha,
     ce_bytes = size_of (seed kind sha bytes use),
     ce_last_use = entry_last_use max_time (map_option show_nat use) (li_node (seed kind sha bytes use))\<rparr>"
  using assms by (simp add: scan_entry_def seed_def size_of_def dir_of_def)

lemma no_text_time: "entry_last_use max_time None (li_node (seed kind sha bytes use)) = now_ns"
  by (simp add: entry_last_use_def seed_def dir_of_def modified_at_def mtime_or_0_def)

lemmas sweep_eval = sweep_of_def sweep_caches_def sweep_entries_lru_def scan_caches_def cache_kinds_def
  scan_root_def roots_of_def List.map_filter_def scan_seed size_seed entry_time no_text_time starts_with_def
  total_bytes_def lru_order_def in_flight_key_def T0_def now_ns_def

lemma cache_tests_pass:
  "dir_size_accounts_real_bytes_not_a_collapsed_proxy" "over_cap_cache_evicts_when_accounting_is_real"
  "eviction_loop_terminates_on_unremovable_entries" "over_cap_eviction_is_ordered_and_terminates"
  "under_cap_nothing_evicted" "over_cap_evicts_lru_order_oldest_marker_first"
  "in_flight_sha_survives_even_when_lru" "marker_less_legacy_entry_evictable_by_mtime"
  unfolding dir_size_accounts_real_bytes_not_a_collapsed_proxy_def over_cap_cache_evicts_when_accounting_is_real_def
    eviction_loop_terminates_on_unremovable_entries_def over_cap_eviction_is_ordered_and_terminates_def
    under_cap_nothing_evicted_def over_cap_evicts_lru_order_oldest_marker_first_def
    in_flight_sha_survives_even_when_lru_def marker_less_legacy_entry_evictable_by_mtime_def
  by (simp_all add: sweep_eval)

lemma scan_made:
  "scan_entry max_time kind \<lparr>li_name = Some n, li_node = dir_of now kids, li_has_marker = h, li_last_use_text = t\<rparr>
     = (if starts_with n ''.'' \<or> \<not> h (completion_marker kind) then None
        else Some \<lparr>ce_kind = kind, ce_sha = n, ce_bytes = dir_size (dir_of now kids),
                   ce_last_use = entry_last_use max_time t (dir_of now kids)\<rparr>)"
  by (simp add: scan_entry_def dir_of_def)

lemma torn_tests_pass:
  "complete_entries_are_counted_and_evicted_torn_ones_are_ignored" "partial_download_never_evicted_nor_counted"
  unfolding complete_entries_are_counted_and_evicted_torn_ones_are_ignored_def
    partial_download_never_evicted_nor_counted_def
  by (simp_all add: sweep_eval scan_made completion_marker_def size_dir_of size_file_of)

lemma touched_entry_survives_a_sweep_that_evicts_an_untouched_older_one_passes:
  "touched_entry_survives_a_sweep_that_evicts_an_untouched_older_one"
proof -
  have "scan_entry max_time ''payloads'' ((seed ''payloads'' ''touched'' 4096 (Some u))\<lparr>li_last_use_text := Some (show_nat 1800000000)\<rparr>)
      = scan_entry max_time ''payloads'' (seed ''payloads'' ''touched'' 4096 (Some 1800000000))"
    "size_of ((seed ''payloads'' ''touched'' 4096 (Some u))\<lparr>li_last_use_text := Some (show_nat 1800000000)\<rparr>)
      = size_of (seed ''payloads'' ''touched'' 4096 (Some 1800000000))" for u
    by (simp_all add: scan_entry_def seed_def size_of_def)
  then show ?thesis
    by (simp add: touched_entry_survives_a_sweep_that_evicts_an_untouched_older_one_def touch_last_use_def sweep_eval)
qed

definition cache_cap_parsing_follows_the_parameterized_pattern :: bool where
  "cache_cap_parsing_follows_the_parameterized_pattern \<longleftrightarrow>
     parse_cache_cap_override None = MAX_CACHE_BYTES
     \<and> parse_cache_cap_override (Some ''big'') = MAX_CACHE_BYTES
     \<and> parse_cache_cap_override (Some ''1024'') = MAX_CACHE_BYTES
     \<and> parse_cache_cap_override (Some (show_nat (MIN_CACHE_BYTES - 1))) = MAX_CACHE_BYTES
     \<and> parse_cache_cap_override (Some (show_nat MIN_CACHE_BYTES)) = MIN_CACHE_BYTES
     \<and> parse_cache_cap_override (Some ''53687091200'') = 53687091200"

text \<open>\<open>touch_last_use\<close> at a clock of \<open>now\<close> seconds, read back by the test.\<close>

definition touch_marker_writes_epoch_seconds :: "nat \<Rightarrow> bool" where
  "touch_marker_writes_epoch_seconds now \<longleftrightarrow>
     (case touch_last_use (Some now) of
        None \<Rightarrow> False
      | Some text \<Rightarrow> (case parse_uint u64_bound (trim text) of
                        None \<Rightarrow> False | Some s \<Rightarrow> s \<le> now \<and> now - s < 60))"

definition cache_caps_are_twenty_gib_and_one_gib :: bool where
  "cache_caps_are_twenty_gib_and_one_gib \<longleftrightarrow>
     MAX_CACHE_BYTES = 21474836480 \<and> MIN_CACHE_BYTES = 1073741824"

lemma cap_tests_pass:
  "cache_cap_parsing_follows_the_parameterized_pattern" "cache_caps_are_twenty_gib_and_one_gib"
  using parse_show_nat [of 1073741823 u64_bound] parse_show_nat [of 1073741824 u64_bound]
  by (simp_all add: cache_cap_parsing_follows_the_parameterized_pattern_def
      cache_caps_are_twenty_gib_and_one_gib_def parse_cache_cap_override_def MAX_CACHE_BYTES_def
      MIN_CACHE_BYTES_def parse_eval)

lemma touch_marker_writes_epoch_seconds_passes:
  "0 < now \<Longrightarrow> now < u64_bound \<Longrightarrow> touch_marker_writes_epoch_seconds now"
  using trim_no_ws [of "show_nat now"] parse_show_nat [of now u64_bound] show_nat_no_ws
  by (simp add: touch_marker_writes_epoch_seconds_def touch_last_use_def Let_def)

section \<open>The purge of working directories\<close>

text \<open>
  A fresh temp dir, a clock and a counter; the guard is dropped where the test drops it. A panic drops
  it like any other end.
\<close>

definition new_dir :: "string \<Rightarrow> u64 \<Rightarrow> dirs \<Rightarrow> (io_error + path) \<times> u64 \<times> dirs" where
  "new_dir pfx c fs = workdir_new (\<lambda>p. None) [''tmp''] pfx 42 (\<lambda>i. 1700000000000000000) c fs"

definition creates_and_purges_recursively :: bool where
  "creates_and_purges_recursively \<longleftrightarrow>
     (case new_dir ''job-test'' 0 Map.empty of
        (Inr p, c, fs) \<Rightarrow> fs p \<noteq> None
          \<and> (let fs' = fs(p @ [''frames''] \<mapsto> 493, p @ [''frames'', ''deep''] \<mapsto> 493,
                          p @ [''frames'', ''deep'', ''out.mp4''] \<mapsto> 420);
                 left = snd (workdir_drop (\<lambda>n. Removed) p [] fs')
             in left p = None \<and> left (p @ [''frames'', ''deep'', ''out.mp4'']) = None)
      | _ \<Rightarrow> False)"

definition purges_on_panic_unwind :: bool where
  "purges_on_panic_unwind \<longleftrightarrow>
     (case new_dir ''job-panic'' 0 Map.empty of
        (Inr p, c, fs) \<Rightarrow> snd (workdir_drop (\<lambda>n. Removed) p [] (fs(p @ [''secret.json''] \<mapsto> 420))) p = None
      | _ \<Rightarrow> False)"

definition two_workdirs_are_distinct :: bool where
  "two_workdirs_are_distinct \<longleftrightarrow>
     (case new_dir ''job-x'' 0 Map.empty of
        (Inr a, c, fs) \<Rightarrow> (case new_dir ''job-x'' c fs of (Inr b, c', fs') \<Rightarrow> a \<noteq> b | _ \<Rightarrow> False)
      | _ \<Rightarrow> False)"

definition failed_purge_is_retried_and_recorded_operator_visibly :: bool where
  "failed_purge_is_retried_and_recorded_operator_visibly \<longleftrightarrow>
     (let blocked = [''tmp'', ''p37'', ''child'']
      in case fst (remove_dir_all_with_retry (\<lambda>n. RmError ''EACCES'')) of
           None \<Rightarrow> False
         | Some e \<Rightarrow> list_ex (\<lambda>f. pf_path f = blocked) (outstanding_purge_failures (record_purge_failure
             \<lparr>pf_path = blocked, pf_error = e, pf_attempts = of_nat PURGE_ATTEMPTS\<rparr> [])))"

definition removing_a_nonexistent_path_is_success_not_a_failure :: bool where
  "removing_a_nonexistent_path_is_success_not_a_failure \<longleftrightarrow>
     fst (remove_dir_all_with_retry (\<lambda>n. RmNotFound)) = None"

definition recording_two_distinct_paths_keeps_both_failures :: bool where
  "recording_two_distinct_paths_keeps_both_failures \<longleftrightarrow>
     (let a = [''tmp'', ''p65-purge-a'']; b = [''tmp'', ''p65-purge-b''];
          l1 = record_purge_failure \<lparr>pf_path = a, pf_error = ''first workdir'', pf_attempts = of_nat PURGE_ATTEMPTS\<rparr> [];
          l2 = record_purge_failure \<lparr>pf_path = b, pf_error = ''second workdir'', pf_attempts = of_nat PURGE_ATTEMPTS\<rparr> l1
      in list_ex (\<lambda>f. pf_path f = a) (outstanding_purge_failures l2)
         \<and> list_ex (\<lambda>f. pf_path f = b) (outstanding_purge_failures l2))"

definition recorded_purge_failure_is_cleared_when_reclaimed :: bool where
  "recorded_purge_failure_is_cleared_when_reclaimed \<longleftrightarrow>
     (let p = [''tmp'', ''p65-purge-clear''];
          l = record_purge_failure \<lparr>pf_path = p, pf_error = ''EBUSY (stale record)'', pf_attempts = of_nat PURGE_ATTEMPTS\<rparr> []
      in list_ex (\<lambda>f. pf_path f = p) (outstanding_purge_failures l)
         \<and> \<not> list_ex (\<lambda>f. pf_path f = p) (outstanding_purge_failures (clear_purge_failure p l)))"

definition a_job_workdir_is_owner_only :: bool where
  "a_job_workdir_is_owner_only \<longleftrightarrow>
     (case new_dir ''p74-mode'' 0 Map.empty of (Inr p, c, fs) \<Rightarrow> fs p = Some 448 | _ \<Rightarrow> False)"

text \<open>A directory, a file and a link that are there refuse alike, and nothing is changed.\<close>

definition a_planted_entry_is_never_adopted :: bool where
  "a_planted_entry_is_never_adopted \<longleftrightarrow>
     (let fs = [[''tmp'', ''base''] \<mapsto> 493, [''tmp'', ''base'', ''file''] \<mapsto> 420]
      in create_private_dir (\<lambda>p. None) [''tmp'', ''base''] fs = MkExists
         \<and> create_private_dir (\<lambda>p. None) [''tmp'', ''base'', ''file''] fs = MkExists)"

definition a_planted_symlink_is_never_followed :: bool where
  "a_planted_symlink_is_never_followed \<longleftrightarrow>
     create_private_dir (\<lambda>p. None) [''tmp'', ''base'', ''link'']
       [[''tmp'', ''base'', ''victim''] \<mapsto> 493, [''tmp'', ''base'', ''link''] \<mapsto> 511] = MkExists"

definition workdirs_still_come_out_distinct_and_are_purged_on_drop :: bool where
  "workdirs_still_come_out_distinct_and_are_purged_on_drop \<longleftrightarrow>
     (case new_dir ''p74-distinct'' 0 Map.empty of
        (Inr a, c, fs) \<Rightarrow>
          (case new_dir ''p74-distinct'' c fs of
             (Inr b, c', fs') \<Rightarrow> a \<noteq> b \<and> snd (workdir_drop (\<lambda>n. Removed) a [] fs') a = None
           | _ \<Rightarrow> False)
      | _ \<Rightarrow> False)"

lemma new_dir_first: "new_dir pfx 0 Map.empty
    = (Inr ([''tmp''] @ [workdir_name pfx 42 1700000000000000000 0]), 1,
       [[''tmp''] @ [workdir_name pfx 42 1700000000000000000 0] \<mapsto> private_mode])"
  by (simp add: new_dir_def workdir_new_def upt_rec create_private_dir_def Let_def)

lemma new_dir_second: "new_dir pfx 1 [[''tmp''] @ [workdir_name pfx 42 1700000000000000000 0] \<mapsto> private_mode]
    = (Inr ([''tmp''] @ [workdir_name pfx 42 1700000000000000000 1]), 2,
       [[''tmp''] @ [workdir_name pfx 42 1700000000000000000 0] \<mapsto> private_mode,
        [''tmp''] @ [workdir_name pfx 42 1700000000000000000 1] \<mapsto> private_mode])"
  by (simp add: new_dir_def workdir_new_def upt_rec create_private_dir_def Let_def workdir_name_def show_nat.simps
      digit_char_def)

lemma names_differ: "workdir_name pfx 42 1700000000000000000 0 \<noteq> workdir_name pfx 42 1700000000000000000 (Suc 0)"
  by (simp add: workdir_name_def show_nat.simps digit_char_def)

lemma purge_tests_pass:
  "creates_and_purges_recursively" "purges_on_panic_unwind" "two_workdirs_are_distinct"
  "failed_purge_is_retried_and_recorded_operator_visibly" "removing_a_nonexistent_path_is_success_not_a_failure"
  "recording_two_distinct_paths_keeps_both_failures" "recorded_purge_failure_is_cleared_when_reclaimed"
  "a_job_workdir_is_owner_only" "a_planted_entry_is_never_adopted" "a_planted_symlink_is_never_followed"
  "workdirs_still_come_out_distinct_and_are_purged_on_drop"
  using new_dir_second names_differ
  by (simp_all add: creates_and_purges_recursively_def purges_on_panic_unwind_def two_workdirs_are_distinct_def
      failed_purge_is_retried_and_recorded_operator_visibly_def removing_a_nonexistent_path_is_success_not_a_failure_def
      recording_two_distinct_paths_keeps_both_failures_def recorded_purge_failure_is_cleared_when_reclaimed_def
      a_job_workdir_is_owner_only_def a_planted_entry_is_never_adopted_def a_planted_symlink_is_never_followed_def
      workdirs_still_come_out_distinct_and_are_purged_on_drop_def new_dir_first Let_def workdir_drop_def remove_unfold
      remove_tree_def under_def record_purge_failure_def clear_purge_failure_def outstanding_purge_failures_def
      MAX_RECORDED_PURGE_FAILURES_def create_private_dir_def private_mode_def)

end
