(* ===== verification/Tests_Cli.thy ===== *)
theory Tests_Cli
  imports Cli
begin

text \<open>
  The unit tests in \<open>bins/decent/src/main.rs\<close> run on the model: one definition per test with its
  assertions, and a lemma that it passes. Where a test looks for words in a message, the definition asks
  for the constructor the words belong to.
\<close>

section \<open>The log file and its tail\<close>

definition log_check_levels :: bool where
  "log_check_levels \<longleftrightarrow>
     ck_level (log_check_from False 0 0) = LevelWarn
     \<and> ck_level (log_check_from True 420 10) = LevelWarn
     \<and> ck_detail (log_check_from True 420 10) = LogMode 420
     \<and> ck_level (log_check_from True 384 4096) = LevelOk
     \<and> ck_detail (log_check_from True 384 4096) = LogKib 4"

definition ensure_private_log_file_creates_0600_and_tightens_an_existing_0644 :: bool where
  "ensure_private_log_file_creates_0600_and_tightens_an_existing_0644 \<longleftrightarrow>
     (let p = ''/tmp/decent.log'';
          created = ensure_private_log_file sample_token_env p Map.empty;
          loose = (snd created)(p \<mapsto> (''kept'', 420));
          tightened = ensure_private_log_file sample_token_env p loose
      in fst created = Inr () \<and> map_option snd (snd created p) = Some 384
         \<and> fst tightened = Inr () \<and> snd tightened p = Some (''kept'', 384))"

definition last_n_in_order_fewer_than_n_all_zero_none :: bool where
  "last_n_in_order_fewer_than_n_all_zero_none \<longleftrightarrow>
     (let txt = [CHR ''a'', CHR 0x0A, CHR ''b'', CHR 0x0A, CHR ''c'', CHR 0x0A, CHR ''d'', CHR 0x0A]
      in tail_lines txt 2 = [''c'', ''d''] \<and> tail_lines txt 10 = [''a'', ''b'', ''c'', ''d'']
         \<and> tail_lines txt 0 = [] \<and> tail_lines [] 3 = [])"

lemma log_tests_pass:
  "log_check_levels" "ensure_private_log_file_creates_0600_and_tightens_an_existing_0644"
  "last_n_in_order_fewer_than_n_all_zero_none"
  by (simp_all add: log_check_levels_def log_check_from_def
      ensure_private_log_file_creates_0600_and_tightens_an_existing_0644_def ensure_private_log_file_def
      sample_token_env_def set_owner_only_def last_n_in_order_fewer_than_n_all_zero_none_def tail_lines_def
      lines_of_def strip_cr_def Let_def)

section \<open>The update line and the daemon's binary\<close>

definition registered_node_without_a_newer_release_is_up_to_date :: bool where
  "registered_node_without_a_newer_release_is_up_to_date \<longleftrightarrow> update_line None ''Registered'' = UpToDate"

definition newer_release_wins_regardless_of_state :: bool where
  "newer_release_wins_regardless_of_state \<longleftrightarrow>
     update_line (Some ''0.0.10'') ''Registered'' = UpAvailable ''0.0.10''
     \<and> update_line (Some ''0.0.10'') ''Disconnected'' = UpAvailable ''0.0.10''"

definition states_before_the_register_reply_are_unknown_not_up_to_date :: bool where
  "states_before_the_register_reply_are_unknown_not_up_to_date \<longleftrightarrow>
     list_all (\<lambda>st. update_line None st = UpNotRegistered)
       [''Connected'', ''Connecting'', ''Reconnecting'', ''Disconnected'', ''connected'']"

definition pre_0_0_11_daemon_is_stale_once_installed_reports_versions :: bool where
  "pre_0_0_11_daemon_is_stale_once_installed_reports_versions \<longleftrightarrow>
     daemon_binary_state ''0.0.12'' None (Some ''0.0.11'') = BinaryStale None
     \<and> daemon_binary_state ''0.0.12'' None None = BinaryStale None
     \<and> daemon_binary_state ''0.0.10'' None None = BinaryUnknown"

definition daemon_binary_state_reads_the_version_line_when_present :: bool where
  "daemon_binary_state_reads_the_version_line_when_present \<longleftrightarrow>
     daemon_binary_state ''0.0.11'' (Some ''0.0.11'') None = BinaryCurrent
     \<and> daemon_binary_state ''0.0.11'' (Some ''0.0.10'') None = BinaryStale (Some ''0.0.10'')
     \<and> daemon_binary_state ''0.0.11'' (Some ''0.0.11'') (Some ''0.0.11'') = BinaryCurrent"

definition daemon_binary_state_infers_staleness_for_a_pre_0_0_11_daemon :: bool where
  "daemon_binary_state_infers_staleness_for_a_pre_0_0_11_daemon \<longleftrightarrow>
     daemon_binary_state ''0.0.10'' None (Some ''0.0.10'') = BinaryStale None
     \<and> daemon_binary_state ''0.0.9'' None (Some ''0.0.10'') = BinaryUnknown
     \<and> daemon_binary_state ''0.0.9'' None None = BinaryUnknown"

definition status_update_line_turns_a_stale_daemon_into_a_restart_instruction :: bool where
  "status_update_line_turns_a_stale_daemon_into_a_restart_instruction \<longleftrightarrow>
     status_update_line (Some ''0.0.10'') ''Registered'' ''0.0.10'' None = StaleDaemon ''0.0.10'' None
     \<and> status_update_line None ''Registered'' ''0.0.11'' (Some ''0.0.10'') = StaleDaemon ''0.0.11'' (Some ''0.0.10'')
     \<and> status_update_line None ''Registered'' ''0.0.11'' (Some ''0.0.11'') = UpToDate
     \<and> status_update_line (Some ''0.0.12'') ''Registered'' ''0.0.11'' (Some ''0.0.11'') = UpAvailable ''0.0.12''"

lemmas num_eval = parse_uint_def digit_val_def u32_bound_def u64_bound_def starts_with_def
  trim_start_matches.simps Let_def

lemmas binary_eval = daemon_binary_state_def reports_version_def less_eq_version_def less_version_def num_eval

lemma update_tests_pass:
  "registered_node_without_a_newer_release_is_up_to_date" "newer_release_wins_regardless_of_state"
  "states_before_the_register_reply_are_unknown_not_up_to_date"
  "pre_0_0_11_daemon_is_stale_once_installed_reports_versions"
  "daemon_binary_state_reads_the_version_line_when_present"
  "daemon_binary_state_infers_staleness_for_a_pre_0_0_11_daemon"
  "status_update_line_turns_a_stale_daemon_into_a_restart_instruction"
  unfolding registered_node_without_a_newer_release_is_up_to_date_def newer_release_wins_regardless_of_state_def
    states_before_the_register_reply_are_unknown_not_up_to_date_def
    pre_0_0_11_daemon_is_stale_once_installed_reports_versions_def
    daemon_binary_state_reads_the_version_line_when_present_def
    daemon_binary_state_infers_staleness_for_a_pre_0_0_11_daemon_def
    status_update_line_turns_a_stale_daemon_into_a_restart_instruction_def
  by (simp_all add: update_line_def status_update_line_def binary_eval)

section \<open>The doctor\<close>

text \<open>The detail of a rendered check is the text \<open>show_detail\<close> makes of it.\<close>

definition check_of :: "level \<Rightarrow> string \<Rightarrow> check" where "check_of l n = mk n l (Reports n)"

definition render_check_formats_each_level :: bool where
  "render_check_formats_each_level \<longleftrightarrow>
     (let show_detail = (\<lambda>d. case d of Reports n \<Rightarrow> n @ '' detail'' | _ \<Rightarrow> [])
      in render_check show_detail (check_of LevelOk ''token'') = ''OK  token: token detail''
         \<and> render_check show_detail (check_of LevelWarn ''disk'') = ''WARN disk: disk detail''
         \<and> render_check show_detail (check_of LevelFail ''dispatch'') = ''FAIL dispatch: dispatch detail'')"

definition exit_code_is_zero_with_only_ok_and_warn :: bool where
  "exit_code_is_zero_with_only_ok_and_warn \<longleftrightarrow>
     exit_code [] = 0 \<and> exit_code [check_of LevelOk ''a''] = 0 \<and> exit_code [check_of LevelWarn ''a''] = 0
     \<and> exit_code [check_of LevelOk ''a'', check_of LevelWarn ''b''] = 0"

definition exit_code_is_one_with_any_fail :: bool where
  "exit_code_is_one_with_any_fail \<longleftrightarrow>
     exit_code [check_of LevelFail ''a''] = 1
     \<and> exit_code [check_of LevelOk ''a'', check_of LevelFail ''b''] = 1"

definition test_now :: nat where "test_now = 1800000000"

definition token_check_fails_on_a_loose_file_mode :: bool where
  "token_check_fails_on_a_loose_file_mode \<longleftrightarrow>
     (let c = token_check_from 420 448 (Some (test_now + 30 * SECS_PER_DAY)) test_now
      in ck_level c = LevelFail \<and> ck_detail c = FileMode 420)"

definition token_expiry_levels :: bool where
  "token_expiry_levels \<longleftrightarrow>
     (let expired = token_check_from 384 448 (Some (test_now - 1)) test_now
      in ck_level expired = LevelFail \<and> (\<exists>d. ck_detail expired = ExpiredDaysAgo d))
     \<and> ck_level (token_check_from 384 448 (Some (test_now + 3 * SECS_PER_DAY)) test_now) = LevelWarn
     \<and> ck_level (token_check_from 384 448 (Some (test_now + 30 * SECS_PER_DAY)) test_now) = LevelOk"

definition missing_exp_claim_fails :: bool where
  "missing_exp_claim_fails \<longleftrightarrow>
     (let c = token_check_from 384 448 None test_now in ck_level c = LevelFail \<and> ck_detail c = ExpMissing)"

definition disk_thresholds_at_the_boundaries :: bool where
  "disk_thresholds_at_the_boundaries \<longleftrightarrow>
     ck_level (disk_check_from (5 * GIB - 1)) = LevelFail \<and> ck_level (disk_check_from (5 * GIB)) = LevelWarn
     \<and> ck_level (disk_check_from (20 * GIB - 1)) = LevelWarn \<and> ck_level (disk_check_from (20 * GIB)) = LevelOk"

definition version_check_warns_on_an_available_upgrade :: bool where
  "version_check_warns_on_an_available_upgrade \<longleftrightarrow>
     (let w = version_check_from ''0.0.9'' (Some ''0.1.0'') None
      in ck_level w = LevelWarn \<and> ck_detail w = NewerAvailable ''0.0.9'' ''0.1.0'')
     \<and> ck_level (version_check_from ''0.0.9'' None None) = LevelOk
     \<and> ck_level (version_check_from ''0.0.10'' None (Some ''0.0.10'')) = LevelOk"

definition version_check_names_a_stale_daemon_instead_of_echoing_the_update :: bool where
  "version_check_names_a_stale_daemon_instead_of_echoing_the_update \<longleftrightarrow>
     (let w = version_check_from ''0.0.10'' (Some ''0.0.10'') None
      in ck_level w = LevelWarn \<and> ck_detail w = StaleBinary ''0.0.10'' None)
     \<and> (let w = version_check_from ''0.0.11'' None (Some ''0.0.10'')
        in ck_level w = LevelWarn \<and> ck_detail w = StaleBinary ''0.0.11'' (Some ''0.0.10''))"

lemmas doctor_eval = render_check_formats_each_level_def exit_code_is_zero_with_only_ok_and_warn_def
  exit_code_is_one_with_any_fail_def token_check_fails_on_a_loose_file_mode_def token_expiry_levels_def
  missing_exp_claim_fails_def disk_thresholds_at_the_boundaries_def check_of_def render_check_def exit_code_def
  test_now_def token_check_from_def SECS_PER_DAY_def TOKEN_WARN_DAYS_def disk_check_from_def GIB_def

lemma doctor_tests_pass:
  "render_check_formats_each_level" "exit_code_is_zero_with_only_ok_and_warn" "exit_code_is_one_with_any_fail"
  "token_check_fails_on_a_loose_file_mode" "token_expiry_levels" "missing_exp_claim_fails"
  "disk_thresholds_at_the_boundaries"
  by (simp_all add: doctor_eval Let_def)

lemma version_tests_pass:
  "version_check_warns_on_an_available_upgrade"
  "version_check_names_a_stale_daemon_instead_of_echoing_the_update"
  unfolding version_check_warns_on_an_available_upgrade_def
    version_check_names_a_stale_daemon_instead_of_echoing_the_update_def version_check_from_def
  by (simp_all add: binary_eval)

section \<open>Versions and the outcome of an upgrade\<close>

definition parse_version_word_reads_the_cli_banner_and_supervisor_shapes :: bool where
  "parse_version_word_reads_the_cli_banner_and_supervisor_shapes \<longleftrightarrow>
     parse_version_word (''decent 0.0.10'' @ [CHR 0x0A]) = Some ''0.0.10''
     \<and> parse_version_word ''rust-0.0.9'' = Some ''0.0.9'' \<and> parse_version_word ''v1.2.34'' = Some ''1.2.34''
     \<and> parse_version_word ''decent dev'' = None \<and> parse_version_word ''0.0'' = None
     \<and> parse_version_word [] = None
     \<and> version_triplet ''rust-10.20.30'' = Some (Version 10 20 30) \<and> version_triplet ''0.0.12garbage'' = None"

definition parse_formula_version_reads_the_tap_formula :: bool where
  "parse_formula_version_reads_the_tap_formula \<longleftrightarrow>
     (let nl = [CHR 0x0A]; q = (\<lambda>v. ''  version '' @ CHR 0x22 # v @ [CHR 0x22, CHR 0x0A])
      in parse_formula_version (''class Decent < Formula'' @ nl @ ''  desc '' @ [CHR 0x22, CHR ''x'', CHR 0x22]
             @ nl @ q ''0.0.10'' @ ''  on_macos do'' @ nl) = Some ''0.0.10''
         \<and> parse_formula_version (''class Decent < Formula'' @ nl) = None
         \<and> parse_formula_version (q ''garbage'') = None)"

definition a_changed_binary_is_an_upgrade_and_restarts :: bool where
  "a_changed_binary_is_an_upgrade_and_restarts \<longleftrightarrow>
     upgrade_outcome_of ''0.0.9'' (Some ''0.0.10'') (Some ''0.0.10'') = Inr (Upgraded ''0.0.9'' ''0.0.10'')"

definition an_unchanged_binary_with_a_newer_channel_is_an_error_never_success :: bool where
  "an_unchanged_binary_with_a_newer_channel_is_an_error_never_success \<longleftrightarrow>
     upgrade_outcome_of ''0.0.9'' (Some ''0.0.9'') (Some ''0.0.10'') = Inl ''channel offers a newer version''"

definition an_unchanged_binary_that_matches_the_channel_is_already_current :: bool where
  "an_unchanged_binary_that_matches_the_channel_is_already_current \<longleftrightarrow>
     upgrade_outcome_of ''0.0.10'' (Some ''0.0.10'') (Some ''0.0.10'') = Inr (AlreadyCurrent ''0.0.10'')"

definition unknown_after_and_unknown_channel_is_already_current_not_upgraded :: bool where
  "unknown_after_and_unknown_channel_is_already_current_not_upgraded \<longleftrightarrow>
     upgrade_outcome_of ''0.0.9'' None None = Inr (AlreadyCurrent ''0.0.9'')"

definition unknown_after_with_a_newer_channel_is_an_error :: bool where
  "unknown_after_with_a_newer_channel_is_an_error \<longleftrightarrow>
     isl (upgrade_outcome_of ''0.0.9'' None (Some ''0.0.10''))"

lemma test_words:
  "parse_version_word (''decent 0.0.10'' @ [CHR 0x0A]) = Some ''0.0.10''"
  "parse_version_word ''rust-0.0.9'' = Some ''0.0.9''" "parse_version_word ''v1.2.34'' = Some ''1.2.34''"
  "parse_version_word ''decent dev'' = None" "parse_version_word ''0.0'' = None" "parse_version_word [] = None"
  "parse_version_word ''rust-10.20.30'' = Some ''10.20.30''" "parse_version_word ''0.0.12garbage'' = None"
  by code_simp+

lemma parse_version_test_passes: "parse_version_word_reads_the_cli_banner_and_supervisor_shapes"
  unfolding parse_version_word_reads_the_cli_banner_and_supervisor_shapes_def version_triplet_def
  by (simp only: test_words option.case) (simp add: num_eval)

lemma parse_formula_test_passes: "parse_formula_version_reads_the_tap_formula"
  by code_simp

lemma upgrade_tests_pass:
  "a_changed_binary_is_an_upgrade_and_restarts"
  "an_unchanged_binary_with_a_newer_channel_is_an_error_never_success"
  "an_unchanged_binary_that_matches_the_channel_is_already_current"
  "unknown_after_and_unknown_channel_is_already_current_not_upgraded"
  "unknown_after_with_a_newer_channel_is_an_error"
  unfolding a_changed_binary_is_an_upgrade_and_restarts_def
    an_unchanged_binary_with_a_newer_channel_is_an_error_never_success_def
    an_unchanged_binary_that_matches_the_channel_is_already_current_def
    unknown_after_and_unknown_channel_is_already_current_not_upgraded_def
    unknown_after_with_a_newer_channel_is_an_error_def
  by (simp_all add: upgrade_outcome_of_def)

section \<open>The status snapshot\<close>

definition idle_sleep_line_says_held_only_for_a_held_guard :: bool where
  "idle_sleep_line_says_held_only_for_a_held_guard \<longleftrightarrow>
     idle_sleep_label (Some Held) = ''held''
     \<and> idle_sleep_label (Some FailedToAcquire) = ''failed to acquire''
     \<and> idle_sleep_label (Some Unavailable) = ''not available on this platform''
     \<and> idle_sleep_label None = ''not held''
     \<and> list_all (\<lambda>s. idle_sleep_label s \<noteq> ''held'') [Some FailedToAcquire, Some Unavailable, None]"

definition snapshot_aged :: "nat \<Rightarrow> nat \<Rightarrow> daemon_snapshot" where
  "snapshot_aged now age =
     \<lparr>ds_connection = [], ds_current_job = None, ds_keep_awake = None, ds_jobs_completed = 0,
      ds_jobs_failed = 0, ds_jobs_canceled = 0, ds_auto_upgrade_enabled = False,
      ds_update_available = None, ds_supervisor_version = None, ds_updated_at_ms = now - age\<rparr>"

text \<open>The test reads the clock; here it stands at \<open>test_now\<close> seconds.\<close>

definition freshness_boundary_is_inclusive_at_the_window_edge :: bool where
  "freshness_boundary_is_inclusive_at_the_window_edge \<longleftrightarrow>
     (let now = test_now * 1000
      in is_fresh_at now (snapshot_aged now 0)
         \<and> is_fresh_at now (snapshot_aged now (FRESH_WINDOW_MS - 1))
         \<and> is_fresh_at now (snapshot_aged now FRESH_WINDOW_MS)
         \<and> \<not> is_fresh_at now (snapshot_aged now (FRESH_WINDOW_MS + 1)))"

definition full_snapshot :: "(string \<times> string) list" where
  "full_snapshot =
     [(''connection'', ''Registered''), (''dispatch_url'', ''ws://dispatch.example.com/ws''),
      (''current_job_id'', ''job-p3-proof''), (''current_job_phase'', ''Rendering''),
      (''current_job_progress'', ''0.42''), (''keep_awake'', []), (''jobs_completed'', ''3''),
      (''jobs_failed'', ''1''), (''jobs_canceled'', ''2''), (''allow_real_jobs'', ''true''),
      (''auto_upgrade_enabled'', ''true''), (''update_available'', []),
      (''updated_at_ms'', ''1800000000000'')]"

definition snapshot_file :: "(string \<times> string) list \<Rightarrow> string option" where
  "snapshot_file kvs = Some (concat (map kv_line kvs))"

definition torn_snapshot_parses_to_none_never_a_partial_struct :: bool where
  "torn_snapshot_parses_to_none_never_a_partial_struct \<longleftrightarrow>
     (let full = concat (map kv_line full_snapshot)
      in read_snapshot (\<lambda>t. None) (Some (take (length full div 2) full)) = None
         \<and> read_snapshot (\<lambda>t. None)
             (Some (kv_line (''connection'', ''Registered'') @ ''updated_at_ms='')) = None)"

definition full_snapshot_round_trips :: bool where
  "full_snapshot_round_trips \<longleftrightarrow>
     (case read_snapshot (\<lambda>t. if t = ''0.42'' then Some (21 / 50) else None)
             (snapshot_file full_snapshot) of
        None \<Rightarrow> False
      | Some s \<Rightarrow>
          ds_connection s = ''Registered'' \<and> ds_jobs_completed s = 3 \<and> ds_jobs_failed s = 1
          \<and> ds_jobs_canceled s = 2 \<and> ds_auto_upgrade_enabled s
          \<and> ds_current_job s = Some (''job-p3-proof'', ''Rendering'', (21 / 50))
          \<and> ds_update_available s = None)"

definition snapshot_reader_takes_the_version_line_and_tolerates_its_absence :: bool where
  "snapshot_reader_takes_the_version_line_and_tolerates_its_absence \<longleftrightarrow>
     (let version = (\<lambda>kvs. map_option ds_supervisor_version
             (read_snapshot (\<lambda>t. None)
                (snapshot_file ((''connection'', ''Registered'') # kvs @ [(''updated_at_ms'', ''5'')]))))
      in version [(''supervisor_version'', ''0.0.11'')] = Some (Some ''0.0.11'')
         \<and> version [] = Some None \<and> version [(''supervisor_version'', [])] = Some None)"

lemma label_tests_pass:
  "idle_sleep_line_says_held_only_for_a_held_guard" "freshness_boundary_is_inclusive_at_the_window_edge"
  unfolding idle_sleep_line_says_held_only_for_a_held_guard_def
    freshness_boundary_is_inclusive_at_the_window_edge_def
  by (simp_all add: idle_sleep_label_def is_fresh_at_def snapshot_aged_def FRESH_WINDOW_MS_def test_now_def)

lemmas snapshot_eval = read_snapshot_def snapshot_file_def full_snapshot_def kv_map_def split_kv_def
  List.map_filter_def lines_of_def strip_cr_def unwrap_str_def unwrap_nat_def nonempty_def from_token_def
  parse_bool_def

lemma torn_snapshot_test_passes: "torn_snapshot_parses_to_none_never_a_partial_struct"
  unfolding torn_snapshot_parses_to_none_never_a_partial_struct_def
  by (simp add: snapshot_eval num_eval)

lemma full_snapshot_test_passes: "full_snapshot_round_trips"
  unfolding full_snapshot_round_trips_def
  by (simp add: snapshot_eval num_eval)

lemma snapshot_reader_test_passes: "snapshot_reader_takes_the_version_line_and_tolerates_its_absence"
  unfolding snapshot_reader_takes_the_version_line_and_tolerates_its_absence_def
  by (simp add: snapshot_eval num_eval)

end
