(* ===== verification/Tests_Node.thy ===== *)
theory Tests_Node
  imports Upgrade Status Keepawake
begin

text \<open>
  The unit tests of \<open>bins/decent/src/auto_upgrade.rs\<close>, \<open>crates/supervisor-core/src/status.rs\<close> and
  \<open>keepawake.rs\<close> run on the model: one definition per test with its assertions, and a lemma that it
  passes. The file system answers every write; the process is number 7.
\<close>

section \<open>The attempt ledger and \<open>apply\<close>\<close>

definition writes_ok :: write_env where
  "writes_ok = \<lparr>we_mkdir = True, we_write = True, we_chmod_tmp = True, we_rename = True, we_chmod = True,
     we_unlink = True, we_umask = 420\<rparr>"

definition no_config :: config_files where "no_config = Map.empty"

definition apply_test :: "string \<Rightarrow> u64 \<Rightarrow> (string + upgrade_outcome)
    \<Rightarrow> (string + disposition) \<times> config_files option \<times> config_files" where
  "apply_test target ms verdict =
     apply_upgrade 7 writes_ok writes_ok target ''0.0.11'' ms (\<lambda>fs. verdict) no_config"

definition apply_success_records_upgrade_and_requests_restart :: bool where
  "apply_success_records_upgrade_and_requests_restart \<longleftrightarrow>
     (case apply_test ''rust-0.0.12'' 42 (Inr (Upgraded ''0.0.11'' ''0.0.12'')) of
        (result, started, dir) \<Rightarrow>
          result = Inr (Restart ''0.0.11'' ''0.0.12'' None)
          \<and> map_option at_outcome (read_attempt dir) = Some AtUpgraded
          \<and> map_option at_ms (read_attempt dir) = Some 42)"

definition apply_failure_records_fuse_and_reconnects :: bool where
  "apply_failure_records_fuse_and_reconnects \<longleftrightarrow>
     (case apply_test ''0.0.12'' 43 (Inl ''fake channel unavailable'') of
        (result, started, dir) \<Rightarrow>
          (\<exists>e. result = Inr (ReconnectAfter AtFailed e))
          \<and> map_option at_outcome (read_attempt dir) = Some AtFailed
          \<and> map_option (\<lambda>r. sublist ''fake channel unavailable'' (at_detail r)) (read_attempt dir) = Some True)"

definition malformed_or_non_newer_target_never_calls_install_channel :: bool where
  "malformed_or_non_newer_target_never_calls_install_channel \<longleftrightarrow>
     list_all (\<lambda>(target, expected).
         case apply_test target 44 (Inl ''install channel must not run'') of
           (result, started, dir) \<Rightarrow>
             started = None \<and> (case result of Inr (ReconnectAfter o1 d) \<Rightarrow> o1 = expected | _ \<Rightarrow> False)
             \<and> map_option at_outcome (read_attempt dir) = Some expected)
       [(''dev'', AtRejected), (''rust-0.0.11'', AtAlreadyCurrent), (''0.0.10'', AtAlreadyCurrent)]"

definition opt_in_defaults_off_and_round_trips :: bool where
  "opt_in_defaults_off_and_round_trips \<longleftrightarrow>
     (let on = set_enabled 7 writes_ok True True no_config;
          off = set_enabled 7 writes_ok True False (snd on)
      in \<not> is_enabled no_config \<and> fst on = Inr () \<and> is_enabled (snd on)
         \<and> fst off = Inr () \<and> \<not> is_enabled (snd off))"

definition after_attempt :: "nat \<Rightarrow> attempt_outcome \<Rightarrow> config_files" where
  "after_attempt now o1 =
     snd (write_attempt 7 writes_ok (attempt_of ''0.0.12'' (of_nat now) o1 ''test'') no_config)"

definition failed_and_interrupted_attempts_suppress_for_one_day :: bool where
  "failed_and_interrupted_attempts_suppress_for_one_day \<longleftrightarrow>
     (let now = 2 * RETRY_SUPPRESS_MS
      in list_all (\<lambda>o1. suppression (after_attempt now o1) now = Some (''0.0.12'', millis RETRY_SUPPRESS_MS)
                      \<and> suppression (after_attempt now o1) (now + RETRY_SUPPRESS_MS) = None)
           [AtStarted, AtFailed, AtRejected])"

definition successful_upgrade_never_suppresses_the_new_daemon :: bool where
  "successful_upgrade_never_suppresses_the_new_daemon \<longleftrightarrow> suppression (after_attempt 10 AtUpgraded) 11 = None"

lemma test_triplets:
  "version_triplet ''rust-0.0.12'' = Some (Version 0 0 12)" "version_triplet ''0.0.12'' = Some (Version 0 0 12)"
  "version_triplet ''0.0.11'' = Some (Version 0 0 11)" "version_triplet ''rust-0.0.11'' = Some (Version 0 0 11)"
  "version_triplet ''0.0.10'' = Some (Version 0 0 10)" "version_triplet ''dev'' = None"
proof -
  have "parse_version_word ''rust-0.0.12'' = Some ''0.0.12''" "parse_version_word ''0.0.12'' = Some ''0.0.12''"
    "parse_version_word ''0.0.11'' = Some ''0.0.11''" "parse_version_word ''rust-0.0.11'' = Some ''0.0.11''"
    "parse_version_word ''0.0.10'' = Some ''0.0.10''" "parse_version_word ''dev'' = None"
    by code_simp+
  then show
    "version_triplet ''rust-0.0.12'' = Some (Version 0 0 12)" "version_triplet ''0.0.12'' = Some (Version 0 0 12)"
    "version_triplet ''0.0.11'' = Some (Version 0 0 11)" "version_triplet ''rust-0.0.11'' = Some (Version 0 0 11)"
    "version_triplet ''0.0.10'' = Some (Version 0 0 10)" "version_triplet ''dev'' = None"
    by (simp_all add: version_triplet_def parse_uint_def digit_val_def u64_bound_def starts_with_def)
qed

lemma tmp_neq: "STATE_FILE \<noteq> tmp_file 7 STATE_FILE" by (rule state_not_tmp)

lemma write_ok:
  "write_attempt 7 writes_ok r fs = (Inr (), fs(tmp_file 7 STATE_FILE := None, STATE_FILE \<mapsto> (JsonText (attempt_json r), 384)))"
  by (auto simp: write_attempt_def atomic_private_write_def writes_ok_def Let_def set_mode_def fun_eq_iff
      state_not_tmp)

lemma read_written_ok [simp]: "read_attempt (fs(STATE_FILE \<mapsto> (JsonText (attempt_json r), m))) = Some r"
  by (simp add: read_attempt_def attempt_round_trip)

lemmas apply_eval = apply_test_def apply_upgrade_def settle_upgrade_def refuse_target_def test_triplets
  write_ok attempt_of_def less_version_def

lemma apply_tests_pass:
  "apply_success_records_upgrade_and_requests_restart" "apply_failure_records_fuse_and_reconnects"
  "malformed_or_non_newer_target_never_calls_install_channel"
  unfolding apply_success_records_upgrade_and_requests_restart_def
    apply_failure_records_fuse_and_reconnects_def
    malformed_or_non_newer_target_never_calls_install_channel_def
  by (simp_all add: apply_eval)

lemma opt_in_test_passes: "opt_in_defaults_off_and_round_trips"
  by (simp add: opt_in_defaults_off_and_round_trips_def set_enabled_def is_enabled_def no_config_def
      atomic_private_write_def writes_ok_def set_mode_def Let_def)

lemma suppression_tests_pass:
  "failed_and_interrupted_attempts_suppress_for_one_day" "successful_upgrade_never_suppresses_the_new_daemon"
  unfolding failed_and_interrupted_attempts_suppress_for_one_day_def
    successful_upgrade_never_suppresses_the_new_daemon_def after_attempt_def
  by (simp_all add: write_ok suppression_def attempt_of_def RETRY_SUPPRESS_MS_def)

section \<open>The observability handle\<close>

definition default_obs_refuses_jobs :: bool where
  "default_obs_refuses_jobs \<longleftrightarrow> \<not> allows_real_jobs default_observability"

definition toggle_auto_upgrade_flag :: bool where
  "toggle_auto_upgrade_flag \<longleftrightarrow>
     (let obs = channels default_status; obs' = set_auto_upgrade_enabled True obs
      in \<not> auto_upgrade_enabled obs \<and> auto_upgrade_enabled obs'
         \<and> map_option ss_auto_upgrade_enabled (status_tx obs') = Some True)"

definition toggle_allow_flag :: bool where
  "toggle_allow_flag \<longleftrightarrow>
     (let obs = channels default_status; obs' = set_allow_real_jobs True obs
      in \<not> allows_real_jobs obs \<and> allows_real_jobs obs'
         \<and> map_option ss_allow_real_jobs (status_tx obs') = Some True)"

definition default_obs_is_silent :: bool where
  "default_obs_is_silent \<longleftrightarrow>
     ss_connection (borrow_status (update_status (\<lambda>s. s\<lparr>ss_connection := Connected\<rparr>) default_observability))
       = Disconnected"

lemma status_tests_pass:
  "default_obs_refuses_jobs" "toggle_auto_upgrade_flag" "toggle_allow_flag" "default_obs_is_silent"
  by (simp_all add: default_obs_refuses_jobs_def toggle_auto_upgrade_flag_def toggle_allow_flag_def
      default_obs_is_silent_def allows_real_jobs_def default_observability_def channels_def
      set_auto_upgrade_enabled_def set_allow_real_jobs_def auto_upgrade_enabled_def update_status_def
      borrow_status_def default_status_def Let_def)

section \<open>The idle-sleep guard\<close>

text \<open>
  The first test builds a guard without the counters of \<open>acquire\<close>. In the last one the child gets
  the pid 11, and the teardown ends because the child is gone.
\<close>

definition guard_without_a_child_is_not_held :: bool where
  "guard_without_a_child_is_not_held \<longleftrightarrow>
     \<not> is_held Missed \<and> guard_state MacOs Missed = FailedToAcquire
     \<and> describe (guard_state MacOs Missed) = ''failed to acquire''
     \<and> describe (guard_state MacOs Missed) \<noteq> ''held''
     \<and> 0 \<le> ka_failed (drop_guard 0 (awake_start\<lparr>ka_guards := [Missed]\<rparr>))"

definition non_macos_guard_is_never_held :: bool where
  "non_macos_guard_is_never_held \<longleftrightarrow>
     (let s = acquire LinuxOs None awake_start; g = last (ka_guards s)
      in \<not> is_held g \<and> guard_state LinuxOs g = Unavailable \<and> current_state LinuxOs s = Some Unavailable)"

definition assertion_held_while_guard_alive_and_released_on_drop :: bool where
  "assertion_held_while_guard_alive_and_released_on_drop \<longleftrightarrow>
     (let s = acquire MacOs (Some 11) awake_start; g = last (ka_guards s);
          polls = [(Exited, secs 1)]
      in g = Caffeinated 11 \<and> 11 \<in> set (ka_children s) \<and> is_held g \<and> guard_state MacOs g = Held
         \<and> current_state MacOs s = Some Held
         \<and> kill_child_tree 11 0 polls = Some ([Term 11], Gone)
         \<and> 11 \<notin> set (ka_children (end_drop 11 Gone (drop_guard 0 s))))"

definition snapshot_tokens_round_trip :: bool where
  "snapshot_tokens_round_trip \<longleftrightarrow>
     list_all (\<lambda>s. from_token (as_token s) = Some s) [Held, FailedToAcquire, Unavailable]
     \<and> from_token [] = None \<and> from_token ''bogus'' = None"

lemma guard_tests_pass:
  "guard_without_a_child_is_not_held" "non_macos_guard_is_never_held"
  "assertion_held_while_guard_alive_and_released_on_drop" "snapshot_tokens_round_trip"
  by (simp_all add: guard_without_a_child_is_not_held_def non_macos_guard_is_never_held_def
      snapshot_tokens_round_trip_def acquire_def current_state_def awake_start_def drop_guard_def from_token_def
      assertion_held_while_guard_alive_and_released_on_drop_def guard_state_def kill_child_tree_def end_drop_def Let_def)

end
