(* ===== verification/Tests_Service.thy ===== *)
theory Tests_Service
  imports Cli
begin

text \<open>
  The unit tests of \<open>bins/decent/src/service.rs\<close> run on the model: one definition per test with its
  assertions, and a lemma that it passes. A test whose assertions differ by platform takes the platform
  as an argument. Two tests cut the arguments out of the property list by splitting its text; that leg
  is not run here: \<open>Service_Unit\<close> proves what the arguments of every property list are.
\<close>

section \<open>Reading a rendered unit\<close>

definition rendered_unit :: "target_os \<Rightarrow> service_spec \<Rightarrow> string" where
  "rendered_unit os spec =
     (case os of MacOs \<Rightarrow> build_plist spec | LinuxOs \<Rightarrow> build_unit spec | OtherOs \<Rightarrow> [])"

definition spec :: service_spec where
  "spec = \<lparr>sp_exe = ''/opt/decent/bin/decent'', sp_dispatch_url = ''wss://dispatch.example.com/ws'',
     sp_log_path = ''/home/op/.config/decent/decent.log''\<rparr>"

text \<open>\<open>str::split\<close> by a text: \<open>skip\<close> bytes of the last separator are left to pass over.\<close>

fun split_go :: "string \<Rightarrow> nat \<Rightarrow> string \<Rightarrow> string \<Rightarrow> string list" where
  "split_go p k acc [] = [rev acc]"
| "split_go p (Suc k) acc (c # s) = split_go p k acc s"
| "split_go p 0 acc (c # s) =
     (if starts_with (c # s) p then rev acc # split_go p (length p - 1) [] s
      else split_go p 0 (c # acc) s)"

definition split_text :: "string \<Rightarrow> string \<Rightarrow> string list" where "split_text p s = split_go p 0 [] s"

section \<open>The tests\<close>

definition log_path_sits_beside_the_token :: bool where
  "log_path_sits_beside_the_token \<longleftrightarrow>
     default_log_path ''/home/op/.config/decent/worker-token'' = ''/home/op/.config/decent/decent.log''"

definition log_file_is_named_decent_log_beside_the_token :: bool where
  "log_file_is_named_decent_log_beside_the_token \<longleftrightarrow>
     (let token = ''/var/lib/op/.config/decent/worker-token''; log = default_log_path token
      in drop (length (parent_dir log)) log = ''decent.log'' \<and> parent_dir log = parent_dir token)"

text \<open>An \<open>exec\<close> that writes down the commands it is given.\<close>

definition recording :: "string list list exec" where
  "recording cmd calls = (Some (True, []), calls @ [cmd])"

definition pre_install_unload_only_runs_when_a_plist_exists :: bool where
  "pre_install_unload_only_runs_when_a_plist_exists \<longleftrightarrow>
     (let plist = ''/tmp/agent.plist'';
          calls = (\<lambda>fs. h_mgr (mac_prepare recording plist \<lparr>h_files = fs, h_mgr = []\<rparr>))
      in calls Map.empty = [] \<and> calls [plist \<mapsto> ''plist-bytes''] = [[''launchctl'', ''unload'', plist]])"

definition label_matching_is_exact_not_substring :: bool where
  "label_matching_is_exact_not_substring \<longleftrightarrow>
     (let row = (\<lambda>pid label. launchctl_row (pid, ''0'', label) @ nl);
          legacy_only = row ''-'' ''com.decent-render.decent-node'';
          modern = row ''123'' ''com.decent-render.decent''
      in label_is_loaded legacy_only ''com.decent-render.decent-node''
         \<and> \<not> label_is_loaded legacy_only ''com.decent-render.decent''
         \<and> label_is_loaded modern ''com.decent-render.decent''
         \<and> \<not> label_is_loaded modern ''com.decent-render.decent-node'')"

definition hostile_but_legal_url_escapes_in_plist :: bool where
  "hostile_but_legal_url_escapes_in_plist \<longleftrightarrow>
     (let txt = rendered_unit MacOs
            \<lparr>sp_exe = ''/opt/decent/bin/decent'',
             sp_dispatch_url = ''wss://dispatch.example.com/ws?team=a&env=<prod>'',
             sp_log_path = ''/tmp/log&path/decent.log''\<rparr>
      in \<not> sublist ''a&env'' txt \<and> \<not> sublist ''<prod>'' txt
         \<and> sublist ''a&amp;env'' txt \<and> sublist ''&lt;prod&gt;'' txt)"

definition hostile_but_legal_url_escapes_in_unit_exec_start :: bool where
  "hostile_but_legal_url_escapes_in_unit_exec_start \<longleftrightarrow>
     (let q = [CHR 0x22]; b = [CHR 0x5C]
      in exec_start_line ''/opt/decent/bin/decent''
           (''wss://dispatch.example.com/ws?team=a b'' @ q @ ''q'' @ q @ b @ ''d%h'')
         = ''ExecStart='' @ q @ ''/opt/decent/bin/decent'' @ q @ '' '' @ q @ ''start'' @ q @ '' ''
           @ q @ ''--dispatch-url'' @ q @ '' ''
           @ q @ ''wss://dispatch.example.com/ws?team=a b'' @ b @ q @ ''q'' @ b @ q @ b @ b @ ''d%%h'' @ q
           @ '' '' @ q @ ''--allow-real-jobs'' @ q)"

definition unit_opts_into_real_jobs :: "target_os \<Rightarrow> bool" where
  "unit_opts_into_real_jobs os \<longleftrightarrow>
     sublist ''--allow-real-jobs'' (rendered_unit os spec)
     \<and> sublist ''wss://dispatch.example.com/ws'' (rendered_unit os spec)"

definition unit_restarts_on_exit :: "target_os \<Rightarrow> bool" where
  "unit_restarts_on_exit os \<longleftrightarrow>
     (case os of
        MacOs \<Rightarrow> sublist ''<key>KeepAlive</key>'' (rendered_unit os spec)
      | LinuxOs \<Rightarrow> sublist ''Restart=always'' (rendered_unit os spec)
      | OtherOs \<Rightarrow> True)"

definition unit_logs_where_we_said_it_would :: "target_os \<Rightarrow> bool" where
  "unit_logs_where_we_said_it_would os \<longleftrightarrow>
     sublist ''/home/op/.config/decent/decent.log'' (rendered_unit os spec)"

definition unit_runs_the_installed_binary_by_absolute_path :: "target_os \<Rightarrow> bool" where
  "unit_runs_the_installed_binary_by_absolute_path os \<longleftrightarrow>
     (let txt = rendered_unit os spec; expected = ''/opt/decent/bin/decent''
      in case os of
           MacOs \<Rightarrow>
             hd (split_text ''</string>'' (split_text ''<string>''
               (split_text ''<key>ProgramArguments</key>'' txt ! 1) ! 1)) = expected
         | LinuxOs \<Rightarrow>
             (case find (\<lambda>l. starts_with l ''ExecStart='') (lines_of txt) of
                None \<Rightarrow> False
              | Some l \<Rightarrow> starts_with l (''ExecStart='' @ CHR 0x22 # expected @ [CHR 0x22, CHR '' '']))
         | OtherOs \<Rightarrow> True)"

definition unit_argument_vector_is_exactly_start_dispatch_allow :: "target_os \<Rightarrow> bool" where
  "unit_argument_vector_is_exactly_start_dispatch_allow os \<longleftrightarrow>
     (let txt = rendered_unit os spec
      in case os of
           MacOs \<Rightarrow>
             map (\<lambda>s. hd (split_text ''</string>'' s))
                 (drop 1 (split_text ''<string>''
                   (hd (split_text ''<key>'' (split_text ''<key>ProgramArguments</key>'' txt ! 1)))))
             = [''/opt/decent/bin/decent'', ''start'', ''--dispatch-url'',
                ''wss://dispatch.example.com/ws'', ''--allow-real-jobs'']
         | LinuxOs \<Rightarrow>
             find (\<lambda>l. starts_with l ''ExecStart='') (lines_of txt)
             = Some (let q = (\<lambda>w. CHR 0x22 # w @ [CHR 0x22])
                     in ''ExecStart='' @ q ''/opt/decent/bin/decent'' @ '' '' @ q ''start'' @ '' ''
                        @ q ''--dispatch-url'' @ '' '' @ q ''wss://dispatch.example.com/ws'' @ '' ''
                        @ q ''--allow-real-jobs'')
         | OtherOs \<Rightarrow> True)"

definition macos_unit_runs_at_load :: bool where
  "macos_unit_runs_at_load \<longleftrightarrow>
     sublist ''<key>RunAtLoad</key>'' (rendered_unit MacOs spec)
     \<and> sublist (''<key>RunAtLoad</key>'' @ nl @ ''    <true/>'') (rendered_unit MacOs spec)"

definition unit_gives_the_supervisor_time_to_drain_on_stop :: "target_os \<Rightarrow> bool" where
  "unit_gives_the_supervisor_time_to_drain_on_stop os \<longleftrightarrow>
     (case os of
        MacOs \<Rightarrow> sublist (''<key>ExitTimeOut</key>'' @ nl @ ''    <integer>30</integer>'') (rendered_unit os spec)
      | LinuxOs \<Rightarrow> sublist ''TimeoutStopSec=30'' (rendered_unit os spec)
      | OtherOs \<Rightarrow> True)"

definition unit_sets_rust_log_info :: "target_os \<Rightarrow> bool" where
  "unit_sets_rust_log_info os \<longleftrightarrow>
     (case os of
        MacOs \<Rightarrow> sublist (''<key>RUST_LOG</key>'' @ nl @ ''        <string>info</string>'') (rendered_unit os spec)
      | LinuxOs \<Rightarrow> sublist ''Environment=RUST_LOG=info'' (rendered_unit os spec)
      | OtherOs \<Rightarrow> True)"

definition macos_label_is_stable_and_used_by_the_restart_hint :: bool where
  "macos_label_is_stable_and_used_by_the_restart_hint \<longleftrightarrow>
     LABEL = ''com.decent-render.decent'' \<and> sublist LABEL (manual_restart_hint MacOs)"

definition linux_unit_starts_at_boot_not_just_on_demand :: bool where
  "linux_unit_starts_at_boot_not_just_on_demand \<longleftrightarrow>
     sublist ''WantedBy=default.target'' (rendered_unit LinuxOs spec)"

definition linux_unit_waits_for_the_network :: bool where
  "linux_unit_waits_for_the_network \<longleftrightarrow>
     sublist ''After=network-online.target'' (rendered_unit LinuxOs spec)"

lemma path_tests_pass: "log_path_sits_beside_the_token" "log_file_is_named_decent_log_beside_the_token"
  by code_simp+

lemma unload_test_passes: "pre_install_unload_only_runs_when_a_plist_exists"
  by (simp add: pre_install_unload_only_runs_when_a_plist_exists_def mac_prepare_def run_cmd_def recording_def Let_def)

lemma label_test_passes: "label_matching_is_exact_not_substring"
  by code_simp

text \<open>A text without a line break that occurs in a text of lines occurs in one of them.\<close>

lemma sublist_lines_iff:
  assumes "CHR 0x0A \<notin> set p" "p \<noteq> []"
  shows "sublist p (concat (map (\<lambda>l. l @ nl) ls)) \<longleftrightarrow> list_ex (sublist p) ls"
proof (induction ls)
  case (Cons l ls)
  have "sublist p (l @ CHR 0x0A # r) \<longleftrightarrow> sublist p l \<or> sublist p r" for r
  proof -
    have "prefix v (CHR 0x0A # r) \<longleftrightarrow> v = []" if "p = u @ v" for u v
      using assms(1) that by (cases v) auto
    then show ?thesis
      using assms by (auto simp: sublist_append sublist_Cons_right)
  qed
  then show ?case using Cons by simp
qed (use assms in simp)

lemma sublist_two_lines:
  assumes "sublist [l1, l2] ls" "sublist p (l1 @ nl @ l2)"
  shows "sublist p (concat (map (\<lambda>l. l @ nl) ls))"
proof -
  obtain a b where "ls = a @ [l1, l2] @ b" using assms(1) unfolding sublist_def by blast
  then have "sublist (l1 @ nl @ l2) (concat (map (\<lambda>l. l @ nl) ls))"
    unfolding sublist_def by (intro exI [of _ "concat (map (\<lambda>l. l @ nl) a)"]
        exI [of _ "nl @ concat (map (\<lambda>l. l @ nl) b)"]) simp
  then show ?thesis using assms(2) sublist_order.order_trans by blast
qed

lemma rendered_lines:
  "rendered_unit MacOs s = concat (map (\<lambda>l. l @ nl) (plist_lines s))"
  "rendered_unit LinuxOs s = concat (map (\<lambda>l. l @ nl) (unit_lines s))"
  by (simp_all add: rendered_unit_def plist_as_lines build_unit_def)

lemma exec_escape_test_passes: "hostile_but_legal_url_escapes_in_unit_exec_start"
  by code_simp

lemma plist_escape_test_passes: "hostile_but_legal_url_escapes_in_plist"
  by (simp add: hostile_but_legal_url_escapes_in_plist_def rendered_lines sublist_lines_iff) code_simp

lemma any_unit_tests_pass:
  "unit_opts_into_real_jobs MacOs" "unit_opts_into_real_jobs LinuxOs"
  "unit_logs_where_we_said_it_would MacOs" "unit_logs_where_we_said_it_would LinuxOs"
  unfolding unit_opts_into_real_jobs_def unit_logs_where_we_said_it_would_def
  by (simp_all add: rendered_lines sublist_lines_iff) code_simp+

lemma one_line_tests_pass:
  "unit_restarts_on_exit MacOs" "unit_restarts_on_exit LinuxOs"
  "unit_gives_the_supervisor_time_to_drain_on_stop LinuxOs" "unit_sets_rust_log_info LinuxOs"
  "linux_unit_starts_at_boot_not_just_on_demand" "linux_unit_waits_for_the_network"
  unfolding unit_restarts_on_exit_def unit_gives_the_supervisor_time_to_drain_on_stop_def
    unit_sets_rust_log_info_def linux_unit_starts_at_boot_not_just_on_demand_def
    linux_unit_waits_for_the_network_def
  by (simp_all add: rendered_lines sublist_lines_iff) code_simp+

lemma hint_test_passes: "macos_label_is_stable_and_used_by_the_restart_hint"
  by code_simp

lemma plist_pairs:
  "sublist [''    <key>RunAtLoad</key>'', ''    <true/>''] (plist_lines s)"
  "sublist [''    <key>ExitTimeOut</key>'', ''    <integer>30</integer>''] (plist_lines s)"
  "sublist [''        <key>RUST_LOG</key>'', ''        <string>info</string>''] (plist_lines s)"
  by (simp_all add: plist_lines_def sublist_code escape_chars)

lemma two_line_tests_pass:
  "macos_unit_runs_at_load" "unit_gives_the_supervisor_time_to_drain_on_stop MacOs"
  "unit_sets_rust_log_info MacOs"
proof -
  note two = plist_pairs [THEN sublist_two_lines]
  show "macos_unit_runs_at_load"
    unfolding macos_unit_runs_at_load_def rendered_lines
    by (intro conjI two(1)) code_simp+
  show "unit_gives_the_supervisor_time_to_drain_on_stop MacOs"
    unfolding unit_gives_the_supervisor_time_to_drain_on_stop_def rendered_lines target_os.case
    by (rule two(2)) code_simp
  show "unit_sets_rust_log_info MacOs"
    unfolding unit_sets_rust_log_info_def rendered_lines target_os.case
    by (rule two(3)) code_simp
qed

lemma systemd_argument_tests_pass:
  "unit_runs_the_installed_binary_by_absolute_path LinuxOs"
  "unit_argument_vector_is_exactly_start_dispatch_allow LinuxOs"
  by code_simp+

end
