(* ===== verification/Tests_Connection.thy ===== *)
theory Tests_Connection
  imports Reconnect
begin

text \<open>
  The unit tests of \<open>crates/supervisor-core/src/connection/tests.rs\<close> that call one function of the
  connection, on the model: the upgrade gate, the cancel acknowledgements, the handshake, the reconnect
  backoff and the match of a terminal frame. One definition per test with its assertions, and a lemma
  that it passes. An instant a test reads from the clock is \<open>start\<close>.
\<close>

section \<open>The upgrade gate\<close>

definition start :: instant where "start = secs 1000"

text \<open>The largest instant of the platform: no test comes near it.\<close>

definition far :: instant where "far = secs 1000000"

definition policy :: "duration \<Rightarrow> (string \<times> duration) option \<Rightarrow> auto_upgrade_policy option" where
  "policy quiet suppress =
     Some \<lparr>aup_quiet_period = quiet, aup_suppressed_version = map_option fst suppress,
           aup_suppressed_for = map_option snd suppress\<rparr>"

definition auto_upgrade_gate_requires_enabled_continuous_idle :: bool where
  "auto_upgrade_gate_requires_enabled_continuous_idle \<longleftrightarrow>
     (let quiet = secs 10;
          g0 = announce ''rust-0.0.12'' (gate_new_at far (policy quiet None) start);
          g1 = gate_observe True True start g0;
          g2 = gate_observe True False (start + quiet) g1;
          g3 = gate_observe True True (start + quiet) g2;
          g4 = gate_observe False True (start + quiet + quiet) g3
      in ready (start + quiet - millis 1) g1 = None \<and> ready (start + quiet) g2 = None
         \<and> ready (start + quiet + quiet) g3 = Some ''rust-0.0.12''
         \<and> ready (start + quiet + quiet) g4 = None)"

definition repeated_notice_does_not_defer_and_recent_failure_suppresses_target :: bool where
  "repeated_notice_does_not_defer_and_recent_failure_suppresses_target \<longleftrightarrow>
     (let quiet = secs 10;
          g = gate_observe True True (start + quiet)
                (announce ''rust-0.0.12'' (gate_observe True True start
                  (announce ''rust-0.0.12'' (gate_new_at far (policy quiet None) start))));
          fused = gate_new_at far (policy 0 (Some (''rust-0.0.12'', secs 10))) start;
          s1 = gate_observe True True start (announce ''rust-0.0.12'' fused);
          s2 = gate_observe True True (start + secs 10) s1;
          l1 = gate_observe True True start (announce ''rust-0.0.13'' fused)
      in ready (start + quiet) g = Some ''rust-0.0.12''
         \<and> ready start s1 = None \<and> ready (start + secs 10) s2 = Some ''rust-0.0.12''
         \<and> ready start l1 = Some ''rust-0.0.13'')"

lemma gate_tests_pass:
  "auto_upgrade_gate_requires_enabled_continuous_idle"
  "repeated_notice_does_not_defer_and_recent_failure_suppresses_target"
  by (simp_all add: auto_upgrade_gate_requires_enabled_continuous_idle_def
      repeated_notice_does_not_defer_and_recent_failure_suppresses_target_def policy_def gate_new_at_def
      announce_def gate_observe_def target_suppressed_def ready_def start_def far_def)

section \<open>Acknowledgements of a drained job\<close>

definition cancel_ack_predicate_only_a_failed_terminal_is_an_ack :: bool where
  "cancel_ack_predicate_only_a_failed_terminal_is_an_ack \<longleftrightarrow>
     cancel_ack_predicate OutFailed \<and> \<not> cancel_ack_predicate OutComplete"

definition probe_canceled_job :: canceled_job where
  "probe_canceled_job =
     \<lparr>cj_tenant = ''driffs'', cj_job_id = ''job-f2-probe'', cj_attempt = Some 2, cj_received_at = start\<rparr>"

definition drain_queues_the_ack_for_a_failed_teardown :: bool where
  "drain_queues_the_ack_for_a_failed_teardown \<longleftrightarrow>
     (let pending = queue_drained_cancel_ack start (Some probe_canceled_job) (Some OutFailed) []
      in length pending = 1 \<and> ack_job_id (hd pending) = ''job-f2-probe'' \<and> ack_attempt (hd pending) = 2
         \<and> ack_teardown_ms (hd pending) \<noteq> None)"

definition drain_never_queues_a_completed_outcome :: bool where
  "drain_never_queues_a_completed_outcome \<longleftrightarrow>
     queue_drained_cancel_ack start (Some probe_canceled_job) (Some OutComplete) [] = []"

definition drain_never_queues_a_panicked_task :: bool where
  "drain_never_queues_a_panicked_task \<longleftrightarrow>
     queue_drained_cancel_ack start (Some probe_canceled_job) None [] = []"

definition drain_ignores_a_job_that_was_never_dispatch_canceled :: bool where
  "drain_ignores_a_job_that_was_never_dispatch_canceled \<longleftrightarrow>
     queue_drained_cancel_ack start None (Some OutFailed) [] = []"

lemma drain_tests_pass:
  "cancel_ack_predicate_only_a_failed_terminal_is_an_ack" "drain_queues_the_ack_for_a_failed_teardown"
  "drain_never_queues_a_completed_outcome" "drain_never_queues_a_panicked_task"
  "drain_ignores_a_job_that_was_never_dispatch_canceled"
  by (simp_all add: cancel_ack_predicate_only_a_failed_terminal_is_an_ack_def
      drain_queues_the_ack_for_a_failed_teardown_def drain_never_queues_a_completed_outcome_def
      drain_never_queues_a_panicked_task_def drain_ignores_a_job_that_was_never_dispatch_canceled_def
      cancel_ack_predicate_def queue_drained_cancel_ack_def queue_pending_cancel_ack_def
      MAX_PENDING_CANCEL_ACKS_def cancel_ack_for_def probe_canceled_job_def unwrap_or_def)

section \<open>The handshake\<close>

text \<open>Every URL and header value of the two tests is one the WebSocket library takes.\<close>

definition sends_the_token_as_a_header_not_in_the_url :: bool where
  "sends_the_token_as_a_header_not_in_the_url \<longleftrightarrow>
     (case handshake_request (\<lambda>u. True) (\<lambda>h. True) (config_new ''ws://localhost:8790/ws'' ''tok+en/with=specials'') of
        Inl e \<Rightarrow> False
      | Inr r \<Rightarrow> hs_authorization r = ''Bearer tok+en/with=specials''
          \<and> \<not> sublist ''token'' (hs_url r) \<and> \<not> sublist ''specials'' (hs_url r))"

definition handshake_request_preserves_an_existing_query_string :: bool where
  "handshake_request_preserves_an_existing_query_string \<longleftrightarrow>
     (case handshake_request (\<lambda>u. True) (\<lambda>h. True) (config_new ''ws://localhost:8790/ws?region=eu'' ''t'') of
        Inl e \<Rightarrow> False
      | Inr r \<Rightarrow> sublist ''region=eu'' (hs_url r))"

lemma handshake_tests_pass:
  "sends_the_token_as_a_header_not_in_the_url" "handshake_request_preserves_an_existing_query_string"
  by (simp_all add: sends_the_token_as_a_header_not_in_the_url_def handshake_request_def config_new_def
      handshake_request_preserves_an_existing_query_string_def sublist_code)

section \<open>The reconnect backoff\<close>

text \<open>A canned generator: \<open>u\<close> is what it draws. Its own state is not used.\<close>

definition backoff_with :: "nat \<Rightarrow> nat \<Rightarrow> reconnect_backoff" where
  "backoff_with base_ms max_s = \<lparr>rb_base = millis base_ms, rb_max = secs max_s, rb_attempt = 0, rb_rng = 1\<rparr>"

definition canned_delay :: "rat \<Rightarrow> reconnect_backoff \<Rightarrow> duration \<times> reconnect_backoff" where
  "canned_delay u b =
     (mul_f64 (backoff_target b) (clamp01 u),
      b\<lparr>rb_attempt := (if rb_attempt b = -1 then -1 else rb_attempt b + 1)\<rparr>)"

lemma next_delay_canned:
  "next_delay b = (case xorshift_next (rb_rng b) of (u, r) \<Rightarrow>
     (fst (canned_delay u b), (snd (canned_delay u b))\<lparr>rb_rng := r\<rparr>))"
  by (simp add: next_delay_def canned_delay_def Let_def split: prod.split)

fun delays :: "rat list \<Rightarrow> reconnect_backoff \<Rightarrow> duration list" where
  "delays [] b = []"
| "delays (u # us) b = fst (canned_delay u b) # delays us (snd (canned_delay u b))"

definition after_draws :: "rat list \<Rightarrow> reconnect_backoff \<Rightarrow> reconnect_backoff" where
  "after_draws us b = fold (\<lambda>u b. snd (canned_delay u b)) us b"

definition backoff_bounds_every_delay_within_cap :: bool where
  "backoff_bounds_every_delay_within_cap \<longleftrightarrow>
     list_all (\<lambda>d. d \<le> secs 60) (delays (replicate 8 (999 / 1000)) (backoff_with 1000 60))"

definition backoff_growth_mean_increases_and_attempts_separate :: bool where
  "backoff_growth_mean_increases_and_attempts_separate \<longleftrightarrow>
     (let d = delays (replicate 4 (999 / 1000)) (backoff_with 1000 60);
          m = delays (replicate 4 (1 / 2)) (backoff_with 1000 60)
      in millis 900 \<le> d ! 0 \<and> d ! 0 \<le> secs 1 \<and> millis 7200 \<le> d ! 3 \<and> d ! 0 * 4 < d ! 3
         \<and> m ! 0 < m ! 3)"

definition backoff_cap_binds_target_not_jitter :: bool where
  "backoff_cap_binds_target_not_jitter \<longleftrightarrow>
     (let b = after_draws (replicate 6 (999 / 1000)) (backoff_with 1000 60);
          (d, b') = canned_delay (999 / 1000) b
      in backoff_target b = secs 60 \<and> d \<le> secs 60 \<and> secs 59 \<le> d \<and> backoff_target b' = secs 60)"

definition backoff_full_jitter_variance :: bool where
  "backoff_full_jitter_variance \<longleftrightarrow>
     (let ac = delays [99 / 100, 1 / 100] (backoff_with 1000 60);
          d = fst (canned_delay (999999 / 1000000) (backoff_with 1000 60))
      in ac ! 0 \<noteq> ac ! 1 \<and> millis 980 \<le> ac ! 0 \<and> ac ! 1 \<le> millis 21
         \<and> fst (canned_delay 0 (backoff_with 1000 60)) = 0 \<and> millis 999 \<le> d \<and> d \<le> secs 1)"

definition backoff_reset_on_healthy_session_only :: bool where
  "backoff_reset_on_healthy_session_only \<longleftrightarrow>
     (let b = session_lasted (secs 5) (after_draws [999 / 1000, 999 / 1000] (backoff_with 1000 60))
      in backoff_target b = secs 4 \<and> backoff_target (session_lasted (secs 60) b) = secs 1)"

definition backoff_saturates_instead_of_overflowing :: bool where
  "backoff_saturates_instead_of_overflowing \<longleftrightarrow>
     (let b = after_draws (replicate 1000 (1 / 2)) (backoff_with 1000 60)
      in backoff_target b = secs 60 \<and> fst (canned_delay (1 / 2) b) \<le> secs 60)"

text \<open>The attempt counter after some draws, and the target at it.\<close>

lemma after_draws_eq:
  "length us < 2 ^ 32 \<Longrightarrow> after_draws us (backoff_with b m) = (backoff_with b m)\<lparr>rb_attempt := of_nat (length us)\<rparr>"
proof (induction us rule: rev_induct)
  case (snoc u us)
  then have "after_draws us (backoff_with b m) = (backoff_with b m)\<lparr>rb_attempt := of_nat (length us)\<rparr>" by simp
  moreover have "(of_nat (length us) :: u32) \<noteq> -1"
  proof -
    have "unat (of_nat (length us) :: u32) = length us" using snoc.prems by (simp add: unat_of_nat)
    moreover have "unat (-1 :: u32) = 2 ^ 32 - 1" by (simp add: unsigned_minus_1_eq_mask mask_eq_exp_minus_1)
    ultimately show ?thesis using snoc.prems by (metis Suc_diff_1 length_append_singleton less_irrefl zero_less_numeral zero_less_power)
  qed
  ultimately show ?case
    by (simp add: after_draws_def canned_delay_def add.commute)
qed (simp add: after_draws_def backoff_with_def)

lemma canned_at: "canned_delay u ((backoff_with b m)\<lparr>rb_attempt := a\<rparr>) =
   (mul_f64 (backoff_target ((backoff_with b m)\<lparr>rb_attempt := a\<rparr>)) (clamp01 u),
    (backoff_with b m)\<lparr>rb_attempt := (if a = -1 then -1 else a + 1)\<rparr>)"
  by (simp add: canned_delay_def)

lemmas target_eval = backoff_target_def checked_shl1_def dur_saturating_mul_def DUR_MAX_def backoff_with_def
  mul_f64_def clamp01_def session_lasted_def push_bit_eq_mult min_def

lemma floor_rat: "\<lfloor>numeral a / numeral b :: rat\<rfloor> = numeral a div numeral b"
  using floor_divide_of_int_eq [of "numeral a" "numeral b", where 'a = rat] by simp

lemma replicates:
  "replicate 4 x = [x, x, x, x]" "replicate 6 x = [x, x, x, x, x, x]" "replicate 8 x = [x, x, x, x, x, x, x, x]"
  by (simp_all add: numeral_eq_Suc)

lemma backoff_tests_pass:
  "backoff_bounds_every_delay_within_cap" "backoff_growth_mean_increases_and_attempts_separate"
  "backoff_full_jitter_variance"
  unfolding backoff_bounds_every_delay_within_cap_def backoff_growth_mean_increases_and_attempts_separate_def
    backoff_full_jitter_variance_def
  by (simp_all add: replicates canned_delay_def target_eval round_def floor_rat)


lemma backoff_target_tests_pass:
  "backoff_cap_binds_target_not_jitter" "backoff_reset_on_healthy_session_only"
  "backoff_saturates_instead_of_overflowing"
  unfolding backoff_cap_binds_target_not_jitter_def backoff_reset_on_healthy_session_only_def
    backoff_saturates_instead_of_overflowing_def
  by (simp_all add: after_draws_eq canned_at) (simp_all add: target_eval round_def floor_rat)

section \<open>The match of a terminal frame\<close>

definition frame_is_for_matches_id_and_attempt_pairs :: bool where
  "frame_is_for_matches_id_and_attempt_pairs \<longleftrightarrow>
     frame_is_for (Some (''job'', Some 1)) ''job'' (Some 1)
     \<and> \<not> frame_is_for (Some (''job'', Some 2)) ''job'' (Some 1)
     \<and> \<not> frame_is_for (Some (''job'', Some 1)) ''job'' (Some 2)
     \<and> \<not> frame_is_for (Some (''job'', None)) ''job'' (Some 1)
     \<and> \<not> frame_is_for (Some (''job'', Some 1)) ''job'' None
     \<and> frame_is_for (Some (''job'', None)) ''job'' None
     \<and> \<not> frame_is_for (Some (''other'', Some 1)) ''job'' (Some 1)
     \<and> \<not> frame_is_for None ''job'' (Some 1) \<and> \<not> frame_is_for None ''job'' None"

lemma frame_test_passes: "frame_is_for_matches_id_and_attempt_pairs"
  by (simp add: frame_is_for_matches_id_and_attempt_pairs_def)

end
