(* ===== verification/Tests_Session.thy ===== *)
theory Tests_Session
  imports Reconnect
begin

text \<open>
  Tests of \<open>crates/supervisor-core/src/connection/tests.rs\<close> that drive the whole session loop, run on
  the model of the loop: the frames the test's server sends and the terminal frames its fake runners
  lead to are turns, and the assertions are about the frames the loop sent and the status it published.
  The fake runners, the sockets and the directories of the tests are not part of the loop: their
  assertions on processes and directories are not stated here, and a wait of a test is the point in the
  sequence of turns it waits for. The process id in a job id is 7.
\<close>

section \<open>The test's side of the session\<close>

definition long_config :: connection_config where
  "long_config = (config_new ''ws://127.0.0.1:9/ws'' ''test-jwt.token'')
     \<lparr>cc_heartbeat_interval := millis 50, cc_max_connect_attempts := 20,
      cc_connect_retry_delay := millis 50, cc_heartbeat_limit := None, cc_reconnect := False\<rparr>"

definition fast_config :: connection_config where
  "fast_config = (config_new ''ws://127.0.0.1:9/ws'' ''test-jwt.token'')
     \<lparr>cc_heartbeat_interval := millis 50, cc_max_connect_attempts := 20,
      cc_connect_retry_delay := millis 50, cc_heartbeat_limit := Some 2\<rparr>"

definition test_register :: register_message where
  "test_register = \<lparr>reg_tenant = ''driffs'', reg_protocol_version = PROTOCOL_VERSION, reg_operator = None,
     reg_platform = Company, reg_chip = ''test-chip'', reg_ram_gb = 8,
     reg_supervisor_version = ''rust-0.0.1'', reg_payload_version = ''none'',
     reg_capabilities = \<lparr>cap_gpu = False, cap_max_concurrent_jobs = None, cap_os = None, cap_arch = None\<rparr>\<rparr>"

text \<open>A session that has just sent its register frame.\<close>

definition registered_obs :: observability where
  "registered_obs = update_status (set_connection Registered) (channels default_status)"

definition test_run :: "connection_config \<Rightarrow> observability \<Rightarrow> turn list \<Rightarrow> outcome" where
  "test_run cfg obs ts =
     run_session_loop cfg test_register ts (session_start (secs 1000000) cfg (secs 100) [] [] obs)"

definition accepting :: "turn list \<Rightarrow> outcome" where
  "accepting ts = test_run long_config (set_allow_real_jobs True registered_obs) ts"

fun sent_of :: "event list \<Rightarrow> worker_message list" where
  "sent_of [] = []"
| "sent_of (Sent m # es) = m # sent_of es"
| "sent_of (e # es) = sent_of es"

definition sent_frames :: "outcome \<Rightarrow> worker_message list" where
  "sent_frames r = sent_of (ses_trace (fst r))"

definition status_of :: "outcome \<Rightarrow> supervisor_status" where
  "status_of r = borrow_status (ses_obs (fst r))"

definition assign_turn :: "string \<Rightarrow> u32 option \<Rightarrow> turn" where
  "assign_turn jid att = frame_turn (JobAssign (job_of jid att))"

definition cancel_turn :: "string \<Rightarrow> turn" where "cancel_turn jid = frame_turn (cancel_of_job jid)"

definition close_turn :: turn where "close_turn = quiet_turn\<lparr>tu_stream := Some (FClose None)\<rparr>"

fun is_failed :: "worker_message \<Rightarrow> bool" where "is_failed (JobFailed f) = True" | "is_failed _ = False"
fun is_complete :: "worker_message \<Rightarrow> bool" where "is_complete (JobComplete f) = True" | "is_complete _ = False"
fun is_ack :: "worker_message \<Rightarrow> bool" where "is_ack (JobCanceledAck f) = True" | "is_ack _ = False"
fun is_accepted :: "worker_message \<Rightarrow> bool" where "is_accepted (JobAccepted f) = True" | "is_accepted _ = False"
fun is_heartbeat :: "worker_message \<Rightarrow> bool" where "is_heartbeat (Heartbeat f) = True" | "is_heartbeat _ = False"

section \<open>Cancels\<close>

definition cancel_then_render_abort_suppresses_job_failed :: bool where
  "cancel_then_render_abort_suppresses_job_failed \<longleftrightarrow>
     (let j = ''job-cancel-suppress-7'';
          ts = [assign_turn j None, cancel_turn j, task_turn 0 (failed_of j None)];
          waited = accepting ts; closed = accepting (ts @ [close_turn])
      in ss_jobs_canceled (status_of waited) = 1 \<and> ss_current_job (status_of waited) = None
         \<and> snd closed = Some DClean \<and> \<not> list_ex is_failed (sent_frames closed))"

definition cancel_after_runner_done_suppresses_job_complete :: bool where
  "cancel_after_runner_done_suppresses_job_complete \<longleftrightarrow>
     (let j = ''job-cancel-complete-7'';
          ts = [assign_turn j None, cancel_turn j, task_turn 0 (complete_of j None)];
          waited = accepting ts; closed = accepting (ts @ [close_turn])
      in ss_jobs_canceled (status_of waited) = 1 \<and> ss_current_job (status_of waited) = None
         \<and> snd closed = Some DClean \<and> \<not> list_ex is_complete (sent_frames closed))"

definition cancel_after_done_race_sends_no_ack :: bool where
  "cancel_after_done_race_sends_no_ack \<longleftrightarrow>
     (let j = ''job-cancel-ack-done-7'';
          ts = [assign_turn j None, cancel_turn j, task_turn 0 (complete_of j None)];
          waited = accepting ts; closed = accepting (ts @ [close_turn])
      in ss_jobs_canceled (status_of waited) = 1 \<and> ss_current_job (status_of waited) = None
         \<and> \<not> list_ex is_complete (sent_frames closed) \<and> \<not> list_ex is_ack (sent_frames closed))"

definition cancel_ack_defaults_attempt_one_for_attemptless_lease :: bool where
  "cancel_ack_defaults_attempt_one_for_attemptless_lease \<longleftrightarrow>
     (let j = ''job-cancel-ack-noattempt-7'';
          sent = sent_frames (accepting [assign_turn j None, cancel_turn j, task_turn 0 (failed_of j None)])
      in case filter is_ack sent of
           [JobCanceledAck a] \<Rightarrow> ack_attempt a = 1 \<and> ack_job_id a = j \<and> ack_teardown_ms a \<noteq> None
         | _ \<Rightarrow> False)"

definition genuine_failure_without_cancel_emits_job_failed :: bool where
  "genuine_failure_without_cancel_emits_job_failed \<longleftrightarrow>
     (let j = ''job-genuine-failure-7'';
          exploded = JobFailed \<lparr>fld_tenant = ''driffs'', fld_job_id = j, fld_attempt = None,
                       fld_reason = ''render exploded''\<rparr>;
          closed = accepting [assign_turn j None, task_turn 0 exploded, close_turn]
      in (case filter is_failed (sent_frames closed) of
            [JobFailed f] \<Rightarrow> fld_job_id f = j \<and> fld_reason f = ''render exploded''
          | _ \<Rightarrow> False)
         \<and> snd closed = Some DClean)"

lemmas test_eval = test_run_def accepting_def registered_obs_def sent_frames_def status_of_def assign_turn_def
  cancel_turn_def close_turn_def long_config_def fast_config_def test_register_def
  borrow_status_def run_eval cancel_ack_for_def unwrap_or_def remove_at_def

lemma cancel_tests_pass:
  "cancel_then_render_abort_suppresses_job_failed" "cancel_after_runner_done_suppresses_job_complete"
  "cancel_after_done_race_sends_no_ack" "cancel_ack_defaults_attempt_one_for_attemptless_lease"
  "genuine_failure_without_cancel_emits_job_failed"
  by (simp_all add: cancel_then_render_abort_suppresses_job_failed_def
      cancel_after_runner_done_suppresses_job_complete_def cancel_after_done_race_sends_no_ack_def
      cancel_ack_defaults_attempt_one_for_attemptless_lease_def
      genuine_failure_without_cancel_emits_job_failed_def test_eval Let_def del: server_to_json.simps)

definition at_turn :: "instant \<Rightarrow> turn \<Rightarrow> turn" where
  "at_turn now t = t\<lparr>tu_now := now, tu_later := now\<rparr>"

text \<open>The runner ignores the signal: its terminal frame comes ten seconds after the cancel.\<close>

definition cancel_ack_sent_once_after_teardown_not_on_receipt :: bool where
  "cancel_ack_sent_once_after_teardown_not_on_receipt \<longleftrightarrow>
     (let j = ''job-cancel-ack-7'';
          early = [at_turn (secs 100) (assign_turn j (Some 2)), at_turn (secs 105) (cancel_turn j),
                   at_turn (secs 107) heartbeat_turn];
          late = early @ [at_turn (secs 115) (task_turn 0 (failed_of j (Some 2)))];
          closed = accepting (late @ [close_turn])
      in \<not> list_ex is_ack (sent_frames (accepting early))
         \<and> ss_jobs_canceled (status_of (accepting late)) = 1
         \<and> ss_current_job (status_of (accepting late)) = None
         \<and> (case filter is_ack (sent_frames closed) of
              [JobCanceledAck a] \<Rightarrow> ack_job_id a = j \<and> ack_tenant a = ''driffs'' \<and> ack_attempt a = 2
                \<and> (case ack_teardown_ms a of None \<Rightarrow> False | Some ms \<Rightarrow> 9000 \<le> ms \<and> ms < 25000)
            | _ \<Rightarrow> False)
         \<and> \<not> list_ex is_failed (sent_frames closed))"

definition late_attempt1_terminal_frame_leaves_attempt2_in_flight :: bool where
  "late_attempt1_terminal_frame_leaves_attempt2_in_flight \<longleftrightarrow>
     (let j = ''job-attempt-guard-7'';
          ts = [assign_turn j (Some 1), cancel_turn j, assign_turn j (Some 2), task_turn 0 (failed_of j (Some 1))];
          third = accepting (ts @ [assign_turn ''job-guard-third'' None, quiet_turn]);
          frames = filter (\<lambda>m. \<not> is_heartbeat m \<and> \<not> is_ack m) (sent_frames third)
      in ss_jobs_canceled (status_of (accepting ts)) = 1
         \<and> map_option js_id (ss_current_job (status_of (accepting ts))) = Some j
         \<and> (case frames of
              [JobAccepted a1, JobAccepted a2, JobRejected r] \<Rightarrow>
                acc_attempt a1 = Some 1 \<and> acc_attempt a2 = Some 2 \<and> rej_reason r = Busy
            | _ \<Rightarrow> False))"

lemma late_terminal_tests_pass:
  "cancel_ack_sent_once_after_teardown_not_on_receipt" "late_attempt1_terminal_frame_leaves_attempt2_in_flight"
  by (simp_all add: cancel_ack_sent_once_after_teardown_not_on_receipt_def at_turn_def
      late_attempt1_terminal_frame_leaves_attempt2_in_flight_def test_eval Let_def del: server_to_json.simps)

section \<open>Assignments\<close>

definition ping_turn :: turn where "ping_turn = frame_turn (Ping \<lparr>ping_tenant = ''driffs''\<rparr>)"

text \<open>A rejection goes through the worker channel: one more turn sends it.\<close>

definition delivers_server_messages_and_does_not_accept_jobs :: bool where
  "delivers_server_messages_and_does_not_accept_jobs \<longleftrightarrow>
     (let r = test_run fast_config default_observability
            [ping_turn, assign_turn ''job-render-x'' None, quiet_turn, heartbeat_turn, heartbeat_turn];
          sent = sent_frames r
      in snd r = Some DHeartbeatLimit \<and> \<not> list_ex is_accepted sent
         \<and> length (filter (\<lambda>m. case m of JobRejected x \<Rightarrow> True | _ \<Rightarrow> False) sent) = 1
         \<and> list_all (\<lambda>m. is_heartbeat m \<or> (case m of JobRejected x \<Rightarrow> True | _ \<Rightarrow> False)) sent)"

definition rejects_with_reason_and_attempt_when_not_accepting :: bool where
  "rejects_with_reason_and_attempt_when_not_accepting \<longleftrightarrow>
     (let r = test_run fast_config default_observability
            [assign_turn ''job-render-x'' (Some 3), quiet_turn, heartbeat_turn, heartbeat_turn]
      in case filter (\<lambda>m. case m of JobRejected x \<Rightarrow> True | _ \<Rightarrow> False) (sent_frames r) of
           [JobRejected x] \<Rightarrow> rej_job_id x = ''job-render-x'' \<and> rej_attempt x = Some 3
             \<and> rej_reason x = NotAccepting \<and> rej_tenant x = ''driffs''
         | _ \<Rightarrow> False)"

text \<open>The warning in the operator's log is not part of the model.\<close>

definition obs_receives_job_assign_warning_when_jobs_disabled :: bool where
  "obs_receives_job_assign_warning_when_jobs_disabled \<longleftrightarrow>
     (let ts = [assign_turn ''job-refused-1'' None, quiet_turn]
      in ss_current_job (status_of (test_run fast_config registered_obs ts)) = None
         \<and> snd (test_run fast_config registered_obs (ts @ [heartbeat_turn, heartbeat_turn]))
             = Some DHeartbeatLimit)"

definition runtime_toggle_accepts_jobs :: bool where
  "runtime_toggle_accepts_jobs \<longleftrightarrow>
     (let r = test_run fast_config registered_obs
            [assign_turn ''job-1'' None, quiet_turn, allow_turn, heartbeat_turn, heartbeat_turn]
      in \<not> allows_real_jobs registered_obs \<and> allows_real_jobs (ses_obs (fst r))
         \<and> \<not> list_ex is_accepted (sent_frames r))"

lemma assign_tests_pass:
  "delivers_server_messages_and_does_not_accept_jobs" "rejects_with_reason_and_attempt_when_not_accepting"
  "obs_receives_job_assign_warning_when_jobs_disabled" "runtime_toggle_accepts_jobs"
  by (simp_all add: delivers_server_messages_and_does_not_accept_jobs_def ping_turn_def
      rejects_with_reason_and_attempt_when_not_accepting_def default_observability_def
      obs_receives_job_assign_warning_when_jobs_disabled_def runtime_toggle_accepts_jobs_def
      test_eval Let_def del: server_to_json.simps)

section \<open>The life of a session\<close>

definition registers_heartbeats_and_closes_cleanly :: bool where
  "registers_heartbeats_and_closes_cleanly \<longleftrightarrow>
     (let r = test_run fast_config default_observability [heartbeat_turn, heartbeat_turn]
      in map_option hs_authorization (case handshake_request (\<lambda>u. True) (\<lambda>h. True) fast_config of
             Inr h \<Rightarrow> Some h | Inl e \<Rightarrow> None) = Some ''Bearer test-jwt.token''
         \<and> (case worker_to_json (Register test_register) of
              JObj kvs \<Rightarrow> map_of kvs ''type'' = Some (JStr ''register'')
                \<and> map_of kvs ''protocolVersion'' = Some (json_u32 2)
                \<and> map_of kvs ''platform'' = Some (JStr ''company'') \<and> map_of kvs ''operator'' = Some JNull
            | _ \<Rightarrow> False)
         \<and> list_all (\<lambda>m. case m of Heartbeat h \<Rightarrow> hb_current_job_count h = 0 \<and> hb_tenant h = ''driffs''
                       | _ \<Rightarrow> False) (sent_frames r)
         \<and> length (sent_frames r) = 2 \<and> snd r = Some DHeartbeatLimit)"

definition update_notice_hands_back_only_after_idle_quiet_and_closes_socket :: bool where
  "update_notice_hands_back_only_after_idle_quiet_and_closes_socket \<longleftrightarrow>
     (let cfg = long_config\<lparr>cc_auto_upgrade := Some \<lparr>aup_quiet_period = millis 40,
            aup_suppressed_version = None, aup_suppressed_for = None\<rparr>\<rparr>;
          tick = quiet_turn\<lparr>tu_tick := True\<rparr>;
          r = test_run cfg (set_auto_upgrade_enabled True registered_obs)
            [frame_turn (UpdateAvailable \<lparr>upd_tenant = ''driffs'', upd_supervisor_version = ''rust-0.0.12'',
               upd_payload_version = ''none''\<rparr>),
             at_turn (secs 100) tick, at_turn (secs 100 + millis 40) tick]
      in SentClose \<in> set (ses_trace (fst r)) \<and> snd r = Some (DAutoUpgrade ''rust-0.0.12''))"

text \<open>Up to the register frame the two tests run the connect sequence; its state is where the loop starts.\<close>

definition obs_tracks_connection_state_transitions :: bool where
  "obs_tracks_connection_state_transitions \<longleftrightarrow>
     (let r = test_run long_config registered_obs [close_turn]
      in ss_connection (borrow_status registered_obs) = Registered
         \<and> ss_connection (status_of r) = Disconnected \<and> snd r = Some DClean)"

definition shutdown_signal_closes_socket_gracefully :: bool where
  "shutdown_signal_closes_socket_gracefully \<longleftrightarrow>
     (let r = test_run long_config registered_obs [heartbeat_turn, shutdown_turn]
      in ss_connection (status_of (test_run long_config registered_obs [heartbeat_turn])) = Registered
         \<and> ss_connection (status_of r) = Disconnected \<and> SentClose \<in> set (ses_trace (fst r))
         \<and> snd r = Some DShutdown)"

lemma session_life_tests_pass:
  "registers_heartbeats_and_closes_cleanly"
  "update_notice_hands_back_only_after_idle_quiet_and_closes_socket"
  "obs_tracks_connection_state_transitions" "shutdown_signal_closes_socket_gracefully"
  by (simp_all add: registers_heartbeats_and_closes_cleanly_def handshake_request_def PROTOCOL_VERSION_def
      update_notice_hands_back_only_after_idle_quiet_and_closes_socket_def at_turn_def
      obs_tracks_connection_state_transitions_def shutdown_signal_closes_socket_gracefully_def
      default_observability_def set_auto_upgrade_enabled_def auto_upgrade_enabled_def announce_def
      gate_observe_def target_suppressed_def ready_def session_idle_def test_eval Let_def
      del: server_to_json.simps) (simp_all add: null_none_def word_le_nat_alt)

section \<open>A socket that dies under a running job\<close>

text \<open>What the loop owes the job: it is signalled and awaited before the session ends.\<close>

definition send_failure_with_in_flight_job_still_drains_and_purges :: bool where
  "send_failure_with_in_flight_job_still_drains_and_purges \<longleftrightarrow>
     (let r = accepting [assign_turn ''job-sendfail-drain-7'' None,
            quiet_turn\<lparr>tu_stream := Some (StreamErr ''Connection reset'')\<rparr>];
          trace = ses_trace (fst r)
      in snd r = Some DAbnormal \<and> ses_in_flight (fst r) = None
         \<and> CancelSent 0 \<in> set trace \<and> last trace = Joined 0 (Some OutFailed))"

definition upgrade_required_close_mid_grace_still_drains :: bool where
  "upgrade_required_close_mid_grace_still_drains \<longleftrightarrow>
     (let j = ''job-upgrade-drain-7'';
          r = accepting [assign_turn j None, cancel_turn j,
            quiet_turn\<lparr>tu_stream := Some (FClose (Some ''upgrade-required: protocol 3 or newer''))\<rparr>]
      in snd r = Some DUpgradeRequired \<and> ses_draining (fst r) = []
         \<and> last (ses_trace (fst r)) = Joined 0 (Some OutFailed))"

lemma dying_socket_tests_pass:
  "send_failure_with_in_flight_job_still_drains_and_purges" "upgrade_required_close_mid_grace_still_drains"
  by (simp_all add: send_failure_with_in_flight_job_still_drains_and_purges_def
      upgrade_required_close_mid_grace_still_drains_def starts_with_def test_eval Let_def
      del: server_to_json.simps)

section \<open>The reconnect loop\<close>

definition refused :: connect_try where
  "refused = \<lparr>ct_shutdown = False, ct_result = ConnErr ''Connection refused'', ct_shutdown_in_retry = False\<rparr>"

definition connected :: connect_try where
  "connected = \<lparr>ct_shutdown = False, ct_result = ConnOk, ct_shutdown_in_retry = False\<rparr>"

definition test_session :: "connect_try list \<Rightarrow> turn list \<Rightarrow> session_input" where
  "test_session tries ts = \<lparr>si_tries = tries, si_register_ok = True, si_flush_ok = (\<lambda>k. True),
     si_now = secs 100, si_turns = ts, si_elapsed = secs 1, si_shutdown_in_backoff = False\<rparr>"

definition test_process :: "connection_config \<Rightarrow> observability \<Rightarrow> session_input list \<Rightarrow> run_state \<times> run_result" where
  "test_process cfg obs inps =
     run_until_exit (\<lambda>u. True) (\<lambda>h. True) (secs 1000000) cfg test_register None inps obs"

definition process_frames :: "run_state \<times> run_result \<Rightarrow> worker_message list" where
  "process_frames r = sent_of (rs_log (fst r))"

definition an_http_401_at_connect_is_an_auth_failure_not_unreachable :: bool where
  "an_http_401_at_connect_is_an_auth_failure_not_unreachable \<longleftrightarrow>
     (let cfg = (config_new ''ws://127.0.0.1:9/ws'' ''test-jwt.token'')
            \<lparr>cc_max_connect_attempts := 20, cc_connect_retry_delay := millis 200\<rparr>
      in case snd (test_process cfg default_observability
              [test_session [connected\<lparr>ct_result := ConnHttp 401 ''HTTP error: 401''\<rparr>] []]) of
           RunError msg \<Rightarrow> sublist ''credentials'' msg \<and> sublist ''401'' msg \<and> \<not> sublist ''unreachable'' msg
         | _ \<Rightarrow> False)"

definition shutdown_during_connect_retries_exits_cleanly :: bool where
  "shutdown_during_connect_retries_exits_cleanly \<longleftrightarrow>
     (let cfg = fast_config\<lparr>cc_max_connect_attempts := 1000, cc_connect_retry_delay := millis 20\<rparr>
      in run_result_unit (snd (test_process cfg default_observability
           [test_session [refused, refused, refused\<lparr>ct_shutdown_in_retry := True\<rparr>] []])) = Some (Inr ()))"

definition retries_initial_connect_until_dispatch_is_up :: bool where
  "retries_initial_connect_until_dispatch_is_up \<longleftrightarrow>
     (let r = test_process fast_config default_observability
            [test_session [refused, refused, connected] [heartbeat_turn, heartbeat_turn]]
      in hd (process_frames r) = Register test_register \<and> run_result_unit (snd r) = Some (Inr ()))"

definition reconnecting_config :: connection_config where
  "reconnecting_config = long_config\<lparr>cc_reconnect := True, cc_reconnect_backoff_base := millis 50,
     cc_reconnect_backoff_max := secs 1\<rparr>"

definition clean_server_close_reconnects_instead_of_exiting :: bool where
  "clean_server_close_reconnects_instead_of_exiting \<longleftrightarrow>
     (let r = test_process reconnecting_config (channels default_status)
            [test_session [connected] [close_turn], test_session [connected] []]
      in snd r = RunGoing \<and> process_frames r = [Register test_register, Register test_register])"

definition hard_socket_abort_reconnects_instead_of_exiting :: bool where
  "hard_socket_abort_reconnects_instead_of_exiting \<longleftrightarrow>
     (let abort = quiet_turn\<lparr>tu_stream := Some (StreamErr ''Connection reset by peer'')\<rparr>;
          r = test_process reconnecting_config (channels default_status)
            [test_session [connected] [abort], test_session [connected] [abort], test_session [connected] []]
      in snd r = RunGoing \<and> process_frames r = replicate 3 (Register test_register))"

text \<open>The runner ignores the signal: the drain joins its task ten seconds after the cancel.\<close>

definition disconnect_mid_teardown_flushes_ack_after_reconnect :: bool where
  "disconnect_mid_teardown_flushes_ack_after_reconnect \<longleftrightarrow>
     (let j = ''job-cancel-ack-drain-7'';
          cfg = reconnecting_config\<lparr>cc_reconnect_backoff_max := millis 300\<rparr>;
          r = test_process cfg (set_allow_real_jobs True (channels default_status))
            [test_session [connected] [assign_turn j (Some 1), cancel_turn j, close_turn],
             test_session [connected] [shutdown_turn]];
          second = drop 1 (dropWhile (\<lambda>m. m \<noteq> Register test_register) (drop 1 (process_frames r)))
      in run_result_unit (snd r) = Some (Inr ())
         \<and> (case second of
              [JobCanceledAck a] \<Rightarrow> ack_job_id a = j \<and> ack_attempt a = 1
                \<and> (case ack_teardown_ms a of None \<Rightarrow> False | Some ms \<Rightarrow> 9000 \<le> ms)
            | _ \<Rightarrow> False))"

lemmas process_eval = test_process_def test_session_def process_frames_def refused_def connected_def
  reconnecting_config_def default_observability_def reconnect_eval test_eval

lemma connect_tests_pass:
  "shutdown_during_connect_retries_exits_cleanly" "retries_initial_connect_until_dispatch_is_up"
  by (simp_all add: shutdown_during_connect_retries_exits_cleanly_def word_less_nat_alt
      retries_initial_connect_until_dispatch_is_up_def process_eval Let_def)

lemma auth_test_passes: "an_http_401_at_connect_is_an_auth_failure_not_unreachable"
  by (simp add: an_http_401_at_connect_is_an_auth_failure_not_unreachable_def process_eval Let_def
      auth_rejection_msg_def rejection_status_def sublist_code)

lemma reconnect_tests_pass:
  "clean_server_close_reconnects_instead_of_exiting" "hard_socket_abort_reconnects_instead_of_exiting"
  by (simp_all add: clean_server_close_reconnects_instead_of_exiting_def numeral_3_eq_3
      hard_socket_abort_reconnects_instead_of_exiting_def process_eval Let_def)

lemma flush_test_passes: "disconnect_mid_teardown_flushes_ack_after_reconnect"
  by (simp add: disconnect_mid_teardown_flushes_ack_after_reconnect_def process_eval Let_def
      del: server_to_json.simps)

end
