(* ===== verification/Tests_Fetch.thy ===== *)
theory Tests_Fetch
  imports Artifact_Fetch
begin

text \<open>
  Unit tests of \<open>crates/supervisor-core/src/artifact_fetch.rs\<close> run on the model: the caps of the
  download at their boundary, the size gate of the extraction and the constants. A response is what the
  test's server answers; the digest stays any function. The tests of the timeouts of the HTTP client and
  of what \<open>tar\<close> does with hostile members are about code outside the repository.
\<close>

definition TEST_CAP :: nat where "TEST_CAP = 4 * 1024 * 1024"
definition chunk :: nat where "chunk = 1024 * 1024"
definition zeros :: "nat \<Rightarrow> u8 list" where "zeros n = replicate n 0"

text \<open>\<open>sent\<close> bytes of zeros in pieces; the test asks for a multiple of the piece.\<close>

definition serve_zero_stream :: "nat \<Rightarrow> nat \<Rightarrow> nat option \<Rightarrow> response" where
  "serve_zero_stream sent piece len =
     \<lparr>re_content_length = len,
      re_body = replicate (sent div piece) (Chunk (zeros piece))
        @ (case len of Some n \<Rightarrow> if sent < n then [BodyErr] else [] | None \<Rightarrow> [])\<rparr>"

definition download :: "(u8 list \<Rightarrow> u8 list) \<Rightarrow> response \<Rightarrow> (fetch_error + string) \<times> u8 list option" where
  "download digest r = download_to_file_hashed_capped digest TEST_CAP True (\<lambda>k. True) True (Some r)"

definition content_length_exactly_at_cap_passes_the_preflight :: "(u8 list \<Rightarrow> u8 list) \<Rightarrow> bool" where
  "content_length_exactly_at_cap_passes_the_preflight digest \<longleftrightarrow>
     fst (download digest (serve_zero_stream 0 1024 (Some TEST_CAP))) = Inl BodyReadFailed"

definition content_length_over_cap_is_rejected_by_the_preflight :: "(u8 list \<Rightarrow> u8 list) \<Rightarrow> bool" where
  "content_length_over_cap_is_rejected_by_the_preflight digest \<longleftrightarrow>
     fst (download digest (serve_zero_stream 0 1024 (Some (TEST_CAP + 1)))) = Inl (LengthOverCeiling (TEST_CAP + 1))"

definition streamed_body_exactly_at_cap_is_accepted :: "(u8 list \<Rightarrow> u8 list) \<Rightarrow> bool" where
  "streamed_body_exactly_at_cap_is_accepted digest \<longleftrightarrow>
     (case download digest (serve_zero_stream TEST_CAP chunk None) of
        (sha, dest) \<Rightarrow> sha = Inr (hex_lower (digest (zeros TEST_CAP))) \<and> dest \<noteq> None)"

definition streamed_body_one_chunk_over_the_cap_is_rejected_and_temp_file_removed
  :: "(u8 list \<Rightarrow> u8 list) \<Rightarrow> bool" where
  "streamed_body_one_chunk_over_the_cap_is_rejected_and_temp_file_removed digest \<longleftrightarrow>
     download digest (serve_zero_stream (TEST_CAP + chunk) chunk None) = (Inl OverCeiling, None)"

text \<open>The archive of the last two tests unpacks to one file; a directory with it takes a block.\<close>

definition benign_untar :: "u8 list \<Rightarrow> artifact_dir \<times> bool" where
  "benign_untar bytes = ([''index.html'' \<mapsto> [60, 104, 116, 109, 108, 62]], True)"

definition extract_path_enforces_the_size_ceiling :: bool where
  "extract_path_enforces_the_size_ceiling \<longleftrightarrow>
     snd (extract_tar_capped 1 benign_untar (\<lambda>d. 4096) [] Map.empty) = Some OverExtracted"

definition benign_archive_extracts_and_passes_the_gate :: bool where
  "benign_archive_extracts_and_passes_the_gate \<longleftrightarrow>
     (case extract_tar_capped ARTIFACT_MAX_EXTRACTED_BYTES benign_untar (\<lambda>d. 4096) [] Map.empty of
        (dest, err) \<Rightarrow> err = None \<and> dest ''index.html'' \<noteq> None)"

definition download_caps_are_two_and_four_gib :: bool where
  "download_caps_are_two_and_four_gib \<longleftrightarrow>
     ARTIFACT_MAX_BYTES = 2147483648 \<and> ARTIFACT_MAX_EXTRACTED_BYTES = 4294967296"

lemma zeros_append: "zeros a @ zeros b = zeros (a + b)"
  by (simp add: zeros_def replicate_add)

lemma length_zeros [simp]: "length (zeros n) = n"
  by (simp add: zeros_def)

lemma repeat_counts: "replicate 4 x = [x, x, x, x]" "replicate 5 x = [x, x, x, x, x]"
  by (simp_all add: numeral_eq_Suc)

lemma preflight_tests_pass:
  "content_length_exactly_at_cap_passes_the_preflight digest"
  "content_length_over_cap_is_rejected_by_the_preflight digest"
  by (simp_all add: content_length_exactly_at_cap_passes_the_preflight_def
      content_length_over_cap_is_rejected_by_the_preflight_def download_def serve_zero_stream_def
      download_to_file_hashed_capped_def over_length_def TEST_CAP_def)

lemma streamed_tests_pass:
  "streamed_body_exactly_at_cap_is_accepted digest"
  "streamed_body_one_chunk_over_the_cap_is_rejected_and_temp_file_removed digest"
  by (simp_all add: streamed_body_exactly_at_cap_is_accepted_def download_def serve_zero_stream_def
      streamed_body_one_chunk_over_the_cap_is_rejected_and_temp_file_removed_def
      download_to_file_hashed_capped_def over_length_def TEST_CAP_def chunk_def repeat_counts zeros_append)

lemma extract_tests_pass:
  "extract_path_enforces_the_size_ceiling" "benign_archive_extracts_and_passes_the_gate"
  "download_caps_are_two_and_four_gib"
  by (simp_all add: extract_path_enforces_the_size_ceiling_def benign_archive_extracts_and_passes_the_gate_def
      extract_tar_capped_def benign_untar_def ARTIFACT_MAX_EXTRACTED_BYTES_def
      download_caps_are_two_and_four_gib_def ARTIFACT_MAX_BYTES_def)

end
