(* ===== verification/Tests_Runner.thy ===== *)
theory Tests_Runner
  imports Job_Artifacts
begin

text \<open>
  Unit tests of \<open>crates/supervisor-core/src/runner.rs\<close> run on the model: one definition per test with
  its assertions, and a lemma that it passes. Where a test spawns a process, its pid is 4242, and what
  \<open>ps\<close> and \<open>kill\<close> answer about it is written down; the supervisor has the pid 7.
\<close>

section \<open>Recorded browsers\<close>

definition lines_text :: "string list \<Rightarrow> string" where
  "lines_text ls = concat (map (\<lambda>l. l @ [CHR 0x0A]) ls)"

definition sleeper_start :: string where "sleeper_start = ''Wed Sep 2 01:03:24 2026''"

definition sleeper_ps :: "nat \<Rightarrow> string option" where
  "sleeper_ps pid = (if pid = 4242 then Some (sleeper_start @ [CHR 0x0A]) else None)"

definition killed_by :: "string list \<Rightarrow> nat list" where
  "killed_by ls = kill_recorded_browsers 7 sleeper_ps (\<lambda>pid. pid \<in> {7, 4242}) (Some (lines_text ls))"

definition sweep_skips_unsafe_pids_and_kills_safe_dead_entries_quietly :: bool where
  "sweep_skips_unsafe_pids_and_kills_safe_dead_entries_quietly \<longleftrightarrow>
     killed_by [''0'', ''7'', ''junk'', ''999999999''] = []"

definition pid_lines_parse_pid_and_optional_identity :: bool where
  "pid_lines_parse_pid_and_optional_identity \<longleftrightarrow>
     parse_pid_line ''123'' = Some (123, None)
     \<and> parse_pid_line ''123 Wed Sep  2 01:03:24 2026'' = Some (123, Some ''Wed Sep 2 01:03:24 2026'')
     \<and> parse_pid_line ''  123   '' = Some (123, None) \<and> parse_pid_line ''junk'' = None
     \<and> parse_pid_line [] = None \<and> parse_pid_line ''12x 3'' = None"

definition a_recycled_pid_with_a_different_start_time_is_never_signalled :: bool where
  "a_recycled_pid_with_a_different_start_time_is_never_signalled \<longleftrightarrow>
     killed_by [''4242 Sat Jan 1 00:00:00 2000''] = []"

definition a_pid_whose_start_time_matches_is_group_killed :: bool where
  "a_pid_whose_start_time_matches_is_group_killed \<longleftrightarrow>
     process_start_time sleeper_ps 4242 = Some sleeper_start
     \<and> killed_by [''4242 '' @ sleeper_start] = [4242]"

definition a_legacy_pid_only_line_still_kills_but_is_the_unverified_path :: bool where
  "a_legacy_pid_only_line_still_kills_but_is_the_unverified_path \<longleftrightarrow> killed_by [''4242''] = [4242]"

definition safe_signal_target_rejects_zero_and_self_accepts_others :: bool where
  "safe_signal_target_rejects_zero_and_self_accepts_others \<longleftrightarrow>
     \<not> is_safe_signal_target 0 7 \<and> \<not> is_safe_signal_target 7 7 \<and> is_safe_signal_target 4194304 7"

lemma lines_of_text_list:
  "list_all (\<lambda>l. CHR 0x0A \<notin> set l \<and> (l = [] \<or> last l \<noteq> CHR 0x0D)) ls \<Longrightarrow> lines_of (lines_text ls) = ls"
  by (induction ls) (simp_all add: lines_text_def lines_of_line)

lemmas pid_eval = parse_pid_line_def split_whitespace_def is_ws_def join_words_def parse_uint_def digit_val_def
  u32_bound_def starts_with_def

lemma pid_line_test_passes: "pid_lines_parse_pid_and_optional_identity"
  unfolding pid_lines_parse_pid_and_optional_identity_def by (simp add: pid_eval)

lemma browser_kill_tests_pass:
  "sweep_skips_unsafe_pids_and_kills_safe_dead_entries_quietly"
  "a_recycled_pid_with_a_different_start_time_is_never_signalled"
  "a_pid_whose_start_time_matches_is_group_killed"
  "a_legacy_pid_only_line_still_kills_but_is_the_unverified_path"
  "safe_signal_target_rejects_zero_and_self_accepts_others"
  by (simp_all add: sweep_skips_unsafe_pids_and_kills_safe_dead_entries_quietly_def
      a_recycled_pid_with_a_different_start_time_is_never_signalled_def
      a_pid_whose_start_time_matches_is_group_killed_def
      a_legacy_pid_only_line_still_kills_but_is_the_unverified_path_def
      safe_signal_target_rejects_zero_and_self_accepts_others_def killed_by_def kill_recorded_browsers_def
      lines_of_text_list kill_target_def process_start_time_def sleeper_ps_def sleeper_start_def pid_eval
      is_safe_signal_target_def)

section \<open>The child's environment and the overrides\<close>

definition child_env_drops_everything_not_allowlisted :: bool where
  "child_env_drops_everything_not_allowlisted \<longleftrightarrow>
     map fst (child_env
       [(''PATH'', ''/usr/bin:/bin''), (''HOME'', ''/home/op''), (''WORKER_TOKEN'', ''fleet-credential''),
        (''AWS_SECRET_ACCESS_KEY'', ''aws-secret''), (''GITHUB_TOKEN'', ''gh-token''),
        (''LC_ALL'', ''en_US.UTF-8''), (''XDG_RUNTIME_DIR'', ''/run/user/1000''), (''DECENT_FOO'', ''x'')])
     = [''PATH'', ''HOME'', ''LC_ALL'', ''XDG_RUNTIME_DIR'', ''DECENT_FOO'']"

text \<open>The variables of the child; \<open>SECRET\<close> stands for one the parent process has and does not hand on.\<close>

definition spawned_runner_does_not_see_the_supervisors_secrets :: bool where
  "spawned_runner_does_not_see_the_supervisors_secrets \<longleftrightarrow>
     (let env = apply_child_env [''SECRET'' \<mapsto> ''s'', ''WORKER_TOKEN'' \<mapsto> ''leak'']
            [(''PATH'', ''/usr/bin:/bin''), (''WORKER_TOKEN'', ''leak''), (''HOME'', ''/tmp/p67-env'')]
      in env ''WORKER_TOKEN'' = None \<and> env ''PATH'' \<noteq> None \<and> env ''SECRET'' = None)"

definition workdir_bytes_override_parsing :: bool where
  "workdir_bytes_override_parsing \<longleftrightarrow>
     parse_workdir_bytes_override None = MAX_WORKDIR_BYTES
     \<and> parse_workdir_bytes_override (Some ''not-a-number'') = MAX_WORKDIR_BYTES
     \<and> parse_workdir_bytes_override (Some ''1024'') = MAX_WORKDIR_BYTES
     \<and> parse_workdir_bytes_override (Some ''1048575'') = MAX_WORKDIR_BYTES
     \<and> parse_workdir_bytes_override (Some ''1048576'') = 1024 * 1024
     \<and> parse_workdir_bytes_override (Some ''5368709120'') = 5368709120"

definition job_wall_time_override_parsing :: bool where
  "job_wall_time_override_parsing \<longleftrightarrow>
     parse_job_wall_time_override None = MAX_JOB_WALL_TIME
     \<and> parse_job_wall_time_override (Some ''soon'') = MAX_JOB_WALL_TIME
     \<and> parse_job_wall_time_override (Some ''49'') = MAX_JOB_WALL_TIME
     \<and> parse_job_wall_time_override (Some ''50'') = millis 50
     \<and> parse_job_wall_time_override (Some ''1500'') = millis 1500"

definition job_wall_time_is_one_hour :: bool where
  "job_wall_time_is_one_hour \<longleftrightarrow> MAX_JOB_WALL_TIME = secs 3600"

definition workdir_cap_is_twenty_gib :: bool where
  "workdir_cap_is_twenty_gib \<longleftrightarrow> MAX_WORKDIR_BYTES = 21474836480"

definition silence_and_cancel_windows_are_as_documented :: bool where
  "silence_and_cancel_windows_are_as_documented \<longleftrightarrow> SILENCE_TIMEOUT = secs 120 \<and> CANCEL_GRACE = secs 10"

lemma env_tests_pass:
  "child_env_drops_everything_not_allowlisted" "spawned_runner_does_not_see_the_supervisors_secrets"
  by (simp_all add: child_env_drops_everything_not_allowlisted_def apply_child_env_def child_env_def
      spawned_runner_does_not_see_the_supervisors_secrets_def env_allowed_def ENV_EXACT_def ENV_PREFIXES_def
      starts_with_def Let_def)

lemma override_tests_pass:
  "workdir_bytes_override_parsing" "job_wall_time_override_parsing" "job_wall_time_is_one_hour"
  "workdir_cap_is_twenty_gib" "silence_and_cancel_windows_are_as_documented"
  by (simp_all add: workdir_bytes_override_parsing_def job_wall_time_override_parsing_def
      parse_workdir_bytes_override_def parse_job_wall_time_override_def parse_uint_def digit_val_def
      u64_bound_def starts_with_def MAX_WORKDIR_BYTES_def MAX_JOB_WALL_TIME_def
      job_wall_time_is_one_hour_def workdir_cap_is_twenty_gib_def SILENCE_TIMEOUT_def CANCEL_GRACE_def
      silence_and_cancel_windows_are_as_documented_def)

section \<open>The runner's output and the frames made of it\<close>

definition progress_forwarding_carries_measurements_untouched :: bool where
  "progress_forwarding_carries_measurements_untouched \<longleftrightarrow>
     (case progress_to_wire ''driffs'' ''job-1'' (Some 2) (1 / 2) (Some 8453) (Some 105) of
        JobProgress f \<Rightarrow>
          prg_tenant f = ''driffs'' \<and> prg_job_id f = ''job-1'' \<and> prg_attempt f = Some 2
          \<and> prg_progress f = 1 / 2 \<and> prg_elapsed_ms f = Some 8453 \<and> prg_frames_so_far f = Some 105
          \<and> (case worker_to_json (JobProgress f) of
               JObj kvs \<Rightarrow> map_of kvs ''type'' = Some (JStr ''jobProgress'')
                 \<and> map_of kvs ''elapsedMs'' = Some (JInt 8453) \<and> map_of kvs ''framesSoFar'' = Some (JInt 105)
             | _ \<Rightarrow> False)
      | _ \<Rightarrow> False)
     \<and> (case worker_to_json (progress_to_wire ''driffs'' ''job-2'' None (1 / 4) None None) of
          JObj kvs \<Rightarrow> map_of kvs ''elapsedMs'' = None \<and> map_of kvs ''framesSoFar'' = None
        | _ \<Rightarrow> False)"

fun event_tag :: "runner_event \<Rightarrow> string" where
  "event_tag (RProgress p e f) = ''progress''"
| "event_tag RHeartbeat = ''heartbeat''"
| "event_tag (RDone sz w m) = ''done''"
| "event_tag (RError m) = ''error''"

text \<open>The cases of \<open>packages/protocol/fixtures/runner-stdout-v1.json\<close>, shared with the TypeScript side.\<close>

definition stdout_accepts :: "(string \<times> json) list list" where
  "stdout_accepts =
     [[(''type'', JStr ''progress''), (''progress'', JInt 0)],
      [(''type'', JStr ''progress''), (''progress'', JFloat (1 / 2))],
      [(''type'', JStr ''progress''), (''progress'', JInt 1)],
      [(''type'', JStr ''progress''), (''progress'', JFloat (35 / 100)), (''elapsedMs'', JInt 8453),
       (''framesSoFar'', JInt 105)],
      [(''type'', JStr ''progress''), (''progress'', JFloat (1 / 10)), (''elapsedMs'', JInt 2117)],
      [(''type'', JStr ''heartbeat'')],
      [(''type'', JStr ''done''), (''outputSizeInBytes'', JInt 1234567), (''wallTimeMs'', JInt 48123),
       (''metrics'', JObj [(''wallMs'', JInt 48123), (''frames'', JInt 900), (''outputSizeInBytes'', JInt 1234567)])],
      [(''type'', JStr ''done''), (''outputSizeInBytes'', JInt 2048), (''wallTimeMs'', JInt 912)],
      [(''type'', JStr ''error''), (''message'', JStr ''Render timed out: no progress for 120s'')]]"

definition stdout_rejects :: "json list" where
  "stdout_rejects =
     [JObj [(''type'', JStr ''crash''), (''exitCode'', JInt 3)],
      JObj [(''type'', JStr ''progress''), (''progress'', JFloat (3 / 2))],
      JObj [(''type'', JStr ''progress''), (''progress'', JFloat (- 1 / 10))],
      JObj [(''type'', JStr ''progress''), (''progress'', JFloat (4 / 10)), (''elapsedMs'', JInt (- 3))],
      JObj [(''type'', JStr ''progress''), (''progress'', JFloat (4 / 10)), (''framesSoFar'', JFloat (5 / 2))],
      JObj [(''type'', JStr ''progress''), (''progress'', JFloat (4 / 10)), (''framesSoFar'', JStr ''120'')],
      JObj [(''type'', JStr ''done''), (''wallTimeMs'', JInt 100)],
      JObj [(''type'', JStr ''error'')],
      JStr ''chatter via console.log'']"

definition runner_stdout_fixtures_round_trip :: bool where
  "runner_stdout_fixtures_round_trip \<longleftrightarrow>
     list_all (\<lambda>kvs. case runner_event_of (JObj kvs) of
         Inl e \<Rightarrow> False | Inr ev \<Rightarrow> map_of kvs ''type'' = Some (JStr (event_tag ev))) stdout_accepts
     \<and> list_all (\<lambda>wire. isl (runner_event_of wire)) stdout_rejects"

definition forwarded_job :: job_assign_message where
  "forwarded_job = sample_assign\<lparr>ja_job_id := ''job-f2c-7'', ja_attempt := Some 3\<rparr>"

text \<open>The script prints three progress lines and \<open>done\<close>, and its output ends.\<close>

definition read_loop_forwards_runner_progress_lines_to_the_wire_untouched :: bool where
  "read_loop_forwards_runner_progress_lines_to_the_wire_untouched \<longleftrightarrow>
     (let line = (\<lambda>kvs. LLine (Some (JObj kvs)));
          frame = progress_to_wire ''driffs'' ''job-f2c-7'' (Some 3)
      in case job_loop forwarded_job (secs 120) (2 ^ 63)
             [line [(''type'', JStr ''progress''), (''progress'', JFloat (35 / 100)), (''elapsedMs'', JInt 8453),
                (''framesSoFar'', JInt 105)],
              line [(''type'', JStr ''progress''), (''progress'', JFloat (1 / 10)), (''elapsedMs'', JInt 2117)],
              line [(''type'', JStr ''progress''), (''progress'', JFloat (3 / 4))],
              line [(''type'', JStr ''done''), (''outputSizeInBytes'', JInt 2048), (''wallTimeMs'', JInt 912)],
              LEof] None of
           (Some (OutputEnded (Some m)), frames) \<Rightarrow>
             frames = [frame (35 / 100) (Some 8453) (Some 105), frame (1 / 10) (Some 2117) None,
                       frame (3 / 4) None None]
             \<and> met_output_size_in_bytes m = Some 2048
         | _ \<Rightarrow> False)"

lemma forwarding_test_passes: "progress_forwarding_carries_measurements_untouched"
  by (simp add: progress_forwarding_carries_measurements_untouched_def progress_to_wire_def skip_none_def
      json_u64_def)

lemma fixture_test_passes: "runner_stdout_fixtures_round_trip"
  by code_simp

lemma read_loop_test_passes: "read_loop_forwards_runner_progress_lines_to_the_wire_untouched"
  by (simp add: read_loop_forwards_runner_progress_lines_to_the_wire_untouched_def runner_event_of_def
      req_def opt_def forwarded_job_def sample_assign_def done_metrics_of_def unit_interval_def Let_def)

section \<open>The browser of a job\<close>

definition scratch_dir :: "string list" where "scratch_dir = [''tmp'', ''decent-browser-test'']"

definition resolves_a_nested_browser_from_the_manifest :: bool where
  "resolves_a_nested_browser_from_the_manifest \<longleftrightarrow>
     (let chrome = [''mac-arm64'', ''Chrome.app'', ''Contents'', ''MacOS'', ''chrome'']
      in browser_executable_in scratch_dir (Some (''mac-arm64/Chrome.app/Contents/MacOS/chrome'' @ [CHR 0x0A]))
           (\<lambda>p. p = scratch_dir @ chrome) = Inr (scratch_dir @ chrome))"

definition rejects_a_manifest_that_escapes_the_artifact :: bool where
  "rejects_a_manifest_that_escapes_the_artifact \<longleftrightarrow>
     browser_executable_in scratch_dir (Some (''../../../../bin/sh'' @ [CHR 0x0A])) (\<lambda>p. False) = Inl ManifestEscapes"

definition rejects_an_absolute_manifest :: bool where
  "rejects_an_absolute_manifest \<longleftrightarrow>
     browser_executable_in scratch_dir (Some (''/bin/sh'' @ [CHR 0x0A])) (\<lambda>p. False) = Inl ManifestEscapes"

definition rejects_an_empty_manifest :: bool where
  "rejects_an_empty_manifest \<longleftrightarrow>
     browser_executable_in scratch_dir (Some (''   '' @ [CHR 0x0A])) (\<lambda>p. False) = Inl ManifestEmpty"

definition rejects_a_manifest_pointing_at_a_missing_file :: bool where
  "rejects_a_manifest_pointing_at_a_missing_file \<longleftrightarrow>
     browser_executable_in scratch_dir (Some (''chrome/does-not-exist'' @ [CHR 0x0A])) (\<lambda>p. False)
       = Inl ManifestDangling"

text \<open>Whatever the network and the caches answer, they are not asked.\<close>

definition no_browser_in_assignment_resolves_to_none :: "fill_env \<Rightarrow> artifact_stores \<Rightarrow> bool" where
  "no_browser_in_assignment_resolves_to_none env st \<longleftrightarrow>
     fst (ensure_browser (\<lambda>b. None) (\<lambda>t p. False)
       (sample_assign\<lparr>ja_browser_sha256 := None, ja_browser_get_url := None\<rparr>) env st) = Inr None"

definition a_half_specified_browser_is_ignored :: "fill_env \<Rightarrow> artifact_stores \<Rightarrow> bool" where
  "a_half_specified_browser_is_ignored env st \<longleftrightarrow>
     fst (ensure_browser (\<lambda>b. None) (\<lambda>t p. False)
       (sample_assign\<lparr>ja_browser_sha256 := Some ''abc'', ja_browser_get_url := None\<rparr>) env st) = Inr None"

lemma manifest_tests_pass:
  "resolves_a_nested_browser_from_the_manifest" "rejects_a_manifest_that_escapes_the_artifact"
  "rejects_an_absolute_manifest" "rejects_an_empty_manifest" "rejects_a_manifest_pointing_at_a_missing_file"
  by (simp_all add: resolves_a_nested_browser_from_the_manifest_def rejects_an_absolute_manifest_def
      rejects_a_manifest_that_escapes_the_artifact_def rejects_an_empty_manifest_def scratch_dir_def
      rejects_a_manifest_pointing_at_a_missing_file_def browser_executable_in_def trim_def is_ws_def
      is_absolute_def starts_with_def path_parts_def)

lemma no_browser_tests_pass:
  "no_browser_in_assignment_resolves_to_none env st" "a_half_specified_browser_is_ignored env st"
  by (simp_all add: no_browser_in_assignment_resolves_to_none_def a_half_specified_browser_is_ignored_def
      ensure_browser_def)

section \<open>Downloads and the walk\<close>

text \<open>The digest is any function that tells the claimed bytes from the tarball's.\<close>

definition runner_tarball :: "u8 list" where "runner_tarball = [31, 139, 8]"

definition payload_env :: "(u8 list \<Rightarrow> u8 list) \<Rightarrow> fill_env" where
  "payload_env digest =
     \<lparr>fe_mkdir_parent = True, fe_rm_tmp = True, fe_mkdir_tmp = True,
      fe_fetch = download_to_file_hashed digest True (\<lambda>k. True) True
        (Some \<lparr>re_content_length = Some (length runner_tarball), re_body = [Chunk runner_tarball]\<rparr>),
      fe_untar = (\<lambda>b. ([''decent-render-runner'' \<mapsto> [35, 33]], True)), fe_du = (\<lambda>d. 8192),
      fe_rm_tar = True, fe_rm_dir = True, fe_rename = True, fe_touch = Some [49]\<rparr>"

definition sha_mismatch_downloads_are_rejected_and_not_cached :: "(u8 list \<Rightarrow> u8 list) \<Rightarrow> bool" where
  "sha_mismatch_downloads_are_rejected_and_not_cached digest \<longleftrightarrow>
     (let claimed = hex_lower (digest [110, 111, 116])
      in case ensure_artifact claimed ''decent-render-runner'' (payload_env digest) Map.empty of
           (r, store) \<Rightarrow> r = Inl ShaMismatch \<and> store claimed = None \<and> store (tmp_name claimed) = None)"

definition sha_match_downloads_are_cached :: "(u8 list \<Rightarrow> u8 list) \<Rightarrow> bool" where
  "sha_match_downloads_are_cached digest \<longleftrightarrow>
     (let sha = hex_lower (digest runner_tarball)
      in case ensure_artifact sha ''decent-render-runner'' (payload_env digest) Map.empty of
           (r, store) \<Rightarrow> r = Inr sha \<and> has_file ''decent-render-runner'' (store sha))"

fun leaf_chain :: "nat \<Rightarrow> nat \<Rightarrow> fsnode" where
  "leaf_chain bytes 0 = DirNode \<lparr>fm_len = 0, fm_blocks = 0, fm_modified = Some 0\<rparr>
     (Some [(''leaf.bin'', FileNode \<lparr>fm_len = bytes, fm_blocks = 32, fm_modified = Some 0\<rparr>)])"
| "leaf_chain bytes (Suc depth) = DirNode \<lparr>fm_len = 0, fm_blocks = 0, fm_modified = Some 0\<rparr>
     (Some [(''d'', leaf_chain bytes depth)])"

text \<open>For any depth the system allows; that the walk keeps its own stack is how it is defined.\<close>

definition workdir_bytes_sums_deep_chains_without_recursing :: "nat \<Rightarrow> bool" where
  "workdir_bytes_sums_deep_chains_without_recursing depth \<longleftrightarrow> workdir_bytes (leaf_chain 12345 depth) = 12345"

lemma sha_mismatch_test_passes:
  assumes "digest [110, 111, 116] \<noteq> digest runner_tarball"
  shows "sha_mismatch_downloads_are_rejected_and_not_cached digest"
proof -
  have "hex_lower (digest runner_tarball) \<noteq> hex_lower (digest [110, 111, 116])"
    using assms hex_lower_inj by metis
  then show ?thesis
    using tmp_name_neq [of "hex_lower (digest [110, 111, 116])"]
    by (simp add: sha_mismatch_downloads_are_rejected_and_not_cached_def ensure_artifact_def payload_env_def
        has_file_def download_to_file_hashed_def download_to_file_hashed_capped_def over_length_def
        ARTIFACT_MAX_BYTES_def runner_tarball_def remove_if_def Let_def)
qed

lemma sha_match_test_passes: "sha_match_downloads_are_cached digest"
  by (simp add: sha_match_downloads_are_cached_def ensure_artifact_def payload_env_def has_file_def
      download_to_file_hashed_def download_to_file_hashed_capped_def over_length_def ARTIFACT_MAX_BYTES_def
      runner_tarball_def extract_tar_capped_def ARTIFACT_MAX_EXTRACTED_BYTES_def install_artifact_def
      tar_file_def Let_def)

lemma leaf_chain_bytes: "tree_sum file_len (leaf_chain bytes depth) = bytes" "is_dir_node (leaf_chain bytes depth)"
  by (induction depth) (simp_all add: tree_sum.simps [of file_len "DirNode m kids" for m kids]
      tree_sum.simps [of file_len "FileNode m" for m])

lemma deep_chain_test_passes: "workdir_bytes_sums_deep_chains_without_recursing depth"
  unfolding workdir_bytes_sums_deep_chains_without_recursing_def workdir_bytes_def
  by (subst workdir_walk_sum) (simp_all add: leaf_chain_bytes)

end
