(* ===== verification/Tests_Tui.thy ===== *)
theory Tests_Tui
  imports Tui
begin

text \<open>
  The unit tests of \<open>bins/decent/src/tui.rs\<close> run on the model: one definition per test with its
  assertions, and a lemma that it passes. The tests of the whole screen look for texts in the cells
  \<open>ratatui\<close> draws; here they ask the panels the screen is made of. The level of a line is its letters
  in upper case, as \<open>Debug\<close> shows it.
\<close>

definition test_line :: "string \<Rightarrow> log_line" where "test_line msg = log_line_new 0 LogInfo msg"

definition push_log_caps_the_ring_at_log_ring_and_drops_the_oldest :: bool where
  "push_log_caps_the_ring_at_log_ring_and_drops_the_oldest \<longleftrightarrow>
     (let logs = foldl push_log [] (map (\<lambda>i. test_line (''line '' @ show_nat i)) [0..<LOG_RING + 3])
      in length logs = LOG_RING \<and> ll_message (hd logs) = ''line 3''
         \<and> ll_message (last logs) = ''line '' @ show_nat (LOG_RING + 2))"

definition tail_start_pins_the_newest_lines :: bool where
  "tail_start_pins_the_newest_lines \<longleftrightarrow>
     tail_start 10 4 = 6 \<and> tail_start 3 10 = 0 \<and> tail_start 0 0 = 0 \<and> tail_start 7 7 = 0"

definition fmt_time_wraps_at_24h_utc :: bool where
  "fmt_time_wraps_at_24h_utc \<longleftrightarrow>
     fmt_time 0 = ''00:00:00'' \<and> fmt_time 86399000 = ''23:59:59'' \<and> fmt_time 86400000 = ''00:00:00''
     \<and> fmt_time 3661500 = ''01:01:01''"

definition phase_text_and_level_tag_cover_every_variant :: bool where
  "phase_text_and_level_tag_cover_every_variant \<longleftrightarrow>
     map phase_text [Downloading, Rendering, Uploading, Done, Failed, Canceled]
       = [''downloading'', ''rendering'', ''uploading'', ''done'', ''failed'', ''canceled'']
     \<and> map (\<lambda>l. trim (fst (level_tag l))) [LogError, LogWarn, LogInfo, LogDebug]
       = [''ERROR'', ''WARN'', ''INFO'', ''DEBUG'']"

definition registered_idle :: supervisor_status where
  "registered_idle = default_status\<lparr>ss_connection := Registered,
     ss_dispatch_url := Some ''wss://decent-render-dispatch.fly.dev/ws'', ss_allow_real_jobs := True\<rparr>"

definition update_text_matches_decent_status :: bool where
  "update_text_matches_decent_status \<longleftrightarrow>
     fst (snd (draw_footer registered_idle)) = UpToDate
     \<and> fst (snd (draw_footer (registered_idle\<lparr>ss_connection := Disconnected\<rparr>))) = UpNotRegistered
     \<and> fst (snd (draw_footer (registered_idle\<lparr>ss_update_available := Some ''0.0.10''\<rparr>))) = UpAvailable ''0.0.10''"

definition whole_screen_renders_idle_registered_with_logs :: bool where
  "whole_screen_renders_idle_registered_with_logs \<longleftrightarrow>
     (let logs = push_log (push_log [] (test_line ''payload cached'')) (test_line ''registered with dispatch'')
      in (''connection'', ''Registered'', Green) \<in> set (fst (status_panel ''-'' registered_idle))
         \<and> draw_job_panel None registered_idle = None
         \<and> map (snd \<circ> snd) (draw_logs 10 logs) = [''payload cached'', ''registered with dispatch''])"

definition whole_screen_renders_a_job_mid_render :: bool where
  "whole_screen_renders_a_job_mid_render \<longleftrightarrow>
     (case draw_job_panel None (registered_idle\<lparr>ss_current_job := Some \<lparr>js_id = ''job_abc123'',
             js_tier = ''community'', js_progress = 42 / 100, js_phase = Rendering\<rparr>\<rparr>) of
        None \<Rightarrow> False
      | Some p \<Rightarrow> fst (jp_phase p) = ''rendering'' \<and> jp_percent p = 42 \<and> jp_id p = ''job_abc123'')"

lemma shown:
  "show_nat 0 = ''0''" "show_nat (Suc 0) = ''1''" "show_nat 3 = ''3''" "show_nat 23 = ''23''" "show_nat 59 = ''59''"
  by code_simp+

lemma ring_test_passes: "push_log_caps_the_ring_at_log_ring_and_drops_the_oldest"
proof -
  let ?ls = "map (\<lambda>i. test_line (''line '' @ show_nat i)) [0..<LOG_RING + 3]"
  have f: "foldl push_log [] ?ls = map (\<lambda>i. test_line (''line '' @ show_nat i)) [3..<LOG_RING + 3]"
    using push_all [of "[]" ?ls] by (simp add: newest_def drop_map)
  have pos: "0 < LOG_RING" by (simp add: LOG_RING_def)
  then have h: "[3..<LOG_RING + 3] = 3 # [4..<LOG_RING + 3]" by (simp add: upt_conv_Cons)
  have l: "[3..<LOG_RING + 3] = [3..<LOG_RING + 2] @ [LOG_RING + 2]"
    using upt_Suc_append [of 3 "LOG_RING + 2"] pos by (simp add: numeral_eq_Suc)
  have "ll_message (hd (map (\<lambda>i. test_line (''line '' @ show_nat i)) [3..<LOG_RING + 3])) = ''line 3''"
    unfolding h by (simp add: test_line_def log_line_new_def shown)
  moreover have "ll_message (last (map (\<lambda>i. test_line (''line '' @ show_nat i)) [3..<LOG_RING + 3]))
      = ''line '' @ show_nat (LOG_RING + 2)"
    unfolding l by (simp add: test_line_def log_line_new_def)
  ultimately show ?thesis
    unfolding push_log_caps_the_ring_at_log_ring_and_drops_the_oldest_def Let_def f by simp
qed

lemma text_tests_pass:
  "tail_start_pins_the_newest_lines" "fmt_time_wraps_at_24h_utc" "phase_text_and_level_tag_cover_every_variant"
  by (simp_all add: tail_start_pins_the_newest_lines_def tail_start_def fmt_time_wraps_at_24h_utc_def
      fmt_time_def pad2_def shown Let_def phase_text_and_level_tag_cover_every_variant_def trim_def is_ws_def)

lemma screen_tests_pass:
  "update_text_matches_decent_status" "whole_screen_renders_idle_registered_with_logs"
  "whole_screen_renders_a_job_mid_render"
  by (simp_all add: update_text_matches_decent_status_def draw_footer_def update_line_def registered_idle_def
      default_status_def whole_screen_renders_idle_registered_with_logs_def status_panel_def draw_job_panel_def
      draw_logs_def push_log_def LOG_RING_def tail_start_def test_line_def log_line_new_def
      whole_screen_renders_a_job_mid_render_def Let_def)

end
