(* ===== verification/Spec2Isabelle.thy ===== *)
theory Spec2Isabelle
  imports Session_Runs Lease_Process Node_Disk Node_Workdirs Browser_Wrapper Service_Loop Cli_Facts Tui App
    Tests_Protocol Tests_Disk Tests_Cli Tests_Credentials Tests_Node Tests_Service Tests_Connection
    Tests_Session Tests_Fetch Tests_Runner Tests_Tui
begin

text \<open>
  A verification development of the decent-render supervisor core
  (\<open>crates/supervisor-core/src\<close>): the process on a render node that connects to the dispatch
  server, runs at most one render job at a time in a child process, and keeps the customer's files
  off the machine afterwards.

  Parts.
  \<^item> \<open>Dr_Base\<close>: string, number and list functions of the standard library the code uses, and the
    contract \<open>machine_invariant\<close> of a step function that runs until it exits.
  \<^item> \<open>Protocol\<close> (\<open>protocol.rs\<close>): every frame of the wire, written to and read from a JSON value.
  \<^item> \<open>Status\<close> (\<open>status.rs\<close>), \<open>Job\<close>, \<open>Gate\<close>, \<open>Backoff\<close> (parts of \<open>connection.rs\<close> and \<open>runner.rs\<close>): the
    data a session works on.
  \<^item> \<open>Session\<close> (\<open>run_session\<close> in \<open>connection.rs\<close>): the event loop as a step function \<open>session_turn\<close>
    on a record of the loop's variables. A turn says what is ready when \<open>select!\<close> looks (shutdown,
    ticks, messages of the job tasks, a socket item) and what the operations it performs answer;
    the biased order of the arms is that of the code. A ghost trace records sends, spawns, cancels,
    joins, released handles and cache sweeps.
  \<^item> \<open>Session_Own\<close>, \<open>Session_Acks\<close>, \<open>Session_Discipline\<close>, \<open>Session_Cache\<close>, \<open>Session_Runs\<close>: what holds of
    every run of that machine, each an interpretation of \<open>machine_invariant\<close>; the last also shows
    concrete runs on which the code falls short of its comments.
  \<^item> \<open>Reconnect\<close> (\<open>run_session\<close> before registration, \<open>run_until_exit\<close>): connect retries, the flush
    of queued acknowledgements, the loop over sessions.
  \<^item> \<open>Purge\<close>, \<open>Fs\<close>, \<open>Sweep\<close>, \<open>Cache\<close> (\<open>purge.rs\<close>, \<open>sweep.rs\<close>, \<open>cache.rs\<close>): the disk: working
    directories and their removal, the stale sweep, the artifact cache.
  \<^item> \<open>Artifact_Fetch\<close>, \<open>Processes\<close>, \<open>Runner\<close> (\<open>artifact_fetch.rs\<close>, \<open>runner.rs\<close>): one job: the download
    of its artifacts, the environment and signals of its processes, its event loop and every one of
    its error returns.
  \<^item> \<open>Job_Artifacts\<close>, \<open>Browser_Wrapper\<close> (\<open>runner.rs\<close>): the payload and the browser of a job on the two
    caches, which stay content addressed, so that a job runs only verified artifacts; the wrapper
    script that records a browser, composed with the sweep that kills it.
  \<^item> \<open>Node_Disk\<close>, \<open>Node_Workdirs\<close>: the disk over time. The first is the machine whose steps are jobs, cache
    sweeps and removals cut short, from an empty disk on: what a node runs is what was published. The
    second is a machine with any number of supervisors that start, take and end jobs, sweep and are
    killed: a running job keeps its directory to itself, and a sweep accounts for what is left.
  \<^item> \<open>Lease\<close>, \<open>Lease_Session\<close>, \<open>Lease_Refine\<close>, \<open>Lease_Process\<close>: the abstract specification of a lease, one
    job at one attempt, as an automaton over the frames that name it; the session machine simulates
    it for tasks that run jobs (the locale \<open>job_tasks\<close>, which \<open>run_job\<close> provides), and the reconnect
    loop over all sessions refines it.

  \<^item> \<open>Base64\<close>, \<open>Credentials\<close> (\<open>worker_token.rs\<close>, \<open>dispatch_url.rs\<close>, \<open>capabilities.rs\<close>, the token file
    and the register frame of \<open>bins/decent/src/main.rs\<close>): what a node says it is and where it may say it.
  \<^item> \<open>Versions\<close>, \<open>Upgrade\<close>, \<open>Session_Gate\<close> (\<open>auto_upgrade.rs\<close>, \<open>main.rs\<close>): the unattended upgrade, its
    durable attempt record, and the quiet stretch a session waits for before it hands over.
  \<^item> \<open>Keepawake\<close>, \<open>Snapshot\<close> (\<open>keepawake.rs\<close>, \<open>main.rs\<close>): the idle-sleep guard as a step relation; the
    status text the daemon writes and the other commands read.
  \<^item> \<open>Service_Unit\<close>, \<open>Service_Host\<close>, \<open>Service_Linux\<close>, \<open>Service_Mac\<close> (\<open>service.rs\<close>): the generated unit and
    property list; the operations of both platforms on a host, each a refinement of the three-state
    daemon \<open>daemon_step\<close>.
  \<^item> \<open>Doctor\<close> (\<open>main.rs\<close>): the checks of \<open>decent doctor\<close> over all of these.
  \<^item> \<open>Service_Loop\<close> (\<open>decent start\<close> in \<open>main.rs\<close>): one turn is a run of \<open>Reconnect\<close> up to its exit and the
    upgrade of \<open>Upgrade\<close> it may hand over to; attempts at one version are a day apart.
  \<^item> \<open>Packager\<close> (\<open>main.rs\<close>): the package manager as a bounded subprocess, and what an upgrade claims.
  \<^item> \<open>Cli\<close>, \<open>Cli_Facts\<close> (\<open>main.rs\<close>): the other commands on the token file, the configuration directory
    and the host of \<open>Service_Host\<close>, and what their printed lines rest on.
  \<^item> \<open>Tui\<close> (\<open>tui.rs\<close>): the dashboard: its ring of log lines, its loop, the text of its panels.
  \<^item> \<open>App\<close>, \<open>Probe\<close> (\<open>apps/decent-app/src-tauri/src/main.rs\<close>, \<open>main.rs\<close>): the desktop shell over the same
    core as a step relation, and the hardware both report.
  \<^item> \<open>Tests_Protocol\<close>, \<open>Tests_Disk\<close>, \<open>Tests_Cli\<close>, \<open>Tests_Credentials\<close>, \<open>Tests_Node\<close>, \<open>Tests_Service\<close>,
    \<open>Tests_Connection\<close>, \<open>Tests_Session\<close>, \<open>Tests_Fetch\<close>, \<open>Tests_Runner\<close>, \<open>Tests_Tui\<close>: the unit tests of
    the repository, run on the model: one definition per Rust test, under the name of the test, with its
    assertions, and a lemma that it passes; among them the fixtures \<open>packages/protocol/fixtures\<close> that the
    TypeScript side asserts as well. They tie the model to the behaviour its authors pinned down.
    What a test does with real sockets, processes and directories is what the model takes as an argument.

  Time is a count of nanoseconds; \<open>u32\<close> and \<open>u64\<close> fields that are computed with are words. What the
  outside answers (the network, the file system, other processes, SHA-256, tar, \<open>Url::parse\<close>) is an
  argument of the definition that asks. Loops that wait (a session, the dashboard, the package
  manager, a log being followed) consume a list of what they will see; a run whose list ends first
  is a value of its own, and a property that the code returns says how long a list is enough.

  Not modelled. The wording of printed and logged lines (a line is a constructor with its values),
  the parsing of the command line by clap, the layout and the terminal mode of the dashboard, the
  web view of the desktop shell and the tasks that forward events to it, the text form of JSON and
  of floating point numbers: pure output, generated code, or libraries the source only calls. A job,
  a cache sweep and a sweep of the working directories are single steps where they meet on the disk.
\<close>

end
